(* ===== verification/Py_Json.thy ===== *)
theory Py_Json
  imports Atman_Prelude
begin

text \<open>
  The JSON values the store keeps in its TEXT columns (\<open>json.dumps\<close> on write,
  \<open>json.loads\<close> on read) and Python's view of them: truth value, \<open>isinstance\<close>
  tests, and key lookup. An object is the list of its members; the first member of a
  key counts, as in a \<open>dict\<close> each key occurs once.
\<close>

datatype json =
    JNull
  | JBool bool
  | JInt int
  | JStr string
  | JArr "json list"
  | JObj "(string \<times> json) list"

text \<open>Python's truth value of a loaded JSON value.\<close>

fun truthy :: "json \<Rightarrow> bool" where
  "truthy JNull = False"
| "truthy (JBool b) = b"
| "truthy (JInt i) = (i \<noteq> 0)"
| "truthy (JStr s) = (s \<noteq> [])"
| "truthy (JArr xs) = (xs \<noteq> [])"
| "truthy (JObj kvs) = (kvs \<noteq> [])"

fun is_dict :: "json \<Rightarrow> bool" where
  "is_dict (JObj _) = True"
| "is_dict _ = False"

fun is_str :: "json \<Rightarrow> bool" where
  "is_str (JStr _) = True"
| "is_str _ = False"

fun has_key :: "json \<Rightarrow> string \<Rightarrow> bool" where
  "has_key (JObj kvs) k = (map_of kvs k \<noteq> None)"
| "has_key _ k = False"

text \<open>\<open>x or y\<close>.\<close>

definition py_or :: "json \<Rightarrow> json \<Rightarrow> json" where
  "py_or x y = (if truthy x then x else y)"

text \<open>An optional column as JSON: SQL NULL and JSON null are both Python's \<open>None\<close>.\<close>

definition jopt :: "string option \<Rightarrow> json" where
  "jopt o' = (case o' of None \<Rightarrow> JNull | Some s \<Rightarrow> JStr s)"

lemma jopt_simps [simp]: "jopt None = JNull" "jopt (Some s) = JStr s"
  by (simp_all add: jopt_def)

lemma truthy_jopt [simp]: "truthy (jopt o') \<longleftrightarrow> truthy_str o'"
  by (cases o') auto

text \<open>
  \<open>json.dumps(value, sort_keys=True)\<close> up to the concrete syntax: members in key
  order at every level, so two dictionaries with the same members have the same text.
\<close>

fun canon :: "json \<Rightarrow> json" where
  "canon (JArr xs) = JArr (map canon xs)"
| "canon (JObj kvs) = JObj (sort_key fst (map (\<lambda>kv. (fst kv, canon (snd kv))) kvs))"
| "canon v = v"

definition jstrs :: "string list \<Rightarrow> json" where
  "jstrs xs = JArr (map JStr xs)"

end
