(* ===== verification/Atman_Errors.thy ===== *)
theory Atman_Errors
  imports Py_Json
begin

text \<open>
  The exceptions of \<open>storage/errors.py\<close> and the two that the master lease raises from
  \<open>server/errors.py\<close>: one constructor per class, with the arguments its \<open>__init__\<close>
  takes (\<open>MalformedRequest\<close>, \<open>NotFound\<close> and \<open>InvalidReviewEvidence\<close> take a message
  and the details themselves). \<open>err_code\<close> and \<open>err_status\<close> are the class
  attributes, \<open>err_message\<close> and \<open>err_details\<close> what the constructor stores,
  \<open>to_error_response\<close> the wire shape. The last five constructors are exceptions
  of SQLite and Python themselves (a failed constraint, a method called on a value
  of the wrong type, a missing key, a \<open>ValueError\<close>, a value SQLite cannot bind); they have no contract code and
  the server answers them with its generic failure.
\<close>

type_synonym details = "(string \<times> json) list"

datatype error =
    MalformedRequest string details
  | NotFound string details
  | ForbiddenScope string "string option"
  | NotChannelMember string "string option"
  | MembershipRevoked string
  | SenderIdentityRejected
  | TicketVersionConflict string int int
  | TicketAlreadyClaimed string "string option"
  | CapacityExhausted string int int
  | SessionLeaseExpired string details
  | RunAlreadyActive string "string option" "int option"
  | RequestIdReused string
  | LegacyWriterActive string "string option"
  | InvalidStateTransition string string string
  | DependencyCycle "string list"
  | DependencyUnmet string "string list"
  | MissingAcceptanceCriteria string
  | InvalidReviewEvidence string details
  | AcceptanceNotEditable string string
  | MasterLeaseConflict int int
  | MasterLeaseExpired int int
  | IntegrityError
  | AttributeError
  | KeyError
  | ValueError
  | InterfaceError

fun err_code :: "error \<Rightarrow> string option" where
  "err_code (MalformedRequest _ _) = Some ''malformed_request''"
| "err_code (NotFound _ _) = Some ''not_found''"
| "err_code (ForbiddenScope _ _) = Some ''forbidden_scope''"
| "err_code (NotChannelMember _ _) = Some ''not_channel_member''"
| "err_code (MembershipRevoked _) = Some ''membership_revoked''"
| "err_code SenderIdentityRejected = Some ''sender_identity_rejected''"
| "err_code (TicketVersionConflict _ _ _) = Some ''ticket_version_conflict''"
| "err_code (TicketAlreadyClaimed _ _) = Some ''ticket_already_claimed''"
| "err_code (CapacityExhausted _ _ _) = Some ''capacity_exhausted''"
| "err_code (SessionLeaseExpired _ _) = Some ''session_lease_expired''"
| "err_code (RunAlreadyActive _ _ _) = Some ''run_already_active''"
| "err_code (RequestIdReused _) = Some ''request_id_reused''"
| "err_code (LegacyWriterActive _ _) = Some ''legacy_writer_active''"
| "err_code (InvalidStateTransition _ _ _) = Some ''invalid_state_transition''"
| "err_code (DependencyCycle _) = Some ''dependency_cycle''"
| "err_code (DependencyUnmet _ _) = Some ''dependency_unmet''"
| "err_code (MissingAcceptanceCriteria _) = Some ''missing_acceptance_criteria''"
| "err_code (InvalidReviewEvidence _ _) = Some ''invalid_review_evidence''"
| "err_code (AcceptanceNotEditable _ _) = Some ''acceptance_not_editable''"
| "err_code (MasterLeaseConflict _ _) = Some ''master_lease_conflict''"
| "err_code (MasterLeaseExpired _ _) = Some ''master_lease_expired''"
| "err_code _ = None"

fun err_status :: "error \<Rightarrow> nat" where
  "err_status (MalformedRequest _ _) = 400"
| "err_status (NotFound _ _) = 404"
| "err_status (ForbiddenScope _ _) = 403"
| "err_status (NotChannelMember _ _) = 403"
| "err_status (MembershipRevoked _) = 403"
| "err_status SenderIdentityRejected = 403"
| "err_status (TicketVersionConflict _ _ _) = 409"
| "err_status (TicketAlreadyClaimed _ _) = 409"
| "err_status (CapacityExhausted _ _ _) = 409"
| "err_status (SessionLeaseExpired _ _) = 409"
| "err_status (RunAlreadyActive _ _ _) = 409"
| "err_status (RequestIdReused _) = 409"
| "err_status (LegacyWriterActive _ _) = 409"
| "err_status (InvalidStateTransition _ _ _) = 422"
| "err_status (DependencyCycle _) = 422"
| "err_status (DependencyUnmet _ _) = 422"
| "err_status (MissingAcceptanceCriteria _) = 422"
| "err_status (InvalidReviewEvidence _ _) = 422"
| "err_status (AcceptanceNotEditable _ _) = 409"
| "err_status (MasterLeaseConflict _ _) = 409"
| "err_status (MasterLeaseExpired _ _) = 409"
| "err_status _ = 500"

fun err_details :: "error \<Rightarrow> details" where
  "err_details (MalformedRequest _ d) = d"
| "err_details (NotFound _ d) = d"
| "err_details (ForbiddenScope p s) =
     (''project_id'', JStr p) # (case s of None \<Rightarrow> [] | Some i \<Rightarrow> [(''subject_id'', JStr i)])"
| "err_details (NotChannelMember c m) = [(''channel_id'', JStr c), (''member_id'', jopt m)]"
| "err_details (MembershipRevoked m) = [(''member_id'', JStr m)]"
| "err_details SenderIdentityRejected = []"
| "err_details (TicketVersionConflict t e a) =
     [(''ticket_id'', JStr t), (''expected_version'', JInt e), (''actual_version'', JInt a)]"
| "err_details (TicketAlreadyClaimed t ow) = [(''ticket_id'', JStr t), (''owner'', jopt ow)]"
| "err_details (CapacityExhausted a n m) =
     [(''agent_id'', JStr a), (''active_tickets'', JInt n), (''max_active_tickets'', JInt m)]"
| "err_details (SessionLeaseExpired s d) = (''session_id'', JStr s) # d"
| "err_details (RunAlreadyActive a r e) =
     (''agent_id'', JStr a) # (case r of None \<Rightarrow> [] | Some i \<Rightarrow> [(''runner_id'', JStr i)])
       @ (case e of None \<Rightarrow> [] | Some n \<Rightarrow> [(''epoch'', JInt n)])"
| "err_details (RequestIdReused r) = [(''request_id'', JStr r)]"
| "err_details (LegacyWriterActive p ow) = [(''path'', JStr p), (''owner'', jopt ow)]"
| "err_details (InvalidStateTransition t f g) =
     [(''ticket_id'', JStr t), (''from'', JStr f), (''to'', JStr g)]"
| "err_details (DependencyCycle c) = [(''cycle'', jstrs c)]"
| "err_details (DependencyUnmet t u) = [(''ticket_id'', JStr t), (''unmet'', jstrs u)]"
| "err_details (MissingAcceptanceCriteria t) = [(''ticket_id'', JStr t)]"
| "err_details (InvalidReviewEvidence _ d) = d"
| "err_details (AcceptanceNotEditable t s) = [(''ticket_id'', JStr t), (''state'', JStr s)]"
| "err_details (MasterLeaseConflict e a) = [(''expected_epoch'', JInt e), (''actual_epoch'', JInt a)]"
| "err_details (MasterLeaseExpired s c) = [(''sent_epoch'', JInt s), (''current_epoch'', JInt c)]"
| "err_details _ = []"

fun err_message :: "error \<Rightarrow> string" where
  "err_message (MalformedRequest m _) = m"
| "err_message (NotFound m _) = m"
| "err_message (ForbiddenScope _ _) = ''Credential is not authorized for this project.''"
| "err_message (NotChannelMember _ _) = ''Member cannot read that channel.''"
| "err_message (MembershipRevoked _) = ''That membership has been revoked.''"
| "err_message SenderIdentityRejected = ''Message author must come from the credential.''"
| "err_message (TicketVersionConflict _ _ _) =
     ''Ticket was modified by someone else; re-read and retry.''"
| "err_message (TicketAlreadyClaimed _ _) = ''Ticket is already claimed.''"
| "err_message (CapacityExhausted _ _ _) = ''Agent is at its active-ticket capacity.''"
| "err_message (SessionLeaseExpired _ _) = ''Session lease is expired or revoked.''"
| "err_message (RunAlreadyActive _ _ _) = ''A runner is already active for that agent.''"
| "err_message (RequestIdReused _) = ''This request_id was already used with a different body.''"
| "err_message (LegacyWriterActive _ _) =
     ''This board is owned by the server; direct legacy writes are refused.''"
| "err_message (InvalidStateTransition _ _ _) = ''That ticket state transition is not allowed.''"
| "err_message (DependencyCycle _) = ''Those dependencies would form a cycle.''"
| "err_message (DependencyUnmet _ _) = ''Ticket has dependencies that are not done.''"
| "err_message (MissingAcceptanceCriteria _) =
     ''Ticket needs acceptance criteria before it can go to review.''"
| "err_message (InvalidReviewEvidence m _) = m"
| "err_message (AcceptanceNotEditable _ s) =
     ''A ticket'' @ [CHR 0x27] @ ''s acceptance criteria cannot be changed in state '' @ [CHR 0x27] @ s @ [CHR 0x27] @ ''.''"
| "err_message (MasterLeaseConflict _ a) =
     ''Another master already took the lease at epoch '' @ dec_int a @ ''.''"
| "err_message (MasterLeaseExpired s _) =
     ''Your master lease was superseded. Routing mutations at epoch '' @ dec_int s
       @ '' are rejected.''"
| "err_message _ = []"

text \<open>\<open>BoardError.to_error_response\<close>; \<open>None\<close> for what is not a \<open>BoardError\<close>.\<close>

definition to_error_response :: "error \<Rightarrow> string option \<Rightarrow> json option" where
  "to_error_response e request_id =
     (case err_code e of
        None \<Rightarrow> None
      | Some code \<Rightarrow>
          Some (JObj [(''error'', JObj
            ([(''code'', JStr code), (''status'', JInt (int (err_status e))),
              (''message'', JStr (err_message e))]
             @ (case request_id of None \<Rightarrow> [] | Some r \<Rightarrow> [(''request_id'', JStr r)])
             @ (if err_details e = [] then [] else [(''details'', JObj (err_details e))])))]))"

lemma err_status_range: "err_code e \<noteq> None \<Longrightarrow> err_status e \<in> {400, 403, 404, 409, 422}"
  by (cases e) auto

section \<open>Python's view of a JSON value\<close>

text \<open>\<open>value.get(key)\<close>: \<open>None\<close> for a missing key, an exception on a value without \<open>get\<close>.\<close>

fun py_get :: "json \<Rightarrow> string \<Rightarrow> error + json" where
  "py_get (JObj kvs) k = Inr (case map_of kvs k of None \<Rightarrow> JNull | Some v \<Rightarrow> v)"
| "py_get _ k = Inl AttributeError"

text \<open>\<open>value.get(key, default)\<close>: an explicit null is returned as it is.\<close>

fun py_get_default :: "json \<Rightarrow> string \<Rightarrow> json \<Rightarrow> error + json" where
  "py_get_default (JObj kvs) k d = Inr (case map_of kvs k of None \<Rightarrow> d | Some v \<Rightarrow> v)"
| "py_get_default _ k d = Inl AttributeError"

text \<open>\<open>value[key]\<close>.\<close>

fun py_index :: "json \<Rightarrow> string \<Rightarrow> error + json" where
  "py_index (JObj kvs) k = (case map_of kvs k of None \<Rightarrow> Inl KeyError | Some v \<Rightarrow> Inr v)"
| "py_index _ k = Inl AttributeError"

text \<open>\<open>value[key] = x\<close>: an existing member keeps its place, a new one goes last.\<close>

fun py_set :: "string \<Rightarrow> json \<Rightarrow> json \<Rightarrow> json" where
  "py_set k x (JObj kvs) =
     (if k \<in> fst ` set kvs then JObj (map (\<lambda>(k', v). (k', if k' = k then x else v)) kvs)
      else JObj (kvs @ [(k, x)]))"
| "py_set k x v = v"

text \<open>
  \<open>(value or "")\<close> where a string method is called on the result: any truthy value
  that is not a string has no such method.
\<close>

definition py_text :: "json \<Rightarrow> error + string" where
  "py_text v = (if \<not> truthy v then Inr [] else case v of JStr s \<Rightarrow> Inr s | _ \<Rightarrow> Inl AttributeError)"

lemma py_text_simps [simp]:
  "py_text JNull = Inr []" "py_text (JStr s) = Inr s"
  by (cases s) (simp_all add: py_text_def)

text \<open>\<open>for x in (value or [])\<close>: a string or an object can be iterated too.\<close>

definition py_items :: "json \<Rightarrow> error + json list" where
  "py_items v =
     (if \<not> truthy v then Inr []
      else case v of
             JArr xs \<Rightarrow> Inr xs
           | JStr s \<Rightarrow> Inr (map (\<lambda>c. JStr [c]) s)
           | JObj kvs \<Rightarrow> Inr (map (\<lambda>(k, _). JStr k) kvs)
           | _ \<Rightarrow> Inl AttributeError)"

lemma py_items_simps [simp]: "py_items JNull = Inr []" "py_items (JArr xs) = Inr xs"
  by (cases xs) (simp_all add: py_items_def)

text \<open>\<open>(value.get(key) or "")\<close> where a string is expected.\<close>

definition py_get_text :: "json \<Rightarrow> string \<Rightarrow> error + string" where
  "py_get_text v k = bindE (py_get v k) py_text"

lemma map_of_map_snd_if:
  "map_of (map (\<lambda>(k', v). (k', if k' = k then x else v)) kvs) j =
     (if j = k then map_option (\<lambda>_. x) (map_of kvs j) else map_of kvs j)"
  by (induction kvs) auto

lemma py_get_set:
  assumes "is_dict v"
  shows "py_get (py_set k x v) j = (if j = k then Inr x else py_get v j)"
proof -
  obtain kvs where v: "v = JObj kvs" using assms by (cases v) auto
  show ?thesis
  proof (cases "k \<in> fst ` set kvs")
    case True
    then obtain y where "map_of kvs k = Some y" by (metis map_of_eq_None_iff option.exhaust)
    then show ?thesis using True v by (simp add: map_of_map_snd_if)
  next
    case False
    then have "map_of kvs k = None" by (simp add: map_of_eq_None_iff)
    then show ?thesis using False v by (simp add: map_add_def split: option.splits)
  qed
qed

lemma is_dict_py_set [simp]: "is_dict (py_set k x v) = is_dict v"
  by (cases v) auto

lemma py_get_Inr: "is_dict v \<longleftrightarrow> (\<exists>x. py_get v k = Inr x)"
  by (cases v) auto

end
