(* ===== verification/Atman_Ids.thy ===== *)
theory Atman_Ids
  imports Atman_Errors
begin

text \<open>
  \<open>storage/ids.py\<close>: identifier minting, the two identifier patterns the store
  checks, and the clock. The random suffixes (\<open>secrets.choice\<close>) and the clock are
  inputs of every operation, in the record \<open>env\<close>: \<open>clock\<close> is the reading of
  \<open>ids.now()\<close> in this operation and \<open>rnd k\<close> the k-th suffix it draws. Timestamps
  are RFC 3339 UTC strings of second precision and fixed width, so comparing them
  as strings, as the SQL and the Python both do, is comparing the instants; a \<open>stamp\<close>
  is the instant in seconds. \<open>sha256\<close> is the digest of the request log, of the
  pair (operation, canonical body) that \<open>_body_hash\<close> feeds to \<open>hashlib\<close>.
\<close>

type_synonym stamp = int

definition mint :: "string \<Rightarrow> string \<Rightarrow> string" where
  "mint prefix suffix = prefix @ ''_'' @ suffix"

text \<open>\<open>str.format\<close> with \<open>{:012d}\<close> for a non-negative number.\<close>

definition zero_pad :: "nat \<Rightarrow> string \<Rightarrow> string" where
  "zero_pad w s = replicate (w - length s) CHR ''0'' @ s"

definition event_id :: "int \<Rightarrow> string \<Rightarrow> string" where
  "event_id sq suffix = ''evt_'' @ zero_pad 12 (dec (nat sq)) @ ''_'' @ suffix"

text \<open>
  \<open>re.match\<close> with a pattern that ends in \<open>$\<close>: the subject may carry one newline
  after the matched text.
\<close>

definition drop_final_newline :: "string \<Rightarrow> string" where
  "drop_final_newline s = (if s \<noteq> [] \<and> last s = CHR 0x0A then butlast s else s)"

definition ticket_id_ok :: "string \<Rightarrow> bool" where
  "ticket_id_ok s =
     (let s' = drop_final_newline s; p = takeWhile (\<lambda>c. c \<noteq> CHR ''-'') s';
          d = drop (length p) s'
      in 2 \<le> length p \<and> length p \<le> 16 \<and> is_upper (hd p)
         \<and> list_all (\<lambda>c. is_upper c \<or> is_digit c) (tl p)
         \<and> 2 \<le> length d \<and> length d \<le> 7 \<and> list_all is_digit (tl d))"

definition request_id_ok :: "string \<Rightarrow> bool" where
  "request_id_ok s =
     (let ps = py_split CHR ''-'' (drop_final_newline s)
      in map length ps = [8, 4, 4, 4, 12] \<and> list_all (list_all is_hex) ps)"

section \<open>Stream ids sort as their sequence numbers\<close>

text \<open>The fixed-width decimal of \<open>n\<close>, most significant digit first.\<close>

fun fixed_dec :: "nat \<Rightarrow> nat \<Rightarrow> string" where
  "fixed_dec 0 n = []"
| "fixed_dec (Suc w) n = fixed_dec w (n div 10) @ [digit_char (n mod 10)]"

lemma length_fixed_dec [simp]: "length (fixed_dec w n) = w"
  by (induction w arbitrary: n) auto

lemma digit_char_0 [simp]: "digit_char 0 = CHR ''0''"
  by code_simp

lemma fixed_dec_0: "fixed_dec w 0 = replicate w CHR ''0''"
  by (induction w) (auto simp: replicate_append_same)

lemma length_dec_le: "n < 10 ^ w \<Longrightarrow> 0 < w \<Longrightarrow> length (dec n) \<le> w"
proof (induction n arbitrary: w rule: dec.induct)
  case (1 n)
  show ?case
  proof (cases "n < 10")
    case True
    then show ?thesis using 1 by (simp add: dec.simps [of n])
  next
    case False
    obtain v where v: "w = Suc v" using 1(3) by (cases w) auto
    then have w: "w = Suc v" "0 < v" using 1(2) False by (cases v; simp)+
    have "length (dec (n div 10)) \<le> v"
      using 1 False w by (auto simp: less_mult_imp_div_less mult.commute)
    then show ?thesis using False w by (simp add: dec.simps [of n])
  qed
qed

lemma zero_pad_dec: "n < 10 ^ w \<Longrightarrow> 0 < w \<Longrightarrow> zero_pad w (dec n) = fixed_dec w n"
proof (induction n arbitrary: w rule: dec.induct)
  case (1 n)
  obtain v where w: "w = Suc v" using 1(3) by (cases w) auto
  show ?case
  proof (cases "n < 10")
    case True
    then show ?thesis using w by (simp add: dec.simps [of n] zero_pad_def fixed_dec_0)
  next
    case False
    then have v: "0 < v" "n div 10 < 10 ^ v"
      using 1(2) w by (cases v; simp add: less_mult_imp_div_less mult.commute)+
    have "zero_pad v (dec (n div 10)) = fixed_dec v (n div 10)"
      using 1(1) False v by simp
    then show ?thesis using False w by (simp add: dec.simps [of n] zero_pad_def)
  qed
qed

lemma digit_char_less: "a < b \<Longrightarrow> b < 10 \<Longrightarrow> digit_char a < digit_char b"
  by (simp add: digit_char_def less_char_def)

lemma snoc_less:
  fixes a :: "'a::linorder"
  shows "length xs = length ys \<Longrightarrow> xs < ys \<or> (xs = ys \<and> a < b) \<Longrightarrow> xs @ [a] < ys @ [b]"
  by (induction xs ys rule: list_induct2) auto

lemma append_less_same_length:
  fixes xs :: "'a::linorder list"
  shows "length xs = length ys \<Longrightarrow> xs < ys \<Longrightarrow> p @ xs @ r < p @ ys @ s"
proof -
  have "length xs = length ys \<Longrightarrow> xs < ys \<Longrightarrow> xs @ r < ys @ s"
    by (induction xs ys rule: list_induct2) auto
  moreover have "u < v \<Longrightarrow> p @ u < p @ v" for u v :: "'a list"
    by (induction p) auto
  ultimately show "length xs = length ys \<Longrightarrow> xs < ys \<Longrightarrow> p @ xs @ r < p @ ys @ s" by simp
qed

lemma fixed_dec_less: "m < n \<Longrightarrow> n < 10 ^ w \<Longrightarrow> fixed_dec w m < fixed_dec w n"
proof (induction w arbitrary: m n)
  case 0
  then show ?case by simp
next
  case (Suc w)
  have le: "m div 10 \<le> n div 10" using Suc.prems by (simp add: div_le_mono)
  show ?case
  proof (cases "m div 10 = n div 10")
    case True
    then have "m mod 10 < n mod 10"
      using Suc.prems(1) by (metis div_mult_mod_eq nat_add_left_cancel_less)
    then show ?thesis using True by (auto intro!: snoc_less digit_char_less)
  next
    case False
    then have "fixed_dec w (m div 10) < fixed_dec w (n div 10)"
      using le Suc.prems(2) by (intro Suc.IH) (auto simp: less_mult_imp_div_less mult.commute)
    then show ?thesis by (auto intro!: snoc_less)
  qed
qed

lemma event_id_less:
  assumes "0 \<le> a" "a < b" "b < 10 ^ 12"
  shows "event_id a r < event_id b s"
proof -
  have lt: "nat a < nat b" "nat b < 10 ^ 12" using assms by (auto simp: nat_less_iff)
  then have "nat a < 10 ^ 12" by linarith
  then have "zero_pad 12 (dec (nat a)) = fixed_dec 12 (nat a)"
    "zero_pad 12 (dec (nat b)) = fixed_dec 12 (nat b)"
    using lt by (auto intro!: zero_pad_dec)
  moreover have "fixed_dec 12 (nat a) < fixed_dec 12 (nat b)"
    using lt by (intro fixed_dec_less)
  ultimately show ?thesis
    unfolding event_id_def by (intro append_less_same_length) auto
qed

lemma ticket_id_ok_examples:
  "ticket_id_ok ''DEMO-13''" "\<not> ticket_id_ok ''demo-13''" "\<not> ticket_id_ok ''D-13''"
  "\<not> ticket_id_ok ''DEMO-1234567''" "ticket_id_ok (''DEMO-13'' @ [CHR 0x0A])"
  by code_simp+

end
