(* ===== verification/Msg_Schema.thy ===== *)
theory Msg_Schema
  imports Atman_Ids
begin

text \<open>
  The messaging and runner tables of \<open>storage/migrations.py\<close> (\<open>runner_leases\<close> is with
  the board's own tables): one record per table, columns in the order of the DDL, and the
  record of all of them, which the database holds as one component. The lifecycles the
  code steers by are datatypes; they are finite and enumerated, so a fact about a
  transition table is checked by running through it.
\<close>

datatype member_state = Active | MRevoked

datatype delivery_state =
    Sent | DQueued | Delivered | Started | Responded | DBlocked | AwaitingApproval | Canceled | Failed

datatype wake_state = WPending | WLeased | WCompleted | WFailed | WCanceled

datatype run_state = RPending | RStarting | RRunning | RPaused | RResponded | RCanceled | RFailed

record member_row =
  me_id :: string
  me_project :: string
  me_kind :: string
  me_name :: string
  me_role :: string
  me_state :: member_state
  me_agent :: "string option"
  me_availability :: string
  me_version :: int
  me_created_at :: stamp

record invitation_row =
  iv_id :: string
  iv_project :: string
  iv_role :: string
  iv_state :: string
  iv_created_by :: "json option"
  iv_created_at :: stamp
  iv_expires_at :: stamp
  iv_accepted_by :: "string option"
  iv_version :: int

record channel_row =
  ch_id :: string
  ch_project :: string
  ch_name :: string
  ch_kind :: string
  ch_visibility :: string
  ch_topic :: "string option"
  ch_master :: "string option"
  ch_version :: int
  ch_created_at :: stamp

record channel_member_row =
  cm_project :: string
  cm_channel :: string
  cm_member :: string
  cm_subscribed :: bool
  cm_joined_at :: stamp

record message_row =
  ms_id :: string
  ms_project :: string
  ms_channel :: string
  ms_thread :: "string option"
  ms_author :: json
  ms_body :: string
  ms_intent :: string
  ms_ticket :: "string option"
  ms_mentions :: "string list"
  ms_causation :: "string option"
  ms_conversation :: "string option"
  ms_supersedes :: "string option"
  ms_version :: int
  ms_created_at :: stamp

record thread_row =
  th_id :: string
  th_project :: string
  th_channel :: string
  th_root :: string
  th_ticket :: "string option"
  th_replies :: int
  th_updated_at :: stamp

record delivery_row =
  dl_id :: string
  dl_project :: string
  dl_message :: string
  dl_agent :: string
  dl_state :: delivery_state
  dl_reason :: "string option"
  dl_detail :: "string option"
  dl_run :: "string option"
  dl_blocking :: "string option"
  dl_attempts :: int
  dl_next_attempt :: "stamp option"
  dl_created_at :: stamp
  dl_updated_at :: stamp
  dl_version :: int

record wake_row =
  wk_id :: string
  wk_project :: string
  wk_message :: string
  wk_agent :: string
  wk_delivery :: string
  wk_ticket :: "string option"
  wk_state :: wake_state
  wk_dedupe :: string
  wk_attempts :: int
  wk_lease :: "stamp option"
  wk_created_at :: stamp

record run_row =
  ru_id :: string
  ru_project :: string
  ru_agent :: string
  ru_session :: "string option"
  ru_wake :: "string option"
  ru_ticket :: "string option"
  ru_state :: run_state
  ru_reason :: "string option"
  ru_budget :: json
  ru_approval :: bool
  ru_started :: "stamp option"
  ru_ended :: "stamp option"
  ru_created_at :: stamp
  ru_version :: int

record msg_tables =
  mt_members :: "member_row list"
  mt_invitations :: "invitation_row list"
  mt_channels :: "channel_row list"
  mt_channel_members :: "channel_member_row list"
  mt_messages :: "message_row list"
  mt_threads :: "thread_row list"
  mt_deliveries :: "delivery_row list"
  mt_wakes :: "wake_row list"
  mt_runs :: "run_row list"

definition empty_msg :: msg_tables where
  "empty_msg = \<lparr>mt_members = [], mt_invitations = [], mt_channels = [], mt_channel_members = [],
     mt_messages = [], mt_threads = [], mt_deliveries = [], mt_wakes = [], mt_runs = []\<rparr>"

section \<open>Names and enumeration of the states\<close>

fun delivery_name :: "delivery_state \<Rightarrow> string" where
  "delivery_name Sent = ''sent''"
| "delivery_name DQueued = ''queued''"
| "delivery_name Delivered = ''delivered''"
| "delivery_name Started = ''started''"
| "delivery_name Responded = ''responded''"
| "delivery_name DBlocked = ''blocked''"
| "delivery_name AwaitingApproval = ''awaiting_approval''"
| "delivery_name Canceled = ''canceled''"
| "delivery_name Failed = ''failed''"

fun run_name :: "run_state \<Rightarrow> string" where
  "run_name RPending = ''pending''"
| "run_name RStarting = ''starting''"
| "run_name RRunning = ''running''"
| "run_name RPaused = ''paused''"
| "run_name RResponded = ''responded''"
| "run_name RCanceled = ''canceled''"
| "run_name RFailed = ''failed''"

instantiation delivery_state :: enum
begin

definition enum_delivery_state :: "delivery_state list" where
  "enum_delivery_state =
     [Sent, DQueued, Delivered, Started, Responded, DBlocked, AwaitingApproval, Canceled, Failed]"

definition enum_all_delivery_state :: "(delivery_state \<Rightarrow> bool) \<Rightarrow> bool" where
  "enum_all_delivery_state P = list_all P enum_class.enum"

definition enum_ex_delivery_state :: "(delivery_state \<Rightarrow> bool) \<Rightarrow> bool" where
  "enum_ex_delivery_state P = list_ex P enum_class.enum"

instance
proof
  show univ: "(UNIV :: delivery_state set) = set enum_class.enum"
    by (auto simp: enum_delivery_state_def intro: delivery_state.exhaust)
  show "distinct (enum_class.enum :: delivery_state list)"
    by (simp add: enum_delivery_state_def)
  show "enum_class.enum_all P = Ball UNIV P" "enum_class.enum_ex P = Bex UNIV P"
    for P :: "delivery_state \<Rightarrow> bool"
    by (simp_all add: univ enum_all_delivery_state_def enum_ex_delivery_state_def
        list_all_iff list_ex_iff)
qed

end

instantiation run_state :: enum
begin

definition enum_run_state :: "run_state list" where
  "enum_run_state = [RPending, RStarting, RRunning, RPaused, RResponded, RCanceled, RFailed]"

definition enum_all_run_state :: "(run_state \<Rightarrow> bool) \<Rightarrow> bool" where
  "enum_all_run_state P = list_all P enum_class.enum"

definition enum_ex_run_state :: "(run_state \<Rightarrow> bool) \<Rightarrow> bool" where
  "enum_ex_run_state P = list_ex P enum_class.enum"

instance
proof
  show univ: "(UNIV :: run_state set) = set enum_class.enum"
    by (auto simp: enum_run_state_def intro: run_state.exhaust)
  show "distinct (enum_class.enum :: run_state list)"
    by (simp add: enum_run_state_def)
  show "enum_class.enum_all P = Ball UNIV P" "enum_class.enum_ex P = Bex UNIV P"
    for P :: "run_state \<Rightarrow> bool"
    by (simp_all add: univ enum_all_run_state_def enum_ex_run_state_def list_all_iff list_ex_iff)
qed

end

text \<open>A value of an enumeration column from its name; \<open>None\<close> for any other string.\<close>

definition parse_delivery_state :: "string \<Rightarrow> delivery_state option" where
  "parse_delivery_state w = List.find (\<lambda>st. delivery_name st = w) enum_class.enum"

definition parse_run_state :: "string \<Rightarrow> run_state option" where
  "parse_run_state w = List.find (\<lambda>st. run_name st = w) enum_class.enum"

lemma parse_delivery_name [simp]: "parse_delivery_state (delivery_name st) = Some st"
  by (cases st) (simp_all add: parse_delivery_state_def enum_delivery_state_def)

lemma parse_run_name [simp]: "parse_run_state (run_name st) = Some st"
  by (cases st) (simp_all add: parse_run_state_def enum_run_state_def)

lemma parse_delivery_state_Some [result_simps]:
  "parse_delivery_state w = Some st \<longleftrightarrow> w = delivery_name st"
  by (auto simp: parse_delivery_state_def dest: find_SomeD)
    (metis parse_delivery_name parse_delivery_state_def)

lemma parse_run_state_Some [result_simps]: "parse_run_state w = Some st \<longleftrightarrow> w = run_name st"
  by (auto simp: parse_run_state_def dest: find_SomeD) (metis parse_run_name parse_run_state_def)

end
