(* ===== verification/Board_Schema.thy ===== *)
theory Board_Schema
  imports Msg_Schema
begin

text \<open>
  The tables of \<open>storage/schema.py\<close> (and \<open>agent_presets\<close>, \<open>runner_leases\<close> of
  \<open>storage/migrations.py\<close>, whose messaging tables are in \<open>Msg_Schema\<close>; \<open>master_decisions\<close> of \<open>server/schema.py\<close>): one record
  per table, columns in the order of the DDL, nullable columns as options, CHECK
  enumerations as datatypes, and the database as the record of its tables, each a
  list of rows in rowid order. The insert functions enforce the keys and the
  references the DDL declares (\<open>PRAGMA foreign_keys = ON\<close>); a violated one is
  SQLite's \<open>IntegrityError\<close>. No statement of the store deletes a parent row, so the
  ON DELETE actions never fire.
\<close>

datatype tstate = Open | Claimed | Review | Done | Blocked

datatype agent_state = Connected | Idle | Working | AwaitingInput | Offline | Revoked

datatype review_state = Requested | Accepted | Rejected

datatype asg_state = Queued | AClaimed | Expired | Withdrawn

datatype routing = Deterministic | DeterministicPlusSuggestions

record project_row =
  pr_id :: string
  pr_name :: string
  pr_version :: int
  pr_created_at :: stamp
  pr_source :: string
  pr_paused :: bool

record agent_row =
  ag_id :: string
  ag_project :: string
  ag_name :: string
  ag_role :: "string option"
  ag_capabilities :: "string list"
  ag_state :: agent_state
  ag_mode :: string
  ag_runtime :: json
  ag_max_active :: int
  ag_current_ticket :: "string option"
  ag_worktree :: "string option"
  ag_hook_health :: json
  ag_last_heartbeat_at :: "stamp option"
  ag_last_progress_at :: "stamp option"
  ag_version :: int
  ag_created_at :: stamp

record session_row =
  se_id :: string
  se_agent :: string
  se_acquired_at :: stamp
  se_expires_at :: stamp
  se_version :: int
  se_revoked_at :: "stamp option"
  se_note :: "string option"

record ticket_row =
  t_id :: string
  t_project :: string
  t_title :: string
  t_outcome :: "string option"
  t_acceptance :: "json list"
  t_state :: tstate
  t_version :: int
  t_role :: "string option"
  t_owner :: "string option"
  t_owner_session :: "string option"
  t_blocked_reason :: "string option"
  t_files :: "string list"
  t_worktree :: "string option"
  t_evidence :: "json option"
  t_next_step :: "string option"
  t_handoff :: "string option"
  t_created_at :: stamp
  t_updated_at :: stamp
  t_claimed_at :: "stamp option"
  t_last_progress_at :: "stamp option"

record dep_row =
  dp_project :: string
  dp_ticket :: string
  dp_on :: string

record update_row =
  up_id :: string
  up_project :: string
  up_ticket :: string
  up_author :: json
  up_body :: string
  up_next_step :: "string option"
  up_created_at :: stamp
  up_superseded :: bool

record review_row =
  rv_id :: string
  rv_project :: string
  rv_ticket :: string
  rv_state :: review_state
  rv_submitted_by :: json
  rv_submitted_at :: stamp
  rv_evidence :: "json option"
  rv_notes :: "string option"
  rv_decided_by :: "json option"
  rv_decided_at :: "stamp option"
  rv_decision_notes :: "string option"

record assignment_row =
  as_id :: string
  as_project :: string
  as_ticket :: string
  as_agent :: string
  as_state :: asg_state
  as_reason :: string
  as_created_at :: stamp
  as_expires_at :: stamp
  as_epoch :: int
  as_version :: int

record lease_row =
  ml_project :: string
  ml_holder :: "json option"
  ml_epoch :: int
  ml_acquired_at :: stamp
  ml_expires_at :: stamp
  ml_routing :: routing
  ml_paused :: bool
  ml_last_sweep_at :: "stamp option"
  ml_next_sweep_at :: "stamp option"
  ml_interval :: int

record decision_row =
  dc_project :: string
  dc_ticket :: string
  dc_decision :: string
  dc_reason :: string
  dc_agent :: "string option"
  dc_decided_at :: stamp

record audit_row =
  au_id :: string
  au_seq :: int
  au_event_id :: string
  au_project :: string
  au_actor :: json
  au_action :: string
  au_subject_type :: "string option"
  au_subject_id :: "string option"
  au_request_id :: "string option"
  au_occurred_at :: stamp
  au_summary :: string

record preset_row =
  ps_agent :: string
  ps_project :: string
  ps_preset :: string
  ps_policy :: string
  ps_worktree :: "string option"
  ps_profile :: string
  ps_created_at :: stamp

record runner_row =
  rl_agent :: string
  rl_project :: string
  rl_runner :: string
  rl_epoch :: int
  rl_acquired_at :: stamp
  rl_expires_at :: stamp
  rl_worktree :: string
  rl_profile :: string
  rl_policy :: string
  rl_budget :: json

text \<open>
  What the store hands back, and what the request log keeps of it: the payload
  dictionaries, as records of the row with the derived members beside it. A member
  the code drops when it is \<open>None\<close> (\<open>_omit_none\<close>) is a \<open>None\<close> column here.
\<close>

record ticket_view =
  tv_row :: ticket_row
  tv_dependencies :: "string list"
  tv_dependency_blocked :: bool

record agent_view =
  av_row :: agent_row
  av_active_tickets :: int

datatype response =
    RProject project_row
  | RAgent agent_view
  | RSession session_row
  | RTicket ticket_view
  | RUpdate update_row
  | RReview review_row
  | RAssignment assignment_row
  | RLease lease_row
  | RPreset "preset_row option"
  | RUnit
  | RMember member_row
  | RInvitation invitation_row "string option"
  | RChannel channel_row int
  | RChannelMember channel_member_row
  | RMessage message_row "delivery_row list"
  | RThread thread_row
  | RDelivery delivery_row
  | RWake wake_row
  | RWakes "wake_row list" int
  | RRun run_row
  | RRunner runner_row

record request_row =
  rq_id :: string
  rq_project :: string
  rq_operation :: string
  rq_body_hash :: string
  rq_response :: response
  rq_created_at :: stamp

record db =
  db_projects :: "project_row list"
  db_agents :: "agent_row list"
  db_sessions :: "session_row list"
  db_tickets :: "ticket_row list"
  db_deps :: "dep_row list"
  db_updates :: "update_row list"
  db_reviews :: "review_row list"
  db_assignments :: "assignment_row list"
  db_leases :: "lease_row list"
  db_decisions :: "decision_row list"
  db_audits :: "audit_row list"
  db_requests :: "request_row list"
  db_presets :: "preset_row list"
  db_runners :: "runner_row list"
  db_msg :: msg_tables

definition empty_db :: db where
  "empty_db = \<lparr>db_projects = [], db_agents = [], db_sessions = [], db_tickets = [], db_deps = [],
     db_updates = [], db_reviews = [], db_assignments = [], db_leases = [], db_decisions = [],
     db_audits = [], db_requests = [], db_presets = [], db_runners = [],
     db_msg = empty_msg\<rparr>"

text \<open>The clock, the random suffixes and the digest, as inputs of an operation.\<close>

record env =
  clock :: stamp
  rnd :: "nat \<Rightarrow> string"
  sha256 :: "string \<times> json \<Rightarrow> string"

text \<open>\<open>auth.in_seconds\<close>.\<close>

definition in_seconds :: "env \<Rightarrow> int \<Rightarrow> stamp" where
  "in_seconds e n = clock e + n"

section \<open>Transactions\<close>

text \<open>
  \<open>db.write_txn\<close>: BEGIN IMMEDIATE serialises writers, so a transaction is one step
  on the database; an exception in the body rolls back to the state it began with.
\<close>

definition write_txn :: "(db \<Rightarrow> error + db \<times> 'a) \<Rightarrow> db \<Rightarrow> (error + 'a) \<times> db" where
  "write_txn body s =
     (case body s of Inl e \<Rightarrow> (Inl e, s) | Inr (s', r) \<Rightarrow> (Inr r, s'))"

lemma write_txn_rollback: "fst (write_txn body s) = Inl e \<Longrightarrow> snd (write_txn body s) = s"
  by (auto simp: write_txn_def split: sum.splits)

section \<open>Keys and references\<close>

definition insert_row :: "('r \<Rightarrow> 'k) \<Rightarrow> 'r \<Rightarrow> 'r list \<Rightarrow> error + 'r list" where
  "insert_row key r rs = (if key r \<in> set (map key rs) then Inl IntegrityError else Inr (rs @ [r]))"

lemma insert_row_Inr [result_simps]:
  "insert_row key r rs = Inr rs' \<longleftrightarrow> key r \<notin> set (map key rs) \<and> rs' = rs @ [r]"
  by (auto simp: insert_row_def)

definition t_key :: "ticket_row \<Rightarrow> string \<times> string" where
  "t_key t = (t_project t, t_id t)"

definition dp_key :: "dep_row \<Rightarrow> string \<times> string \<times> string" where
  "dp_key d = (dp_project d, dp_ticket d, dp_on d)"

definition rq_key :: "request_row \<Rightarrow> string \<times> string" where
  "rq_key r = (rq_project r, rq_id r)"

definition project_exists :: "db \<Rightarrow> string \<Rightarrow> bool" where
  "project_exists s p = list_ex (\<lambda>r. pr_id r = p) (db_projects s)"

definition find_agent :: "db \<Rightarrow> string \<Rightarrow> agent_row option" where
  "find_agent s aid = List.find (\<lambda>r. ag_id r = aid) (db_agents s)"

definition find_ticket :: "db \<Rightarrow> string \<Rightarrow> string \<Rightarrow> ticket_row option" where
  "find_ticket s p tid = List.find (\<lambda>t. t_project t = p \<and> t_id t = tid) (db_tickets s)"

definition find_session :: "db \<Rightarrow> string \<Rightarrow> session_row option" where
  "find_session s sid = List.find (\<lambda>r. se_id r = sid) (db_sessions s)"

definition find_lease :: "db \<Rightarrow> string \<Rightarrow> lease_row option" where
  "find_lease s p = List.find (\<lambda>r. ml_project r = p) (db_leases s)"

definition update_ticket :: "string \<Rightarrow> string \<Rightarrow> (ticket_row \<Rightarrow> ticket_row) \<Rightarrow> db \<Rightarrow> db" where
  "update_ticket p tid f s = s\<lparr>db_tickets :=
     update_where (\<lambda>t. t_project t = p \<and> t_id t = tid) f (db_tickets s)\<rparr>"

definition update_agent :: "string \<Rightarrow> (agent_row \<Rightarrow> agent_row) \<Rightarrow> db \<Rightarrow> db" where
  "update_agent aid f s = s\<lparr>db_agents := update_where (\<lambda>a. ag_id a = aid) f (db_agents s)\<rparr>"

lemmas lookup_defs = find_agent_def find_ticket_def find_session_def find_lease_def

lemma find_ticket_Some: "find_ticket s p tid = Some t \<Longrightarrow> t \<in> set (db_tickets s) \<and> t_project t = p \<and> t_id t = tid"
  unfolding find_ticket_def by (drule find_SomeD) simp

lemma find_agent_Some: "find_agent s aid = Some a \<Longrightarrow> a \<in> set (db_agents s) \<and> ag_id a = aid"
  unfolding find_agent_def by (drule find_SomeD) simp

end
