(* ===== verification/Board_Deps.thy ===== *)
theory Board_Deps
  imports Board_Schema
begin

text \<open>
  Dependency edges: \<open>_dependencies\<close>, \<open>_would_cycle\<close> and \<open>_set_dependencies\<close> of
  \<open>storage/board.py\<close>. The depth-first search is the code's own loop over an explicit
  stack (top first here, last element in Python); its answer is proved to be exactly
  "one of the new dependencies reaches the ticket", and a rewrite of the edges that
  it lets through keeps every project's graph acyclic.
\<close>

definition out_edges :: "dep_row list \<Rightarrow> string \<Rightarrow> string \<Rightarrow> string list" where
  "out_edges ds p tid = map dp_on (filter (\<lambda>d. dp_project d = p \<and> dp_ticket d = tid) ds)"

text \<open>\<open>_dependencies\<close>: ORDER BY depends_on.\<close>

definition dependencies :: "db \<Rightarrow> string \<Rightarrow> string \<Rightarrow> string list" where
  "dependencies s p tid = sort (out_edges (db_deps s) p tid)"

text \<open>
  The \<open>while stack\<close> loop: pop a node with the path that led to it; the ticket itself
  closes a cycle, a node already expanded is skipped, any other node is expanded and its
  successors are pushed in row order.
\<close>

function dfs :: "dep_row list \<Rightarrow> string \<Rightarrow> string \<Rightarrow> string list \<Rightarrow> (string \<times> string list) list
    \<Rightarrow> string list option" where
  "dfs ds p tid seen [] = None"
| "dfs ds p tid seen ((node, path) # stack) =
     (if node = tid then Some path
      else if node \<in> set seen then dfs ds p tid seen stack
      else dfs ds p tid (node # seen)
             (rev (map (\<lambda>d. (d, path @ [d])) (out_edges ds p node)) @ stack))"
  by pat_completeness auto
termination
proof (relation "measures [\<lambda>(ds, p, tid, seen, stack).
      length (filter (\<lambda>d. dp_project d = p \<and> dp_ticket d \<notin> set seen) ds),
      \<lambda>(ds, p, tid, seen, stack). length stack]", goal_cases)
  case 1
  show ?case by simp
next
  case (2 ds p tid seen node path stack)
  then show ?case by simp
next
  case (3 ds p tid seen node path stack)
  let ?l = "\<lambda>sn. length (filter (\<lambda>d. dp_project d = p \<and> dp_ticket d \<notin> set sn) ds)"
  have le: "?l (node # seen) \<le> ?l seen" by (induction ds) auto
  show ?case
  proof (cases "out_edges ds p node = []")
    case True
    then show ?thesis using le by auto
  next
    case False
    then have "\<exists>d \<in> set ds. dp_project d = p \<and> dp_ticket d = node"
      by (auto simp: out_edges_def filter_empty_conv)
    then have "?l (node # seen) < ?l seen" using 3(2)
    proof (induction ds)
      case Nil
      then show ?case by simp
    next
      case (Cons e ds)
      have "length (filter (\<lambda>d. dp_project d = p \<and> dp_ticket d \<notin> set (node # seen)) ds)
          \<le> length (filter (\<lambda>d. dp_project d = p \<and> dp_ticket d \<notin> set seen) ds)"
        by (induction ds) auto
      then show ?case using Cons by auto
    qed
    then show ?thesis by simp
  qed
qed

text \<open>\<open>_would_cycle\<close>: the search starts afresh from each proposed dependency.\<close>

fun would_cycle :: "dep_row list \<Rightarrow> string \<Rightarrow> string \<Rightarrow> string list \<Rightarrow> string list option" where
  "would_cycle ds p tid [] = None"
| "would_cycle ds p tid (d # new) =
     (if d = tid then Some [tid, tid]
      else case dfs ds p tid [] [(d, [tid, d])] of
             Some path \<Rightarrow> Some path
           | None \<Rightarrow> would_cycle ds p tid new)"

text \<open>\<open>_set_dependencies\<close>: the check, the DELETE, then one INSERT for each dependency.\<close>

fun insert_deps :: "string \<Rightarrow> string \<Rightarrow> string list \<Rightarrow> dep_row list \<Rightarrow> error + dep_row list" where
  "insert_deps p tid [] ds = Inr ds"
| "insert_deps p tid (d # new) ds =
     bindE (insert_row dp_key \<lparr>dp_project = p, dp_ticket = tid, dp_on = d\<rparr> ds) (insert_deps p tid new)"

definition set_deps :: "string \<Rightarrow> string \<Rightarrow> string list \<Rightarrow> db \<Rightarrow> error + db" where
  "set_deps p tid new s =
     (case would_cycle (db_deps s) p tid new of
        Some cycle \<Rightarrow> Inl (DependencyCycle cycle)
      | None \<Rightarrow>
          if find_ticket s p tid = None \<and> new \<noteq> [] then Inl IntegrityError
          else bindE (insert_deps p tid new
                  (filter (\<lambda>d. \<not> (dp_project d = p \<and> dp_ticket d = tid)) (db_deps s)))
                (\<lambda>ds. Inr (s\<lparr>db_deps := ds\<rparr>)))"

section \<open>The search answers reachability\<close>

definition edges :: "dep_row list \<Rightarrow> string \<Rightarrow> (string \<times> string) set" where
  "edges ds p = {(dp_ticket d, dp_on d) | d. d \<in> set ds \<and> dp_project d = p}"

lemma out_edges_iff: "y \<in> set (out_edges ds p x) \<longleftrightarrow> (x, y) \<in> edges ds p"
  by (auto simp: out_edges_def edges_def)

text \<open>
  Loop invariant: a successor of an expanded node is expanded or still on the stack.
  When the stack is empty the expanded nodes are closed under the edges.
\<close>

lemma dfs_None:
  assumes "dfs ds p tid seen stack = None"
    and "tid \<notin> set seen"
    and "\<And>x y. x \<in> set seen \<Longrightarrow> (x, y) \<in> edges ds p \<Longrightarrow> y \<in> set seen \<union> fst ` set stack"
  shows "\<exists>C. set seen \<union> fst ` set stack \<subseteq> C \<and> tid \<notin> C
     \<and> (\<forall>x y. x \<in> C \<longrightarrow> (x, y) \<in> edges ds p \<longrightarrow> y \<in> C)"
  using assms
proof (induction ds p tid seen stack rule: dfs.induct)
  case (1 ds p tid seen)
  then show ?case by (intro exI [of _ "set seen"]) auto
next
  case (2 ds p tid seen node path stack)
  have ne: "node \<noteq> tid" using 2(3) by (auto split: if_splits)
  show ?case
  proof (cases "node \<in> set seen")
    case True
    then have "dfs ds p tid seen stack = None" using 2(3) ne by simp
    then obtain C where "set seen \<union> fst ` set stack \<subseteq> C" "tid \<notin> C"
      "\<forall>x y. x \<in> C \<longrightarrow> (x, y) \<in> edges ds p \<longrightarrow> y \<in> C"
      using 2(1) [OF ne True _ 2(4)] 2(5) True by (metis UnCI UnE fst_conv image_insert insertE list.simps(15))
    then show ?thesis using True by (intro exI [of _ C]) auto
  next
    case False
    let ?new = "rev (map (\<lambda>d. (d, path @ [d])) (out_edges ds p node)) @ stack"
    have new: "fst ` set ?new = {y. (node, y) \<in> edges ds p} \<union> fst ` set stack"
      by (simp add: image_Un image_image) (auto simp: out_edges_iff)
    have run: "dfs ds p tid (node # seen) ?new = None" using 2(3) ne False by simp
    have tid: "tid \<notin> set (node # seen)" using 2(4) ne by simp
    have inv: "y \<in> set (node # seen) \<union> fst ` set ?new"
      if "x \<in> set (node # seen)" "(x, y) \<in> edges ds p" for x y
      unfolding new using that 2(5) [of x y] by auto
    obtain C where C: "set (node # seen) \<union> fst ` set ?new \<subseteq> C \<and> tid \<notin> C
        \<and> (\<forall>x y. x \<in> C \<longrightarrow> (x, y) \<in> edges ds p \<longrightarrow> y \<in> C)"
      using 2(2) [OF ne False run tid inv] by (rule exE)
    show ?thesis
    proof (intro exI [of _ C] conjI)
      show "set seen \<union> fst ` set ((node, path) # stack) \<subseteq> C" using C new by auto
    qed (use C in blast)+
  qed
qed

lemma closed_rtrancl:
  assumes "\<forall>x y. x \<in> C \<longrightarrow> (x, y) \<in> r \<longrightarrow> y \<in> C" and "(x, y) \<in> r\<^sup>*" and "x \<in> C"
  shows "y \<in> C"
  using assms(2,3) by (induction rule: rtrancl_induct) (use assms(1) in auto)

text \<open>A path the search returns is a chain of edges from the ticket back to the ticket.\<close>

fun chain :: "(string \<times> string) set \<Rightarrow> string list \<Rightarrow> bool" where
  "chain r (x # y # zs) \<longleftrightarrow> (x, y) \<in> r \<and> chain r (y # zs)"
| "chain r _ \<longleftrightarrow> True"

lemma chain_snoc: "chain r (xs @ [x, y]) \<longleftrightarrow> chain r (xs @ [x]) \<and> (x, y) \<in> r"
  by (induction r xs rule: chain.induct) auto

lemma chain_rtrancl: "chain r (x # xs) \<Longrightarrow> (x, last (x # xs)) \<in> r\<^sup>*"
  by (induction xs arbitrary: x) (auto intro: converse_rtrancl_into_rtrancl)

definition cycle_path :: "(string \<times> string) set \<Rightarrow> string \<Rightarrow> string \<Rightarrow> string list \<Rightarrow> bool" where
  "cycle_path r tid node path \<longleftrightarrow>
     (\<exists>rest. path = tid # rest \<and> rest \<noteq> [] \<and> last rest = node \<and> chain r rest)"

lemma dfs_Some:
  assumes "dfs ds p tid seen stack = Some path"
    and "\<forall>(node, pth) \<in> set stack. cycle_path (edges ds p) tid node pth \<and> hd (tl pth) = d"
  shows "cycle_path (edges ds p) tid tid path \<and> hd (tl path) = d"
  using assms
proof (induction ds p tid seen stack rule: dfs.induct)
  case (1 ds p tid seen)
  then show ?case by simp
next
  case (2 ds p tid seen node pth stack)
  show ?case
  proof (cases "node = tid")
    case True
    then show ?thesis using 2(3,4) by auto
  next
    case ne: False
    show ?thesis
    proof (cases "node \<in> set seen")
      case True
      then show ?thesis using 2(1) [OF ne True] 2(3,4) ne by auto
    next
      case False
      from 2(4) obtain rest where rest: "pth = tid # rest" "rest \<noteq> []" "last rest = node"
        "chain (edges ds p) rest" "hd rest = d"
        by (auto simp: cycle_path_def)
      have "cycle_path (edges ds p) tid y (pth @ [y]) \<and> hd (tl (pth @ [y])) = d"
        if "(node, y) \<in> edges ds p" for y
      proof -
        have r: "rest = butlast rest @ [node]" using rest by (metis append_butlast_last_id)
        then have e: "rest @ [y] = butlast rest @ [node, y]"
          by (metis append_Cons append_Nil append_assoc)
        have "chain (edges ds p) (butlast rest @ [node])" using rest(4) r by simp
        then have "chain (edges ds p) (butlast rest @ [node, y])"
          using that chain_snoc [of "edges ds p" "butlast rest" node y] by simp
        then have "chain (edges ds p) (rest @ [y])" by (subst e)
        then show ?thesis using rest by (auto simp: cycle_path_def)
      qed
      then have stk: "\<forall>(n', p') \<in> set (rev (map (\<lambda>d. (d, pth @ [d])) (out_edges ds p node)) @ stack).
          cycle_path (edges ds p) tid n' p' \<and> hd (tl p') = d"
        using 2(4) by (auto simp: out_edges_iff)
      have run: "dfs ds p tid (node # seen)
          (rev (map (\<lambda>d. (d, pth @ [d])) (out_edges ds p node)) @ stack) = Some path"
        using 2(3) ne False by simp
      show ?thesis by (rule 2(2) [OF ne False run stk])
    qed
  qed
qed

lemma dfs_start_iff:
  assumes "d \<noteq> tid"
  shows "dfs ds p tid [] [(d, [tid, d])] = None \<longleftrightarrow> (d, tid) \<notin> (edges ds p)\<^sup>*"
proof
  assume "dfs ds p tid [] [(d, [tid, d])] = None"
  then obtain C where "d \<in> C" "tid \<notin> C" "\<forall>x y. x \<in> C \<longrightarrow> (x, y) \<in> edges ds p \<longrightarrow> y \<in> C"
    using dfs_None [of ds p tid "[]" "[(d, [tid, d])]"] by auto
  then show "(d, tid) \<notin> (edges ds p)\<^sup>*" using closed_rtrancl by metis
next
  assume no: "(d, tid) \<notin> (edges ds p)\<^sup>*"
  show "dfs ds p tid [] [(d, [tid, d])] = None"
  proof (rule ccontr)
    assume "dfs ds p tid [] [(d, [tid, d])] \<noteq> None"
    then obtain path where "dfs ds p tid [] [(d, [tid, d])] = Some path" by auto
    then have "cycle_path (edges ds p) tid tid path \<and> hd (tl path) = d"
      by (rule dfs_Some) (auto simp: cycle_path_def)
    then obtain rest where "rest \<noteq> []" "last rest = tid" "chain (edges ds p) rest" "hd rest = d"
      by (auto simp: cycle_path_def)
    then have "(d, tid) \<in> (edges ds p)\<^sup>*" using chain_rtrancl [of "edges ds p" "hd rest" "tl rest"]
      by (metis list.collapse)
    then show False using no by simp
  qed
qed

lemma dfs_start_Some:
  "dfs ds p tid [] [(d, [tid, d])] = Some path \<Longrightarrow> d \<noteq> tid \<Longrightarrow> (d, tid) \<in> (edges ds p)\<^sup>*"
  using dfs_start_iff [of d tid ds p] by auto

lemma would_cycle_None_iff:
  "would_cycle ds p tid new = None \<longleftrightarrow> (\<forall>d \<in> set new. (d, tid) \<notin> (edges ds p)\<^sup>*)"
  by (induction new) (auto simp: dfs_start_iff simp del: dfs.simps dest: dfs_start_Some split: option.splits)

lemma would_cycle_path:
  assumes "would_cycle ds p tid new = Some path"
  shows "\<exists>d rest. path = tid # d # rest \<and> d \<in> set new \<and> last path = tid \<and> chain (edges ds p) (d # rest)"
  using assms
proof (induction new)
  case Nil
  then show ?case by simp
next
  case (Cons d new)
  show ?case
  proof (cases "d = tid \<or> dfs ds p tid [] [(d, [tid, d])] = None")
    case True
    then show ?thesis using Cons by (auto split: if_splits)
  next
    case False
    then obtain pth where "dfs ds p tid [] [(d, [tid, d])] = Some pth" by auto
    moreover from this have "cycle_path (edges ds p) tid tid pth \<and> hd (tl pth) = d"
      by (rule dfs_Some) (auto simp: cycle_path_def)
    ultimately show ?thesis using Cons.prems False
      by (auto simp: cycle_path_def neq_Nil_conv split: if_splits)
  qed
qed

section \<open>The graph stays acyclic\<close>

lemma insert_deps_set:
  "insert_deps p tid new ds = Inr ds' \<Longrightarrow>
     set ds' = set ds \<union> {\<lparr>dp_project = p, dp_ticket = tid, dp_on = d\<rparr> | d. d \<in> set new}
     \<and> (distinct (map dp_key ds) \<longrightarrow> distinct (map dp_key ds'))"
proof (induction new arbitrary: ds)
  case Nil
  then show ?case by simp
next
  case (Cons d new)
  then obtain ds1 where "insert_row dp_key \<lparr>dp_project = p, dp_ticket = tid, dp_on = d\<rparr> ds = Inr ds1"
    "insert_deps p tid new ds1 = Inr ds'"
    by (auto simp: result_simps)
  then show ?case using Cons.IH [of ds1] by (auto simp: result_simps)
qed

lemma edges_Un:
  assumes "set ds' = set ds \<union> {\<lparr>dp_project = p, dp_ticket = tid, dp_on = d\<rparr> | d. d \<in> D}"
  shows "edges ds' q = edges ds q \<union> (if q = p then {(tid, d) | d. d \<in> D} else {})"
proof -
  have img: "edges es q = (\<lambda>d. (dp_ticket d, dp_on d)) ` {d \<in> set es. dp_project d = q}" for es
    by (auto simp: edges_def)
  let ?f = "\<lambda>d. \<lparr>dp_project = p, dp_ticket = tid, dp_on = d\<rparr>"
  have "set ds' = set ds \<union> ?f ` D" unfolding assms by blast
  then have "{d \<in> set ds'. dp_project d = q}
      = {d \<in> set ds. dp_project d = q} \<union> (if q = p then ?f ` D else {})"
    by auto
  then show ?thesis by (auto simp: img image_Un image_image)
qed

lemma acyclic_new_source:
  assumes "acyclic r" and "\<And>d. d \<in> D \<Longrightarrow> (d, t) \<notin> r\<^sup>*"
  shows "acyclic (r \<union> {(t, d) | d. d \<in> D})"
proof -
  let ?r = "r \<union> {(t, d) | d. d \<in> D}"
  have path: "(x, y) \<in> r\<^sup>* \<or> (x, t) \<in> r\<^sup>* \<and> (\<exists>d \<in> D. (d, y) \<in> r\<^sup>*)" if "(x, y) \<in> ?r\<^sup>*" for x y
    using that
  proof (induction rule: rtrancl_induct)
    case base
    then show ?case by simp
  next
    case (step y z)
    then show ?case using assms(2) by (auto intro: rtrancl_into_rtrancl)
  qed
  show ?thesis unfolding acyclic_def
  proof (intro allI notI)
    fix x assume "(x, x) \<in> ?r\<^sup>+"
    then obtain y where y: "(x, y) \<in> ?r" "(y, x) \<in> ?r\<^sup>*" by (meson tranclD)
    show False
    proof (cases "(x, y) \<in> r")
      case True
      show False using path [OF y(2)]
      proof
        assume "(y, x) \<in> r\<^sup>*"
        then show False using True assms(1) unfolding acyclic_def by (meson rtrancl_into_trancl2)
      next
        assume "(y, t) \<in> r\<^sup>* \<and> (\<exists>d \<in> D. (d, x) \<in> r\<^sup>*)"
        then obtain d where "d \<in> D" "(d, x) \<in> r\<^sup>*" "(y, t) \<in> r\<^sup>*" by blast
        then have "(d, t) \<in> r\<^sup>*" using True by (meson converse_rtrancl_into_rtrancl rtrancl_trans)
        then show False using assms(2) \<open>d \<in> D\<close> by blast
      qed
    next
      case False
      then have "x = t" "y \<in> D" using y(1) by auto
      then show False using path [OF y(2)] assms(2) by blast
    qed
  qed
qed

lemma acyclic_mono: "acyclic r \<Longrightarrow> r' \<subseteq> r \<Longrightarrow> acyclic r'"
  by (rule acyclic_subset)

definition deps_acyclic :: "dep_row list \<Rightarrow> bool" where
  "deps_acyclic ds \<longleftrightarrow> (\<forall>p. acyclic (edges ds p))"

lemma set_deps_acyclic:
  assumes "set_deps p tid new s = Inr s'" and "deps_acyclic (db_deps s)"
  shows "deps_acyclic (db_deps s')"
  unfolding deps_acyclic_def
proof
  fix q
  let ?keep = "filter (\<lambda>d. \<not> (dp_project d = p \<and> dp_ticket d = tid)) (db_deps s)"
  from assms(1) have wc: "would_cycle (db_deps s) p tid new = None"
    and ins: "insert_deps p tid new ?keep = Inr (db_deps s')"
    by (auto simp: set_deps_def result_simps split: option.splits if_splits)
  have keep: "edges ?keep q \<subseteq> edges (db_deps s) q" by (auto simp: edges_def)
  have old: "acyclic (edges ?keep q)"
    using assms(2) acyclic_mono [OF _ keep] by (simp add: deps_acyclic_def)
  have new: "edges (db_deps s') q =
      edges ?keep q \<union> (if q = p then {(tid, d) | d. d \<in> set new} else {})"
    using insert_deps_set [OF ins] by (intro edges_Un) simp
  show "acyclic (edges (db_deps s') q)"
  proof (cases "q = p")
    case True
    have "(d, tid) \<notin> (edges ?keep p)\<^sup>*" if "d \<in> set new" for d
      using wc that True rtrancl_mono [OF keep] by (auto simp: would_cycle_None_iff)
    then show ?thesis using acyclic_new_source [OF old] new True by simp
  next
    case False
    then show ?thesis using new old by simp
  qed
qed

end
