(* ===== verification/Worktrees.thy ===== *)
theory Worktrees
  imports Atman_Prelude
begin

text \<open>
  \<open>worktrees.py\<close>: lexical comparison of worktree paths, the question every checkout
  registration asks. Includes the part of \<open>posixpath.normpath\<close> the module rests on.
  \<open>str.casefold\<close> is \<open>py_lower\<close>, its behaviour on ASCII.
\<close>

section \<open>Normalisation\<close>

definition initial_slashes :: "string \<Rightarrow> nat" where
  "initial_slashes s =
     (if take 1 s = ''/'' then (if take 2 s = ''//'' \<and> take 3 s \<noteq> ''///'' then 2 else 1) else 0)"

definition norm_step :: "bool \<Rightarrow> string list \<Rightarrow> string \<Rightarrow> string list" where
  "norm_step absolute acc c =
     (if c = [] \<or> c = ''.'' then acc
      else if c \<noteq> ''..'' \<or> (\<not> absolute \<and> acc = []) \<or> (acc \<noteq> [] \<and> last acc = ''..'') then acc @ [c]
      else butlast acc)"

definition norm_comps :: "string \<Rightarrow> string list" where
  "norm_comps s = foldl (norm_step (0 < initial_slashes s)) [] (py_split CHR ''/'' s)"

definition normpath :: "string \<Rightarrow> string" where
  "normpath s =
     (if s = [] then ''.''
      else let p = replicate (initial_slashes s) CHR ''/'' @ py_join ''/'' (norm_comps s)
           in if p = [] then ''.'' else p)"

definition rstrip_slash :: "string \<Rightarrow> string" where
  "rstrip_slash s = rev (dropWhile (\<lambda>c. c = CHR ''/'') (rev s))"

definition path_text :: "string \<Rightarrow> string" where
  "path_text path = map (\<lambda>c. if c = CHR 0x5C then CHR ''/'' else c) (py_strip path)"

definition normalize :: "string \<Rightarrow> string" where
  "normalize path =
     (let text = path_text path
      in if text = [] then []
         else let collapsed = normpath text
              in if collapsed = ''.'' \<or> collapsed = ''/'' then collapsed else rstrip_slash collapsed)"

definition segments :: "string \<Rightarrow> string list" where
  "segments path = filter (\<lambda>p. p \<noteq> [] \<and> p \<noteq> ''.'') (py_split CHR ''/'' (normalize path))"

definition segments_folded :: "string \<Rightarrow> string list" where
  "segments_folded path = map py_lower (segments path)"

definition is_absolute :: "string \<Rightarrow> bool" where
  "is_absolute path \<longleftrightarrow> take 1 (normalize path) = ''/''"

section \<open>The questions\<close>

definition starts_with :: "'a list \<Rightarrow> 'a list \<Rightarrow> bool" where
  "starts_with outer inner \<longleftrightarrow> take (length outer) inner = outer"

definition unusable_reason :: "string \<Rightarrow> string option" where
  "unusable_reason path =
     (let sg = segments path in
      if sg = [] then Some ''names no directory''
      else if ''..'' \<in> set sg then Some (''contains a '' @ [CHR 0x27] @ ''..'' @ [CHR 0x27]
        @ '' segment this server will not resolve, because resolving it would mean answering''
        @ '' for a directory the server does not own'')
      else if \<not> is_absolute path then Some (''is a relative path; the runtime resolves it against the''
        @ '' supervisor process'' @ [CHR 0x27] @ ''s own working directory, so it names a directory nobody approved'')
      else None)"

definition contains :: "string \<Rightarrow> string \<Rightarrow> bool" where
  "contains parent child =
     (let outer = segments parent; inner = segments child in
      if outer = [] \<or> inner = [] then False
      else if is_absolute parent \<noteq> is_absolute child then False
      else if ''..'' \<in> set outer \<or> ''..'' \<in> set inner then False
      else starts_with outer inner)"

definition refusal_reason :: "string \<Rightarrow> string \<Rightarrow> string option" where
  "refusal_reason parent child =
     (case unusable_reason child of
        Some reason \<Rightarrow> Some reason
      | None \<Rightarrow>
          if segments parent = []
          then Some ''cannot be checked: no approved directory to check it against''
          else if ''..'' \<in> set (segments parent)
          then Some (''cannot be checked: the approved directory contains a '' @ [CHR 0x27] @ ''..''
                     @ [CHR 0x27] @ '' segment'')
          else if \<not> is_absolute parent
          then Some (''is absolute while the approved directory is relative, so the two cannot''
                     @ '' be compared'')
          else if \<not> contains parent child
          then Some ''is not that directory and does not sit inside it''
          else None)"

definition overlaps :: "string \<Rightarrow> string \<Rightarrow> bool" where
  "overlaps a b =
     (let left = segments_folded a; right = segments_folded b in
      if left = [] \<or> right = [] then False
      else let (shorter, longer) = (if length left \<le> length right then (left, right) else (right, left))
           in starts_with shorter longer)"

definition is_bare_worktrees_root :: "string \<Rightarrow> bool" where
  "is_bare_worktrees_root path =
     (let sg = segments path in sg \<noteq> [] \<and> last sg = ''.worktrees'')"

definition extra_segments :: "string \<Rightarrow> string \<Rightarrow> string list" where
  "extra_segments parent child =
     (let outer = segments parent; inner = segments child in
      if length inner \<le> length outer \<or> \<not> starts_with outer inner then []
      else drop (length outer) inner)"

definition child_is_nested_worktree :: "string \<Rightarrow> string \<Rightarrow> bool" where
  "child_is_nested_worktree parent child \<longleftrightarrow> ''.worktrees'' \<in> set (extra_segments parent child)"

definition lease_contains :: "string \<Rightarrow> string \<Rightarrow> bool" where
  "lease_contains parent child =
     (let outer = segments_folded parent; inner = segments_folded child in
      if outer = [] \<or> inner = [] then False
      else if is_absolute parent \<noteq> is_absolute child then False
      else if ''..'' \<in> set (segments parent) \<or> ''..'' \<in> set (segments child) then False
      else starts_with outer inner)"

definition lease_precludes_registration :: "string \<Rightarrow> string \<Rightarrow> bool" where
  "lease_precludes_registration held requested =
     (if normalize held = [] \<or> normalize requested = [] then False
      else if segments_folded held = segments_folded requested then True
      else if lease_contains requested held then True
      else if lease_contains held requested
      then (if is_bare_worktrees_root held then False
            else if child_is_nested_worktree held requested then False
            else True)
      else False)"

section \<open>Segments are the normalised components\<close>

definition plain_comp :: "string \<Rightarrow> bool" where
  "plain_comp c \<longleftrightarrow> c \<noteq> [] \<and> c \<noteq> ''.'' \<and> CHR ''/'' \<notin> set c"

text \<open>
  The components \<open>normpath\<close> keeps: a block of \<open>..\<close> in front, empty for an absolute
  path, then names.
\<close>

definition dotdot_front :: "bool \<Rightarrow> string list \<Rightarrow> bool" where
  "dotdot_front absolute cs \<longleftrightarrow>
     (\<exists>k names. cs = replicate k ''..'' @ names \<and> ''..'' \<notin> set names \<and> (absolute \<longrightarrow> k = 0))"

lemma norm_step_plain:
  "\<forall>x \<in> set acc. plain_comp x \<Longrightarrow> CHR ''/'' \<notin> set c \<Longrightarrow>
     \<forall>x \<in> set (norm_step a acc c). plain_comp x"
  by (auto simp: norm_step_def plain_comp_def dest: in_set_butlastD)

lemma foldl_norm_plain:
  "\<forall>x \<in> set acc. plain_comp x \<Longrightarrow> \<forall>c \<in> set cs. CHR ''/'' \<notin> set c \<Longrightarrow>
     \<forall>x \<in> set (foldl (norm_step a) acc cs). plain_comp x"
proof (induction cs arbitrary: acc)
  case Nil
  then show ?case by simp
next
  case (Cons c cs)
  have "\<forall>x \<in> set (norm_step a acc c). plain_comp x"
    using Cons.prems by (intro norm_step_plain) auto
  then show ?case using Cons by simp
qed

lemma norm_comps_plain: "c \<in> set (norm_comps s) \<Longrightarrow> plain_comp c"
  unfolding norm_comps_def using foldl_norm_plain [of "[]" "py_split CHR ''/'' s"] py_split_no_sep
  by fastforce

lemma norm_step_front: "dotdot_front a acc \<Longrightarrow> dotdot_front a (norm_step a acc c)"
proof -
  assume "dotdot_front a acc"
  then obtain k names where acc: "acc = replicate k ''..'' @ names" "''..'' \<notin> set names" "a \<longrightarrow> k = 0"
    by (auto simp: dotdot_front_def)
  show ?thesis
  proof (cases "names = []")
    case True
    show ?thesis
    proof (cases "c = ''..''")
      case dd: True
      show ?thesis
      proof (cases k)
        case 0
        then have "norm_step a acc c = (if a then [] else replicate 1 ''..'')"
          using acc True dd by (simp add: norm_step_def)
        then show ?thesis unfolding dotdot_front_def
          by (intro exI [of _ "if a then 0 else 1"] exI [of _ "[]"]) auto
      next
        case (Suc j)
        then have "norm_step a acc c = replicate (Suc k) ''..''"
          using acc True dd by (auto simp: norm_step_def replicate_append_same)
        then show ?thesis using acc Suc unfolding dotdot_front_def
          by (intro exI [of _ "Suc k"] exI [of _ "[]"]) auto
      qed
    next
      case False
      then have "norm_step a acc c = acc \<or> norm_step a acc c = replicate k ''..'' @ [c]"
        using acc True by (auto simp: norm_step_def)
      then show ?thesis using acc False unfolding dotdot_front_def
        by (auto intro: exI [of _ k])
    qed
  next
    case False
    then have "last acc = last names" "butlast acc = replicate k ''..'' @ butlast names" "acc \<noteq> []"
      using acc by (auto simp: butlast_append)
    moreover have "last names \<noteq> ''..''" using False acc by (metis last_in_set)
    ultimately have "norm_step a acc c \<in> {acc, replicate k ''..'' @ butlast names}
        \<or> (c \<noteq> ''..'' \<and> norm_step a acc c = replicate k ''..'' @ names @ [c])"
      using acc by (auto simp: norm_step_def)
    then show ?thesis using acc unfolding dotdot_front_def
      by (auto dest: in_set_butlastD intro!: exI [of _ k])
  qed
qed

lemma norm_comps_front: "dotdot_front (0 < initial_slashes s) (norm_comps s)"
proof -
  have "dotdot_front a (foldl (norm_step a) acc cs)" if "dotdot_front a acc" for a acc cs
    using that by (induction cs arbitrary: acc) (auto intro: norm_step_front)
  moreover have "dotdot_front a []" for a
    unfolding dotdot_front_def by (intro exI [of _ 0] exI [of _ "[]"]) auto
  ultimately show ?thesis by (auto simp: norm_comps_def)
qed

lemma rstrip_slash_last: "s \<noteq> [] \<Longrightarrow> last s \<noteq> CHR ''/'' \<Longrightarrow> rstrip_slash s = s"
  by (cases s rule: rev_cases) (auto simp: rstrip_slash_def)

lemma last_py_join: "cs \<noteq> [] \<Longrightarrow> last cs \<noteq> [] \<Longrightarrow> py_join sep cs \<noteq> [] \<and> last (py_join sep cs) = last (last cs)"
  by (induction sep cs rule: py_join.induct) auto

lemma split_slashes:
  "py_split CHR ''/'' (replicate n CHR ''/'' @ s) = replicate n [] @ py_split CHR ''/'' s"
  by (induction n) auto

lemma normalize_cases:
  assumes "path_text path \<noteq> []"
  defines "cs \<equiv> norm_comps (path_text path)" and "n \<equiv> initial_slashes (path_text path)"
  shows "cs \<noteq> [] \<Longrightarrow> normalize path = replicate n CHR ''/'' @ py_join ''/'' cs"
    and "cs = [] \<Longrightarrow> normalize path = (if n = 0 then ''.'' else if n = 1 then ''/'' else [])"
proof -
  have plain: "\<forall>c \<in> set cs. plain_comp c" unfolding cs_def using norm_comps_plain by blast
  {
    assume ne: "cs \<noteq> []"
    then have lc: "plain_comp (last cs)" using plain last_in_set by blast
    have jn: "py_join ''/'' cs \<noteq> [] \<and> last (py_join ''/'' cs) = last (last cs)"
      using ne lc by (intro last_py_join) (auto simp: plain_comp_def)
    let ?p = "replicate n CHR ''/'' @ py_join ''/'' cs"
    have np: "normpath (path_text path) = ?p"
      using assms(1) jn by (simp add: normpath_def cs_def n_def)
    have "last ?p \<noteq> CHR ''/''" using jn lc by (auto simp: plain_comp_def dest: last_in_set)
    moreover from this have "?p \<noteq> ''/''" by auto
    moreover have "?p \<noteq> ''.''"
    proof
      assume dot: "?p = ''.''"
      then have "py_join ''/'' cs = ''.''" using jn by (cases n) auto
      then have "cs = py_split CHR ''/'' ''.''"
        using py_split_join [OF ne, of "CHR ''/''"] plain by (simp add: plain_comp_def)
      then have "cs = [''.'']" by simp
      then show False using plain by (simp add: plain_comp_def)
    qed
    ultimately show "normalize path = ?p"
      using assms(1) np jn by (simp add: normalize_def Let_def rstrip_slash_last)
  }
  show "cs = [] \<Longrightarrow> normalize path = (if n = 0 then ''.'' else if n = 1 then ''/'' else [])"
  proof -
    have "n = 0 \<or> n = 1 \<or> n = 2" by (auto simp: n_def initial_slashes_def)
    then show "cs = [] \<Longrightarrow> normalize path = (if n = 0 then ''.'' else if n = 1 then ''/'' else [])"
      using assms(1)
      by (auto simp: normalize_def normpath_def cs_def [symmetric] n_def [symmetric] Let_def
          rstrip_slash_def numeral_2_eq_2)
  qed
qed

lemma segments_eq: "segments path = (if path_text path = [] then [] else norm_comps (path_text path))"
proof (cases "path_text path = []")
  case True
  then show ?thesis by (simp add: segments_def normalize_def)
next
  case False
  let ?cs = "norm_comps (path_text path)" and ?n = "initial_slashes (path_text path)"
  have plain: "\<forall>c \<in> set ?cs. plain_comp c" using norm_comps_plain by blast
  show ?thesis
  proof (cases "?cs = []")
    case True
    then show ?thesis using False normalize_cases(2) [OF False True] by (simp add: segments_def)
  next
    case ne: False
    have "py_split CHR ''/'' (normalize path) = replicate ?n [] @ ?cs"
      using normalize_cases(1) [OF False ne] py_split_join [OF ne, of "CHR ''/''"] plain
      by (simp add: split_slashes plain_comp_def)
    moreover have "filter (\<lambda>p. p \<noteq> [] \<and> p \<noteq> ''.'') ?cs = ?cs"
      using plain by (intro filter_True) (auto simp: plain_comp_def)
    ultimately show ?thesis using False by (simp add: segments_def)
  qed
qed

lemma segments_plain: "c \<in> set (segments path) \<Longrightarrow> plain_comp c"
  by (auto simp: segments_eq norm_comps_plain split: if_splits)

lemma is_absolute_iff:
  "segments path \<noteq> [] \<Longrightarrow> is_absolute path \<longleftrightarrow> 0 < initial_slashes (path_text path)"
proof -
  assume ne: "segments path \<noteq> []"
  let ?cs = "norm_comps (path_text path)" and ?n = "initial_slashes (path_text path)"
  have t: "path_text path \<noteq> []" "?cs \<noteq> []" using ne by (auto simp: segments_eq split: if_splits)
  have "take 1 (py_join ''/'' ?cs) \<noteq> ''/''"
  proof -
    obtain c rest where cs: "?cs = c # rest" using t by (cases ?cs) auto
    then have "plain_comp c" using norm_comps_plain by (metis list.set_intros(1))
    then show ?thesis unfolding cs by (cases c; cases rest) (auto simp: plain_comp_def)
  qed
  then show ?thesis using normalize_cases(1) [OF t] by (cases ?n) (auto simp: is_absolute_def)
qed

lemma absolute_no_dotdot: "is_absolute path \<Longrightarrow> ''..'' \<notin> set (segments path)"
proof
  assume a: "is_absolute path" and d: "''..'' \<in> set (segments path)"
  then have ne: "segments path \<noteq> []" by auto
  then have "path_text path \<noteq> []" by (auto simp: segments_eq)
  moreover have "0 < initial_slashes (path_text path)" using is_absolute_iff [OF ne] a by simp
  ultimately show False
    using d norm_comps_front [of "path_text path"] by (auto simp: segments_eq dotdot_front_def)
qed

section \<open>Containment as a cover\<close>

text \<open>
  Both containment tests compare a key of the two paths by prefix once the paths are
  comparable. What the registration logic needs of them holds for any such test.
\<close>

lemma starts_with_iff: "starts_with xs ys \<longleftrightarrow> (\<exists>zs. ys = xs @ zs)"
  unfolding starts_with_def by (metis append_eq_conv_conj append_take_drop_id)

lemma starts_with_refl [simp]: "starts_with xs xs"
  by (simp add: starts_with_def)

lemma starts_with_map: "starts_with xs ys \<Longrightarrow> starts_with (map f xs) (map f ys)"
  by (auto simp: starts_with_iff)

lemma starts_with_linear: "starts_with xs zs \<Longrightarrow> starts_with ys zs \<Longrightarrow> starts_with xs ys \<or> starts_with ys xs"
  by (auto simp: starts_with_iff append_eq_append_conv2)

locale segment_cover =
  fixes key :: "string \<Rightarrow> 'k list"
    and usable :: "string \<Rightarrow> bool"
    and same_root :: "string \<Rightarrow> string \<Rightarrow> bool"
    and covers :: "string \<Rightarrow> string \<Rightarrow> bool"
  assumes root_refl: "same_root p p"
    and root_sym: "same_root p q \<Longrightarrow> same_root q p"
    and root_trans: "same_root p q \<Longrightarrow> same_root q r \<Longrightarrow> same_root p r"
    and covers_iff: "covers p q \<longleftrightarrow> usable p \<and> usable q \<and> same_root p q \<and> starts_with (key p) (key q)"
begin

lemma covers_refl: "usable p \<Longrightarrow> covers p p"
  by (simp add: covers_iff root_refl)

lemma covers_trans: "covers p q \<Longrightarrow> covers q r \<Longrightarrow> covers p r"
  by (auto simp: covers_iff starts_with_iff intro: root_trans)

lemma covers_antisym: "covers p q \<Longrightarrow> covers q p \<Longrightarrow> key p = key q"
  by (auto simp: covers_iff starts_with_iff)

lemma covers_common: "covers p r \<Longrightarrow> covers q r \<Longrightarrow> covers p q \<or> covers q p"
  unfolding covers_iff using starts_with_linear root_trans root_sym by blast

end

definition usable_path :: "string \<Rightarrow> bool" where
  "usable_path p \<longleftrightarrow> segments p \<noteq> [] \<and> ''..'' \<notin> set (segments p)"

interpretation ct: segment_cover segments usable_path
  "\<lambda>p q. is_absolute p = is_absolute q" contains
  by unfold_locales (auto simp: contains_def usable_path_def Let_def)

interpretation lc: segment_cover segments_folded usable_path
  "\<lambda>p q. is_absolute p = is_absolute q" lease_contains
  by unfold_locales (auto simp: lease_contains_def usable_path_def segments_folded_def Let_def)

section \<open>What registration relies on\<close>

lemma overlaps_sym: "overlaps a b = overlaps b a"
  by (auto simp: overlaps_def Let_def starts_with_def)

lemma overlaps_iff:
  "overlaps a b \<longleftrightarrow> segments_folded a \<noteq> [] \<and> segments_folded b \<noteq> []
     \<and> (starts_with (segments_folded a) (segments_folded b)
        \<or> starts_with (segments_folded b) (segments_folded a))"
  by (auto simp: overlaps_def Let_def starts_with_def split: if_splits)

lemma contains_lease_contains: "contains p q \<Longrightarrow> lease_contains p q"
  unfolding ct.covers_iff lc.covers_iff segments_folded_def by (auto intro: starts_with_map)

lemma lease_contains_overlaps: "lease_contains p q \<Longrightarrow> overlaps p q \<and> overlaps q p"
  by (auto simp: lc.covers_iff overlaps_iff usable_path_def segments_folded_def)

text \<open>
  A path the approval check accepts can never be handed out twice: whatever
  \<open>contains\<close> lets a runner use inside an approved directory, the registry's
  \<open>overlaps\<close> reports as taken, in both directions.
\<close>
theorem contains_implies_overlaps:
  assumes "contains parent child"
  shows "overlaps parent child \<and> overlaps child parent"
  using assms by (auto dest: contains_lease_contains lease_contains_overlaps)

theorem contains_implies_overlaps_witness:
  "overlaps ''/w/agent'' ''/w/agent/sub'' \<and> overlaps ''/w/agent/sub'' ''/w/agent''"
  by (rule contains_implies_overlaps) code_simp

text \<open>
  \<open>refusal_reason\<close> gives no reason exactly when the child path stands on its
  own and the approved directory contains it: its ladder of complaints neither refuses a
  contained path nor passes any other.
\<close>
theorem refusal_reason_None_iff:
  "refusal_reason parent child = None \<longleftrightarrow> unusable_reason child = None \<and> contains parent child"
  by (auto simp: refusal_reason_def ct.covers_iff usable_path_def unusable_reason_def Let_def
      split: option.splits if_splits)

text \<open>
  The lease scan refuses only what the symmetric registry test refuses too, unless both
  paths name no directory at all; and where the registry refuses but the lease scan does
  not, the live lease contains the request and is a bare \<open>.worktrees\<close> root or has the
  request as a nested worktree, or the two paths cannot be compared (one relative, or one
  with an unresolved \<open>..\<close>).
\<close>
theorem lease_precludes_vs_overlaps:
  "(lease_precludes_registration held req \<longrightarrow>
      overlaps held req \<or> segments held = [] \<and> segments req = [])
   \<and> (overlaps held req \<and> \<not> lease_precludes_registration held req \<longrightarrow>
        lease_contains held req \<and> (is_bare_worktrees_root held \<or> child_is_nested_worktree held req)
        \<or> is_absolute held \<noteq> is_absolute req
        \<or> ''..'' \<in> set (segments held) \<or> ''..'' \<in> set (segments req))"
proof (intro conjI impI)
  assume "lease_precludes_registration held req"
  then show "overlaps held req \<or> segments held = [] \<and> segments req = []"
    by (auto simp: lease_precludes_registration_def overlaps_iff segments_folded_def
        dest: lease_contains_overlaps split: if_splits)
next
  assume o: "overlaps held req \<and> \<not> lease_precludes_registration held req"
  then have ne: "segments held \<noteq> []" "segments req \<noteq> []"
    by (auto simp: overlaps_iff segments_folded_def)
  then have "normalize held \<noteq> []" "normalize req \<noteq> []" by (auto simp: segments_def)
  then show "lease_contains held req \<and> (is_bare_worktrees_root held \<or> child_is_nested_worktree held req)
        \<or> is_absolute held \<noteq> is_absolute req
        \<or> ''..'' \<in> set (segments held) \<or> ''..'' \<in> set (segments req)"
    using o ne
    by (auto simp: lease_precludes_registration_def lc.covers_iff usable_path_def overlaps_iff
        split: if_splits)
qed

theorem lease_precludes_vs_overlaps_witness:
  "lease_precludes_registration ''/w/agent/src'' ''/w/agent'' \<and> overlaps ''/w/agent/src'' ''/w/agent''
   \<and> overlaps ''/w/.worktrees'' ''/w/.worktrees/a''
   \<and> (lease_contains ''/w/.worktrees'' ''/w/.worktrees/a'' \<and> is_bare_worktrees_root ''/w/.worktrees'')"
proof -
  have "lease_precludes_registration ''/w/agent/src'' ''/w/agent''" by code_simp
  moreover have "segments ''/w/agent'' \<noteq> []" by code_simp
  ultimately have "overlaps ''/w/agent/src'' ''/w/agent''"
    using lease_precludes_vs_overlaps [of "''/w/agent/src''" "''/w/agent''"] by blast
  moreover have "lease_precludes_registration ''/w/agent/src'' ''/w/agent''"
    "overlaps ''/w/.worktrees'' ''/w/.worktrees/a''"
    "lease_contains ''/w/.worktrees'' ''/w/.worktrees/a'' \<and> is_bare_worktrees_root ''/w/.worktrees''"
    by code_simp+
  ultimately show ?thesis by blast
qed

text \<open>
  The filesystem root overlaps nothing: it has no segments, and \<open>overlaps\<close> answers
  False whenever either side has none, although every absolute path lies inside it.
\<close>
theorem root_overlaps_nothing: "\<not> overlaps ''/'' path \<and> \<not> overlaps path ''/''"
proof -
  have "segments ''/'' = []" by code_simp
  then show ?thesis by (simp add: overlaps_iff segments_folded_def)
qed

text \<open>
  An absolute path keeps no \<open>..\<close> segment after normalisation, so the refusal
  of unresolved \<open>..\<close> concerns relative paths alone.
\<close>
theorem absolute_segments_resolved:
  "is_absolute path \<Longrightarrow> ''..'' \<notin> set (segments path) \<and> (\<forall>c \<in> set (segments path). plain_comp c)"
  using absolute_no_dotdot segments_plain by blast

theorem absolute_segments_resolved_witness:
  "segments ''/w/x/../agent-2/./src/'' = [''w'', ''agent-2'', ''src'']
   \<and> ''..'' \<notin> set (segments ''/w/x/../agent-2/./src/'')"
proof -
  have "is_absolute ''/w/x/../agent-2/./src/''" by code_simp
  from absolute_segments_resolved [OF this] have "''..'' \<notin> set (segments ''/w/x/../agent-2/./src/'')"
    by blast
  moreover have "segments ''/w/x/../agent-2/./src/'' = [''w'', ''agent-2'', ''src'']" by code_simp
  ultimately show ?thesis by blast
qed

end
