(* ===== verification/Board_Store.thy ===== *)
theory Board_Store
  imports Board_Deps Worktrees
begin

text \<open>
  \<open>BoardStore\<close> of \<open>storage/board.py\<close>, first half: the audit trail, the request log,
  projects, agents, presets, worktree occupancy and session leases. An operation is a
  function of the environment, its arguments and the database; \<open>Inl\<close> is the exception
  that leaves its transaction (and rolls it back), \<open>Inr (s', r)\<close> the committed database
  and the result. The suffixes an operation draws are numbered in the order of the code:
  0 for the row it creates, 1 and 2 for the audit row and its stream id.
\<close>

section \<open>Audit trail\<close>

definition SYSTEM_ACTOR :: json where
  "SYSTEM_ACTOR = JObj [(''type'', JStr ''system''), (''id'', JStr ''system''),
     (''display_name'', JStr ''server'')]"

definition actor_or_system :: "json option \<Rightarrow> json" where
  "actor_or_system a = (case a of None \<Rightarrow> SYSTEM_ACTOR | Some j \<Rightarrow> py_or j SYSTEM_ACTOR)"

text \<open>\<open>SELECT COALESCE(MAX(seq), 0) + 1 FROM audit_events\<close>.\<close>

definition next_seq :: "db \<Rightarrow> int" where
  "next_seq s = (case map au_seq (db_audits s) of [] \<Rightarrow> 0 | x # xs \<Rightarrow> foldl max x xs) + 1"

definition audit :: "env \<Rightarrow> nat \<Rightarrow> string \<Rightarrow> json \<Rightarrow> string \<Rightarrow> string option \<Rightarrow> string option
    \<Rightarrow> string option \<Rightarrow> string \<Rightarrow> db \<Rightarrow> error + db" where
  "audit e k p actor action subject_type subject_id request_id summary s =
     (let sq = next_seq s;
          row = \<lparr>au_id = mint ''aud'' (rnd e k), au_seq = sq,
                 au_event_id = event_id sq (rnd e (Suc k)), au_project = p, au_actor = actor,
                 au_action = action, au_subject_type = subject_type, au_subject_id = subject_id,
                 au_request_id = request_id, au_occurred_at = clock e, au_summary = summary\<rparr>
      in if au_event_id row \<in> set (map au_event_id (db_audits s)) then Inl IntegrityError
         else bindE (insert_row au_id row (db_audits s)) (\<lambda>as. Inr (s\<lparr>db_audits := as\<rparr>)))"

definition audit_trail :: "db \<Rightarrow> string \<Rightarrow> int \<Rightarrow> nat \<Rightarrow> audit_row list" where
  "audit_trail s p after_seq limit =
     take limit (sort_key au_seq
       (filter (\<lambda>r. au_project r = p \<and> au_seq r > after_seq) (db_audits s)))"

section \<open>Request log\<close>

definition body_hash :: "env \<Rightarrow> string \<Rightarrow> json \<Rightarrow> string" where
  "body_hash e operation body = sha256 e (operation, canon body)"

definition replay :: "env \<Rightarrow> string \<Rightarrow> string option \<Rightarrow> string \<Rightarrow> json \<Rightarrow> db \<Rightarrow> error + response option" where
  "replay e p request_id operation body s =
     (case request_id of
        None \<Rightarrow> Inr None
      | Some rid \<Rightarrow>
          if \<not> request_id_ok rid
          then Inl (MalformedRequest ''request_id must be a UUID.'' [(''request_id'', JStr rid)])
          else case List.find (\<lambda>r. rq_project r = p \<and> rq_id r = rid) (db_requests s) of
                 None \<Rightarrow> Inr None
               | Some row \<Rightarrow>
                   if rq_body_hash row \<noteq> body_hash e operation body then Inl (RequestIdReused rid)
                   else Inr (Some (rq_response row)))"

definition remember :: "env \<Rightarrow> string \<Rightarrow> string option \<Rightarrow> string \<Rightarrow> json \<Rightarrow> response \<Rightarrow> db \<Rightarrow> error + db" where
  "remember e p request_id operation body response s =
     (case request_id of
        None \<Rightarrow> Inr s
      | Some rid \<Rightarrow>
          bindE (insert_row rq_key
              \<lparr>rq_id = rid, rq_project = p, rq_operation = operation,
               rq_body_hash = body_hash e operation body, rq_response = response,
               rq_created_at = clock e\<rparr> (db_requests s))
            (\<lambda>rs. Inr (s\<lparr>db_requests := rs\<rparr>)))"

text \<open>
  Every guarded operation begins its transaction with \<open>_replay\<close> and ends it with
  \<open>_remember\<close>; \<open>act\<close> is what stands between.
\<close>

definition idem :: "env \<Rightarrow> string \<Rightarrow> string option \<Rightarrow> string \<Rightarrow> json
    \<Rightarrow> (db \<Rightarrow> error + db \<times> response) \<Rightarrow> db \<Rightarrow> error + db \<times> response" where
  "idem e p request_id operation body act s =
     bindE (replay e p request_id operation body s) (\<lambda>stored.
       case stored of
         Some r \<Rightarrow> Inr (s, r)
       | None \<Rightarrow>
           bindE (act s) (\<lambda>(s', r).
             bindE (remember e p request_id operation body r s') (\<lambda>s''. Inr (s'', r))))"

section \<open>Projects\<close>

definition create_project :: "env \<Rightarrow> string \<Rightarrow> string \<Rightarrow> string option \<Rightarrow> db \<Rightarrow> error + db \<times> response" where
  "create_project e name source project_id s =
     (let pid = (if truthy_str project_id then the project_id else mint ''prj'' (rnd e 0));
          row = \<lparr>pr_id = pid, pr_name = name, pr_version = 1, pr_created_at = clock e,
                 pr_source = source, pr_paused = False\<rparr>
      in if source \<notin> {''native'', ''imported_legacy''} then Inl IntegrityError
         else bindE (insert_row pr_id row (db_projects s)) (\<lambda>ps.
           bindE (audit e 1 pid SYSTEM_ACTOR ''project.create'' (Some ''project'') (Some pid) None
                    (''created project '' @ name) (s\<lparr>db_projects := ps\<rparr>))
             (\<lambda>s'. Inr (s', RProject row))))"

section \<open>Agents\<close>

definition fresh_health :: json where
  "fresh_health = JObj [(''config_installed'', JBool False), (''server_received'', JBool False),
     (''response_delivered'', JBool False), (''session_adopted'', JBool False)]"

definition is_active :: "ticket_row \<Rightarrow> bool" where
  "is_active t \<longleftrightarrow> t_state t = Claimed \<or> t_state t = Review"

text \<open>\<open>SELECT COUNT(*) FROM tickets WHERE owner = ? AND state IN ('claimed', 'review')\<close>.\<close>

definition active_count :: "db \<Rightarrow> string \<Rightarrow> int" where
  "active_count s aid = int (length (filter (\<lambda>t. t_owner t = Some aid \<and> is_active t) (db_tickets s)))"

definition get_agent :: "string \<Rightarrow> string option \<Rightarrow> db \<Rightarrow> error + response" where
  "get_agent aid project_id s =
     (let missing = Inl (NotFound ''No such agent.'' [(''agent_id'', JStr aid)]) in
      case find_agent s aid of
        None \<Rightarrow> missing
      | Some a \<Rightarrow>
          if project_id \<noteq> None \<and> project_id \<noteq> Some (ag_project a) then missing
          else Inr (RAgent \<lparr>av_row = a, av_active_tickets = active_count s aid\<rparr>))"

definition create_agent :: "env \<Rightarrow> string \<Rightarrow> string \<Rightarrow> string option \<Rightarrow> string list \<Rightarrow> string \<Rightarrow> int
    \<Rightarrow> json \<Rightarrow> string option \<Rightarrow> db \<Rightarrow> error + db \<times> response" where
  "create_agent e p name role capabilities mode max_active runtime agent_id s =
     (let aid = (if truthy_str agent_id then the agent_id else mint ''agt'' (rnd e 0));
          row = \<lparr>ag_id = aid, ag_project = p, ag_name = name, ag_role = role,
                 ag_capabilities = capabilities, ag_state = Idle, ag_mode = mode,
                 ag_runtime = py_or runtime (JObj []), ag_max_active = max_active,
                 ag_current_ticket = None, ag_worktree = None, ag_hook_health = fresh_health,
                 ag_last_heartbeat_at = None, ag_last_progress_at = None, ag_version = 1,
                 ag_created_at = clock e\<rparr>
      in if \<not> project_exists s p \<or> mode \<notin> {''managed'', ''hook_only''} \<or> max_active < 1
            \<or> (p, name) \<in> set (map (\<lambda>a. (ag_project a, ag_name a)) (db_agents s))
         then Inl IntegrityError
         else bindE (insert_row ag_id row (db_agents s)) (\<lambda>as.
           bindE (audit e 1 p SYSTEM_ACTOR ''agent.create'' (Some ''agent'') (Some aid) None
                    (''registered agent '' @ name) (s\<lparr>db_agents := as\<rparr>)) (\<lambda>s'.
           bindE (get_agent aid None s') (\<lambda>r. Inr (s', r)))))"

definition get_agent_preset :: "string \<Rightarrow> string option \<Rightarrow> db \<Rightarrow> error + response" where
  "get_agent_preset aid project_id s =
     (case List.find (\<lambda>r. ps_agent r = aid) (db_presets s) of
        None \<Rightarrow> Inr (RPreset None)
      | Some row \<Rightarrow>
          (case project_id of
             None \<Rightarrow> Inr (RPreset (Some row))
           | Some p \<Rightarrow> if ps_project row \<noteq> p then Inl (ForbiddenScope p (Some aid))
                       else Inr (RPreset (Some row))))"

text \<open>\<open>INSERT OR REPLACE\<close>: the row of the same agent goes, the new one is appended.\<close>

definition set_agent_preset :: "env \<Rightarrow> string \<Rightarrow> string \<Rightarrow> string \<Rightarrow> string \<Rightarrow> string \<Rightarrow> string option
    \<Rightarrow> stamp option \<Rightarrow> db \<Rightarrow> error + db \<times> response" where
  "set_agent_preset e p aid preset policy profile worktree at s =
     (let row = \<lparr>ps_agent = aid, ps_project = p, ps_preset = preset, ps_policy = policy,
                 ps_worktree = worktree, ps_profile = profile,
                 ps_created_at = (case at of None \<Rightarrow> clock e | Some w \<Rightarrow> w)\<rparr>
      in if find_agent s aid = None \<or> \<not> project_exists s p
            \<or> preset \<notin> {''worker'', ''reviewer'', ''master''}
            \<or> policy \<notin> {''prompt'', ''allowlist'', ''deny_all''}
         then Inl IntegrityError
         else bindE (audit e 1 p SYSTEM_ACTOR ''agent.preset'' (Some ''agent'') (Some aid) None
                  (''approved '' @ preset @ '' preset ('' @ policy @ '')'')
                  (s\<lparr>db_presets := filter (\<lambda>r. ps_agent r \<noteq> aid) (db_presets s) @ [row]\<rparr>)) (\<lambda>s'.
              bindE (get_agent_preset aid (Some p) s') (\<lambda>r. Inr (s', r))))"

fun agent_state_name :: "agent_state \<Rightarrow> string" where
  "agent_state_name Connected = ''connected''"
| "agent_state_name Idle = ''idle''"
| "agent_state_name Working = ''working''"
| "agent_state_name AwaitingInput = ''awaiting-input''"
| "agent_state_name Offline = ''offline''"
| "agent_state_name Revoked = ''revoked''"

definition re_enroll_agent :: "env \<Rightarrow> string \<Rightarrow> string \<Rightarrow> string option \<Rightarrow> string list \<Rightarrow> string \<Rightarrow> int
    \<Rightarrow> string option \<Rightarrow> db \<Rightarrow> error + db \<times> response" where
  "re_enroll_agent e p aid role capabilities mode max_active worktree s =
     (case List.find (\<lambda>a. ag_id a = aid \<and> ag_project a = p) (db_agents s) of
        None \<Rightarrow> Inl (NotFound ''No such agent.'' [(''agent_id'', JStr aid)])
      | Some row \<Rightarrow>
          if ag_state row \<noteq> Revoked
          then Inl (InvalidStateTransition aid (agent_state_name (ag_state row)) ''re_enrolled'')
          else if mode \<notin> {''managed'', ''hook_only''} \<or> max_active < 1 then Inl IntegrityError
          else let s1 = s\<lparr>db_agents := update_where (\<lambda>a. ag_id a = aid \<and> ag_project a = p)
                   (\<lambda>a. a\<lparr>ag_role := role, ag_capabilities := capabilities, ag_mode := mode,
                          ag_max_active := max_active, ag_worktree := worktree, ag_state := Idle,
                          ag_hook_health := fresh_health, ag_version := ag_version a + 1\<rparr>)
                   (db_agents s)\<rparr>
               in bindE (audit e 1 p SYSTEM_ACTOR ''agent.re_enroll'' (Some ''agent'') (Some aid) None
                       (''re-enrolled agent '' @ aid) s1) (\<lambda>s'.
                  bindE (get_agent aid (Some p) s') (\<lambda>r. Inr (s', r))))"

definition find_agent_by_name :: "db \<Rightarrow> string \<Rightarrow> string \<Rightarrow> agent_row option" where
  "find_agent_by_name s p name =
     List.find (\<lambda>a. ag_project a = p \<and> ag_name a = name) (db_agents s)"

definition record_heartbeat :: "env \<Rightarrow> string \<Rightarrow> stamp option \<Rightarrow> db \<Rightarrow> error + db \<times> response" where
  "record_heartbeat e aid at s =
     (if find_agent s aid = None then Inl (NotFound ''No such agent.'' [(''agent_id'', JStr aid)])
      else let s' = update_agent aid (\<lambda>a. a\<lparr>
                   ag_last_heartbeat_at := Some (case at of None \<Rightarrow> clock e | Some w \<Rightarrow> w),
                   ag_version := ag_version a + 1\<rparr>) s
           in bindE (get_agent aid None s') (\<lambda>r. Inr (s', r)))"

section \<open>Who occupies a checkout\<close>

text \<open>
  \<open>find_worktree_occupant\<close> scans the enrolled agents in row order;
  \<open>find_worktree_claimant\<close> then scans the live runner leases. Revoked agents hold
  nothing, an expired lease holds nothing, and the caller's own row is skipped.
\<close>

definition find_worktree_occupant :: "db \<Rightarrow> string \<Rightarrow> string \<Rightarrow> string option \<Rightarrow> agent_row option" where
  "find_worktree_occupant s p worktree exclude =
     (let needle = normalize worktree in
      if needle = [] then None
      else List.find (\<lambda>a. exclude \<noteq> Some (ag_id a) \<and> ag_state a \<noteq> Revoked
                        \<and> overlaps needle (the (ag_worktree a)))
             (filter (\<lambda>a. ag_project a = p \<and> truthy_str (ag_worktree a)) (db_agents s)))"

text \<open>
  A claimant by lease is the agent of the lease together with the leased directory, which
  replaces the agent's own column in the result, as in the code's SELECT.
\<close>

definition lease_holder :: "db \<Rightarrow> runner_row \<Rightarrow> agent_row option" where
  "lease_holder s l = map_option (\<lambda>a. a\<lparr>ag_worktree := Some (rl_worktree l)\<rparr>) (find_agent s (rl_agent l))"

definition find_worktree_claimant :: "env \<Rightarrow> db \<Rightarrow> string \<Rightarrow> string \<Rightarrow> string option \<Rightarrow> stamp option
    \<Rightarrow> agent_row option" where
  "find_worktree_claimant e s p worktree exclude at =
     (case find_worktree_occupant s p worktree exclude of
        Some a \<Rightarrow> Some a
      | None \<Rightarrow>
          let needle = normalize worktree; now = (case at of None \<Rightarrow> clock e | Some w \<Rightarrow> w) in
          if needle = [] then None
          else List.find (\<lambda>a. exclude \<noteq> Some (ag_id a) \<and> ag_state a \<noteq> Revoked
                            \<and> lease_precludes_registration (the (ag_worktree a)) needle)
                 (List.map_filter (lease_holder s)
                   (filter (\<lambda>l. rl_project l = p \<and> rl_expires_at l > now \<and> rl_worktree l \<noteq> [])
                     (db_runners s))))"

section \<open>Session leases\<close>

definition get_session :: "string \<Rightarrow> db \<Rightarrow> error + response" where
  "get_session sid s =
     (case find_session s sid of
        None \<Rightarrow> Inl (NotFound ''No such session.'' [(''session_id'', JStr sid)])
      | Some r \<Rightarrow> Inr (RSession r))"

definition open_session :: "env \<Rightarrow> string \<Rightarrow> stamp \<Rightarrow> string option \<Rightarrow> stamp option \<Rightarrow> db
    \<Rightarrow> error + db \<times> response" where
  "open_session e aid expires_at session_id at s =
     (let sid = (if truthy_str session_id then the session_id else mint ''ses'' (rnd e 0));
          now = (case at of None \<Rightarrow> clock e | Some w \<Rightarrow> w)
      in case find_agent s aid of
           None \<Rightarrow> Inl (NotFound ''No such agent.'' [(''agent_id'', JStr aid)])
         | Some a \<Rightarrow>
             bindE (insert_row se_id \<lparr>se_id = sid, se_agent = aid, se_acquired_at = now,
                      se_expires_at = expires_at, se_version = 1, se_revoked_at = None,
                      se_note = None\<rparr> (db_sessions s)) (\<lambda>ss.
             bindE (audit e 1 (ag_project a) SYSTEM_ACTOR ''session.open'' (Some ''agent'') (Some aid)
                      None (''session '' @ sid @ '' opened'') (s\<lparr>db_sessions := ss\<rparr>)) (\<lambda>s'.
             bindE (get_session sid s') (\<lambda>r. Inr (s', r)))))"

definition revoke_session :: "env \<Rightarrow> string \<Rightarrow> string option \<Rightarrow> stamp option \<Rightarrow> db
    \<Rightarrow> error + db \<times> response" where
  "revoke_session e sid note at s =
     (case find_session s sid of
        None \<Rightarrow> Inl (NotFound ''No such session.'' [(''session_id'', JStr sid)])
      | Some row \<Rightarrow>
          let s1 = s\<lparr>db_sessions := update_where (\<lambda>r. se_id r = sid)
                (\<lambda>r. r\<lparr>se_revoked_at := Some (case at of None \<Rightarrow> clock e | Some w \<Rightarrow> w),
                       se_note := note, se_version := se_version r + 1\<rparr>) (db_sessions s)\<rparr>
          in case find_agent s1 (se_agent row) of
               None \<Rightarrow> Inl AttributeError
             | Some a \<Rightarrow>
                 bindE (audit e 1 (ag_project a) SYSTEM_ACTOR ''session.revoke'' (Some ''agent'')
                          (Some (se_agent row)) None (''session '' @ sid @ '' revoked'') s1) (\<lambda>s'.
                 bindE (get_session sid s') (\<lambda>r. Inr (s', r))))"

definition session_is_current :: "db \<Rightarrow> string option \<Rightarrow> bool" where
  "session_is_current s session_id =
     (case session_id of
        None \<Rightarrow> False
      | Some sid \<Rightarrow>
          (case find_session s sid of None \<Rightarrow> False | Some r \<Rightarrow> se_revoked_at r = None))"

end
