(* ===== verification/Work_View.thy ===== *)
theory Work_View
  imports Atman_Errors
begin

text \<open>
  The dependency release gate of \<open>work_view.py\<close> (lines 332-600): when does a
  finished ticket let the tickets that depend on it start? A ticket is the JSON object the
  board keeps; every function reads it with \<open>dict.get\<close> and raises where Python
  would. Only structured records count: an accept event bound to the current review
  head, a merge record, or a recorded override.
\<close>

section \<open>The gate\<close>

definition full_sha :: "string \<Rightarrow> bool" where
  "full_sha h \<longleftrightarrow> length h = 40 \<and> list_all is_hex h"

definition clean_head :: "json \<Rightarrow> error + string" where
  "clean_head t = bindE (py_get_text t ''review_head'') (\<lambda>h. Inr (py_lower (py_strip h)))"

definition current_release_head_matches :: "json \<Rightarrow> json \<Rightarrow> error + bool" where
  "current_release_head_matches t sha =
     bindE (clean_head t) (\<lambda>head.
       if full_sha head
       then bindE (py_text sha) (\<lambda>s. Inr (head = py_lower (py_strip s)))
       else Inr False)"

text \<open>The \<open>for\<close> loop of \<open>structured_accept\<close>, one event at a time.\<close>

definition accept_event :: "json \<Rightarrow> json \<Rightarrow> error + bool" where
  "accept_event t ev =
     (if \<not> is_dict ev then Inr False
      else bindE (py_get_text ev ''kind'') (\<lambda>kind.
        if py_lower (py_strip kind) \<noteq> ''accept'' then Inr False
        else bindE (py_get_text ev ''sha'') (\<lambda>sha.
          bindE (py_get ev ''superseded'') (\<lambda>sup.
            if truthy sup then Inr False
            else current_release_head_matches t (JStr (py_strip sha))))))"

fun any_accept :: "json \<Rightarrow> json list \<Rightarrow> error + bool" where
  "any_accept t [] = Inr False"
| "any_accept t (ev # evs) =
     bindE (accept_event t ev) (\<lambda>hit. if hit then Inr True else any_accept t evs)"

definition structured_accept :: "json \<Rightarrow> error + bool" where
  "structured_accept t =
     bindE (py_get_text t ''review_head'') (\<lambda>head.
       if py_strip head = [] then Inr False
       else bindE (bindE (py_get t ''review_events'') py_items) (any_accept t))"

definition make_merge_record :: "string \<Rightarrow> string \<Rightarrow> string \<Rightarrow> string \<Rightarrow> string \<Rightarrow> json" where
  "make_merge_record by at sha pin trunk =
     JObj [(''kind'', JStr ''merge''), (''by'', JStr by), (''at'', JStr at),
           (''sha'', JStr (py_strip sha)), (''pin'', JStr (py_strip pin)),
           (''trunk'', JStr (py_strip trunk))]"

definition structured_merge :: "json \<Rightarrow> error + bool" where
  "structured_merge t =
     bindE (py_get t ''merge_record'') (\<lambda>rec.
       if \<not> is_dict rec then Inr False
       else bindE (py_get_text rec ''kind'') (\<lambda>kind.
         if py_lower (py_strip kind) \<noteq> ''merge'' then Inr False
         else bindE (py_get rec ''superseded'') (\<lambda>sup.
           if truthy sup then Inr False
           else bindE (py_get_text rec ''sha'') (\<lambda>sha.
             if py_strip sha = [] then Inr False
             else bindE (py_get_text rec ''by'') (\<lambda>by'.
               if py_strip by' = [] then Inr False
               else bindE (py_get rec ''pin'') (current_release_head_matches t))))))"

definition make_release_override :: "string \<Rightarrow> string \<Rightarrow> string \<Rightarrow> string \<Rightarrow> json" where
  "make_release_override kind by at reason =
     JObj [(''kind'', JStr kind), (''by'', JStr by), (''at'', JStr at), (''reason'', JStr reason)]"

definition override_recorded :: "json \<Rightarrow> error + bool" where
  "override_recorded t =
     bindE (py_get t ''release_override'') (\<lambda>ov.
       if is_dict ov then bindE (py_get ov ''kind'') (\<lambda>k. Inr (truthy k)) else Inr False)"

text \<open>\<open>a or b\<close> over tests that may raise: the second is not evaluated after a hit.\<close>

definition orE :: "'e + bool \<Rightarrow> 'e + bool \<Rightarrow> 'e + bool" where
  "orE a b = bindE a (\<lambda>x. if x then Inr True else b)"

lemma orE_True [result_simps]: "orE a b = Inr True \<longleftrightarrow> a = Inr True \<or> (a = Inr False \<and> b = Inr True)"
  by (auto simp: orE_def result_simps split: if_splits)

lemma orE_False [result_simps]: "orE a b = Inr False \<longleftrightarrow> a = Inr False \<and> b = Inr False"
  by (auto simp: orE_def result_simps split: if_splits)

definition dep_released :: "json \<Rightarrow> error + bool" where
  "dep_released t =
     bindE (py_get t ''status'') (\<lambda>st.
       if st \<noteq> JStr ''done'' then Inr False
       else orE (orE (structured_accept t) (structured_merge t)) (override_recorded t))"

section \<open>What reads the gate\<close>

text \<open>\<open>by_id = dict((x["id"], x) for x in tickets)\<close>: the last ticket of an id wins.\<close>

fun index_by_id :: "json list \<Rightarrow> error + (json \<times> json) list" where
  "index_by_id [] = Inr []"
| "index_by_id (x # xs) =
     bindE (py_index x ''id'') (\<lambda>i. bindE (index_by_id xs) (\<lambda>ix. Inr (ix @ [(i, x)])))"

fun first_unreleased :: "(json \<times> json) list \<Rightarrow> bool \<Rightarrow> json list \<Rightarrow> error + json" where
  "first_unreleased ix only_done [] = Inr (JStr [])"
| "first_unreleased ix only_done (d # ds) =
     (case map_of ix d of
        None \<Rightarrow> Inr d
      | Some pred \<Rightarrow>
          bindE (dep_released pred) (\<lambda>rel.
            if rel then first_unreleased ix only_done ds
            else bindE (py_get pred ''status'') (\<lambda>st.
              if only_done \<and> st \<noteq> JStr ''done'' then first_unreleased ix only_done ds
              else Inr d)))"

definition unreleased_dep_id :: "json \<Rightarrow> json list \<Rightarrow> bool \<Rightarrow> error + json" where
  "unreleased_dep_id t ts only_done =
     bindE (index_by_id ts) (\<lambda>ix.
       bindE (bindE (py_get t ''deps'') py_items) (first_unreleased ix only_done))"

fun released_ids :: "json list \<Rightarrow> error + json list" where
  "released_ids [] = Inr []"
| "released_ids (t # ts) =
     bindE (dep_released t) (\<lambda>rel.
       if rel then bindE (py_index t ''id'') (\<lambda>i. bindE (released_ids ts) (\<lambda>r. Inr (i # r)))
       else released_ids ts)"

definition accepted_release_sha :: "json \<Rightarrow> error + string" where
  "accepted_release_sha t =
     bindE (orE (structured_accept t) (structured_merge t)) (\<lambda>b.
       if b then clean_head t else Inr [])"

definition went_through_review :: "json \<Rightarrow> error + bool" where
  "went_through_review t =
     bindE (py_get t ''review_at'') (\<lambda>a. if truthy a then Inr True
       else bindE (py_get t ''review_head'') (\<lambda>h. if truthy h then Inr True
         else bindE (bindE (py_get t ''review_events'') py_items) (\<lambda>evs. Inr (list_ex is_dict evs))))"

definition is_docs_exempt :: "json \<Rightarrow> error + bool" where
  "is_docs_exempt t =
     bindE (py_get_text t ''role'') (\<lambda>role.
       if py_strip role \<in> {''docs'', ''pm''}
       then bindE (went_through_review t) (\<lambda>w. Inr (\<not> w)) else Inr False)"

text \<open>
  \<open>supersede_release_evidence\<close> marks the earlier verdicts in place; the model returns
  the ticket with the marked events and the marked merge record. Events that are not a
  list cannot be marked in place and stay as they are.
\<close>

definition mark_superseded :: "json \<Rightarrow> json" where
  "mark_superseded ev = (if is_dict ev then py_set ''superseded'' (JBool True) ev else ev)"

definition supersede_release_evidence :: "json \<Rightarrow> error + json" where
  "supersede_release_evidence t =
     bindE (py_get t ''review_events'') (\<lambda>evs.
     bindE (py_items evs) (\<lambda>_.
     bindE (py_get t ''merge_record'') (\<lambda>rec.
       let t1 = (case evs of JArr xs \<Rightarrow> py_set ''review_events'' (JArr (map mark_superseded xs)) t
                 | _ \<Rightarrow> t)
       in Inr (if is_dict rec then py_set ''merge_record'' (mark_superseded rec) t1 else t1))))"

text \<open>The newest accept that is neither superseded nor bound to the review head.\<close>

definition live_accept :: "json \<Rightarrow> error + bool" where
  "live_accept ev =
     (if \<not> is_dict ev then Inr False
      else bindE (py_get_text ev ''kind'') (\<lambda>kind.
        if py_lower (py_strip kind) \<noteq> ''accept'' then Inr False
        else bindE (py_get ev ''superseded'') (\<lambda>sup. Inr (\<not> truthy sup))))"

fun newest_accept :: "json list \<Rightarrow> json option \<Rightarrow> error + json option" where
  "newest_accept [] latest = Inr latest"
| "newest_accept (ev # evs) latest =
     bindE (live_accept ev) (\<lambda>hit. newest_accept evs (if hit then Some ev else latest))"

definition unbound_accept_event :: "json \<Rightarrow> error + json option" where
  "unbound_accept_event t =
     bindE (structured_accept t) (\<lambda>b.
       if b then Inr None
       else bindE (bindE (py_get t ''review_events'') py_items) (\<lambda>evs. newest_accept evs None))"

definition unbound_accept_fix_cmd :: "string \<Rightarrow> string" where
  "unbound_accept_fix_cmd tid =
     (let i = (if tid = [] then ''<id>'' else tid); q = [CHR 0x22] in
      ''atm reopen '' @ i @ '' --notes '' @ q @ ''...'' @ q @ ''; atm claim '' @ i
        @ ''; atm review '' @ i @ '' --notes '' @ q @ ''...'' @ q @ ''; atm accept '' @ i
        @ '' --sha <new head> --notes '' @ q @ ''...'' @ q)"

definition accept_cmd :: "string \<Rightarrow> string" where
  "accept_cmd tid =
     (let q = [CHR 0x22] in ''atm accept '' @ tid @ '' --sha <review head> --notes '' @ q @ ''...'' @ q)"

record blocker =
  bl_kind :: string
  bl_on :: string
  bl_text :: string
  bl_cmd :: string

definition or_default :: "string \<Rightarrow> string \<Rightarrow> string" where
  "or_default s d = (if s = [] then d else s)"

text \<open>The words both branches of \<open>blockers_of\<close> print about an unbound accept.\<close>

definition unbound_words :: "json \<Rightarrow> error + string" where
  "unbound_words ev =
     bindE (py_get_text ev ''by'') (\<lambda>by'. bindE (py_get_text ev ''sha'') (\<lambda>sha.
       Inr (''accept by @'' @ or_default (py_strip by') ''?'' @ '' on ''
            @ or_default (take 7 (py_strip sha)) ''?'' @ '' is not bound to a review head'')))"

text \<open>A ticket's status is a string or absent, which is what \<open>%s\<close> prints here.\<close>

definition dep_blocker :: "(string \<rightharpoonup> json) \<Rightarrow> string \<Rightarrow> error + blocker list" where
  "dep_blocker by_id d =
     (case by_id d of
        None \<Rightarrow> Inr [\<lparr>bl_kind = ''dep_open'', bl_on = d,
                   bl_text = ''dep '' @ d @ '' is not on this board'', bl_cmd = ''atm show '' @ d\<rparr>]
      | Some dep \<Rightarrow>
          bindE (dep_released dep) (\<lambda>rel.
            if rel then Inr []
            else bindE (py_get dep ''status'') (\<lambda>st.
              if st = JStr ''done''
              then bindE (unbound_accept_event dep) (\<lambda>u. case u of
                     Some ev \<Rightarrow> bindE (unbound_words ev) (\<lambda>w.
                       Inr [\<lparr>bl_kind = ''dep_unaccepted'', bl_on = d,
                             bl_text = ''dep '' @ d @ '' '' @ w, bl_cmd = unbound_accept_fix_cmd d\<rparr>])
                   | None \<Rightarrow> Inr [\<lparr>bl_kind = ''dep_unaccepted'', bl_on = d,
                       bl_text = ''dep '' @ d @ '' done, not accepted'', bl_cmd = accept_cmd d\<rparr>])
              else Inr [\<lparr>bl_kind = ''dep_open'', bl_on = d,
                      bl_text = ''dep '' @ d @ '' still ''
                        @ (case st of JStr w \<Rightarrow> or_default w ''open'' | _ \<Rightarrow> ''open''),
                      bl_cmd = ''atm show '' @ d\<rparr>])))"

fun dep_blockers :: "(string \<rightharpoonup> json) \<Rightarrow> string list \<Rightarrow> error + blocker list" where
  "dep_blockers by_id [] = Inr []"
| "dep_blockers by_id (d # ds) =
     bindE (dep_blocker by_id d) (\<lambda>b. bindE (dep_blockers by_id ds) (\<lambda>bs. Inr (b @ bs)))"

text \<open>
  A plan node: its id, phase, the unverified flag and its dependency ids. A finished
  node is blocked only by a missing acceptance of itself.
\<close>

record plan_node =
  nd_id :: string
  nd_phase :: string
  nd_unverified :: bool
  nd_deps :: "string list"
  nd_json :: json

definition blockers_of :: "plan_node \<Rightarrow> (string \<rightharpoonup> json) \<Rightarrow> error + blocker list" where
  "blockers_of node by_id =
     (let tid = nd_id node in
      if nd_phase node = ''done''
      then (if nd_unverified node
            then bindE (unbound_accept_event (case by_id tid of Some t \<Rightarrow> t | None \<Rightarrow> nd_json node))
              (\<lambda>u. case u of
                 Some ev \<Rightarrow> bindE (unbound_words ev) (\<lambda>w.
                   Inr [\<lparr>bl_kind = ''unaccepted'', bl_on = tid, bl_text = w,
                         bl_cmd = unbound_accept_fix_cmd tid\<rparr>])
               | None \<Rightarrow> Inr [\<lparr>bl_kind = ''unaccepted'', bl_on = tid,
                             bl_text = ''done, not accepted'', bl_cmd = accept_cmd tid\<rparr>])
            else Inr [])
      else dep_blockers by_id (nd_deps node))"

section \<open>What a release rests on\<close>

definition accept_bound :: "json \<Rightarrow> bool" where
  "accept_bound t \<longleftrightarrow>
     (\<exists>head evs ev kind sha sup. clean_head t = Inr head \<and> full_sha head
        \<and> bindE (py_get t ''review_events'') py_items = Inr evs \<and> ev \<in> set evs \<and> is_dict ev
        \<and> py_get_text ev ''kind'' = Inr kind \<and> py_lower (py_strip kind) = ''accept''
        \<and> py_get ev ''superseded'' = Inr sup \<and> \<not> truthy sup
        \<and> py_get_text ev ''sha'' = Inr sha \<and> py_lower (py_strip (py_strip sha)) = head)"

definition merge_bound :: "json \<Rightarrow> bool" where
  "merge_bound t \<longleftrightarrow>
     (\<exists>head rec sup pin. clean_head t = Inr head \<and> full_sha head
        \<and> py_get t ''merge_record'' = Inr rec \<and> is_dict rec
        \<and> py_get rec ''superseded'' = Inr sup \<and> \<not> truthy sup
        \<and> bindE (py_get rec ''pin'') py_text = Inr pin \<and> py_lower (py_strip pin) = head)"

lemma head_matches_True:
  "current_release_head_matches t v = Inr True \<longleftrightarrow>
     (\<exists>head s. clean_head t = Inr head \<and> full_sha head \<and> py_text v = Inr s
        \<and> head = py_lower (py_strip s))"
  by (auto simp: current_release_head_matches_def result_simps split: if_splits)

lemma accept_event_True:
  "accept_event t ev = Inr True \<Longrightarrow>
     is_dict ev \<and> (\<exists>kind sha sup. py_get_text ev ''kind'' = Inr kind
       \<and> py_lower (py_strip kind) = ''accept'' \<and> py_get_text ev ''sha'' = Inr sha
       \<and> py_get ev ''superseded'' = Inr sup \<and> \<not> truthy sup
       \<and> current_release_head_matches t (JStr (py_strip sha)) = Inr True)"
  by (auto simp: accept_event_def result_simps split: if_splits)

lemma any_accept_True:
  "any_accept t evs = Inr True \<Longrightarrow> \<exists>ev \<in> set evs. accept_event t ev = Inr True"
  by (induction evs) (auto simp: result_simps split: if_splits)

lemma structured_accept_bound: "structured_accept t = Inr True \<Longrightarrow> accept_bound t"
proof -
  assume "structured_accept t = Inr True"
  then obtain evs where evs: "bindE (py_get t ''review_events'') py_items = Inr evs"
    and hit: "any_accept t evs = Inr True"
    by (fastforce simp: structured_accept_def result_simps split: if_splits)
  obtain ev where ev: "ev \<in> set evs" "accept_event t ev = Inr True"
    using any_accept_True [OF hit] by blast
  from accept_event_True [OF ev(2)] show ?thesis
    unfolding accept_bound_def using evs ev(1) by (fastforce simp: head_matches_True)
qed

lemma structured_merge_bound: "structured_merge t = Inr True \<Longrightarrow> merge_bound t"
  unfolding structured_merge_def merge_bound_def
  by (auto simp: result_simps head_matches_True split: if_splits)

lemma dep_released_cases:
  "dep_released t = Inr True \<Longrightarrow>
     py_get t ''status'' = Inr (JStr ''done'')
     \<and> (structured_accept t = Inr True \<or> structured_merge t = Inr True
        \<or> override_recorded t = Inr True)"
  by (auto simp: dep_released_def result_simps split: if_splits)

lemma override_recorded_False: "override_recorded t = Inr b \<Longrightarrow> \<exists>v. py_get t ''release_override'' = Inr v"
  by (auto simp: override_recorded_def result_simps)

section \<open>Superseding the evidence\<close>

lemma is_dict_mark [simp]: "is_dict (mark_superseded ev) = is_dict ev"
  by (simp add: mark_superseded_def)

lemma mark_superseded_get:
  "is_dict ev \<Longrightarrow> py_get (mark_superseded ev) ''superseded'' = Inr (JBool True)"
  by (simp add: mark_superseded_def py_get_set)

lemma accept_event_marked: "accept_event t (mark_superseded ev) \<noteq> Inr True"
proof
  assume "accept_event t (mark_superseded ev) = Inr True"
  then obtain sup where "is_dict ev" "py_get (mark_superseded ev) ''superseded'' = Inr sup" "\<not> truthy sup"
    by (auto dest!: accept_event_True simp: mark_superseded_def split: if_splits)
  then show False by (auto simp: mark_superseded_def py_get_set)
qed

lemma accept_event_not_dict: "\<not> is_dict ev \<Longrightarrow> accept_event t ev \<noteq> Inr True"
  by (simp add: accept_event_def)

lemma py_items_not_dict:
  "py_items v = Inr xs \<Longrightarrow> \<forall>ys. v \<noteq> JArr ys \<Longrightarrow> x \<in> set xs \<Longrightarrow> \<not> is_dict x"
  by (cases v) (auto simp: py_items_def split: if_splits)

definition mark_events :: "json \<Rightarrow> json" where
  "mark_events evs = (case evs of JArr xs \<Rightarrow> JArr (map mark_superseded xs) | v \<Rightarrow> v)"

lemma mark_events_JArr: "mark_events evs = JArr ys \<Longrightarrow> \<exists>xs. ys = map mark_superseded xs"
  by (cases evs) (auto simp: mark_events_def)

lemma supersede_shape:
  assumes "supersede_release_evidence t = Inr t'"
  obtains evs rec t1 where "is_dict t"
    "py_get t ''review_events'' = Inr evs" "py_get t ''merge_record'' = Inr rec"
    "t1 = t \<and> mark_events evs = evs \<or> t1 = py_set ''review_events'' (mark_events evs) t"
    "t' = t1 \<and> \<not> is_dict rec \<or> t' = py_set ''merge_record'' (mark_superseded rec) t1 \<and> is_dict rec"
proof -
  from assms obtain evs rec where g: "py_get t ''review_events'' = Inr evs" "py_get t ''merge_record'' = Inr rec"
    and t': "t' = (let t1 = (case evs of JArr xs \<Rightarrow> py_set ''review_events'' (JArr (map mark_superseded xs)) t
                 | _ \<Rightarrow> t)
       in if is_dict rec then py_set ''merge_record'' (mark_superseded rec) t1 else t1)"
    by (auto simp: supersede_release_evidence_def result_simps Let_def)
  from g have "is_dict t" using py_get_Inr by blast
  then show thesis
    using that [OF _ g] t' by (cases evs) (auto simp: Let_def mark_events_def split: if_splits)
qed

lemma supersede_get:
  assumes "supersede_release_evidence t = Inr t'"
  shows "\<exists>evs. py_get t ''review_events'' = Inr evs \<and> py_get t' ''review_events'' = Inr (mark_events evs)"
    and "\<exists>rec. py_get t ''merge_record'' = Inr rec \<and> py_get t' ''merge_record'' = Inr (mark_superseded rec)"
    and "k \<noteq> ''review_events'' \<Longrightarrow> k \<noteq> ''merge_record'' \<Longrightarrow> py_get t' k = py_get t k"
  using assms
  by (rule supersede_shape; auto simp: py_get_set mark_superseded_def)+

lemma supersede_accept:
  assumes "supersede_release_evidence t = Inr t'"
  shows "structured_accept t' \<noteq> Inr True"
proof
  assume "structured_accept t' = Inr True"
  then obtain v xs where v: "py_get t' ''review_events'' = Inr v" and xs: "py_items v = Inr xs"
    and hit: "any_accept t' xs = Inr True"
    by (fastforce simp: structured_accept_def result_simps split: if_splits)
  obtain ev where ev: "ev \<in> set xs" "accept_event t' ev = Inr True"
    using any_accept_True [OF hit] by blast
  obtain evs where evs: "v = mark_events evs" using supersede_get(1) [OF assms] v by auto
  show False
  proof (cases "\<exists>ys. v = JArr ys")
    case True
    then show ?thesis using mark_events_JArr evs xs ev accept_event_marked by fastforce
  next
    case False
    then show ?thesis using py_items_not_dict [OF xs] ev accept_event_not_dict by blast
  qed
qed

lemma supersede_merge:
  assumes "supersede_release_evidence t = Inr t'"
  shows "structured_merge t' \<noteq> Inr True"
proof
  assume "structured_merge t' = Inr True"
  from structured_merge_bound [OF this] obtain rec sup where
    "py_get t' ''merge_record'' = Inr rec" "is_dict rec" "py_get rec ''superseded'' = Inr sup" "\<not> truthy sup"
    by (auto simp: merge_bound_def)
  then show False using supersede_get(2) [OF assms] mark_superseded_get by force
qed

section \<open>Commit ids\<close>

lemma is_hex_not_space: "is_hex c \<Longrightarrow> \<not> is_space c"
  by (auto simp: is_hex_def is_space_def Let_def)

lemma is_hex_lower: "is_hex c \<Longrightarrow> lower_char c = c"
  by (auto simp: is_hex_def lower_char_def Let_def)

lemma py_strip_no_space: "list_all (\<lambda>c. \<not> is_space c) s \<Longrightarrow> py_strip s = s"
proof -
  have drop: "dropWhile is_space xs = xs" if "list_all (\<lambda>c. \<not> is_space c) xs" for xs
    using that by (cases xs) auto
  assume "list_all (\<lambda>c. \<not> is_space c) s"
  then show ?thesis by (simp add: py_strip_def drop)
qed

lemma full_sha_strip [simp]: "full_sha h \<Longrightarrow> py_strip h = h"
  by (rule py_strip_no_space) (auto simp: full_sha_def list_all_iff is_hex_not_space)

lemma full_sha_lower [simp]: "full_sha h \<Longrightarrow> py_lower h = h"
  by (auto simp: full_sha_def py_lower_def list_all_iff is_hex_lower intro: map_idI)

section \<open>Blockers and the gate agree\<close>

lemma dep_blocker_Nil:
  "dep_blocker by_id d = Inr [] \<longleftrightarrow> (\<exists>p. by_id d = Some p \<and> dep_released p = Inr True)"
  by (auto simp: dep_blocker_def result_simps split: option.splits if_splits)

lemma dep_blockers_Nil:
  "dep_blockers by_id ds = Inr [] \<longleftrightarrow>
     (\<forall>d \<in> set ds. \<exists>p. by_id d = Some p \<and> dep_released p = Inr True)"
  by (induction ds) (auto simp: result_simps dep_blocker_Nil)

lemma first_unreleased_empty:
  "\<forall>d \<in> set ds. d \<noteq> [] \<Longrightarrow>
   first_unreleased ix False (map JStr ds) = Inr (JStr []) \<longleftrightarrow>
     (\<forall>d \<in> set ds. \<exists>p. map_of ix (JStr d) = Some p \<and> dep_released p = Inr True)"
  by (induction ds) (auto simp: result_simps split: option.splits if_splits)

end
