(* ===== verification/Board_Tickets.thy ===== *)
theory Board_Tickets
  imports Board_Store Work_View
begin

text \<open>
  The ticket operations of \<open>storage/board.py\<close>: the artifact release gate
  (\<open>_unmet_dependencies\<close>), serialisation, create, set_dependencies, claim, updates,
  the transition table, acceptance criteria.
\<close>

section \<open>Lookup and the release gate\<close>

fun state_name :: "tstate \<Rightarrow> string" where
  "state_name Open = ''open''"
| "state_name Claimed = ''claimed''"
| "state_name Review = ''review''"
| "state_name Done = ''done''"
| "state_name Blocked = ''blocked''"

definition parse_state :: "string \<Rightarrow> tstate option" where
  "parse_state w = List.find (\<lambda>st. state_name st = w) [Open, Claimed, Review, Done, Blocked]"

definition ticket_row_of :: "db \<Rightarrow> string \<Rightarrow> string \<Rightarrow> error + ticket_row" where
  "ticket_row_of s p tid =
     (case find_ticket s p tid of
        None \<Rightarrow> Inl (NotFound ''No such ticket.'' [(''project_id'', JStr p), (''ticket_id'', JStr tid)])
      | Some t \<Rightarrow> Inr t)"

text \<open>\<open>ORDER BY submitted_at DESC, rowid DESC LIMIT 1\<close>.\<close>

definition latest_review :: "db \<Rightarrow> string \<Rightarrow> string \<Rightarrow> review_row option" where
  "latest_review s p tid =
     foldl (\<lambda>best r. case best of
              None \<Rightarrow> Some r
            | Some b \<Rightarrow> if rv_submitted_at b \<le> rv_submitted_at r then Some r else Some b)
       None (filter (\<lambda>r. rv_project r = p \<and> rv_ticket r = tid) (db_reviews s))"

text \<open>The generator inside \<open>any(...)\<close>: is this event a live accept of exactly \<open>sha\<close>?\<close>

definition accepts_exactly :: "json \<Rightarrow> json \<Rightarrow> error + bool" where
  "accepts_exactly sha ev =
     (if \<not> is_dict ev then Inr False
      else bindE (py_get_text ev ''kind'') (\<lambda>kind.
        if py_lower kind \<noteq> ''accept'' then Inr False
        else bindE (py_get ev ''sha'') (\<lambda>v.
          if py_or v (JStr []) \<noteq> sha then Inr False
          else bindE (py_get ev ''superseded'') (\<lambda>sup. Inr (\<not> truthy sup)))))"

fun anyE :: "('a \<Rightarrow> 'e + bool) \<Rightarrow> 'a list \<Rightarrow> 'e + bool" where
  "anyE f [] = Inr False"
| "anyE f (x # xs) = orE (f x) (anyE f xs)"

definition with_accepted_review :: "review_row option \<Rightarrow> json list \<Rightarrow> error + json list" where
  "with_accepted_review review evs =
     (case review of
        None \<Rightarrow> Inr evs
      | Some r \<Rightarrow>
          if rv_state r \<noteq> Accepted then Inr evs
          else bindE (py_get (case rv_evidence r of None \<Rightarrow> JObj [] | Some ev \<Rightarrow> ev) ''sha'') (\<lambda>v.
            let sha = py_or v (JStr []) in
            if \<not> truthy sha then Inr evs
            else bindE (anyE (accepts_exactly sha) evs) (\<lambda>hit.
              Inr (if hit then evs else evs @ [JObj [(''kind'', JStr ''accept''), (''sha'', sha)]]))))"

text \<open>The record the gate of \<open>work_view\<close> is asked about, built from a ticket row.\<close>

definition release_record :: "ticket_row \<Rightarrow> review_row option \<Rightarrow> error + json" where
  "release_record row review =
     (let evidence = (case t_evidence row of None \<Rightarrow> JObj [] | Some ev \<Rightarrow> ev) in
      bindE (py_get evidence ''review_head'') (\<lambda>h.
      bindE (if truthy h then Inr h else py_get_default evidence ''sha'' (JStr [])) (\<lambda>head.
      bindE (bindE (py_get evidence ''review_events'') py_items) (\<lambda>evs.
      bindE (py_get evidence ''merge_record'') (\<lambda>rec.
      bindE (py_get evidence ''release_override'') (\<lambda>ov.
      bindE (with_accepted_review review evs) (\<lambda>evs'.
        Inr (JObj [(''status'', JStr (state_name (t_state row))), (''review_head'', head),
                   (''review_events'', JArr evs'), (''merge_record'', rec),
                   (''release_override'', ov)]))))))))"

definition review_ok :: "review_row option \<Rightarrow> bool" where
  "review_ok review \<longleftrightarrow> (case review of None \<Rightarrow> True | Some r \<Rightarrow> rv_state r = Accepted)"

definition dep_met :: "db \<Rightarrow> string \<Rightarrow> string \<Rightarrow> error + bool" where
  "dep_met s p dep =
     (case find_ticket s p dep of
        None \<Rightarrow> Inr False
      | Some row \<Rightarrow>
          let review = latest_review s p dep in
          bindE (release_record row review) (\<lambda>t.
          bindE (dep_released t) (\<lambda>rel.
            Inr (rel \<or> (t_state row = Done \<and> review_ok review)))))"

fun unmet_dependencies :: "db \<Rightarrow> string \<Rightarrow> string list \<Rightarrow> error + string list" where
  "unmet_dependencies s p [] = Inr []"
| "unmet_dependencies s p (d # ds) =
     bindE (dep_met s p d) (\<lambda>met.
     bindE (unmet_dependencies s p ds) (\<lambda>rest. Inr (if met then rest else d # rest)))"

definition require_released :: "db \<Rightarrow> string \<Rightarrow> string \<Rightarrow> error + unit" where
  "require_released s p tid =
     bindE (unmet_dependencies s p (dependencies s p tid)) (\<lambda>unmet.
       if unmet \<noteq> [] then Inl (DependencyUnmet tid unmet) else Inr ())"

definition serialize_ticket :: "db \<Rightarrow> ticket_row \<Rightarrow> error + ticket_view" where
  "serialize_ticket s row =
     (let deps = dependencies s (t_project row) (t_id row) in
      bindE (unmet_dependencies s (t_project row) deps) (\<lambda>unmet.
        Inr \<lparr>tv_row = row, tv_dependencies = deps, tv_dependency_blocked = (unmet \<noteq> [])\<rparr>))"

definition get_ticket :: "string \<Rightarrow> string \<Rightarrow> db \<Rightarrow> error + response" where
  "get_ticket p tid s =
     bindE (ticket_row_of s p tid) (\<lambda>row. bindE (serialize_ticket s row) (\<lambda>v. Inr (RTicket v)))"

fun serialize_all :: "db \<Rightarrow> ticket_row list \<Rightarrow> error + ticket_view list" where
  "serialize_all s [] = Inr []"
| "serialize_all s (t # ts) =
     bindE (serialize_ticket s t) (\<lambda>v. bindE (serialize_all s ts) (\<lambda>vs. Inr (v # vs)))"

definition list_tickets :: "string \<Rightarrow> string option \<Rightarrow> db \<Rightarrow> error + ticket_view list" where
  "list_tickets p state s =
     serialize_all s (sort_key t_id (filter (\<lambda>t. t_project t = p
        \<and> (truthy_str state \<longrightarrow> state_name (t_state t) = str_or_empty state)) (db_tickets s)))"

text \<open>What a mutation does last: serialise the row as it now stands.\<close>

definition finish_ticket :: "string \<Rightarrow> string \<Rightarrow> db \<Rightarrow> error + db \<times> response" where
  "finish_ticket p tid s =
     bindE (ticket_row_of s p tid) (\<lambda>row. bindE (serialize_ticket s row) (\<lambda>v. Inr (s, RTicket v)))"

section \<open>Creating and rewiring\<close>

text \<open>
  \<open>ticket_id\<close> may be a callable that mints from the connection: \<open>mint_id\<close> is that
  function of the database, constant when the caller passed a string.
\<close>

definition new_ticket :: "env \<Rightarrow> string \<Rightarrow> string \<Rightarrow> string \<Rightarrow> string option \<Rightarrow> string option
    \<Rightarrow> json list \<Rightarrow> string list \<Rightarrow> ticket_row" where
  "new_ticket e p tid title role outcome acceptance files =
     \<lparr>t_id = tid, t_project = p, t_title = title, t_outcome = outcome, t_acceptance = acceptance,
      t_state = Open, t_version = 1, t_role = role, t_owner = None, t_owner_session = None,
      t_blocked_reason = None, t_files = files, t_worktree = None, t_evidence = None,
      t_next_step = None, t_handoff = None, t_created_at = clock e, t_updated_at = clock e,
      t_claimed_at = None, t_last_progress_at = None\<rparr>"

definition create_ticket_act :: "env \<Rightarrow> string \<Rightarrow> (db \<Rightarrow> string) \<Rightarrow> string \<Rightarrow> string option \<Rightarrow> string option \<Rightarrow> json list \<Rightarrow> string list \<Rightarrow> string list \<Rightarrow> json option \<Rightarrow> string option \<Rightarrow> db
    \<Rightarrow> error + db \<times> response" where
  "create_ticket_act e p mint_id title role outcome acceptance deps files actor request_id s =
     (let tid = mint_id s in
          if \<not> ticket_id_ok tid
          then Inl (MalformedRequest ''ticket id must look like DEMO-13.'' [(''ticket_id'', JStr tid)])
          else if \<not> project_exists s p then Inl IntegrityError
          else bindE (insert_row t_key
                 (new_ticket e p tid title role outcome acceptance files) (db_tickets s)) (\<lambda>ts.
               bindE (set_deps p tid (sort deps) (s\<lparr>db_tickets := ts\<rparr>)) (\<lambda>s1.
               bindE (audit e 1 p (actor_or_system actor) ''ticket.create'' (Some ''ticket'') (Some tid)
                        request_id (''created '' @ tid) s1) (\<lambda>s2.
               finish_ticket p tid s2))))"

definition create_ticket :: "env \<Rightarrow> string \<Rightarrow> (db \<Rightarrow> string) \<Rightarrow> string \<Rightarrow> string option \<Rightarrow> string option
    \<Rightarrow> json list \<Rightarrow> string list \<Rightarrow> string list \<Rightarrow> json option \<Rightarrow> string option \<Rightarrow> db
    \<Rightarrow> error + db \<times> response" where
  "create_ticket e p mint_id title role outcome acceptance deps files actor request_id s =
     idem e p request_id ''create_ticket''
       (JObj [(''title'', JStr title), (''role'', jopt role), (''outcome'', jopt outcome),
              (''acceptance'', JArr acceptance), (''dependencies'', jstrs (sort deps)),
              (''files'', jstrs files)])
       (create_ticket_act e p mint_id title role outcome acceptance deps files actor request_id)
       s"

text \<open>\<open>repr\<close> of a list of strings, as \<open>format\<close> prints it (ASCII, no quotes inside).\<close>

definition repr_strs :: "string list \<Rightarrow> string" where
  "repr_strs xs = ''['' @ py_join '', '' (map (\<lambda>x. [CHR 0x27] @ x @ [CHR 0x27]) xs) @ '']''"

definition bump :: "env \<Rightarrow> ticket_row \<Rightarrow> ticket_row" where
  "bump e t = t\<lparr>t_updated_at := clock e, t_version := t_version t + 1\<rparr>"

definition set_dependencies_act :: "env \<Rightarrow> string \<Rightarrow> string \<Rightarrow> string list \<Rightarrow> int \<Rightarrow> json option \<Rightarrow> string option \<Rightarrow> db
    \<Rightarrow> error + db \<times> response" where
  "set_dependencies_act e p tid deps expected actor request_id s =
     (bindE (ticket_row_of s p tid) (\<lambda>row.
          if t_version row \<noteq> expected
          then Inl (TicketVersionConflict tid expected (t_version row))
          else bindE (set_deps p tid (sort deps) s) (\<lambda>s1.
               bindE (audit e 1 p (actor_or_system actor) ''ticket.set_dependencies'' (Some ''ticket'')
                        (Some tid) request_id
                        (''dependencies now '' @ (if deps = [] then ''none'' else repr_strs (sort deps)))
                        (update_ticket p tid (bump e) s1)) (\<lambda>s2.
               finish_ticket p tid s2))))"

definition set_dependencies :: "env \<Rightarrow> string \<Rightarrow> string \<Rightarrow> string list \<Rightarrow> int \<Rightarrow> json option
    \<Rightarrow> string option \<Rightarrow> db \<Rightarrow> error + db \<times> response" where
  "set_dependencies e p tid deps expected actor request_id s =
     idem e p request_id ''set_dependencies''
       (JObj [(''ticket_id'', JStr tid), (''dependencies'', jstrs (sort deps)),
              (''expected_version'', JInt expected)])
       (set_dependencies_act e p tid deps expected actor request_id)
       s"

section \<open>Claiming\<close>

text \<open>\<open>ALLOWED_TRANSITIONS\<close>.\<close>

fun allowed_transitions :: "tstate \<Rightarrow> tstate list" where
  "allowed_transitions Open = [Claimed, Blocked, Done]"
| "allowed_transitions Claimed = [Review, Open, Blocked, Done]"
| "allowed_transitions Review = [Done, Claimed, Open, Blocked]"
| "allowed_transitions Blocked = [Open, Claimed]"
| "allowed_transitions Done = []"

definition claim_write :: "env \<Rightarrow> string \<Rightarrow> string option \<Rightarrow> string option \<Rightarrow> ticket_row \<Rightarrow> ticket_row" where
  "claim_write e aid session_id worktree t =
     t\<lparr>t_state := Claimed, t_owner := Some aid, t_owner_session := session_id,
       t_worktree := coalesce worktree (t_worktree t), t_claimed_at := Some (clock e),
       t_updated_at := clock e, t_last_progress_at := Some (clock e),
       t_version := t_version t + 1\<rparr>"

text \<open>
  The three UPDATEs of a claim: the ticket (its version test cannot fail, the row was
  read under the write lock), the agent's current ticket, and the agent's own queued
  reservation of this ticket.
\<close>

definition claim_updates :: "env \<Rightarrow> string \<Rightarrow> string \<Rightarrow> string \<Rightarrow> string option \<Rightarrow> string option \<Rightarrow> db \<Rightarrow> db" where
  "claim_updates e p tid aid session_id worktree s =
     (let s1 = update_ticket p tid (claim_write e aid session_id worktree) s;
          s2 = update_agent aid (\<lambda>a. a\<lparr>ag_current_ticket := Some tid, ag_state := Working,
                 ag_version := ag_version a + 1\<rparr>) s1
      in s2\<lparr>db_assignments := update_where
             (\<lambda>r. as_project r = p \<and> as_ticket r = tid \<and> as_agent r = aid \<and> as_state r = Queued)
             (\<lambda>r. r\<lparr>as_state := AClaimed, as_version := as_version r + 1\<rparr>) (db_assignments s2)\<rparr>)"

definition claim_ticket_act :: "env \<Rightarrow> string \<Rightarrow> string \<Rightarrow> string \<Rightarrow> int \<Rightarrow> string option \<Rightarrow> string option \<Rightarrow> string option \<Rightarrow> db
    \<Rightarrow> error + db \<times> response" where
  "claim_ticket_act e p tid aid expected session_id worktree request_id s =
     (case find_agent s aid of
          None \<Rightarrow> Inl (NotFound ''No such agent.'' [(''agent_id'', JStr aid)])
        | Some agent \<Rightarrow>
            if ag_state agent = Revoked
            then Inl (SessionLeaseExpired (str_or_empty session_id)
                       [(''agent_id'', JStr aid), (''reason'', JStr ''agent revoked'')])
            else if session_id \<noteq> None \<and> \<not> session_is_current s session_id
            then Inl (SessionLeaseExpired (str_or_empty session_id) [(''agent_id'', JStr aid)])
            else bindE (ticket_row_of s p tid) (\<lambda>row.
              if t_version row \<noteq> expected
              then Inl (TicketVersionConflict tid expected (t_version row))
              else if t_state row = Claimed then Inl (TicketAlreadyClaimed tid (t_owner row))
              else if Claimed \<notin> set (allowed_transitions (t_state row))
              then Inl (InvalidStateTransition tid (state_name (t_state row)) ''claimed'')
              else bindE (require_released s p tid) (\<lambda>_.
                if active_count s aid \<ge> ag_max_active agent
                then Inl (CapacityExhausted aid (active_count s aid) (ag_max_active agent))
                else bindE (audit e 1 p
                       (JObj [(''type'', JStr ''agent''), (''id'', JStr aid),
                              (''display_name'', JStr (ag_name agent)), (''session_id'', jopt session_id)])
                       ''ticket.claim'' (Some ''ticket'') (Some tid) request_id
                       (ag_name agent @ '' claimed '' @ tid)
                       (claim_updates e p tid aid session_id worktree s)) (\<lambda>s'.
                     finish_ticket p tid s'))))"

definition claim_ticket :: "env \<Rightarrow> string \<Rightarrow> string \<Rightarrow> string \<Rightarrow> int \<Rightarrow> string option \<Rightarrow> string option
    \<Rightarrow> string option \<Rightarrow> db \<Rightarrow> error + db \<times> response" where
  "claim_ticket e p tid aid expected session_id worktree request_id s =
     idem e p request_id ''claim''
       (JObj [(''ticket_id'', JStr tid), (''agent_id'', JStr aid),
              (''expected_version'', JInt expected), (''session_id'', jopt session_id)])
       (claim_ticket_act e p tid aid expected session_id worktree request_id)
       s"

section \<open>Progress updates\<close>

text \<open>The author's session no longer holds the ticket: recorded, but not applied.\<close>

definition late_update :: "db \<Rightarrow> ticket_row \<Rightarrow> string option \<Rightarrow> bool" where
  "late_update s row session_id \<longleftrightarrow>
     session_id \<noteq> None \<and>
     (t_owner_session row \<noteq> None \<and> t_owner_session row \<noteq> session_id \<or> \<not> session_is_current s session_id)"

definition progress_write :: "env \<Rightarrow> string option \<Rightarrow> ticket_row \<Rightarrow> ticket_row" where
  "progress_write e next_step t = t\<lparr>t_last_progress_at := Some (clock e), t_updated_at := clock e,
     t_next_step := coalesce next_step (t_next_step t), t_version := t_version t + 1\<rparr>"

definition apply_progress :: "env \<Rightarrow> string \<Rightarrow> string \<Rightarrow> string option \<Rightarrow> ticket_row \<Rightarrow> db \<Rightarrow> db" where
  "apply_progress e p tid next_step row s =
     (let s1 = update_ticket p tid (progress_write e next_step) s in
      if truthy_str (t_owner row)
      then update_agent (the (t_owner row)) (\<lambda>a. a\<lparr>ag_last_progress_at := Some (clock e),
             ag_version := ag_version a + 1\<rparr>) s1
      else s1)"

definition update_words :: "db \<Rightarrow> ticket_row \<Rightarrow> string option \<Rightarrow> string \<times> string" where
  "update_words s row session_id =
     (if late_update s row session_id
      then (''ticket.update.superseded'', ''late update from a superseded session'')
      else if session_id = None
      then (''ticket.update.unattributed'',
            ''progress update with no session_id; not attributed, ticket progress unchanged'')
      else (''ticket.update'', ''progress update''))"

definition add_update_act :: "env \<Rightarrow> string \<Rightarrow> string \<Rightarrow> json \<Rightarrow> string \<Rightarrow> string option \<Rightarrow> string option \<Rightarrow> string option \<Rightarrow> db
    \<Rightarrow> error + db \<times> response" where
  "add_update_act e p tid author body_text next_step session_id request_id s =
     bindE (ticket_row_of s p tid) (\<lambda>row.
       let upd = \<lparr>up_id = mint ''upd'' (rnd e 0), up_project = p, up_ticket = tid,
                  up_author = author, up_body = body_text, up_next_step = next_step,
                  up_created_at = clock e, up_superseded = late_update s row session_id\<rparr>
       in bindE (insert_row up_id upd (db_updates s)) (\<lambda>us.
          bindE (audit e 1 p author (fst (update_words s row session_id)) (Some ''ticket'') (Some tid)
                  request_id (snd (update_words s row session_id))
                  (if session_id \<noteq> None \<and> \<not> late_update s row session_id
                   then apply_progress e p tid next_step row (s\<lparr>db_updates := us\<rparr>)
                   else s\<lparr>db_updates := us\<rparr>))
            (\<lambda>s'. Inr (s', RUpdate upd))))"

definition add_update :: "env \<Rightarrow> string \<Rightarrow> string \<Rightarrow> json \<Rightarrow> string \<Rightarrow> string option \<Rightarrow> string option
    \<Rightarrow> string option \<Rightarrow> db \<Rightarrow> error + db \<times> response" where
  "add_update e p tid author body_text next_step session_id request_id s =
     idem e p request_id ''add_update''
       (JObj [(''ticket_id'', JStr tid), (''body'', JStr body_text), (''next_step'', jopt next_step),
              (''session_id'', jopt session_id)])
       (add_update_act e p tid author body_text next_step session_id request_id)
       s"

definition list_updates :: "db \<Rightarrow> string \<Rightarrow> string \<Rightarrow> update_row list" where
  "list_updates s p tid =
     sort_key (\<lambda>u. (up_created_at u, up_id u))
       (filter (\<lambda>u. up_project u = p \<and> up_ticket u = tid) (db_updates s))"

section \<open>The transition table\<close>

definition clears_owner :: "tstate \<Rightarrow> bool" where
  "clears_owner st \<longleftrightarrow> st = Open \<or> st = Done"

definition transition_write :: "env \<Rightarrow> tstate \<Rightarrow> string option \<Rightarrow> ticket_row \<Rightarrow> ticket_row" where
  "transition_write e to_state reason t =
     t\<lparr>t_state := to_state, t_blocked_reason := (if to_state = Blocked then reason else None),
       t_updated_at := clock e,
       t_owner := (if clears_owner to_state then None else t_owner t),
       t_owner_session := (if clears_owner to_state then None else t_owner_session t),
       t_version := t_version t + 1\<rparr>"

text \<open>The CASE expressions read the row as it was, so both test the old current ticket.\<close>

definition release_agent :: "string \<Rightarrow> agent_row \<Rightarrow> agent_row" where
  "release_agent tid a =
     a\<lparr>ag_current_ticket := (if ag_current_ticket a = Some tid then None else ag_current_ticket a),
       ag_state := (if ag_current_ticket a = Some tid then Idle else ag_state a),
       ag_version := ag_version a + 1\<rparr>"

definition transition_updates :: "env \<Rightarrow> string \<Rightarrow> string \<Rightarrow> tstate \<Rightarrow> string option \<Rightarrow> ticket_row \<Rightarrow> db \<Rightarrow> db" where
  "transition_updates e p tid to_state reason row s =
     (let s1 = update_ticket p tid (transition_write e to_state reason) s in
      if truthy_str (t_owner row) \<and> clears_owner to_state
      then update_agent (the (t_owner row)) (release_agent tid) s1 else s1)"

definition transition_act :: "env \<Rightarrow> string \<Rightarrow> string \<Rightarrow> string \<Rightarrow> int \<Rightarrow> json option \<Rightarrow> string option \<Rightarrow> string option \<Rightarrow> db
    \<Rightarrow> error + db \<times> response" where
  "transition_act e p tid to_name expected actor reason request_id s =
     (bindE (ticket_row_of s p tid) (\<lambda>row.
          if t_version row \<noteq> expected
          then Inl (TicketVersionConflict tid expected (t_version row))
          else bindE (if to_name \<in> {''claimed'', ''review''} then require_released s p tid else Inr ())
            (\<lambda>_. case parse_state to_name of
               None \<Rightarrow> Inl (InvalidStateTransition tid (state_name (t_state row)) to_name)
             | Some to_state \<Rightarrow>
                 if to_state \<notin> set (allowed_transitions (t_state row))
                 then Inl (InvalidStateTransition tid (state_name (t_state row)) to_name)
                 else if to_state = Review \<and> t_acceptance row = []
                 then Inl (MissingAcceptanceCriteria tid)
                 else bindE (audit e 1 p (actor_or_system actor) ''ticket.transition'' (Some ''ticket'')
                         (Some tid) request_id (state_name (t_state row) @ '' -> '' @ to_name)
                         (transition_updates e p tid to_state reason row s))
                        (finish_ticket p tid))))"

definition transition :: "env \<Rightarrow> string \<Rightarrow> string \<Rightarrow> string \<Rightarrow> int \<Rightarrow> json option \<Rightarrow> string option
    \<Rightarrow> string option \<Rightarrow> db \<Rightarrow> error + db \<times> response" where
  "transition e p tid to_name expected actor reason request_id s =
     idem e p request_id ''transition''
       (JObj [(''ticket_id'', JStr tid), (''to_state'', JStr to_name),
              (''expected_version'', JInt expected), (''reason'', jopt reason)])
       (transition_act e p tid to_name expected actor reason request_id)
       s"

definition set_acceptance_act :: "env \<Rightarrow> string \<Rightarrow> string \<Rightarrow> json list \<Rightarrow> int \<Rightarrow> json option \<Rightarrow> string option \<Rightarrow> db
    \<Rightarrow> error + db \<times> response" where
  "set_acceptance_act e p tid acceptance expected actor request_id s =
     (bindE (ticket_row_of s p tid) (\<lambda>row.
          if t_version row \<noteq> expected
          then Inl (TicketVersionConflict tid expected (t_version row))
          else if t_state row = Done \<or> t_state row = Review
          then Inl (AcceptanceNotEditable tid (state_name (t_state row)))
          else bindE (audit e 1 p (actor_or_system actor) ''ticket.set_acceptance'' (Some ''ticket'')
                   (Some tid) request_id (dec (length acceptance) @ '' criteria'')
                   (update_ticket p tid (\<lambda>t. (bump e t)\<lparr>t_acceptance := acceptance\<rparr>) s))
                 (finish_ticket p tid)))"

definition set_acceptance :: "env \<Rightarrow> string \<Rightarrow> string \<Rightarrow> json list \<Rightarrow> int \<Rightarrow> json option
    \<Rightarrow> string option \<Rightarrow> db \<Rightarrow> error + db \<times> response" where
  "set_acceptance e p tid acceptance expected actor request_id s =
     idem e p request_id ''set_acceptance''
       (JObj [(''ticket_id'', JStr tid), (''acceptance'', JArr acceptance),
              (''expected_version'', JInt expected)])
       (set_acceptance_act e p tid acceptance expected actor request_id)
       s"

end
