(* ===== verification/Board_Reviews.thy ===== *)
theory Board_Reviews
  imports Board_Tickets
begin

text \<open>
  Reviews, assignments and the import-only writes of \<open>storage/board.py\<close>, and the list of
  all operations of the store as one datatype with its interpreter \<open>exec\<close>.
\<close>

section \<open>Reviews\<close>

fun review_name :: "review_state \<Rightarrow> string" where
  "review_name Requested = ''requested''"
| "review_name Accepted = ''accepted''"
| "review_name Rejected = ''rejected''"

text \<open>\<open>__review\<close>: scoped by project, so a foreign id reads as a missing one.\<close>

definition review_of_id :: "db \<Rightarrow> string \<Rightarrow> string \<Rightarrow> error + review_row" where
  "review_of_id s p rid =
     (case List.find (\<lambda>r. rv_id r = rid \<and> rv_project r = p) (db_reviews s) of
        None \<Rightarrow> Inl (NotFound ''No such review.'' [(''review_id'', JStr rid)])
      | Some r \<Rightarrow> Inr r)"

definition get_review :: "string \<Rightarrow> string \<Rightarrow> db \<Rightarrow> error + response" where
  "get_review p rid s = bindE (review_of_id s p rid) (\<lambda>r. Inr (RReview r))"

text \<open>\<open>value[:12]\<close> of a commit id, which is a string.\<close>

definition sha_prefix :: "json \<Rightarrow> error + string" where
  "sha_prefix v = (case v of JStr w \<Rightarrow> Inr (take 12 w) | _ \<Rightarrow> Inl AttributeError)"

definition new_review :: "env \<Rightarrow> string \<Rightarrow> string \<Rightarrow> json \<Rightarrow> json \<Rightarrow> string option \<Rightarrow> review_row" where
  "new_review e p tid submitted_by evidence notes =
     \<lparr>rv_id = mint ''rev'' (rnd e 0), rv_project = p, rv_ticket = tid, rv_state = Requested,
      rv_submitted_by = submitted_by, rv_submitted_at = clock e, rv_evidence = Some evidence,
      rv_notes = notes, rv_decided_by = None, rv_decided_at = None, rv_decision_notes = None\<rparr>"

definition submit_review_act :: "env \<Rightarrow> string \<Rightarrow> string \<Rightarrow> json \<Rightarrow> json \<Rightarrow> int \<Rightarrow> string option \<Rightarrow> string option \<Rightarrow> db
    \<Rightarrow> error + db \<times> response" where
  "submit_review_act e p tid submitted_by evidence expected notes request_id s =
     (bindE (ticket_row_of s p tid) (\<lambda>row.
          if t_version row \<noteq> expected
          then Inl (TicketVersionConflict tid expected (t_version row))
          else if t_state row \<noteq> Claimed
          then Inl (InvalidStateTransition tid (state_name (t_state row)) ''review'')
          else if t_acceptance row = [] then Inl (MissingAcceptanceCriteria tid)
          else let rv = new_review e p tid submitted_by evidence notes; rid = rv_id rv
               in bindE (insert_row rv_id rv (db_reviews s)) (\<lambda>rs.
                  bindE (bindE (py_get_default evidence ''sha'' (JStr [])) sha_prefix) (\<lambda>pre.
                  bindE (audit e 1 p submitted_by ''review.submit'' (Some ''review'') (Some rid) request_id
                          (''review requested for '' @ tid @ '' at '' @ pre)
                          (update_ticket p tid (\<lambda>t. (bump e t)\<lparr>t_state := Review, t_evidence := Some evidence\<rparr>)
                            (s\<lparr>db_reviews := rs\<rparr>))) (\<lambda>s'.
                  bindE (review_of_id s' p rid) (\<lambda>r. Inr (s', RReview r)))))))"

definition submit_review :: "env \<Rightarrow> string \<Rightarrow> string \<Rightarrow> json \<Rightarrow> json \<Rightarrow> int \<Rightarrow> string option
    \<Rightarrow> string option \<Rightarrow> db \<Rightarrow> error + db \<times> response" where
  "submit_review e p tid submitted_by evidence expected notes request_id s =
     (if \<not> is_dict evidence \<or> \<not> has_key evidence ''sha'' \<or> \<not> has_key evidence ''branch''
      then Inl (InvalidReviewEvidence ''Review evidence needs a branch and a sha.''
                 [(''ticket_id'', JStr tid)])
      else idem e p request_id ''submit_review''
       (JObj [(''ticket_id'', JStr tid), (''expected_version'', JInt expected),
              (''evidence'', evidence), (''notes'', jopt notes)])
       (submit_review_act e p tid submitted_by evidence expected notes request_id)
       s)"

text \<open>The names of the recorded checks that neither passed nor were skipped.\<close>

fun failed_checks :: "json list \<Rightarrow> error + json list" where
  "failed_checks [] = Inr []"
| "failed_checks (c # cs) =
     bindE (py_get c ''status'') (\<lambda>st.
     bindE (if st = JStr ''passed'' \<or> st = JStr ''skipped'' then Inr []
            else bindE (py_get c ''name'') (\<lambda>n. Inr [n])) (\<lambda>here.
     bindE (failed_checks cs) (\<lambda>rest. Inr (here @ rest))))"

definition check_items :: "json option \<Rightarrow> error + json list" where
  "check_items evidence =
     (case evidence of
        None \<Rightarrow> Inl AttributeError
      | Some ev \<Rightarrow> bindE (py_get_default ev ''checks'' (JArr [])) (\<lambda>v.
          case v of JArr cs \<Rightarrow> Inr cs | _ \<Rightarrow> if truthy v then py_items v else Inl AttributeError))"

definition pinned_sha :: "review_row \<Rightarrow> error + json" where
  "pinned_sha r =
     (case rv_evidence r of
        None \<Rightarrow> Inr JNull
      | Some ev \<Rightarrow> if truthy ev then py_get ev ''sha'' else Inr JNull)"

definition decide_write :: "env \<Rightarrow> review_state \<Rightarrow> json \<Rightarrow> string option \<Rightarrow> review_row \<Rightarrow> review_row" where
  "decide_write e decision decided_by notes r =
     r\<lparr>rv_state := decision, rv_decided_by := Some decided_by, rv_decided_at := Some (clock e),
       rv_decision_notes := notes\<rparr>"

definition decide_ticket_write :: "env \<Rightarrow> review_state \<Rightarrow> ticket_row \<Rightarrow> ticket_row" where
  "decide_ticket_write e decision t =
     (bump e t)\<lparr>t_state := (if decision = Accepted then Done else Claimed),
       t_owner := (if decision = Accepted then None else t_owner t),
       t_owner_session := (if decision = Accepted then None else t_owner_session t)\<rparr>"

definition decide_updates :: "env \<Rightarrow> string \<Rightarrow> string \<Rightarrow> review_row \<Rightarrow> ticket_row \<Rightarrow> review_state \<Rightarrow> json
    \<Rightarrow> string option \<Rightarrow> db \<Rightarrow> db" where
  "decide_updates e p rid review ticket decision decided_by notes s =
     (let s1 = s\<lparr>db_reviews := update_where (\<lambda>r. rv_id r = rid \<and> rv_project r = p)
            (decide_write e decision decided_by notes) (db_reviews s)\<rparr>;
          s2 = update_ticket p (rv_ticket review) (decide_ticket_write e decision) s1
      in if decision = Accepted \<and> truthy_str (t_owner ticket)
         then update_agent (the (t_owner ticket)) (\<lambda>a. a\<lparr>ag_current_ticket := None,
                ag_state := Idle, ag_version := ag_version a + 1\<rparr>) s2
         else s2)"

definition parse_decision :: "string \<Rightarrow> review_state option" where
  "parse_decision d =
     (if d = ''accepted'' then Some Accepted else if d = ''rejected'' then Some Rejected else None)"

text \<open>Everything \<open>decide_review\<close> checks of the review before it reads the ticket.\<close>

definition decidable_review :: "db \<Rightarrow> string \<Rightarrow> string \<Rightarrow> review_state \<Rightarrow> json \<Rightarrow> error + review_row \<times> json" where
  "decidable_review s p rid decision evidence_sha =
     bindE (review_of_id s p rid) (\<lambda>review.
       if rv_state review \<noteq> Requested
       then Inl (InvalidStateTransition (rv_ticket review) (review_name (rv_state review))
                  (review_name decision))
       else bindE (pinned_sha review) (\<lambda>pinned.
         if evidence_sha \<noteq> pinned
         then Inl (InvalidReviewEvidence ''Evidence SHA does not match the submitted review.''
                    [(''review_id'', JStr rid), (''submitted_sha'', pinned),
                     (''presented_sha'', evidence_sha)])
         else if decision \<noteq> Accepted then Inr (review, pinned)
         else bindE (bindE (check_items (rv_evidence review)) failed_checks) (\<lambda>failed.
           if failed \<noteq> []
           then Inl (InvalidReviewEvidence ''Cannot accept a review with failing checks.''
                      [(''review_id'', JStr rid), (''failed_checks'', JArr failed)])
           else Inr (review, pinned))))"

definition decide_review_act :: "env \<Rightarrow> string \<Rightarrow> string \<Rightarrow> string \<Rightarrow> review_state \<Rightarrow> json \<Rightarrow> json \<Rightarrow> int \<Rightarrow> string option \<Rightarrow> string option \<Rightarrow> db
    \<Rightarrow> error + db \<times> response" where
  "decide_review_act e p rid decision_name decision decided_by evidence_sha expected notes request_id s =
     (bindE (decidable_review s p rid decision evidence_sha) (\<lambda>(review, pinned).
          bindE (ticket_row_of s p (rv_ticket review)) (\<lambda>ticket.
          if t_version ticket \<noteq> expected
          then Inl (TicketVersionConflict (rv_ticket review) expected (t_version ticket))
          else bindE (sha_prefix (py_or pinned (JStr []))) (\<lambda>pre.
               bindE (audit e 1 p decided_by (''review.'' @ decision_name) (Some ''review'') (Some rid)
                       request_id (decision_name @ '' '' @ rv_ticket review @ '' at '' @ pre)
                       (decide_updates e p rid review ticket decision decided_by notes s)) (\<lambda>s'.
               bindE (review_of_id s' p rid) (\<lambda>r. Inr (s', RReview r)))))))"

definition decide_review :: "env \<Rightarrow> string \<Rightarrow> string \<Rightarrow> string \<Rightarrow> json \<Rightarrow> json \<Rightarrow> int \<Rightarrow> string option
    \<Rightarrow> string option \<Rightarrow> db \<Rightarrow> error + db \<times> response" where
  "decide_review e p rid decision_name decided_by evidence_sha expected notes request_id s =
     (case parse_decision decision_name of
        None \<Rightarrow> Inl (MalformedRequest ''decision must be accepted or rejected.''
                      [(''decision'', JStr decision_name)])
      | Some decision \<Rightarrow> idem e p request_id ''decide_review''
       (JObj [(''review_id'', JStr rid), (''decision'', JStr decision_name),
              (''evidence_sha'', evidence_sha), (''expected_version'', JInt expected),
              (''notes'', jopt notes)])
       (decide_review_act e p rid decision_name decision decided_by evidence_sha expected notes request_id)
       s)"

section \<open>Assignments and imports\<close>

definition assign :: "env \<Rightarrow> string \<Rightarrow> string \<Rightarrow> string \<Rightarrow> stamp \<Rightarrow> string \<Rightarrow> int \<Rightarrow> json option \<Rightarrow> db
    \<Rightarrow> error + db \<times> response" where
  "assign e p tid aid expires_at reason epoch actor s =
     bindE (ticket_row_of s p tid) (\<lambda>_.
     bindE (require_released s p tid) (\<lambda>_.
       if find_agent s aid = None then Inl IntegrityError
       else let row = \<lparr>as_id = mint ''asg'' (rnd e 0), as_project = p, as_ticket = tid, as_agent = aid,
                as_state = Queued, as_reason = reason, as_created_at = clock e,
                as_expires_at = expires_at, as_epoch = epoch, as_version = 1\<rparr>
            in bindE (insert_row as_id row (db_assignments s)) (\<lambda>as.
               bindE (audit e 1 p (actor_or_system actor) ''assignment.create'' (Some ''assignment'')
                       (Some (as_id row)) None (tid @ '' -> '' @ aid) (s\<lparr>db_assignments := as\<rparr>)) (\<lambda>s'.
               Inr (s', RAssignment row)))))"

definition import_set_state :: "env \<Rightarrow> string \<Rightarrow> string \<Rightarrow> string \<Rightarrow> string option \<Rightarrow> stamp option
    \<Rightarrow> stamp option \<Rightarrow> db \<Rightarrow> error + db \<times> response" where
  "import_set_state e p tid state owner_name created_at updated_at s =
     bindE (ticket_row_of s p tid) (\<lambda>_.
     bindE (if state \<in> {''claimed'', ''review''} then require_released s p tid else Inr ()) (\<lambda>_.
       case parse_state state of
         None \<Rightarrow> Inl IntegrityError
       | Some st \<Rightarrow>
           bindE (audit e 1 p SYSTEM_ACTOR ''ticket.import'' (Some ''ticket'') (Some tid) None
                   (''imported as '' @ state)
                   (update_ticket p tid (\<lambda>t. t\<lparr>t_state := st, t_handoff := coalesce owner_name (t_handoff t),
                      t_created_at := (case created_at of None \<Rightarrow> t_created_at t | Some w \<Rightarrow> w),
                      t_updated_at := (case updated_at of None \<Rightarrow> t_updated_at t | Some w \<Rightarrow> w),
                      t_version := t_version t + 1\<rparr>) s))
             (\<lambda>s'. Inr (s', RUnit))))"

definition import_set_dependencies :: "env \<Rightarrow> string \<Rightarrow> string \<Rightarrow> string list \<Rightarrow> db
    \<Rightarrow> error + db \<times> response" where
  "import_set_dependencies e p tid deps s =
     bindE (ticket_row_of s p tid) (\<lambda>_.
     bindE (set_deps p tid (sort deps) s) (\<lambda>s1.
     bindE (audit e 1 p SYSTEM_ACTOR ''ticket.import_dependencies'' (Some ''ticket'') (Some tid) None
             (''imported '' @ dec (length deps) @ '' dependencies'')
             (update_ticket p tid (\<lambda>t. t\<lparr>t_version := t_version t + 1\<rparr>) s1))
       (\<lambda>s'. Inr (s', RUnit))))"

section \<open>The operations of the store\<close>

datatype op =
    OCreateProject string string "string option"
  | OCreateAgent string string "string option" "string list" string int json "string option"
  | OSetPreset string string string string string "string option" "stamp option"
  | OReEnroll string string "string option" "string list" string int "string option"
  | OHeartbeat string "stamp option"
  | OOpenSession string stamp "string option" "stamp option"
  | ORevokeSession string "string option" "stamp option"
  | OCreateTicket string string string "string option" "string option" "json list" "string list"
      "string list" "json option" "string option"
  | OSetDependencies string string "string list" int "json option" "string option"
  | OClaim string string string int "string option" "string option" "string option"
  | OAddUpdate string string json string "string option" "string option" "string option"
  | OTransition string string string int "json option" "string option" "string option"
  | OSetAcceptance string string "json list" int "json option" "string option"
  | OSubmitReview string string json json int "string option" "string option"
  | ODecideReview string string string json json int "string option" "string option"
  | OAssign string string string stamp string int "json option"
  | OImportState string string string "string option" "stamp option" "stamp option"
  | OImportDependencies string string "string list"

fun body_of :: "env \<Rightarrow> op \<Rightarrow> db \<Rightarrow> error + db \<times> response" where
  "body_of e (OCreateProject n src pid) = create_project e n src pid"
| "body_of e (OCreateAgent p n r c m k rt aid) = create_agent e p n r c m k rt aid"
| "body_of e (OSetPreset p a ps pol prof wt at) = set_agent_preset e p a ps pol prof wt at"
| "body_of e (OReEnroll p a r c m k wt) = re_enroll_agent e p a r c m k wt"
| "body_of e (OHeartbeat a at) = record_heartbeat e a at"
| "body_of e (OOpenSession a x sid at) = open_session e a x sid at"
| "body_of e (ORevokeSession sid n at) = revoke_session e sid n at"
| "body_of e (OCreateTicket p tid ti r ou acc ds fs ac rq) =
     create_ticket e p (\<lambda>_. tid) ti r ou acc ds fs ac rq"
| "body_of e (OSetDependencies p t ds v ac rq) = set_dependencies e p t ds v ac rq"
| "body_of e (OClaim p t a v sid wt rq) = claim_ticket e p t a v sid wt rq"
| "body_of e (OAddUpdate p t au b ns sid rq) = add_update e p t au b ns sid rq"
| "body_of e (OTransition p t st v ac re rq) = transition e p t st v ac re rq"
| "body_of e (OSetAcceptance p t acc v ac rq) = set_acceptance e p t acc v ac rq"
| "body_of e (OSubmitReview p t by ev v n rq) = submit_review e p t by ev v n rq"
| "body_of e (ODecideReview p r d by sha v n rq) = decide_review e p r d by sha v n rq"
| "body_of e (OAssign p t a x re ep ac) = assign e p t a x re ep ac"
| "body_of e (OImportState p t st o' c u) = import_set_state e p t st o' c u"
| "body_of e (OImportDependencies p t ds) = import_set_dependencies e p t ds"

text \<open>One call on the store: the transaction commits or rolls back.\<close>

definition exec :: "env \<Rightarrow> op \<Rightarrow> db \<Rightarrow> (error + response) \<times> db" where
  "exec e o' s = write_txn (body_of e o') s"

fun is_import :: "op \<Rightarrow> bool" where
  "is_import (OImportState _ _ _ _ _ _) = True"
| "is_import (OImportDependencies _ _ _) = True"
| "is_import _ = False"

fun is_decide :: "op \<Rightarrow> bool" where
  "is_decide (ODecideReview _ _ _ _ _ _ _ _) = True"
| "is_decide _ = False"

end
