(* ===== verification/Board_Steps.thy ===== *)
theory Board_Steps
  imports Board_Reviews
begin

text \<open>
  What one committed operation does to the tables: the helpers change one table each
  (\<open>audit\<close> the trail, \<open>remember\<close> the request log), a ticket row changes only by the
  rules of \<open>row_step\<close>, and every operation is an instance. The invariants of
  \<open>Board_Invariants\<close> are proved over these facts alone.
\<close>

section \<open>The helpers\<close>

lemma remember_effect:
  "remember e p rq opn body r s = Inr s' \<Longrightarrow> s' = s\<lparr>db_requests := db_requests s'\<rparr>"
  by (cases rq) (auto simp: remember_def result_simps)

lemma audit_effect:
  "audit e k p actor action st sid rq summary s = Inr s' \<Longrightarrow>
     \<exists>row. s' = s\<lparr>db_audits := db_audits s @ [row]\<rparr> \<and> au_seq row = next_seq s \<and> au_event_id row = event_id (next_seq s) (rnd e (Suc k))
        \<and> au_id row \<notin> set (map au_id (db_audits s))"
  by (auto simp: audit_def Let_def result_simps split: if_splits)

lemma audit_fails: "audit e k p actor action st sid rq summary s = Inl err \<Longrightarrow> err = IntegrityError"
  by (auto simp: audit_def Let_def result_simps insert_row_def split: if_splits)

lemma finish_ticket_effect: "finish_ticket p tid s = Inr (s', r) \<Longrightarrow> s' = s"
  by (auto simp: finish_ticket_def result_simps)

lemma set_deps_effect: "set_deps p tid new s = Inr s' \<Longrightarrow> \<exists>ds. s' = s\<lparr>db_deps := ds\<rparr>"
  by (auto simp: set_deps_def result_simps split: option.splits if_splits)

lemma get_agent_effect: "get_agent aid p s = Inr r \<Longrightarrow> \<exists>a. find_agent s aid = Some a"
  by (auto simp: get_agent_def Let_def split: option.splits)

lemma ticket_row_of_Inr: "ticket_row_of s p tid = Inr t \<longleftrightarrow> find_ticket s p tid = Some t"
  by (auto simp: ticket_row_of_def split: option.splits)

text \<open>
  A guarded operation either replays (nothing changes) or runs its body and then only
  writes the request log.
\<close>

lemma idem_cases:
  assumes "idem e p rq opn body act s = Inr (s', r)"
  shows "s' = s \<and> replay e p rq opn body s = Inr (Some r)
    \<or> (\<exists>s1. act s = Inr (s1, r) \<and> s' = s1\<lparr>db_requests := db_requests s'\<rparr>
         \<and> replay e p rq opn body s = Inr None \<and> remember e p rq opn body r s1 = Inr s')"
proof -
  obtain st where st: "replay e p rq opn body s = Inr st"
    and rest: "(case st of Some r \<Rightarrow> Inr (s, r)
       | None \<Rightarrow> bindE (act s) (\<lambda>(s', r).
             bindE (remember e p rq opn body r s') (\<lambda>s''. Inr (s'', r)))) = Inr (s', r)"
    using assms by (auto simp: idem_def bindE_eq_Inr)
  show ?thesis
  proof (cases st)
    case (Some x)
    then show ?thesis using st rest by simp
  next
    case None
    then obtain s1 where "act s = Inr (s1, r)" "remember e p rq opn body r s1 = Inr s'"
      using rest by (auto simp: bindE_eq_Inr)
    then show ?thesis using st None remember_effect by fastforce
  qed
qed

section \<open>What may happen to a ticket row\<close>

inductive row_step :: "env \<Rightarrow> bool \<Rightarrow> ticket_row \<Rightarrow> ticket_row \<Rightarrow> bool" for e dcd where
  touch: "t_key t' = t_key t \<Longrightarrow> t_version t' = t_version t + 1 \<Longrightarrow> t_state t' = t_state t
     \<Longrightarrow> t_owner t' = t_owner t \<Longrightarrow> t_owner_session t' = t_owner_session t
     \<Longrightarrow> t_acceptance t' = t_acceptance t \<Longrightarrow> row_step e dcd t t'"
| accept_criteria: "t_state t \<noteq> Done \<Longrightarrow> t_state t \<noteq> Review
     \<Longrightarrow> row_step e dcd t ((bump e t)\<lparr>t_acceptance := acc\<rparr>)"
| claim: "t_state t \<noteq> Claimed \<Longrightarrow> Claimed \<in> set (allowed_transitions (t_state t))
     \<Longrightarrow> row_step e dcd t (claim_write e aid sid wt t)"
| move: "st \<in> set (allowed_transitions (t_state t)) \<Longrightarrow> (st = Review \<longrightarrow> t_acceptance t \<noteq> [])
     \<Longrightarrow> row_step e dcd t (transition_write e st reason t)"
| submit: "t_state t = Claimed \<Longrightarrow> t_acceptance t \<noteq> []
     \<Longrightarrow> row_step e dcd t ((bump e t)\<lparr>t_state := Review, t_evidence := Some ev\<rparr>)"
| decide: "dcd \<Longrightarrow> d = Accepted \<or> d = Rejected \<Longrightarrow> row_step e dcd t (decide_ticket_write e d t)"

inductive_cases row_stepE: "row_step e dcd t t'"

text \<open>The shapes of a change of the ticket table; \<open>imp\<close> allows the import's free write.\<close>

definition fresh_ticket :: "ticket_row \<Rightarrow> bool" where
  "fresh_ticket t \<longleftrightarrow> t_state t = Open \<and> t_version t = 1 \<and> t_owner t = None
     \<and> t_owner_session t = None \<and> ticket_id_ok (t_id t)"

definition import_row :: "ticket_row \<Rightarrow> ticket_row \<Rightarrow> bool" where
  "import_row t t' \<longleftrightarrow> t_key t' = t_key t \<and> t_version t' = t_version t + 1"

inductive ticket_change :: "env \<Rightarrow> bool \<Rightarrow> bool \<Rightarrow> ticket_row list \<Rightarrow> ticket_row list \<Rightarrow> bool" for e imp dcd where
  same: "ticket_change e imp dcd ts ts"
| added: "fresh_ticket t \<Longrightarrow> t_key t \<notin> set (map t_key ts) \<Longrightarrow> ticket_change e imp dcd ts (ts @ [t])"
| rewritten: "List.find (\<lambda>t. t_project t = p \<and> t_id t = tid) ts = Some t
     \<Longrightarrow> row_step e dcd t (f t) \<or> (imp \<and> import_row t (f t)) \<Longrightarrow> (\<And>t. t_key (f t) = t_key t)
     \<Longrightarrow> ticket_change e imp dcd ts (update_where (\<lambda>t. t_project t = p \<and> t_id t = tid) f ts)"

inductive_cases ticket_changeE: "ticket_change e imp dcd ts ts'"

lemma ticket_change_update:
  assumes "find_ticket s p tid = Some t" and "row_step e dcd t (f t)" and "\<And>t. t_key (f t) = t_key t"
  shows "ticket_change e imp dcd (db_tickets s)
     (update_where (\<lambda>t. t_project t = p \<and> t_id t = tid) f (db_tickets s))"
  using assms unfolding find_ticket_def by (blast intro: rewritten)

lemma t_key_simps [simp]:
  "t_key (claim_write e aid sid wt t) = t_key t" "t_key (transition_write e st reason t) = t_key t"
  "t_key (bump e t) = t_key t" "t_key (decide_ticket_write e d t) = t_key t"
  "t_key (t\<lparr>t_acceptance := acc\<rparr>) = t_key t" "t_key (t\<lparr>t_evidence := ev\<rparr>) = t_key t"
  "t_key (t\<lparr>t_state := st\<rparr>) = t_key t" "t_key (progress_write e ns t) = t_key t"
  by (simp_all add: progress_write_def t_key_def claim_write_def transition_write_def bump_def decide_ticket_write_def)

lemma bump_simps [simp]:
  "t_version (bump e t) = t_version t + 1" "t_state (bump e t) = t_state t"
  "t_owner (bump e t) = t_owner t" "t_owner_session (bump e t) = t_owner_session t"
  "t_acceptance (bump e t) = t_acceptance t"
  by (simp_all add: bump_def)

lemma write_version [simp]:
  "t_version (claim_write e aid sid wt t) = t_version t + 1"
  "t_version (transition_write e st reason t) = t_version t + 1"
  "t_version (decide_ticket_write e d t) = t_version t + 1"
  "t_version (progress_write e ns t) = t_version t + 1"
  by (simp_all add: claim_write_def transition_write_def decide_ticket_write_def progress_write_def)

lemma update_agent_frame [simp]:
  "db_tickets (update_agent aid f s) = db_tickets s" "db_deps (update_agent aid f s) = db_deps s"
  "db_audits (update_agent aid f s) = db_audits s" "db_requests (update_agent aid f s) = db_requests s"
  "db_reviews (update_agent aid f s) = db_reviews s"
  "db_assignments (update_agent aid f s) = db_assignments s"
  by (simp_all add: update_agent_def)

lemma update_ticket_frame [simp]:
  "db_deps (update_ticket p tid f s) = db_deps s" "db_agents (update_ticket p tid f s) = db_agents s"
  "db_audits (update_ticket p tid f s) = db_audits s" "db_requests (update_ticket p tid f s) = db_requests s"
  "db_reviews (update_ticket p tid f s) = db_reviews s"
  "db_assignments (update_ticket p tid f s) = db_assignments s"
  by (simp_all add: update_ticket_def)

lemma update_ticket_tickets:
  "db_tickets (update_ticket p tid f s) =
     update_where (\<lambda>t. t_project t = p \<and> t_id t = tid) f (db_tickets s)"
  by (simp add: update_ticket_def)

lemma claim_updates_frame [simp]:
  "db_deps (claim_updates e p tid aid sid wt s) = db_deps s"
  "db_audits (claim_updates e p tid aid sid wt s) = db_audits s"
  "db_requests (claim_updates e p tid aid sid wt s) = db_requests s"
  "db_reviews (claim_updates e p tid aid sid wt s) = db_reviews s"
  "db_tickets (claim_updates e p tid aid sid wt s) =
     update_where (\<lambda>t. t_project t = p \<and> t_id t = tid) (claim_write e aid sid wt) (db_tickets s)"
  by (simp_all add: claim_updates_def Let_def update_ticket_tickets)

lemma transition_updates_frame [simp]:
  "db_deps (transition_updates e p tid st reason row s) = db_deps s"
  "db_audits (transition_updates e p tid st reason row s) = db_audits s"
  "db_requests (transition_updates e p tid st reason row s) = db_requests s"
  "db_reviews (transition_updates e p tid st reason row s) = db_reviews s"
  "db_tickets (transition_updates e p tid st reason row s) =
     update_where (\<lambda>t. t_project t = p \<and> t_id t = tid) (transition_write e st reason) (db_tickets s)"
  by (simp_all add: transition_updates_def Let_def update_ticket_tickets)

lemma decide_updates_frame [simp]:
  "db_deps (decide_updates e p rid rv row d by' notes s) = db_deps s"
  "db_audits (decide_updates e p rid rv row d by' notes s) = db_audits s"
  "db_requests (decide_updates e p rid rv row d by' notes s) = db_requests s"
  "db_reviews (decide_updates e p rid rv row d by' notes s) =
     update_where (\<lambda>r. rv_id r = rid \<and> rv_project r = p) (decide_write e d by' notes) (db_reviews s)"
  "db_tickets (decide_updates e p rid rv row d by' notes s) =
     update_where (\<lambda>t. t_project t = p \<and> t_id t = rv_ticket rv) (decide_ticket_write e d) (db_tickets s)"
  by (simp_all add: decide_updates_def Let_def update_ticket_tickets)

section \<open>Inversion of the operations\<close>

text \<open>
  For each ticket operation: what holds when it commits without replaying, over the
  database its transaction read.
\<close>

text \<open>The table change a body makes, carried over the request log's write.\<close>

lemma idem_change:
  assumes "idem e p rq opn body act s = Inr (s', r)"
    and "\<And>s1. act s = Inr (s1, r) \<Longrightarrow> Q s1"
    and "\<And>s1. Q s1 \<Longrightarrow> P (s1\<lparr>db_requests := db_requests s'\<rparr>)" and "P s"
  shows "P s'"
  using idem_cases [OF assms(1)] assms(2-4) by metis

text \<open>The trail grew by one row, on top of the writes \<open>core\<close>.\<close>

definition audited :: "db \<Rightarrow> db \<Rightarrow> db \<Rightarrow> bool" where
  "audited s core s1 \<longleftrightarrow>
     (\<exists>au. au_seq au = next_seq s \<and> (\<exists>x. au_event_id au = event_id (next_seq s) x)
        \<and> au_id au \<notin> set (map au_id (db_audits s))
        \<and> s1 = core\<lparr>db_audits := db_audits s @ [au]\<rparr>)"

lemma next_seq_cong: "db_audits s = db_audits s' \<Longrightarrow> next_seq s = next_seq s'"
  by (simp add: next_seq_def)

lemma audit_audited:
  assumes "audit e k p actor action st sid rq summary core = Inr s1"
    and "db_audits core = db_audits s"
  shows "audited s core s1"
  using audit_effect [OF assms(1)] assms(2) next_seq_cong [OF assms(2)]
  by (auto simp: audited_def)

lemma claim_act_Inr:
  assumes "claim_ticket_act e p tid aid v sid wt rq s = Inr (s1, r)"
  shows "\<exists>row agent view. find_ticket s p tid = Some row \<and> find_agent s aid = Some agent
     \<and> t_version row = v \<and> t_state row \<noteq> Claimed \<and> Claimed \<in> set (allowed_transitions (t_state row))
     \<and> ag_state agent \<noteq> Revoked \<and> (sid \<noteq> None \<longrightarrow> session_is_current s sid)
     \<and> require_released s p tid = Inr () \<and> active_count s aid < ag_max_active agent
     \<and> audited s (claim_updates e p tid aid sid wt s) s1 \<and> r = RTicket view"
  using assms unfolding claim_ticket_act_def
  by (auto simp: result_simps ticket_row_of_Inr finish_ticket_def not_le
      dest!: audit_audited [where s = s] split: option.splits if_splits)

lemma set_dependencies_act_Inr:
  assumes "set_dependencies_act e p tid deps v actor rq s = Inr (s1, r)"
  shows "\<exists>row s0 view. find_ticket s p tid = Some row \<and> t_version row = v
     \<and> set_deps p tid (sort deps) s = Inr s0
     \<and> audited s (update_ticket p tid (bump e) s0) s1 \<and> r = RTicket view"
  using assms unfolding set_dependencies_act_def
  by (auto simp: result_simps ticket_row_of_Inr finish_ticket_def
      dest!: audit_audited [where s = s] dest: set_deps_effect split: if_splits)

lemma new_ticket_simps [simp]:
  "t_key (new_ticket e p tid ti ro ou acc fs) = (p, tid)" "t_id (new_ticket e p tid ti ro ou acc fs) = tid"
  "t_acceptance (new_ticket e p tid ti ro ou acc fs) = acc"
  "ticket_id_ok tid \<Longrightarrow> fresh_ticket (new_ticket e p tid ti ro ou acc fs)"
  by (simp_all add: new_ticket_def t_key_def fresh_ticket_def)

lemma create_ticket_act_Inr:
  assumes "create_ticket_act e p mint_id title role outcome acc deps files actor rq s = Inr (s1, r)"
  shows "\<exists>row s0 view. row = new_ticket e p (mint_id s) title role outcome acc files \<and> fresh_ticket row
     \<and> (p, mint_id s) \<notin> set (map t_key (db_tickets s)) \<and> project_exists s p
     \<and> set_deps p (mint_id s) (sort deps) (s\<lparr>db_tickets := db_tickets s @ [row]\<rparr>) = Inr s0
     \<and> audited s s0 s1 \<and> r = RTicket view"
  using assms unfolding create_ticket_act_def
  by (auto simp: result_simps finish_ticket_def Let_def
      dest!: audit_audited [where s = s] dest: set_deps_effect split: if_splits)

lemma apply_progress_frame [simp]:
  "db_deps (apply_progress e p tid ns row s) = db_deps s"
  "db_audits (apply_progress e p tid ns row s) = db_audits s"
  "db_requests (apply_progress e p tid ns row s) = db_requests s"
  "db_reviews (apply_progress e p tid ns row s) = db_reviews s"
  "db_updates (apply_progress e p tid ns row s) = db_updates s"
  "db_tickets (apply_progress e p tid ns row s) =
     update_where (\<lambda>t. t_project t = p \<and> t_id t = tid) (progress_write e ns) (db_tickets s)"
  by (simp_all add: apply_progress_def Let_def update_ticket_tickets)
    (simp_all add: update_agent_def update_ticket_def)

lemma add_update_act_Inr:
  assumes "add_update_act e p tid author txt ns sid rq s = Inr (s1, r)"
  shows "\<exists>row upd. find_ticket s p tid = Some row \<and> r = RUpdate upd
     \<and> up_superseded upd = late_update s row sid
     \<and> audited s (if sid \<noteq> None \<and> \<not> late_update s row sid
          then apply_progress e p tid ns row (s\<lparr>db_updates := db_updates s @ [upd]\<rparr>)
          else s\<lparr>db_updates := db_updates s @ [upd]\<rparr>) s1"
proof -
  obtain row where row: "find_ticket s p tid = Some row"
    using assms by (auto simp: add_update_act_def result_simps ticket_row_of_Inr)
  define upd where "upd = \<lparr>up_id = mint ''upd'' (rnd e 0), up_project = p, up_ticket = tid, up_author = author,
    up_body = txt, up_next_step = ns, up_created_at = clock e, up_superseded = late_update s row sid\<rparr>"
  define core where "core = (if sid \<noteq> None \<and> \<not> late_update s row sid
          then apply_progress e p tid ns row (s\<lparr>db_updates := db_updates s @ [upd]\<rparr>)
          else s\<lparr>db_updates := db_updates s @ [upd]\<rparr>)"
  have "\<exists>action summary. audit e 1 p author action (Some ''ticket'') (Some tid) rq summary core = Inr s1
      \<and> r = RUpdate upd"
    using assms row unfolding add_update_act_def
    by (auto simp: result_simps ticket_row_of_def upd_def [symmetric] core_def [symmetric] Let_def
        simp del: not_None_eq One_nat_def)
  moreover have "db_audits core = db_audits s" by (simp add: core_def)
  ultimately have "audited s core s1" "r = RUpdate upd" using audit_audited by blast+
  moreover have "up_superseded upd = late_update s row sid" by (simp add: upd_def)
  ultimately show ?thesis using row unfolding core_def by blast
qed

lemma transition_act_Inr:
  assumes "transition_act e p tid to v actor reason rq s = Inr (s1, r)"
  shows "\<exists>row st view. find_ticket s p tid = Some row \<and> t_version row = v
     \<and> parse_state to = Some st \<and> st \<in> set (allowed_transitions (t_state row))
     \<and> (to \<in> {''claimed'', ''review''} \<longrightarrow> require_released s p tid = Inr ())
     \<and> (st = Review \<longrightarrow> t_acceptance row \<noteq> [])
     \<and> audited s (transition_updates e p tid st reason row s) s1
     \<and> r = RTicket view"
  using assms unfolding transition_act_def Let_def
  by (auto simp: result_simps ticket_row_of_Inr finish_ticket_def
      dest!: audit_audited [where s = s] split: option.splits if_splits)

lemma set_acceptance_act_Inr:
  assumes "set_acceptance_act e p tid acc v actor rq s = Inr (s1, r)"
  shows "\<exists>row view. find_ticket s p tid = Some row \<and> t_version row = v
     \<and> t_state row \<noteq> Done \<and> t_state row \<noteq> Review
     \<and> audited s (update_ticket p tid (\<lambda>t. (bump e t)\<lparr>t_acceptance := acc\<rparr>) s) s1 \<and> r = RTicket view"
  using assms unfolding set_acceptance_act_def
  by (auto simp: result_simps ticket_row_of_Inr finish_ticket_def
      dest!: audit_audited [where s = s] split: if_splits)

lemma submit_review_act_Inr:
  assumes "submit_review_act e p tid by' ev v notes rq s = Inr (s1, r)"
  shows "\<exists>row rv. find_ticket s p tid = Some row \<and> t_version row = v \<and> t_state row = Claimed
     \<and> t_acceptance row \<noteq> [] \<and> rv_state rv = Requested \<and> rv_ticket rv = tid \<and> rv_project rv = p
     \<and> rv_evidence rv = Some ev \<and> rv_id rv \<notin> set (map rv_id (db_reviews s))
     \<and> audited s (update_ticket p tid (\<lambda>t. (bump e t)\<lparr>t_state := Review, t_evidence := Some ev\<rparr>)
          (s\<lparr>db_reviews := db_reviews s @ [rv]\<rparr>)) s1 \<and> r = RReview rv"
proof -
  define rv where "rv = new_review e p tid by' ev notes"
  define core where "core = update_ticket p tid (\<lambda>t. (bump e t)\<lparr>t_state := Review, t_evidence := Some ev\<rparr>)
          (s\<lparr>db_reviews := db_reviews s @ [rv]\<rparr>)"
  obtain row summary where row: "find_ticket s p tid = Some row" "t_version row = v" "t_state row = Claimed"
      "t_acceptance row \<noteq> []" and fresh: "rv_id rv \<notin> set (map rv_id (db_reviews s))"
    and au: "audit e 1 p by' ''review.submit'' (Some ''review'') (Some (rv_id rv)) rq summary core = Inr s1"
    and r: "bindE (review_of_id s1 p (rv_id rv)) (\<lambda>r. Inr (s1, RReview r)) = Inr (s1, r)"
    using assms unfolding submit_review_act_def
    unfolding rv_def [symmetric] Let_def core_def [symmetric]
    by (auto simp: result_simps ticket_row_of_Inr core_def simp del: One_nat_def split: if_splits)
  have "audited s core s1" using audit_audited [OF au] by (simp add: core_def)
  moreover have "review_of_id s1 p (rv_id rv) = Inr rv"
  proof -
    have "db_reviews s1 = db_reviews s @ [rv]"
      using \<open>audited s core s1\<close> by (auto simp: audited_def core_def)
    moreover have "List.find (\<lambda>r. rv_id r = rv_id rv \<and> rv_project r = p) (db_reviews s) = None"
      using fresh by (force simp: find_None_set image_iff)
    moreover have "rv_project rv = p" by (simp add: rv_def new_review_def)
    ultimately show ?thesis by (simp add: review_of_id_def find_append)
  qed
  ultimately show ?thesis using row fresh r unfolding core_def
    by (intro exI [of _ row] exI [of _ rv]) (auto simp: rv_def new_review_def)
qed

text \<open>What must hold of a review for it to be decided.\<close>

definition decidable :: "db \<Rightarrow> string \<Rightarrow> string \<Rightarrow> review_state \<Rightarrow> json \<Rightarrow> review_row \<Rightarrow> bool" where
  "decidable s p rid d sha rv \<longleftrightarrow>
     List.find (\<lambda>r. rv_id r = rid \<and> rv_project r = p) (db_reviews s) = Some rv
     \<and> rv_state rv = Requested \<and> pinned_sha rv = Inr sha
     \<and> (d = Accepted \<longrightarrow> bindE (check_items (rv_evidence rv)) failed_checks = Inr [])"

lemma decidable_review_Inr:
  "decidable_review s p rid d sha = Inr (rv, pin) \<Longrightarrow> decidable s p rid d sha rv \<and> pin = sha"
  by (auto simp: decidable_review_def decidable_def review_of_id_def result_simps
      dest: find_SomeD split: if_splits option.splits)

lemma decide_review_act_Inr:
  assumes "decide_review_act e p rid dn d by' sha v notes rq s = Inr (s1, r)"
  shows "\<exists>rv row rv'. decidable s p rid d sha rv \<and> find_ticket s p (rv_ticket rv) = Some row
     \<and> t_version row = v \<and> audited s (decide_updates e p rid rv row d by' notes s) s1 \<and> r = RReview rv'"
  using assms unfolding decide_review_act_def
  by (auto simp: result_simps ticket_row_of_Inr
      dest!: audit_audited [where s = s] decidable_review_Inr split: if_splits)

section \<open>Every operation\<close>

text \<open>What a committed body does to the tickets, the edges and the trail.\<close>

definition trail_grows :: "db \<Rightarrow> db \<Rightarrow> bool" where
  "trail_grows s s' \<longleftrightarrow> db_audits s' = db_audits s
     \<or> (\<exists>au. db_audits s' = db_audits s @ [au] \<and> au_seq au = next_seq s
          \<and> (\<exists>x. au_event_id au = event_id (next_seq s) x)
          \<and> au_id au \<notin> set (map au_id (db_audits s)))"

definition rewired :: "db \<Rightarrow> db \<Rightarrow> bool" where
  "rewired s s' \<longleftrightarrow> db_deps s' = db_deps s
     \<or> (\<exists>p tid new s0 s1. db_deps s0 = db_deps s \<and> set_deps p tid new s0 = Inr s1 \<and> db_deps s' = db_deps s1)"

definition good_change :: "env \<Rightarrow> bool \<Rightarrow> bool \<Rightarrow> db \<Rightarrow> db \<Rightarrow> bool" where
  "good_change e imp dcd s s' \<longleftrightarrow> ticket_change e imp dcd (db_tickets s) (db_tickets s') \<and> rewired s s' \<and> trail_grows s s'"

lemma trail_grows_refl [simp]: "trail_grows s s"
  by (simp add: trail_grows_def)

lemma rewired_same: "db_deps s' = db_deps s \<Longrightarrow> rewired s s'"
  by (simp add: rewired_def)

lemma rewired_cong [simp]: "rewired s (s1\<lparr>db_audits := a\<rparr>) = rewired s s1"
  "rewired s (s1\<lparr>db_requests := rq\<rparr>) = rewired s s1" "rewired s (update_ticket p tid f s1) = rewired s s1"
  by (simp_all add: rewired_def)

lemma rewired_set_deps: "set_deps p tid new s0 = Inr s1 \<Longrightarrow> db_deps s0 = db_deps s \<Longrightarrow> rewired s s1"
  unfolding rewired_def by blast

lemma good_change_requests [simp]: "good_change e imp dcd s (s1\<lparr>db_requests := rq\<rparr>) = good_change e imp dcd s s1"
  by (simp add: good_change_def trail_grows_def)

lemma good_change_refl [simp]: "good_change e imp dcd s s"
  by (simp add: good_change_def ticket_change.same rewired_same)

lemma audited_good:
  assumes "audited s core s1" and "ticket_change e imp dcd (db_tickets s) (db_tickets core)"
    and "rewired s core"
  shows "good_change e imp dcd s s1"
  using assms by (auto simp: audited_def good_change_def trail_grows_def)

lemma good_idem:
  assumes "idem e p rq opn body act s = Inr (s', r)"
    and "\<And>s1. act s = Inr (s1, r) \<Longrightarrow> good_change e imp dcd s s1"
  shows "good_change e imp dcd s s'"
  using idem_cases [OF assms(1)] assms(2) by (metis good_change_refl good_change_requests)

lemma good_ticket:
  assumes "audited s core s1" and "find_ticket s p tid = Some t" and "row_step e dcd t (f t)"
    and "db_tickets core = update_where (\<lambda>t. t_project t = p \<and> t_id t = tid) f (db_tickets s)"
    and "rewired s core" and "\<And>t. t_key (f t) = t_key t"
  shows "good_change e imp dcd s s1"
  using audited_good [OF assms(1) _ assms(5)] ticket_change_update [where f = f, OF assms(2,3,6)] assms(4)
  by simp

lemma good_frame:
  assumes "audited s core s1" and "db_tickets core = db_tickets s" and "db_deps core = db_deps s"
  shows "good_change e imp dcd s s1"
  using assms by (simp add: audited_good ticket_change.same rewired_same)

lemma good_claim:
  "claim_ticket_act e p tid aid v sid wt rq s = Inr (s1, r) \<Longrightarrow> good_change e imp dcd s s1"
  by (drule claim_act_Inr) (auto intro!: good_ticket row_step.claim rewired_same)

lemma good_transition:
  "transition_act e p tid to v actor reason rq s = Inr (s1, r) \<Longrightarrow> good_change e imp dcd s s1"
  by (drule transition_act_Inr) (auto intro!: good_ticket row_step.move rewired_same)

lemma good_acceptance:
  "set_acceptance_act e p tid acc v actor rq s = Inr (s1, r) \<Longrightarrow> good_change e imp dcd s s1"
  by (drule set_acceptance_act_Inr)
    (auto intro!: good_ticket row_step.accept_criteria rewired_same simp: update_ticket_tickets)

lemma good_submit:
  "submit_review_act e p tid by' ev v notes rq s = Inr (s1, r) \<Longrightarrow> good_change e imp dcd s s1"
  by (drule submit_review_act_Inr)
    (auto intro!: good_ticket row_step.submit rewired_same simp: update_ticket_tickets)

lemma good_decide:
  "decide_review_act e p rid dn d by' sha v notes rq s = Inr (s1, r) \<Longrightarrow> d = Accepted \<or> d = Rejected
    \<Longrightarrow> good_change e imp True s s1"
  by (drule decide_review_act_Inr)
    (auto intro!: good_ticket [where f = "decide_ticket_write e d"] row_step.decide rewired_same
      simp del: disj_not1)

lemma touch_bump: "row_step e dcd t (bump e t)"
  by (rule row_step.touch) simp_all

lemma touch_progress: "row_step e dcd t (progress_write e ns t)"
  by (rule row_step.touch) (simp_all add: progress_write_def t_key_def)

lemma good_update:
  assumes "add_update_act e p tid author txt ns sid rq s = Inr (s1, r)"
  shows "good_change e imp dcd s s1"
proof -
  obtain row upd where row: "find_ticket s p tid = Some row"
    and au: "audited s (if sid \<noteq> None \<and> \<not> late_update s row sid
          then apply_progress e p tid ns row (s\<lparr>db_updates := db_updates s @ [upd]\<rparr>)
          else s\<lparr>db_updates := db_updates s @ [upd]\<rparr>) s1"
    using add_update_act_Inr [OF assms] by blast
  show ?thesis
  proof (cases "sid \<noteq> None \<and> \<not> late_update s row sid")
    case True
    show ?thesis using au [unfolded if_P [OF True]] row
      by (rule good_ticket [where f = "progress_write e ns"]) (simp_all add: touch_progress rewired_same)
  next
    case False
    show ?thesis using au [unfolded if_not_P [OF False]] by (rule good_frame) simp_all
  qed
qed

lemma set_deps_tickets: "set_deps p tid new s = Inr s' \<Longrightarrow> db_tickets s' = db_tickets s"
  by (drule set_deps_effect) auto

lemma good_dependencies:
  "set_dependencies_act e p tid deps v actor rq s = Inr (s1, r) \<Longrightarrow> good_change e imp dcd s s1"
  by (drule set_dependencies_act_Inr)
    (auto intro!: good_ticket touch_bump simp: update_ticket_tickets set_deps_tickets
      intro: rewired_set_deps)

lemma good_create:
  "create_ticket_act e p mint_id title role outcome acc deps files actor rq s = Inr (s1, r) \<Longrightarrow>
     good_change e imp dcd s s1"
proof (drule create_ticket_act_Inr, elim exE conjE)
  fix row s0 view
  assume row: "row = new_ticket e p (mint_id s) title role outcome acc files" "fresh_ticket row"
    "(p, mint_id s) \<notin> set (map t_key (db_tickets s))"
    and sd: "set_deps p (mint_id s) (sort deps) (s\<lparr>db_tickets := db_tickets s @ [row]\<rparr>) = Inr s0"
    and au: "audited s s0 s1"
  have "ticket_change e imp dcd (db_tickets s) (db_tickets s0)"
    using ticket_change.added [OF row(2)] row set_deps_tickets [OF sd] by simp
  then show "good_change e imp dcd s s1"
    using rewired_set_deps [OF sd, of s] by (intro audited_good [OF au]) simp_all
qed

lemma good_import_state:
  "import_set_state e p tid st own c u s = Inr (s1, r) \<Longrightarrow> good_change e True dcd s s1"
proof -
  assume "import_set_state e p tid st own c u s = Inr (s1, r)"
  then obtain row st' summary where row: "find_ticket s p tid = Some row"
    and au: "audit e 1 p SYSTEM_ACTOR ''ticket.import'' (Some ''ticket'') (Some tid) None summary
      (update_ticket p tid (\<lambda>t. t\<lparr>t_state := st', t_handoff := coalesce own (t_handoff t),
                      t_created_at := (case c of None \<Rightarrow> t_created_at t | Some w \<Rightarrow> w),
                      t_updated_at := (case u of None \<Rightarrow> t_updated_at t | Some w \<Rightarrow> w),
                      t_version := t_version t + 1\<rparr>) s) = Inr s1"
    by (auto simp: import_set_state_def result_simps ticket_row_of_Inr split: option.splits simp del: One_nat_def)
  show ?thesis
    by (rule audited_good [OF audit_audited [OF au]])
      (use row in \<open>auto simp: update_ticket_tickets find_ticket_def rewired_same import_row_def t_key_def
        intro!: ticket_change.rewritten\<close>)
qed

lemma good_import_dependencies:
  "import_set_dependencies e p tid ds s = Inr (s1, r) \<Longrightarrow> good_change e imp dcd s s1"
proof -
  assume "import_set_dependencies e p tid ds s = Inr (s1, r)"
  then obtain row s0 summary where row: "find_ticket s p tid = Some row" and sd: "set_deps p tid (sort ds) s = Inr s0"
    and au: "audit e 1 p SYSTEM_ACTOR ''ticket.import_dependencies'' (Some ''ticket'') (Some tid) None summary
      (update_ticket p tid (\<lambda>t. t\<lparr>t_version := t_version t + 1\<rparr>) s0) = Inr s1"
    by (auto simp: import_set_dependencies_def result_simps ticket_row_of_Inr simp del: One_nat_def)
  have "audited s (update_ticket p tid (\<lambda>t. t\<lparr>t_version := t_version t + 1\<rparr>) s0) s1"
    using set_deps_effect [OF sd] by (auto intro!: audit_audited [OF au])
  then show ?thesis
    by (rule good_ticket [OF _ row, where f = "\<lambda>t. t\<lparr>t_version := t_version t + 1\<rparr>"])
      (auto intro!: row_step.touch simp: t_key_def update_ticket_tickets set_deps_tickets [OF sd]
        intro: rewired_set_deps [OF sd])
qed

lemma good_store_ops:
  "create_project e n src pid s = Inr (s1, r) \<Longrightarrow> good_change e imp dcd s s1"
  "create_agent e p n ro caps m k rt aid s = Inr (s1, r) \<Longrightarrow> good_change e imp dcd s s1"
  "set_agent_preset e p a ps pol prof wt at s = Inr (s1, r) \<Longrightarrow> good_change e imp dcd s s1"
  "re_enroll_agent e p a ro caps m k wt s = Inr (s1, r) \<Longrightarrow> good_change e imp dcd s s1"
  "record_heartbeat e a at s = Inr (s1, r) \<Longrightarrow> good_change e imp dcd s s1"
  "open_session e a x sid at s = Inr (s1, r) \<Longrightarrow> good_change e imp dcd s s1"
  "revoke_session e sd note at s = Inr (s1, r) \<Longrightarrow> good_change e imp dcd s s1"
  "assign e p t a x re ep ac s = Inr (s1, r) \<Longrightarrow> good_change e imp dcd s s1"
         apply (auto simp: create_project_def result_simps Let_def
           dest!: audit_audited [where s = s] good_frame split: if_splits)[1]
        apply (auto simp: create_agent_def result_simps Let_def
          dest!: audit_audited [where s = s] good_frame split: if_splits)[1]
       apply (auto simp: set_agent_preset_def result_simps Let_def
         dest!: audit_audited [where s = s] good_frame split: if_splits)[1]
      apply (auto simp: re_enroll_agent_def result_simps Let_def
        dest!: audit_audited [where s = s] good_frame split: if_splits option.splits)[1]
     apply (auto simp: record_heartbeat_def result_simps Let_def good_change_def ticket_change.same
       rewired_same trail_grows_def split: if_splits)[1]
    apply (auto simp: open_session_def result_simps Let_def
      dest!: audit_audited [where s = s] good_frame split: if_splits option.splits)[1]
   apply (auto simp: revoke_session_def result_simps Let_def
     dest!: audit_audited [where s = s] good_frame split: if_splits option.splits)[1]
  apply (auto simp: assign_def result_simps Let_def
    dest!: audit_audited [where s = s] good_frame split: if_splits)
  done

lemmas good_acts = good_claim good_transition good_acceptance good_submit good_decide good_update
  good_dependencies good_create

lemma parse_decision_Some: "parse_decision d = Some st \<Longrightarrow> st = Accepted \<or> st = Rejected"
  by (auto simp: parse_decision_def split: if_splits)

text \<open>Every committed body is a good change, and only the two imports may write freely.\<close>

lemma body_good: "body_of e o' s = Inr (s', r) \<Longrightarrow> good_change e (is_import o') (is_decide o') s s'"
  by (cases o')
    (auto simp: claim_ticket_def transition_def set_acceptance_def submit_review_def decide_review_def
      add_update_def set_dependencies_def create_ticket_def
      intro: good_acts good_store_ops good_import_state good_import_dependencies
      dest: parse_decision_Some split: if_splits option.splits elim!: good_idem)

lemma exec_good: "good_change e (is_import o') (is_decide o') s (snd (exec e o' s))"
  by (auto simp: exec_def write_txn_def body_good split: sum.splits)

end
