(* ===== verification/Board_Reach.thy ===== *)
theory Board_Reach
  imports Board_Steps
begin

text \<open>
  The store as a transition system: the databases that sequences of committed or refused
  calls lead to, and two contracts its clients use as locales: a log that only grows, and
  optimistic concurrency by row version.
\<close>

inductive steps :: "bool \<Rightarrow> db \<Rightarrow> db \<Rightarrow> bool" for imp where
  stay: "steps imp s s"
| call: "steps imp s s' \<Longrightarrow> imp \<or> \<not> is_import o' \<Longrightarrow> steps imp s (snd (exec e o' s'))"

definition reach :: "bool \<Rightarrow> db \<Rightarrow> bool" where
  "reach imp s \<longleftrightarrow> steps imp empty_db s"

text \<open>One step, whatever the call answers.\<close>

definition one_step :: "bool \<Rightarrow> db \<Rightarrow> db \<Rightarrow> bool" where
  "one_step imp s s' \<longleftrightarrow> (\<exists>e o'. (imp \<or> \<not> is_import o') \<and> s' = snd (exec e o' s))"

lemma steps_one_step: "steps imp s s' \<longleftrightarrow> (one_step imp)\<^sup>*\<^sup>* s s'"
proof
  assume "steps imp s s'"
  then show "(one_step imp)\<^sup>*\<^sup>* s s'"
    by induction (auto simp: one_step_def intro: rtranclp.rtrancl_into_rtrancl)
next
  assume "(one_step imp)\<^sup>*\<^sup>* s s'"
  then show "steps imp s s'"
    by induction (auto simp: one_step_def intro: steps.intros)
qed

lemma steps_trans: "steps imp s s' \<Longrightarrow> steps imp s' s'' \<Longrightarrow> steps imp s s''"
  unfolding steps_one_step by (rule rtranclp_trans)

lemma steps_exec: "imp \<or> \<not> is_import o' \<Longrightarrow> steps imp s (snd (exec e o' s))"
  by (intro steps.call steps.stay)

lemma reach_steps: "reach imp s \<Longrightarrow> steps imp s s' \<Longrightarrow> reach imp s'"
  unfolding reach_def by (rule steps_trans)

lemma reach_exec: "reach imp s \<Longrightarrow> imp \<or> \<not> is_import o' \<Longrightarrow> reach imp (snd (exec e o' s))"
  by (auto intro: reach_steps steps_exec)

lemma steps_invariant [consumes 2]:
  assumes "steps imp s s'" and "P s"
    and "\<And>s e o'. P s \<Longrightarrow> imp \<or> \<not> is_import o' \<Longrightarrow> P (snd (exec e o' s))"
  shows "P s'"
  using assms by induction auto

lemma reach_induct [consumes 1]:
  assumes "reach imp s" and "P empty_db"
    and "\<And>s e o'. reach imp s \<Longrightarrow> P s \<Longrightarrow> imp \<or> \<not> is_import o' \<Longrightarrow> P (snd (exec e o' s))"
  shows "P s"
proof -
  have "reach imp s \<and> P s"
    by (rule steps_invariant [where P = "\<lambda>s. reach imp s \<and> P s", OF assms(1) [unfolded reach_def]])
      (use assms(2,3) reach_exec in \<open>auto simp: reach_def steps.stay\<close>)
  then show ?thesis by simp
qed

section \<open>A log that only grows\<close>

locale growing_log =
  fixes step :: "'s \<Rightarrow> 's \<Rightarrow> bool" and log :: "'s \<Rightarrow> 'r list"
  assumes grows: "step s s' \<Longrightarrow> \<exists>ext. log s' = log s @ ext"
begin

lemma log_prefix: "step\<^sup>*\<^sup>* s s' \<Longrightarrow> \<exists>ext. log s' = log s @ ext"
proof (induction rule: rtranclp_induct)
  case base
  then show ?case by simp
next
  case (step s' s'')
  then show ?case using grows [OF step(2)] by auto
qed

lemma log_keeps: "step\<^sup>*\<^sup>* s s' \<Longrightarrow> r \<in> set (log s) \<Longrightarrow> r \<in> set (log s')"
  using log_prefix by fastforce

lemma log_find: "step\<^sup>*\<^sup>* s s' \<Longrightarrow> List.find P (log s) = Some r \<Longrightarrow> List.find P (log s') = Some r"
  using log_prefix by (fastforce simp: find_append)

end

section \<open>Optimistic concurrency\<close>

text \<open>
  An operation may name the object it changes and the version it read. It commits only
  on that version and leaves a greater one; nothing ever lowers a version. So of all the
  operations that name one version of one object, one at most commits, whatever happens
  in between.
\<close>

locale versioned =
  fixes step :: "'s \<Rightarrow> 's \<Rightarrow> bool"
    and ver :: "'k \<Rightarrow> 's \<Rightarrow> int option"
    and commits :: "'o \<Rightarrow> 's \<Rightarrow> 's option"
    and names :: "'o \<Rightarrow> 's \<Rightarrow> ('k \<times> int) option"
  assumes mono: "step s s' \<Longrightarrow> ver k s = Some v \<Longrightarrow> \<exists>v' \<ge> v. ver k s' = Some v'"
    and reads: "commits x s = Some s' \<Longrightarrow> names x s = Some (k, v) \<Longrightarrow> ver k s = Some v"
    and bumps: "commits x s = Some s' \<Longrightarrow> names x s = Some (k, v) \<Longrightarrow> \<exists>v' > v. ver k s' = Some v'"
begin

lemma mono_steps: "step\<^sup>*\<^sup>* s s' \<Longrightarrow> ver k s = Some v \<Longrightarrow> \<exists>v' \<ge> v. ver k s' = Some v'"
proof (induction arbitrary: v rule: rtranclp_induct)
  case base
  then show ?case by simp
next
  case (step s' s'')
  then obtain v' where "v' \<ge> v" "ver k s' = Some v'" by blast
  then show ?case using mono [OF step(2)] by (meson order.trans)
qed

lemma commits_once:
  assumes "commits x s = Some s1" and "names x s = Some (k, v)" and "step\<^sup>*\<^sup>* s1 s2"
    and "names y s2 = Some (k, v)"
  shows "commits y s2 = None"
proof (rule ccontr)
  assume "commits y s2 \<noteq> None"
  then have "ver k s2 = Some v" using reads assms(4) by blast
  moreover obtain v' where "v' > v" "ver k s1 = Some v'" using bumps assms(1,2) by blast
  ultimately show False using mono_steps [OF assms(3)] by fastforce
qed

end

section \<open>Both contracts, for the store\<close>

lemma row_step_bumps: "row_step e dcd t t' \<Longrightarrow> t_version t' = t_version t + 1 \<and> t_key t' = t_key t"
  by (erule row_stepE)
    (simp_all add: claim_write_def transition_write_def decide_ticket_write_def bump_def t_key_def)

lemma find_key_update:
  assumes "List.find (\<lambda>t. t_project t = p \<and> t_id t = tid) ts = Some t"
    and "\<And>t. t_key (f t) = t_key t"
  shows "List.find (\<lambda>t. t_project t = p \<and> t_id t = tid)
      (update_where (\<lambda>t. t_project t = q \<and> t_id t = uid) f ts)
    = Some (if q = p \<and> uid = tid then f t else t)"
proof -
  have "t_project (f t) = t_project t \<and> t_id (f t) = t_id t" for t
    using assms(2) [of t] by (simp add: t_key_def)
  then show ?thesis using assms(1) find_SomeD [OF assms(1)] by (subst find_update_where) auto
qed

text \<open>The fate of one ticket in one step: left alone, or rewritten once by the rules.\<close>

lemma ticket_change_find:
  assumes "ticket_change e imp dcd ts ts'"
    and "List.find (\<lambda>t. t_project t = p \<and> t_id t = tid) ts = Some t"
  obtains t' where "List.find (\<lambda>t. t_project t = p \<and> t_id t = tid) ts' = Some t'"
    "t' = t \<or> row_step e dcd t t' \<or> imp \<and> import_row t t'"
  using assms(1)
proof (cases rule: ticket_change.cases)
  case same
  then show ?thesis using that assms(2) by blast
next
  case (added u)
  then show ?thesis using that assms(2) by (simp add: find_append)
next
  case (rewritten q uid u f)
  show ?thesis
    by (rule that, unfold rewritten(1), rule find_key_update [OF assms(2) rewritten(4)])
      (use rewritten(2,3) assms(2) in auto)
qed

lemma exec_find_ticket:
  assumes "find_ticket s p tid = Some t"
  obtains t' where "find_ticket (snd (exec e o' s)) p tid = Some t'"
    "t' = t \<or> row_step e (is_decide o') t t' \<or> is_import o' \<and> import_row t t'"
proof -
  have "ticket_change e (is_import o') (is_decide o') (db_tickets s) (db_tickets (snd (exec e o' s)))"
    using exec_good [of e o' s] by (simp add: good_change_def)
  then show thesis
    using ticket_change_find assms that unfolding find_ticket_def by blast
qed

definition ticket_version :: "string \<times> string \<Rightarrow> db \<Rightarrow> int option" where
  "ticket_version k s = map_option t_version (find_ticket s (fst k) (snd k))"

lemma exec_version_mono:
  assumes "ticket_version k s = Some v"
  shows "\<exists>v' \<ge> v. ticket_version k (snd (exec e o' s)) = Some v'"
proof -
  obtain t where t: "find_ticket s (fst k) (snd k) = Some t" "t_version t = v"
    using assms by (auto simp: ticket_version_def)
  obtain t' where "find_ticket (snd (exec e o' s)) (fst k) (snd k) = Some t'"
    "t' = t \<or> row_step e (is_decide o') t t' \<or> is_import o' \<and> import_row t t'"
    using exec_find_ticket [OF t(1)] .
  then show ?thesis using t(2) by (auto simp: ticket_version_def import_row_def dest: row_step_bumps)
qed

text \<open>The request id of an operation that carries one, and whether the log already has it.\<close>

fun request_of :: "op \<Rightarrow> (string \<times> string) option" where
  "request_of (OCreateTicket p _ _ _ _ _ _ _ _ rq) = map_option (Pair p) rq"
| "request_of (OSetDependencies p _ _ _ _ rq) = map_option (Pair p) rq"
| "request_of (OClaim p _ _ _ _ _ rq) = map_option (Pair p) rq"
| "request_of (OAddUpdate p _ _ _ _ _ rq) = map_option (Pair p) rq"
| "request_of (OTransition p _ _ _ _ _ rq) = map_option (Pair p) rq"
| "request_of (OSetAcceptance p _ _ _ _ rq) = map_option (Pair p) rq"
| "request_of (OSubmitReview p _ _ _ _ _ rq) = map_option (Pair p) rq"
| "request_of (ODecideReview p _ _ _ _ _ _ rq) = map_option (Pair p) rq"
| "request_of _ = None"

definition logged :: "op \<Rightarrow> db \<Rightarrow> bool" where
  "logged o' s \<longleftrightarrow> (\<exists>k. request_of o' = Some k \<and> k \<in> set (map rq_key (db_requests s)))"

text \<open>The ticket and the version an operation names as \<open>expected_version\<close>.\<close>

fun names_version :: "op \<Rightarrow> db \<Rightarrow> ((string \<times> string) \<times> int) option" where
  "names_version (OSetDependencies p t _ v _ _) s = Some ((p, t), v)"
| "names_version (OClaim p t _ v _ _ _) s = Some ((p, t), v)"
| "names_version (OTransition p t _ v _ _ _) s = Some ((p, t), v)"
| "names_version (OSetAcceptance p t _ v _ _) s = Some ((p, t), v)"
| "names_version (OSubmitReview p t _ _ v _ _) s = Some ((p, t), v)"
| "names_version (ODecideReview p r _ _ _ v _ _) s =
     map_option (\<lambda>rv. ((p, rv_ticket rv), v)) (List.find (\<lambda>rv. rv_id rv = r \<and> rv_project rv = p) (db_reviews s))"
| "names_version _ s = None"

lemma replay_None:
  "replay e p rq opn body s = Inr None \<Longrightarrow>
     \<forall>rid. rq = Some rid \<longrightarrow> (p, rid) \<notin> set (map rq_key (db_requests s))"
  by (auto simp: replay_def rq_key_def find_None_set split: if_splits option.splits)

lemma replay_Some:
  "replay e p rq opn body s = Inr (Some r) \<Longrightarrow>
     \<exists>rid. rq = Some rid \<and> (p, rid) \<in> set (map rq_key (db_requests s))"
  by (auto simp: replay_def rq_key_def image_iff split: if_splits option.splits dest!: find_SomeD)

lemma idem_fresh:
  assumes "idem e p rq opn body act s = Inr (s', r)"
    and "\<forall>rid. rq = Some rid \<longrightarrow> (p, rid) \<notin> set (map rq_key (db_requests s))"
  obtains s1 where "act s = Inr (s1, r)" "s' = s1\<lparr>db_requests := db_requests s'\<rparr>"
  using idem_cases [OF assms(1)] replay_Some assms(2) by metis

definition bumped :: "db \<Rightarrow> db \<Rightarrow> string \<times> string \<Rightarrow> int \<Rightarrow> bool" where
  "bumped s s' k v \<longleftrightarrow> ticket_version k s = Some v \<and> ticket_version k s' = Some (v + 1)"

lemma bumped_requests [simp]: "bumped s (s'\<lparr>db_requests := rq\<rparr>) k v = bumped s s' k v"
  by (simp add: bumped_def ticket_version_def find_ticket_def)

lemma audited_bumped:
  assumes "audited s core s1"
    and "db_tickets core = update_where (\<lambda>t. t_project t = p \<and> t_id t = tid) f (db_tickets s)"
    and "find_ticket s p tid = Some row" and "t_version row = v"
    and "\<And>t. t_key (f t) = t_key t" and "t_version (f row) = v + 1"
  shows "bumped s s1 (p, tid) v"
  using assms find_key_update [OF assms(3)[unfolded find_ticket_def] assms(5)]
  by (auto simp: bumped_def ticket_version_def audited_def find_ticket_def)

text \<open>Each versioned body reads the version it names and leaves the next one.\<close>

lemma bumped_acts:
  "claim_ticket_act e p tid aid v sid wt rq s = Inr (s1, r) \<Longrightarrow> bumped s s1 (p, tid) v"
  "transition_act e p tid to v actor reason rq s = Inr (s1, r) \<Longrightarrow> bumped s s1 (p, tid) v"
  "set_acceptance_act e p tid acc v actor rq s = Inr (s1, r) \<Longrightarrow> bumped s s1 (p, tid) v"
  "set_dependencies_act e p tid deps v actor rq s = Inr (s1, r) \<Longrightarrow> bumped s s1 (p, tid) v"
  "submit_review_act e p tid by' ev v notes rq s = Inr (s1, r) \<Longrightarrow> bumped s s1 (p, tid) v"
      apply (drule claim_act_Inr, fastforce intro: audited_bumped)
     apply (drule transition_act_Inr, fastforce intro: audited_bumped)
    apply (drule set_acceptance_act_Inr, fastforce intro: audited_bumped simp: update_ticket_tickets)
   apply (drule set_dependencies_act_Inr,
      fastforce intro: audited_bumped simp: update_ticket_tickets set_deps_tickets)
  apply (drule submit_review_act_Inr, fastforce intro: audited_bumped simp: update_ticket_tickets)
  done

lemma bumped_decide:
  assumes "decide_review_act e p rid dn d by' sha v notes rq s = Inr (s1, r)"
    and "List.find (\<lambda>rv. rv_id rv = rid \<and> rv_project rv = p) (db_reviews s) = Some rv"
  shows "bumped s s1 (p, rv_ticket rv) v"
  using decide_review_act_Inr [OF assms(1)] assms(2)
  by (fastforce intro: audited_bumped simp: decidable_def)

lemma idem_bumped:
  assumes "idem e p rq opn body act s = Inr (s', r)" and "\<not> logged o' s"
    and "request_of o' = map_option (Pair p) rq"
    and "\<And>s1. act s = Inr (s1, r) \<Longrightarrow> bumped s s1 k v"
  shows "bumped s s' k v"
proof -
  have "\<forall>rid. rq = Some rid \<longrightarrow> (p, rid) \<notin> set (map rq_key (db_requests s))"
    using assms(2,3) by (auto simp: logged_def)
  then obtain s1 where "act s = Inr (s1, r)" "s' = s1\<lparr>db_requests := db_requests s'\<rparr>"
    by (rule idem_fresh [OF assms(1)])
  then show ?thesis using assms(4) bumped_requests by metis
qed

lemma versioned_commit:
  assumes "body_of e o' s = Inr (s', r)" and "names_version o' s = Some (k, v)" and "\<not> logged o' s"
  shows "bumped s s' k v"
  using assms
  by (cases o')
    (auto simp: claim_ticket_def transition_def set_acceptance_def submit_review_def decide_review_def
      set_dependencies_def split: if_splits option.splits
      elim!: idem_bumped intro: bumped_acts bumped_decide)

text \<open>A call that is no replay commits when its body does.\<close>

definition commits :: "env \<times> op \<Rightarrow> db \<Rightarrow> db option" where
  "commits x s =
     (if logged (snd x) s then None
      else case body_of (fst x) (snd x) s of Inl _ \<Rightarrow> None | Inr (s', _) \<Rightarrow> Some s')"

lemma commits_bumped:
  assumes "commits x s = Some s'" and "names_version (snd x) s = Some (k, v)"
  shows "bumped s s' k v"
proof -
  obtain r where "body_of (fst x) (snd x) s = Inr (s', r)" "\<not> logged (snd x) s"
    using assms(1) by (auto simp: commits_def split: if_splits sum.splits)
  then show ?thesis using versioned_commit assms(2) by blast
qed

interpretation store_versions: versioned "one_step True" ticket_version commits "\<lambda>x. names_version (snd x)"
proof unfold_locales
  show "\<exists>v' \<ge> v. ticket_version k s' = Some v'" if "one_step True s s'" "ticket_version k s = Some v"
    for s s' k v
    using that unfolding one_step_def by (metis exec_version_mono)
next
  show "ticket_version k s = Some v"
    if "commits x s = Some s'" "names_version (snd x) s = Some (k, v)" for x s s' k v
    using commits_bumped [OF that] by (simp add: bumped_def)
next
  show "\<exists>v' > v. ticket_version k s' = Some v'"
    if "commits x s = Some s'" "names_version (snd x) s = Some (k, v)" for x s s' k v
    using commits_bumped [OF that] by (simp add: bumped_def)
qed

section \<open>The request log and the audit trail\<close>

lemma audited_requests: "audited s core s1 \<Longrightarrow> db_requests s1 = db_requests core"
  by (auto simp: audited_def)

lemma set_deps_requests: "set_deps p tid new s = Inr s' \<Longrightarrow> db_requests s' = db_requests s"
  by (drule set_deps_effect) auto

lemma act_requests:
  "claim_ticket_act e p tid aid v sid wt rq s = Inr (s1, r) \<Longrightarrow> db_requests s1 = db_requests s"
  "transition_act e p tid to v actor reason rq s = Inr (s1, r) \<Longrightarrow> db_requests s1 = db_requests s"
  "set_acceptance_act e p tid acc v actor rq s = Inr (s1, r) \<Longrightarrow> db_requests s1 = db_requests s"
  "submit_review_act e p tid by' ev v notes rq s = Inr (s1, r) \<Longrightarrow> db_requests s1 = db_requests s"
  "decide_review_act e p rid dn d by' sha v notes rq s = Inr (s1, r) \<Longrightarrow> db_requests s1 = db_requests s"
  "add_update_act e p tid author txt ns sid rq s = Inr (s1, r) \<Longrightarrow> db_requests s1 = db_requests s"
  "set_dependencies_act e p tid deps v actor rq s = Inr (s1, r) \<Longrightarrow> db_requests s1 = db_requests s"
  "create_ticket_act e p mint_id title role outcome acc deps files actor rq s = Inr (s1, r)
     \<Longrightarrow> db_requests s1 = db_requests s"
  by (drule claim_act_Inr transition_act_Inr set_acceptance_act_Inr submit_review_act_Inr
      decide_review_act_Inr add_update_act_Inr set_dependencies_act_Inr create_ticket_act_Inr;
    elim exE conjE; drule audited_requests; simp split: if_splits; simp add: set_deps_requests)+

lemma audit_requests:
  "audit e k p actor action st sid rq summary s = Inr s' \<Longrightarrow> db_requests s' = db_requests s"
  by (drule audit_effect) auto

lemma store_op_requests:
  "create_project e n src pid s = Inr (s1, r) \<Longrightarrow> db_requests s1 = db_requests s"
  "create_agent e p n ro caps m k rt aid s = Inr (s1, r) \<Longrightarrow> db_requests s1 = db_requests s"
  "set_agent_preset e p a ps pol prof wt at s = Inr (s1, r) \<Longrightarrow> db_requests s1 = db_requests s"
  "re_enroll_agent e p a ro caps m k wt s = Inr (s1, r) \<Longrightarrow> db_requests s1 = db_requests s"
  "record_heartbeat e a at s = Inr (s1, r) \<Longrightarrow> db_requests s1 = db_requests s"
  "open_session e a x sid at s = Inr (s1, r) \<Longrightarrow> db_requests s1 = db_requests s"
  "revoke_session e sd note at s = Inr (s1, r) \<Longrightarrow> db_requests s1 = db_requests s"
  "assign e p t a x re ep ac s = Inr (s1, r) \<Longrightarrow> db_requests s1 = db_requests s"
  "import_set_state e p t st own c u s = Inr (s1, r) \<Longrightarrow> db_requests s1 = db_requests s"
  "import_set_dependencies e p t ds s = Inr (s1, r) \<Longrightarrow> db_requests s1 = db_requests s"
           apply (auto simp: create_project_def result_simps Let_def dest!: audit_requests split: if_splits)[1]
          apply (auto simp: create_agent_def result_simps Let_def dest!: audit_requests split: if_splits)[1]
         apply (auto simp: set_agent_preset_def result_simps Let_def dest!: audit_requests split: if_splits)[1]
        apply (auto simp: re_enroll_agent_def result_simps Let_def dest!: audit_requests
          split: if_splits option.splits)[1]
       apply (auto simp: record_heartbeat_def result_simps Let_def split: if_splits)[1]
      apply (auto simp: open_session_def result_simps Let_def dest!: audit_requests
        split: if_splits option.splits)[1]
     apply (auto simp: revoke_session_def result_simps Let_def dest!: audit_requests
       split: if_splits option.splits)[1]
    apply (auto simp: assign_def result_simps Let_def dest!: audit_requests split: if_splits)[1]
   apply (auto simp: import_set_state_def result_simps dest!: audit_requests split: option.splits)[1]
  apply (auto simp: import_set_dependencies_def result_simps dest!: audit_requests set_deps_requests)
  done

definition requests_grow :: "db \<Rightarrow> db \<Rightarrow> bool" where
  "requests_grow s s' \<longleftrightarrow> (\<exists>ext. db_requests s' = db_requests s @ ext)"

lemma requests_grow_same [simp]: "db_requests s' = db_requests s \<Longrightarrow> requests_grow s s'"
  by (simp add: requests_grow_def)

lemma requests_grow_idem:
  assumes "idem e p rq opn body act s = Inr (s', r)"
    and "\<And>s1. act s = Inr (s1, r) \<Longrightarrow> db_requests s1 = db_requests s"
  shows "requests_grow s s'"
  using idem_cases [OF assms(1)]
proof (elim disjE exE conjE)
  fix s1 assume "act s = Inr (s1, r)" "remember e p rq opn body r s1 = Inr s'"
  then show ?thesis using assms(2) [of s1]
    by (auto simp: remember_def requests_grow_def result_simps split: option.splits)
qed simp

lemma body_requests: "body_of e o' s = Inr (s', r) \<Longrightarrow> requests_grow s s'"
  by (cases o')
    (auto simp: claim_ticket_def transition_def set_acceptance_def submit_review_def decide_review_def
      add_update_def set_dependencies_def create_ticket_def
      intro: store_op_requests act_requests split: if_splits option.splits
      elim!: requests_grow_idem dest: store_op_requests)

lemma exec_requests: "requests_grow s (snd (exec e o' s))"
  by (auto simp: exec_def write_txn_def body_requests split: sum.splits)

interpretation request_log: growing_log "one_step imp" db_requests
  by unfold_locales (use exec_requests in \<open>auto simp: one_step_def requests_grow_def\<close>)

interpretation audit_log: growing_log "one_step imp" db_audits
proof
  show "\<exists>ext. db_audits s' = db_audits s @ ext" if "one_step imp s s'" for s s'
    using that exec_good unfolding one_step_def good_change_def trail_grows_def by (metis append_Nil2)
qed

text \<open>
  A call that carries a request id, taken apart: the project, the id, what is hashed as
  its fingerprint (operation and body) and what runs between replay and remember.
\<close>

fun guarded :: "op \<Rightarrow> (string \<times> string option \<times> string \<times> json \<times> (env \<Rightarrow> db \<Rightarrow> error + db \<times> response)) option" where
  "guarded (OCreateTicket p tid ti r ou acc ds fs ac rq) = Some (p, rq, ''create_ticket'',
     JObj [(''title'', JStr ti), (''role'', jopt r), (''outcome'', jopt ou), (''acceptance'', JArr acc),
           (''dependencies'', jstrs (sort ds)), (''files'', jstrs fs)],
     \<lambda>e. create_ticket_act e p (\<lambda>_. tid) ti r ou acc ds fs ac rq)"
| "guarded (OSetDependencies p t ds v ac rq) = Some (p, rq, ''set_dependencies'',
     JObj [(''ticket_id'', JStr t), (''dependencies'', jstrs (sort ds)), (''expected_version'', JInt v)],
     \<lambda>e. set_dependencies_act e p t ds v ac rq)"
| "guarded (OClaim p t a v sid wt rq) = Some (p, rq, ''claim'',
     JObj [(''ticket_id'', JStr t), (''agent_id'', JStr a), (''expected_version'', JInt v),
           (''session_id'', jopt sid)],
     \<lambda>e. claim_ticket_act e p t a v sid wt rq)"
| "guarded (OAddUpdate p t au b ns sid rq) = Some (p, rq, ''add_update'',
     JObj [(''ticket_id'', JStr t), (''body'', JStr b), (''next_step'', jopt ns), (''session_id'', jopt sid)],
     \<lambda>e. add_update_act e p t au b ns sid rq)"
| "guarded (OTransition p t st v ac re rq) = Some (p, rq, ''transition'',
     JObj [(''ticket_id'', JStr t), (''to_state'', JStr st), (''expected_version'', JInt v), (''reason'', jopt re)],
     \<lambda>e. transition_act e p t st v ac re rq)"
| "guarded (OSetAcceptance p t acc v ac rq) = Some (p, rq, ''set_acceptance'',
     JObj [(''ticket_id'', JStr t), (''acceptance'', JArr acc), (''expected_version'', JInt v)],
     \<lambda>e. set_acceptance_act e p t acc v ac rq)"
| "guarded (OSubmitReview p t by' ev v n rq) =
     (if \<not> is_dict ev \<or> \<not> has_key ev ''sha'' \<or> \<not> has_key ev ''branch'' then None
      else Some (p, rq, ''submit_review'',
     JObj [(''ticket_id'', JStr t), (''expected_version'', JInt v), (''evidence'', ev), (''notes'', jopt n)],
     \<lambda>e. submit_review_act e p t by' ev v n rq))"
| "guarded (ODecideReview p r d by' sha v n rq) =
     map_option (\<lambda>st. (p, rq, ''decide_review'',
     JObj [(''review_id'', JStr r), (''decision'', JStr d), (''evidence_sha'', sha),
           (''expected_version'', JInt v), (''notes'', jopt n)],
     \<lambda>e. decide_review_act e p r d st by' sha v n rq)) (parse_decision d)"
| "guarded _ = None"

lemma guarded_body:
  "guarded o' = Some (p, rq, opn, body, act) \<Longrightarrow> body_of e o' s = idem e p rq opn body (act e) s"
  by (cases o') (auto simp: claim_ticket_def transition_def set_acceptance_def submit_review_def
      decide_review_def add_update_def set_dependencies_def create_ticket_def split: if_splits)

lemma guarded_requests:
  "guarded o' = Some (p, rq, opn, body, act) \<Longrightarrow> act e s = Inr (s1, r) \<Longrightarrow> db_requests s1 = db_requests s"
  by (cases o') (auto intro: act_requests split: if_splits)

lemma guarded_request_of: "guarded o' = Some (p, rq, opn, body, act) \<Longrightarrow> request_of o' = map_option (Pair p) rq"
  by (cases o') (auto split: if_splits)

lemma guarded_commits:
  assumes "request_of o' = Some (p, rid)" and "body_of e o' s = Inr x"
  obtains opn body act where "guarded o' = Some (p, Some rid, opn, body, act)"
  using assms by (cases o') (auto simp: submit_review_def decide_review_def split: if_splits option.splits)

text \<open>What a successful guarded call leaves in the request log.\<close>

lemma idem_logs:
  assumes "idem e p (Some rid) opn body act s = Inr (s', r)"
    and "\<And>s1. act s = Inr (s1, r) \<Longrightarrow> db_requests s1 = db_requests s"
  shows "request_id_ok rid \<and> (\<exists>row. List.find (\<lambda>q. rq_project q = p \<and> rq_id q = rid) (db_requests s') = Some row
     \<and> rq_body_hash row = body_hash e opn body \<and> rq_response row = r)"
  using idem_cases [OF assms(1)]
proof (elim disjE exE conjE)
  assume "s' = s" "replay e p (Some rid) opn body s = Inr (Some r)"
  then show ?thesis by (auto simp: replay_def split: if_splits option.splits)
next
  fix s1
  assume act: "act s = Inr (s1, r)" and rp: "replay e p (Some rid) opn body s = Inr None"
    and rem: "remember e p (Some rid) opn body r s1 = Inr s'"
  have "List.find (\<lambda>q. rq_project q = p \<and> rq_id q = rid) (db_requests s1) = None"
    using rp assms(2) [OF act] by (auto simp: replay_def split: if_splits option.splits)
  then show ?thesis
    using rem rp by (auto simp: remember_def result_simps find_append replay_def split: if_splits)
qed

lemma exec_logs:
  assumes "fst (exec e o' s) = Inr r" and "guarded o' = Some (p, Some rid, opn, body, act)"
  shows "request_id_ok rid \<and> (\<exists>row. List.find (\<lambda>q. rq_project q = p \<and> rq_id q = rid)
       (db_requests (snd (exec e o' s))) = Some row
     \<and> rq_body_hash row = body_hash e opn body \<and> rq_response row = r)"
proof -
  obtain s' where s': "body_of e o' s = Inr (s', r)" "snd (exec e o' s) = s'"
    using assms(1) by (auto simp: exec_def write_txn_def split: sum.splits)
  show ?thesis unfolding s'(2)
    by (rule idem_logs [OF s'(1) [unfolded guarded_body [OF assms(2)]]])
      (rule guarded_requests [OF assms(2)])
qed

text \<open>A call that succeeded under a request id answers the same and writes nothing, whenever it comes again.\<close>

lemma exec_repeated:
  assumes "request_of x = Some k" and "fst (exec e x s) = Inr r"
    and "steps True (snd (exec e x s)) s2" and "sha256 e' = sha256 e"
  shows "exec e' x s2 = (Inr r, s2)"
proof -
  obtain p rid where k: "k = (p, rid)" by (cases k)
  obtain s1 where "body_of e x s = Inr (s1, r)" using assms(2) by (auto simp: exec_def write_txn_def split: sum.splits)
  then obtain opn body act where g: "guarded x = Some (p, Some rid, opn, body, act)"
    using guarded_commits assms(1) unfolding k by blast
  obtain row where ok: "request_id_ok rid" and row:
    "List.find (\<lambda>q. rq_project q = p \<and> rq_id q = rid) (db_requests (snd (exec e x s))) = Some row"
    "rq_body_hash row = body_hash e opn body" "rq_response row = r"
    using exec_logs [OF assms(2) g] by blast
  have "List.find (\<lambda>q. rq_project q = p \<and> rq_id q = rid) (db_requests s2) = Some row"
    using request_log.log_find row(1) assms(3) unfolding steps_one_step by blast
  then have "replay e' p (Some rid) opn body s2 = Inr (Some r)"
    using ok row(2,3) assms(4) by (simp add: replay_def body_hash_def)
  then show ?thesis by (simp add: exec_def write_txn_def guarded_body [OF g] idem_def)
qed

end
