(* ===== verification/Board_Safety.thy ===== *)
theory Board_Safety
  imports Board_Reach
begin

text \<open>
  The invariants of every reachable board and the guarantees of its operations, over the
  step facts of \<open>Board_Steps\<close> and the contracts interpreted in \<open>Board_Reach\<close>.
\<close>

section \<open>A small concrete board\<close>

text \<open>The board the witnesses run on: one project, two agents, two tickets.\<close>

definition demo_env :: "int \<Rightarrow> env" where
  "demo_env n = \<lparr>clock = n, rnd = (\<lambda>k. dec (nat n) @ ''-'' @ dec k), sha256 = (\<lambda>(opn, b). opn)\<rparr>"

fun run :: "int \<Rightarrow> op list \<Rightarrow> db \<Rightarrow> db" where
  "run n [] s = s"
| "run n (x # xs) s = run (n + 1) xs (snd (exec (demo_env n) x s))"

lemma run_steps: "list_all (\<lambda>x. imp \<or> \<not> is_import x) xs \<Longrightarrow> steps imp s (run n xs s)"
proof (induction xs arbitrary: n s)
  case Nil
  then show ?case by (simp add: steps.stay)
next
  case (Cons x xs)
  then show ?case using steps_exec [of imp x s "demo_env n"] by (auto intro: steps_trans)
qed

definition demo_ops :: "op list" where
  "demo_ops =
     [OCreateProject ''demo'' ''native'' (Some ''p''),
      OCreateAgent ''p'' ''ann'' None [] ''managed'' 1 (JObj []) (Some ''a''),
      OCreateAgent ''p'' ''bob'' None [] ''managed'' 1 (JObj []) (Some ''b''),
      OCreateTicket ''p'' ''DM-1'' ''one'' None None [JStr ''works''] [] [] None None,
      OCreateTicket ''p'' ''DM-2'' ''two'' None None [] [''DM-1''] [] None None]"

definition demo :: db where
  "demo = run 1 demo_ops empty_db"

lemma demo_reach: "reach False demo"
  unfolding reach_def demo_def by (rule run_steps) (simp add: demo_ops_def)

definition claim1 :: "string \<Rightarrow> string option \<Rightarrow> op" where
  "claim1 a rq = OClaim ''p'' ''DM-1'' a 1 None None rq"

lemma demo_claim: "\<not> isl (fst (exec (demo_env 9) (claim1 ''a'' None) demo))"
  by code_simp

section \<open>Invariants of every reachable board\<close>

lemma reach_weaken: "reach False s \<Longrightarrow> reach True s"
  unfolding reach_def steps_one_step
  by (erule rtranclp_mono [THEN predicate2D, rotated]) (unfold one_step_def, blast)

lemma exec_ticket_change:
  "ticket_change e (is_import o') (is_decide o') (db_tickets s) (db_tickets (snd (exec e o' s)))"
  using exec_good by (simp add: good_change_def)

lemma ticket_change_keys:
  "ticket_change e imp dcd ts ts' \<Longrightarrow> distinct (map t_key ts) \<Longrightarrow> distinct (map t_key ts')"
  by (erule ticket_change.cases) (auto simp: map_update_where)

text \<open>
  No two ticket rows of a reachable board share a project and an id, whatever calls
  and imports led to it.
\<close>
lemma reach_keys: "reach True s \<Longrightarrow> distinct (map t_key (db_tickets s))"
  by (induction rule: reach_induct) (auto simp: empty_db_def intro: ticket_change_keys exec_ticket_change)

lemma ticket_change_all:
  assumes "ticket_change e imp dcd ts ts'" and "\<forall>t \<in> set ts. P t"
    and "\<And>t. fresh_ticket t \<Longrightarrow> P t" and "\<And>t t'. P t \<Longrightarrow> row_step e dcd t t' \<Longrightarrow> P t'"
    and "\<And>t t'. imp \<Longrightarrow> P t \<Longrightarrow> import_row t t' \<Longrightarrow> P t'" and "distinct (map t_key ts)"
  shows "\<forall>t \<in> set ts'. P t"
  using assms(1)
proof cases
  case (rewritten p tid t f)
  have "P u'" if "u' \<in> set ts'" for u'
    using that unfolding rewritten(1) in_update_where
  proof (elim disjE bexE conjE)
    fix u assume u: "u \<in> set ts" "t_project u = p" "t_id u = tid" "u' = f u"
    have "u = t"
      using unique_key [OF assms(6) u(1)] find_SomeD [OF rewritten(2)] u(2,3) by (auto simp: t_key_def)
    then show "P u'" using u(1,4) rewritten(3) assms(2,4,5) by blast
  qed (use assms(2) in blast)
  then show ?thesis by blast
qed (use assms(2,3) in auto)

definition ticket_ok :: "ticket_row \<Rightarrow> bool" where
  "ticket_ok t \<longleftrightarrow> (t_state t = Open \<or> t_state t = Done \<longrightarrow> t_owner t = None \<and> t_owner_session t = None)
     \<and> (t_state t = Review \<longrightarrow> t_acceptance t \<noteq> [])"

lemma fresh_ticket_ok: "fresh_ticket t \<Longrightarrow> ticket_ok t"
  by (simp add: fresh_ticket_def ticket_ok_def)

lemma row_step_ok: "ticket_ok t \<Longrightarrow> row_step e dcd t t' \<Longrightarrow> ticket_ok t'"
  by (erule row_stepE)
    (auto simp: ticket_ok_def claim_write_def transition_write_def decide_ticket_write_def
      clears_owner_def bump_def)

text \<open>
  C7: On a board that only its own operations built (no import), a ticket that is open or
  done has no owner and no owner session, and a ticket in review has acceptance criteria.
\<close>
theorem native_tickets_ok: "reach False s \<Longrightarrow> \<forall>t \<in> set (db_tickets s). ticket_ok t"
proof (induction rule: reach_induct)
  case 1
  then show ?case by (simp add: empty_db_def)
next
  case (2 s e o')
  then show ?case
    by (intro ticket_change_all [OF exec_ticket_change])
      (auto intro: fresh_ticket_ok row_step_ok reach_keys reach_weaken)
qed

theorem native_tickets_ok_witness: "list_all ticket_ok (db_tickets demo)"
  using native_tickets_ok [OF demo_reach] by (simp add: list_all_iff)

lemma rewired_acyclic: "rewired s s' \<Longrightarrow> deps_acyclic (db_deps s) \<Longrightarrow> deps_acyclic (db_deps s')"
  unfolding rewired_def using set_deps_acyclic by metis

lemma reach_acyclic: "reach True s \<Longrightarrow> deps_acyclic (db_deps s)"
proof (induction rule: reach_induct)
  case 1
  then show ?case by (simp add: empty_db_def deps_acyclic_def edges_def acyclic_def)
next
  case (2 s e o')
  then show ?case using exec_good rewired_acyclic unfolding good_change_def by blast
qed

text \<open>
  C4: The dependency graph of every project of a reachable board is acyclic, whatever
  calls and imports built it.
\<close>
theorem reachable_deps_acyclic: "reach True s \<Longrightarrow> acyclic (edges (db_deps s) p)"
  using reach_acyclic by (simp add: deps_acyclic_def)

theorem reachable_deps_acyclic_witness: "acyclic (edges (db_deps demo) ''p'')"
  by (rule reachable_deps_acyclic [OF reach_weaken [OF demo_reach]])

section \<open>The audit trail\<close>

definition trail_ok :: "audit_row list \<Rightarrow> bool" where
  "trail_ok as \<longleftrightarrow> sorted_wrt (<) (map au_seq as) \<and> distinct (map au_id as)
     \<and> (\<forall>r \<in> set as. 1 \<le> au_seq r \<and> (\<exists>x. au_event_id r = event_id (au_seq r) x))"

lemma foldl_max: "y \<in> set (x # xs) \<Longrightarrow> y \<le> foldl max x xs" for x :: int
proof (induction xs arbitrary: x y)
  case Nil
  then show ?case by simp
next
  case (Cons z xs)
  have "max x z \<le> foldl max (max x z) xs" by (rule Cons.IH) simp
  then show ?case using Cons.prems Cons.IH [of y "max x z"] by auto
qed

lemma next_seq_gt: "r \<in> set (db_audits s) \<Longrightarrow> au_seq r < next_seq s"
  using foldl_max [of "au_seq r" "au_seq (hd (db_audits s))" "map au_seq (tl (db_audits s))"]
  by (cases "db_audits s") (auto simp: next_seq_def)

lemma next_seq_pos: "(\<forall>r \<in> set (db_audits s). 1 \<le> au_seq r) \<Longrightarrow> 1 \<le> next_seq s"
  using next_seq_gt [of "hd (db_audits s)" s]
  by (cases "db_audits s") (fastforce simp: next_seq_def)+

lemma trail_grows_ok: "trail_grows s s' \<Longrightarrow> trail_ok (db_audits s) \<Longrightarrow> trail_ok (db_audits s')"
  using next_seq_gt [of _ s] next_seq_pos [of s]
  by (simp add: trail_grows_def trail_ok_def) (elim disjE exE conjE; simp add: sorted_wrt_append; blast)

lemma reach_trail: "reach True s \<Longrightarrow> trail_ok (db_audits s)"
proof (induction rule: reach_induct)
  case 1
  then show ?case by (simp add: empty_db_def trail_ok_def)
next
  case (2 s e o')
  then show ?case using exec_good trail_grows_ok unfolding good_change_def by blast
qed

text \<open>
  The audit trail is append-only: on any later board the earlier trail is a prefix,
  and every row that was added since has a greater sequence number than every row that
  was there.
\<close>
theorem audit_append_only:
  assumes "reach True s" and "steps True s s'"
  shows "\<exists>ext. db_audits s' = db_audits s @ ext
    \<and> (\<forall>old \<in> set (db_audits s). \<forall>new \<in> set ext. au_seq old < au_seq new)"
proof -
  obtain ext where ext: "db_audits s' = db_audits s @ ext"
    using audit_log.log_prefix assms(2) unfolding steps_one_step by blast
  have "trail_ok (db_audits s')" using reach_trail reach_steps assms by blast
  then show ?thesis using ext by (auto simp: trail_ok_def sorted_wrt_append)
qed

theorem audit_append_only_witness:
  "\<exists>ext. db_audits (run 30 [claim1 ''a'' None] demo) = db_audits demo @ ext
    \<and> list_all (\<lambda>old. list_all (\<lambda>new. au_seq old < au_seq new) ext) (db_audits demo)"
proof -
  have "steps True demo (run 30 [claim1 ''a'' None] demo)" by (rule run_steps) simp
  from audit_append_only [OF reach_weaken [OF demo_reach] this]
  show ?thesis by (simp add: list_all_iff)
qed

text \<open>
  The stream ids of the trail sort as strings in the order of the sequence
  numbers, up to the twelve digits the id has, so a client can page by either.
\<close>
theorem stream_ids_follow_sequence:
  assumes "reach True s" and "a \<in> set (db_audits s)" and "b \<in> set (db_audits s)"
    and "au_seq a < au_seq b" and "au_seq b < 10 ^ 12"
  shows "au_event_id a < au_event_id b"
proof -
  obtain x y where "au_event_id a = event_id (au_seq a) x" "au_event_id b = event_id (au_seq b) y" "1 \<le> au_seq a"
    using reach_trail [OF assms(1)] assms(2,3) unfolding trail_ok_def by blast
  then show ?thesis using assms(4,5) by (simp add: event_id_less)
qed

theorem stream_ids_follow_sequence_witness:
  "au_event_id (db_audits demo ! 0) < au_event_id (db_audits demo ! 4)"
proof (rule stream_ids_follow_sequence [OF reach_weaken [OF demo_reach]])
  show "db_audits demo ! 0 \<in> set (db_audits demo)" "db_audits demo ! 4 \<in> set (db_audits demo)"
    by (rule nth_mem, code_simp)+
qed code_simp+

lemma filter_after:
  assumes "sorted_wrt (<) (map f xs)" and "0 < k" and "k \<le> length xs"
  shows "filter (\<lambda>r. f r > (f (xs ! (k - 1)) :: int)) xs = drop k xs"
proof -
  have nth: "f (xs ! i) < f (xs ! j)" if "i < j" "j < length xs" for i j
    using assms(1) that by (auto simp: sorted_wrt_iff_nth_less)
  have "filter (\<lambda>r. f r > f (xs ! (k - 1))) (take k xs) = []"
  proof -
    have "f (xs ! i) \<le> f (xs ! (k - 1))" if "i < k" for i
    proof (cases "i = k - 1")
      case False
      then have "i < k - 1" "k - 1 < length xs" using that assms(2,3) by linarith+
      then show ?thesis using nth less_imp_le by blast
    qed simp
    then show ?thesis using assms(3) by (auto simp: filter_empty_conv in_set_conv_nth not_less)
  qed
  moreover have "filter (\<lambda>r. f r > f (xs ! (k - 1))) (drop k xs) = drop k xs"
    using nth assms(2,3) by (auto simp: filter_id_conv in_set_conv_nth)
  ultimately show ?thesis by (metis append_Nil append_take_drop_id filter_append)
qed

lemma sorted_trail:
  "trail_ok (db_audits s) \<Longrightarrow> audit_trail s p after n
    = take n (filter (\<lambda>r. au_project r = p \<and> au_seq r > after) (db_audits s))"
  unfolding audit_trail_def trail_ok_def
  by (subst sort_key_id_if_sorted)
    (auto simp: sorted_wrt_map intro!: sorted_wrt_filter elim!: sorted_wrt_mono_rel [rotated])

text \<open>
  Paging through \<open>audit_trail\<close> by the last sequence number of the previous page
  misses nothing and repeats nothing: two pages are the one page of both lengths.
\<close>
theorem audit_trail_pages:
  assumes "reach True s" and "page1 = audit_trail s p after n" and "page1 \<noteq> []"
  shows "page1 @ audit_trail s p (au_seq (last page1)) m = audit_trail s p after (length page1 + m)"
proof -
  let ?F = "filter (\<lambda>r. au_project r = p \<and> au_seq r > after) (db_audits s)"
  let ?k = "length page1"
  have ok: "trail_ok (db_audits s)" by (rule reach_trail [OF assms(1)])
  have p1: "page1 = take n ?F" using assms(2) by (simp add: sorted_trail [OF ok])
  have page: "page1 = take ?k ?F" "?k \<le> length ?F" "0 < ?k"
    using assms(3) by (simp_all only: p1 length_take length_greater_0_conv) (simp_all add: min_def)
  have last: "last page1 = ?F ! (?k - 1)"
    using page assms(3) by (metis diff_less last_conv_nth nth_take zero_less_one)
  have "last page1 \<in> set ?F" unfolding last using page by (intro nth_mem) linarith
  then have "after < au_seq (last page1)" by simp
  then have "filter (\<lambda>r. au_project r = p \<and> au_seq r > au_seq (last page1)) (db_audits s)
      = filter (\<lambda>r. au_seq r > au_seq (?F ! (?k - 1))) ?F"
    unfolding last [symmetric] by (auto intro: filter_cong)
  also have "\<dots> = drop ?k ?F"
    using ok page by (intro filter_after) (auto simp: trail_ok_def sorted_wrt_map intro: sorted_wrt_filter)
  finally show ?thesis
    using page by (simp add: sorted_trail [OF ok] take_add)
qed

theorem audit_trail_pages_witness:
  "audit_trail demo ''p'' 0 2 @ audit_trail demo ''p'' (au_seq (last (audit_trail demo ''p'' 0 2))) 2
    = audit_trail demo ''p'' 0 (length (audit_trail demo ''p'' 0 2) + 2)"
proof (rule audit_trail_pages [OF reach_weaken [OF demo_reach] refl])
  have "length (audit_trail demo ''p'' 0 2) = 2" by code_simp
  then show "audit_trail demo ''p'' 0 2 \<noteq> []" by auto
qed

section \<open>One winner for each version\<close>

lemma exec_Inr: "fst (exec e x s) = Inr r \<longleftrightarrow> body_of e x s = Inr (snd (exec e x s), r)"
  by (auto simp: exec_def write_txn_def split: sum.splits)

lemma exec_Inl: "fst (exec e x s) = Inl err \<Longrightarrow> snd (exec e x s) = s"
  unfolding exec_def by (rule write_txn_rollback)

text \<open>
  C1: Of all the calls that name one version of one ticket (claim, transition, review
  submission or decision, acceptance, dependencies), one at most commits: once a call has
  committed on that version, every later call that names it, through any number of other
  calls in between, is refused and changes nothing. Calls answered from the request log
  are replays of a commit, not commits.
\<close>
theorem expected_version_commits_once:
  assumes "fst (exec e x s) = Inr r" and "names_version x s = Some (k, v)" and "\<not> logged x s"
    and "steps True (snd (exec e x s)) s2"
    and "names_version y s2 = Some (k, v)" and "\<not> logged y s2"
  shows "\<exists>err. exec e' y s2 = (Inl err, s2)"
proof -
  have "commits (e, x) s = Some (snd (exec e x s))"
    using assms(1,3) by (simp add: commits_def exec_Inr)
  then have "commits (e', y) s2 = None"
    using store_versions.commits_once assms(2,4,5) unfolding steps_one_step by (metis snd_conv)
  then show ?thesis
    using assms(6) by (auto simp: commits_def exec_def write_txn_def split: sum.splits)
qed

theorem expected_version_commits_once_witness:
  "\<exists>err. exec (demo_env 8) (claim1 ''b'' None) (snd (exec (demo_env 7) (claim1 ''a'' None) demo))
     = (Inl err, snd (exec (demo_env 7) (claim1 ''a'' None) demo))"
proof -
  have "\<not> isl (fst (exec (demo_env 7) (claim1 ''a'' None) demo))" by code_simp
  then obtain r where r: "fst (exec (demo_env 7) (claim1 ''a'' None) demo) = Inr r"
    by (cases "fst (exec (demo_env 7) (claim1 ''a'' None) demo)") auto
  show ?thesis
    by (rule expected_version_commits_once [OF r, where k = "(''p'', ''DM-1'')" and v = 1])
      (simp_all add: claim1_def logged_def steps.stay)
qed

section \<open>Retries\<close>

text \<open>
  C3: A call that carried a request id and succeeded may be repeated at any later time:
  the repetition answers what the first call answered and leaves the board as it is,
  whatever has happened to the ticket since.
\<close>
theorem retry_answers_the_same:
  assumes "request_of x = Some k" and "fst (exec e x s) = Inr r"
    and "steps True (snd (exec e x s)) s2" and "sha256 e' = sha256 e"
  shows "exec e' x s2 = (Inr r, s2)"
  using assms by (rule exec_repeated)

text \<open>The fingerprint a call is logged under: its operation and its body, canonically.\<close>

definition fingerprint :: "op \<Rightarrow> string \<times> json" where
  "fingerprint x = (case guarded x of None \<Rightarrow> ([], JNull) | Some (p, rq, opn, body, act) \<Rightarrow> (opn, canon body))"

text \<open>
  A request id that a call has used is refused for any other call, another operation
  or another body, at any later time, provided the digest tells the two fingerprints
  apart.
\<close>
theorem reused_request_id_refused:
  assumes "request_of x = Some (p, rid)" and "fst (exec e x s) = Inr r"
    and "steps True (snd (exec e x s)) s2"
    and "request_of y = Some (p, rid)" and "guarded y \<noteq> None"
    and "sha256 e' (fingerprint y) \<noteq> sha256 e (fingerprint x)"
  shows "exec e' y s2 = (Inl (RequestIdReused rid), s2)"
proof -
  obtain opn body act where g: "guarded x = Some (p, Some rid, opn, body, act)"
    using guarded_commits assms(1,2) unfolding exec_Inr by blast
  obtain p' rq opn' body' act' where gy: "guarded y = Some (p', rq, opn', body', act')"
    using assms(5) by auto
  have y: "p' = p" "rq = Some rid" using guarded_request_of [OF gy] assms(4) by (cases rq; simp)+
  obtain row where ok: "request_id_ok rid" and row:
    "List.find (\<lambda>q. rq_project q = p \<and> rq_id q = rid) (db_requests (snd (exec e x s))) = Some row"
    "rq_body_hash row = body_hash e opn body"
    using exec_logs [OF assms(2) g] by blast
  have "List.find (\<lambda>q. rq_project q = p \<and> rq_id q = rid) (db_requests s2) = Some row"
    using request_log.log_find row(1) assms(3) unfolding steps_one_step by blast
  then have "replay e' p (Some rid) opn' body' s2 = Inl (RequestIdReused rid)"
    using ok row(2) assms(6) by (simp add: replay_def body_hash_def fingerprint_def g gy)
  then show ?thesis by (simp add: exec_def write_txn_def guarded_body [OF gy] y idem_def)
qed

text \<open>The two retries on a concrete board: the repetition, and the same id for another claim.\<close>

definition rq1 :: string where
  "rq1 = ''00000000-0000-0000-0000-000000000001''"

definition add_env :: "int \<Rightarrow> env" where
  "add_env n = (demo_env n)\<lparr>sha256 := (\<lambda>(opn, b). case b of JObj ((_, JStr a) # _) \<Rightarrow> opn @ a | _ \<Rightarrow> opn)\<rparr>"

lemma claim1_ok: "\<exists>r. fst (exec (add_env 7) (claim1 ''a'' (Some rq1)) demo) = Inr r"
proof -
  have "\<not> isl (fst (exec (add_env 7) (claim1 ''a'' (Some rq1)) demo))" by code_simp
  then show ?thesis by (cases "fst (exec (add_env 7) (claim1 ''a'' (Some rq1)) demo)") auto
qed

theorem retry_answers_the_same_witness:
  "\<exists>r. exec (add_env 9) (claim1 ''a'' (Some rq1)) (snd (exec (add_env 7) (claim1 ''a'' (Some rq1)) demo))
     = (Inr r, snd (exec (add_env 7) (claim1 ''a'' (Some rq1)) demo))"
proof -
  obtain r where r: "fst (exec (add_env 7) (claim1 ''a'' (Some rq1)) demo) = Inr r"
    using claim1_ok by blast
  have "exec (add_env 9) (claim1 ''a'' (Some rq1)) (snd (exec (add_env 7) (claim1 ''a'' (Some rq1)) demo))
     = (Inr r, snd (exec (add_env 7) (claim1 ''a'' (Some rq1)) demo))"
    by (rule retry_answers_the_same [OF _ r, where k = "(''p'', rq1)"])
      (simp_all add: claim1_def steps.stay add_env_def demo_env_def)
  then show ?thesis by blast
qed

theorem reused_request_id_refused_witness:
  "exec (add_env 9) (claim1 ''b'' (Some rq1)) (snd (exec (add_env 7) (claim1 ''a'' (Some rq1)) demo))
     = (Inl (RequestIdReused rq1), snd (exec (add_env 7) (claim1 ''a'' (Some rq1)) demo))"
proof -
  obtain r where r: "fst (exec (add_env 7) (claim1 ''a'' (Some rq1)) demo) = Inr r"
    using claim1_ok by blast
  have "sha256 (add_env 9) (fingerprint (claim1 ''b'' (Some rq1)))
      \<noteq> sha256 (add_env 7) (fingerprint (claim1 ''a'' (Some rq1)))"
    by code_simp
  then show ?thesis
    by (intro reused_request_id_refused [OF _ r]) (simp_all add: claim1_def steps.stay)
qed

end
