(* ===== verification/Board_Guarantees.thy ===== *)
theory Board_Guarantees
  imports Board_Safety
begin

text \<open>
  What a caller of the store may rely on, operation by operation: the claim gate, the
  release of dependencies, late updates, reviews, the transition table; and the runs in
  which the code does less than its comments promise.
\<close>

section \<open>The release gate\<close>

lemma unmet_Nil:
  "unmet_dependencies s p ds = Inr [] \<longleftrightarrow> (\<forall>d \<in> set ds. dep_met s p d = Inr True)"
proof (induction ds)
  case (Cons d ds)
  show ?case by (cases "dep_met s p d") (auto simp: result_simps Cons.IH [symmetric] split: if_splits)
qed simp

lemma unmet_subset: "unmet_dependencies s p ds = Inr us \<Longrightarrow> us = filter (\<lambda>d. dep_met s p d \<noteq> Inr True) ds"
  by (induction ds arbitrary: us) (auto simp: result_simps split: if_splits)

lemma require_released_Inr:
  "require_released s p tid = Inr () \<longleftrightarrow> (\<forall>d \<in> set (dependencies s p tid). dep_met s p d = Inr True)"
  by (auto simp: require_released_def result_simps unmet_Nil [symmetric] split: if_splits)

lemma release_record_status:
  "release_record row rv = Inr t \<Longrightarrow> py_get t ''status'' = Inr (JStr (state_name (t_state row)))"
  by (auto simp: release_record_def result_simps Let_def)

lemma state_name_done: "state_name st = ''done'' \<longleftrightarrow> st = Done"
  by (cases st) auto

text \<open>
  C6: A dependency that the gate calls met is a ticket of the same project that is done,
  and its release rests on evidence: its newest review was accepted or it was never
  reviewed, or a live acceptance or merge record names exactly its review head, or an
  override is recorded.
\<close>
theorem met_dependency_is_done:
  assumes "dep_met s p d = Inr True"
  shows "\<exists>row. find_ticket s p d = Some row \<and> t_state row = Done
    \<and> (review_ok (latest_review s p d)
       \<or> (\<exists>t. release_record row (latest_review s p d) = Inr t
            \<and> (accept_bound t \<or> merge_bound t \<or> override_recorded t = Inr True)))"
proof -
  let ?rv = "latest_review s p d"
  obtain row t rel where row: "find_ticket s p d = Some row" and t: "release_record row ?rv = Inr t"
    and rel: "dep_released t = Inr rel" "rel \<or> t_state row = Done \<and> review_ok ?rv"
    using assms by (auto simp: dep_met_def result_simps Let_def split: option.splits)
  show ?thesis
  proof (cases rel)
    case True
    have fin: "t_state row = Done"
      using dep_released_cases [of t] rel(1) True release_record_status [OF t] by (simp add: state_name_done)
    have "accept_bound t \<or> merge_bound t \<or> override_recorded t = Inr True"
      using dep_released_cases [of t] rel(1) True structured_accept_bound structured_merge_bound by auto
    then show ?thesis using row t fin by blast
  next
    case False
    then show ?thesis using row rel(2) by blast
  qed
qed

definition demo_done :: db where
  "demo_done = run 20 [OTransition ''p'' ''DM-1'' ''done'' 1 None None None] demo"

theorem met_dependency_is_done_witness:
  "\<exists>row. find_ticket demo_done ''p'' ''DM-1'' = Some row \<and> t_state row = Done
    \<and> (review_ok (latest_review demo_done ''p'' ''DM-1'')
       \<or> (\<exists>t. release_record row (latest_review demo_done ''p'' ''DM-1'') = Inr t
            \<and> (accept_bound t \<or> merge_bound t \<or> override_recorded t = Inr True)))"
  by (rule met_dependency_is_done) code_simp

text \<open>
  The flag a ticket is served with and the gate of a claim agree: a serialised ticket
  is marked blocked exactly when the gate refuses it, and the refusal names the
  dependencies that are not met.
\<close>
theorem blocked_flag_is_the_gate:
  assumes "serialize_ticket s row = Inr v"
  shows "require_released s (t_project row) (t_id row) =
    (if tv_dependency_blocked v
     then Inl (DependencyUnmet (t_id row)
       (filter (\<lambda>d. dep_met s (t_project row) d \<noteq> Inr True) (tv_dependencies v)))
     else Inr ())"
  using assms unmet_subset
  by (fastforce simp: serialize_ticket_def require_released_def Let_def result_simps)

theorem blocked_flag_is_the_gate_witness:
  "require_released demo ''p'' ''DM-2'' = Inl (DependencyUnmet ''DM-2'' [''DM-1''])"
proof -
  define row where "row = the (find_ticket demo ''p'' ''DM-2'')"
  define v where "v = projr (serialize_ticket demo row)"
  have c: "\<not> isl (serialize_ticket demo (the (find_ticket demo ''p'' ''DM-2'')))"
    "t_project (the (find_ticket demo ''p'' ''DM-2'')) = ''p''"
    "t_id (the (find_ticket demo ''p'' ''DM-2'')) = ''DM-2''"
    "tv_dependency_blocked (projr (serialize_ticket demo (the (find_ticket demo ''p'' ''DM-2''))))"
    "filter (\<lambda>d. dep_met demo ''p'' d \<noteq> Inr True)
       (tv_dependencies (projr (serialize_ticket demo (the (find_ticket demo ''p'' ''DM-2''))))) = [''DM-1'']"
    by code_simp+
  have "serialize_ticket demo row = Inr v" using c(1) unfolding v_def row_def by simp
  from blocked_flag_is_the_gate [OF this] show ?thesis
    using c(2-5) unfolding v_def row_def by simp
qed

section \<open>Claiming\<close>

lemma filter_update_one:
  assumes "distinct (map t_key ts)" and "\<And>t. t_key (f t) = t_key t"
  shows "length (filter P (update_where (\<lambda>t. t_project t = p \<and> t_id t = tid) f ts)) \<le> length (filter P ts) + 1"
  using assms(1)
proof (induction ts)
  case Nil
  then show ?case by simp
next
  case (Cons t ts)
  show ?case
  proof (cases "t_project t = p \<and> t_id t = tid")
    case True
    then have "\<forall>u \<in> set ts. \<not> (t_project u = p \<and> t_id u = tid)"
      using Cons.prems by (auto simp: t_key_def image_iff)
    then have "update_where (\<lambda>t. t_project t = p \<and> t_id t = tid) f ts = ts"
      unfolding update_where_def by (intro map_idI) auto
    then show ?thesis using True by simp
  next
    case False
    then have "update_where (\<lambda>t. t_project t = p \<and> t_id t = tid) f (t # ts)
        = t # update_where (\<lambda>t. t_project t = p \<and> t_id t = tid) f ts"
      by (simp only: update_where_Cons if_False)
    then show ?thesis using Cons by simp
  qed
qed

lemma find_other_ticket:
  assumes "\<And>t. t_key (f t) = t_key t" and "(q, uid) \<noteq> (p, tid)"
  shows "List.find (\<lambda>t. t_project t = q \<and> t_id t = uid)
      (update_where (\<lambda>t. t_project t = p \<and> t_id t = tid) f ts)
    = List.find (\<lambda>t. t_project t = q \<and> t_id t = uid) ts"
proof -
  have key: "t_project (f t) = t_project t \<and> t_id (f t) = t_id t" for t
    using assms(1) [of t] by (simp add: t_key_def)
  show ?thesis by (induction ts) (use key assms(2) in auto)
qed



section \<open>Late updates\<close>

text \<open>
  A progress update moves the board only for the session that holds the ticket: an
  update with no session, or from a session that was revoked or is not the owner's, is
  stored, marked superseded when it named a session, and changes no ticket and no agent.
\<close>
theorem late_update_moves_nothing:
  assumes "add_update e p tid author txt ns sid None s = Inr (s', r)"
    and "find_ticket s p tid = Some row" and "sid = None \<or> late_update s row sid"
  shows "db_tickets s' = db_tickets s \<and> db_agents s' = db_agents s
    \<and> (\<exists>upd. db_updates s' = db_updates s @ [upd] \<and> up_superseded upd = (sid \<noteq> None))"
proof -
  have act: "add_update_act e p tid author txt ns sid None s = Inr (s', r)"
    using assms(1) by (auto simp: add_update_def idem_def replay_def remember_def result_simps)
  have late: "\<not> (sid \<noteq> None \<and> \<not> late_update s row sid)" "late_update s row sid = (sid \<noteq> None)"
    using assms(3) by (auto simp: late_update_def)
  obtain row' upd where row': "find_ticket s p tid = Some row'"
    and sup: "up_superseded upd = late_update s row' sid"
    and au: "audited s (if sid \<noteq> None \<and> \<not> late_update s row' sid
       then apply_progress e p tid ns row' (s\<lparr>db_updates := db_updates s @ [upd]\<rparr>)
       else s\<lparr>db_updates := db_updates s @ [upd]\<rparr>) s'"
    using add_update_act_Inr [OF act] by blast
  have eq: "row' = row" using row' assms(2) by simp
  show ?thesis
    using au [unfolded eq if_not_P [OF late(1)]] sup late(2) eq by (auto simp: audited_def)
qed

theorem late_update_moves_nothing_witness:
  "\<exists>s' r. add_update (demo_env 30) ''p'' ''DM-1'' (JStr ''x'') ''hi'' None (Some ''gone'') None demo = Inr (s', r)
    \<and> db_tickets s' = db_tickets demo \<and> db_agents s' = db_agents demo
    \<and> (\<exists>upd. db_updates s' = db_updates demo @ [upd] \<and> up_superseded upd)"
proof -
  let ?r = "add_update (demo_env 30) ''p'' ''DM-1'' (JStr ''x'') ''hi'' None (Some ''gone'') None demo"
  have c: "\<not> isl ?r" "\<not> Option.is_none (find_ticket demo ''p'' ''DM-1'')"
    "\<not> session_is_current demo (Some ''gone'')" by code_simp+
  obtain s' r row where run: "?r = Inr (s', r)" and row: "find_ticket demo ''p'' ''DM-1'' = Some row"
    using c(1,2) by (cases ?r; cases "find_ticket demo ''p'' ''DM-1''") auto
  have late: "late_update demo row (Some ''gone'')" using c(3) by (simp add: late_update_def)
  from late_update_moves_nothing [OF run row disjI2 [OF late]] show ?thesis
    using run by (intro exI [of _ s'] exI [of _ r]) auto
qed

section \<open>Rewiring\<close>

lemma insert_deps_Inl: "insert_deps p tid new ds = Inl err \<Longrightarrow> err = IntegrityError"
  by (induction new arbitrary: ds) (auto simp: result_simps insert_row_def split: if_splits)

lemma dependencies_set: "set (dependencies s p tid) = {d. (tid, d) \<in> edges (db_deps s) p}"
  by (auto simp: dependencies_def out_edges_iff)

text \<open>
  Rewriting a ticket's dependencies is refused as a cycle exactly when one of the new
  dependencies already leads to the ticket, the path in the answer is such a chain of
  dependencies from the ticket back to itself, and otherwise, when the keys allow it, the
  ticket depends on exactly the new set while every other ticket keeps its own.
\<close>
theorem rewiring_is_exact:
  shows "(\<exists>path. set_deps p tid new s = Inl (DependencyCycle path)
       \<and> (\<exists>d rest. path = tid # d # rest \<and> d \<in> set new \<and> last path = tid
            \<and> chain (edges (db_deps s) p) (d # rest)))
     \<and> (\<exists>d \<in> set new. (d, tid) \<in> (edges (db_deps s) p)\<^sup>*)
   \<or> (\<forall>d \<in> set new. (d, tid) \<notin> (edges (db_deps s) p)\<^sup>*)
     \<and> (set_deps p tid new s = Inl IntegrityError
        \<or> (\<exists>s'. set_deps p tid new s = Inr s' \<and> set (dependencies s' p tid) = set new
             \<and> (\<forall>q uid. (q, uid) \<noteq> (p, tid) \<longrightarrow>
                  set (dependencies s' q uid) = set (dependencies s q uid))))"
proof (cases "would_cycle (db_deps s) p tid new")
  case (Some path)
  then have "\<exists>d \<in> set new. (d, tid) \<in> (edges (db_deps s) p)\<^sup>*"
    using would_cycle_None_iff [of "db_deps s" p tid new] by auto
  then show ?thesis using would_cycle_path [OF Some] Some by (simp add: set_deps_def)
next
  case None
  let ?keep = "filter (\<lambda>d. \<not> (dp_project d = p \<and> dp_ticket d = tid)) (db_deps s)"
  have nocycle: "\<forall>d \<in> set new. (d, tid) \<notin> (edges (db_deps s) p)\<^sup>*"
    using None by (simp add: would_cycle_None_iff)
  show ?thesis
  proof (cases "set_deps p tid new s")
    case (Inl err)
    then have "err = IntegrityError"
      using None by (auto simp: set_deps_def result_simps insert_deps_Inl split: if_splits)
    then show ?thesis using Inl nocycle by simp
  next
    case (Inr s')
    then have ins: "insert_deps p tid new ?keep = Inr (db_deps s')"
      using None by (auto simp: set_deps_def result_simps split: if_splits)
    have es: "edges (db_deps s') q = edges ?keep q \<union> (if q = p then {(tid, d) | d. d \<in> set new} else {})" for q
      using insert_deps_set [OF ins] by (intro edges_Un) simp
    have "set (dependencies s' p tid) = set new"
      unfolding dependencies_set es by (auto simp: edges_def)
    moreover have "set (dependencies s' q uid) = set (dependencies s q uid)" if "(q, uid) \<noteq> (p, tid)" for q uid
      unfolding dependencies_set es using that by (auto simp: edges_def)
    ultimately show ?thesis using Inr nocycle by blast
  qed
qed

theorem rewiring_is_exact_witness:
  "\<exists>path. set_deps ''p'' ''DM-1'' [''DM-2''] demo = Inl (DependencyCycle path)
    \<and> hd path = ''DM-1'' \<and> last path = ''DM-1''"
proof -
  have "(case set_deps ''p'' ''DM-1'' [''DM-2''] demo of Inl (DependencyCycle c) \<Rightarrow> True | _ \<Rightarrow> False)"
    by code_simp
  then show ?thesis using rewiring_is_exact [of "''p''" "''DM-1''" "[''DM-2'']" demo]
    by (auto split: sum.splits error.splits)
qed

section \<open>Reviews\<close>

lemma failed_checks_Nil:
  "failed_checks cs = Inr [] \<longleftrightarrow>
     (\<forall>c \<in> set cs. py_get c ''status'' = Inr (JStr ''passed'') \<or> py_get c ''status'' = Inr (JStr ''skipped''))"
proof (induction cs)
  case (Cons c cs)
  show ?case
    by (cases "py_get c ''status''")
      (auto simp: result_simps Cons.IH [symmetric] split: if_splits)
qed simp


definition evidence1 :: json where
  "evidence1 = JObj [(''branch'', JStr ''b''), (''sha'', JStr ''abc''),
     (''checks'', JArr [JObj [(''name'', JStr ''unit''), (''status'', JStr ''passed'')]])]"

text \<open>A claimed ticket handed to review.\<close>

definition demo_review :: db where
  "demo_review = run 20 [claim1 ''a'' None, OSubmitReview ''p'' ''DM-1'' (JStr ''ann'') evidence1 2 None None] demo"


section \<open>Done is terminal, but for a decision\<close>

lemma row_step_from_done:
  assumes "row_step e dcd t t'" and "t_state t = Done" and "\<not> dcd"
  shows "t_state t' = Done \<and> t_owner t' = t_owner t \<and> t_owner_session t' = t_owner_session t
    \<and> t_acceptance t' = t_acceptance t"
  using assms by (auto elim!: row_stepE)

text \<open>
  C8: No call but a review decision (and the import) takes a ticket out of done, gives it
  an owner or rewrites its acceptance criteria.
\<close>
theorem done_is_terminal_but_for_decisions:
  assumes "find_ticket s p tid = Some t" and "t_state t = Done"
    and "\<not> is_import x" and "\<not> is_decide x"
  shows "\<exists>t'. find_ticket (snd (exec e x s)) p tid = Some t' \<and> t_state t' = Done
    \<and> t_owner t' = t_owner t \<and> t_acceptance t' = t_acceptance t"
proof -
  obtain t' where t': "find_ticket (snd (exec e x s)) p tid = Some t'"
    "t' = t \<or> row_step e (is_decide x) t t' \<or> is_import x \<and> import_row t t'"
    using exec_find_ticket [OF assms(1)] .
  then show ?thesis using assms(2-4) row_step_from_done [of e "is_decide x" t t'] by auto
qed

theorem done_is_terminal_but_for_decisions_witness:
  "\<exists>t'. find_ticket (snd (exec (demo_env 40) (OTransition ''p'' ''DM-1'' ''open'' 2 None None None) demo_done))
      ''p'' ''DM-1'' = Some t' \<and> t_state t' = Done"
proof -
  have c: "map_option t_state (find_ticket demo_done ''p'' ''DM-1'') = Some Done" by code_simp
  then obtain t where "find_ticket demo_done ''p'' ''DM-1'' = Some t" "t_state t = Done" by auto
  from done_is_terminal_but_for_decisions [OF this,
      where x = "OTransition ''p'' ''DM-1'' ''open'' 2 None None None" and e = "demo_env 40"]
  show ?thesis by auto
qed

text \<open>
  The decision does take it out: \<open>decide_review\<close> looks at the review and at the
  ticket's version, never at its state. A ticket that went from review to done by hand is
  claimed again, by nobody, when its open review is rejected afterwards.
\<close>
theorem rejection_reopens_a_done_ticket:
  "let s1 = run 30 [OTransition ''p'' ''DM-1'' ''done'' 3 None None None] demo_review;
       s2 = run 31 [ODecideReview ''p'' ''rev_21-0'' ''rejected'' (JStr ''bob'') (JStr ''abc'') 4 None None] s1
   in map_option t_state (find_ticket s1 ''p'' ''DM-1'') = Some Done
    \<and> map_option (\<lambda>t. (t_state t, t_owner t)) (find_ticket s2 ''p'' ''DM-1'') = Some (Claimed, None)"
  by code_simp

text \<open>
  A transition to claimed assigns nobody: an open ticket can be moved to claimed
  without an owner, where a claim would have recorded one.
\<close>
theorem transition_claims_for_nobody:
  "let s1 = run 30 [OTransition ''p'' ''DM-1'' ''claimed'' 1 None None None] demo
   in map_option (\<lambda>t. (t_state t, t_owner t)) (find_ticket s1 ''p'' ''DM-1'') = Some (Claimed, None)"
  by code_simp

text \<open>A second ready ticket, for the agent's limit of one.\<close>

definition demo_two :: db where
  "demo_two = run 10 [OCreateTicket ''p'' ''DM-3'' ''three'' None None [] [] [] None None] demo"

text \<open>
  The limit of an agent is checked by the claim alone: a ticket that is blocked leaves
  the count, and moving it back from blocked to claimed does not ask again, so an agent
  with a limit of one ends with two active tickets.
\<close>
theorem limit_is_not_kept_by_transitions:
  "let s1 = run 30 [claim1 ''a'' None, OTransition ''p'' ''DM-1'' ''blocked'' 2 None None None,
                    OClaim ''p'' ''DM-3'' ''a'' 1 None None None,
                    OTransition ''p'' ''DM-1'' ''claimed'' 3 None None None] demo_two
   in map_option ag_max_active (find_agent s1 ''a'') = Some 1 \<and> active_count s1 ''a'' = 2"
  by code_simp

section \<open>Decided reviews\<close>

inductive review_change :: "review_row list \<Rightarrow> review_row list \<Rightarrow> bool" where
  same: "review_change rs rs"
| submitted: "rv_state rv = Requested \<Longrightarrow> rv_id rv \<notin> set (map rv_id rs) \<Longrightarrow> review_change rs (rs @ [rv])"
| decided: "List.find (\<lambda>r. rv_id r = rid \<and> rv_project r = p) rs = Some rv \<Longrightarrow> rv_state rv = Requested
    \<Longrightarrow> review_change rs (update_where (\<lambda>r. rv_id r = rid \<and> rv_project r = p) (decide_write e d by' notes) rs)"

lemma audited_reviews: "audited s core s1 \<Longrightarrow> db_reviews s1 = db_reviews core"
  by (auto simp: audited_def)

lemma set_deps_reviews: "set_deps p tid new s = Inr s' \<Longrightarrow> db_reviews s' = db_reviews s"
  by (drule set_deps_effect) auto

lemma audit_reviews:
  "audit e k p actor action st sid rq summary s = Inr s' \<Longrightarrow> db_reviews s' = db_reviews s"
  by (drule audit_effect) auto

lemma act_reviews:
  "claim_ticket_act e p tid aid v sid wt rq s = Inr (s1, r) \<Longrightarrow> db_reviews s1 = db_reviews s"
  "transition_act e p tid to v actor reason rq s = Inr (s1, r) \<Longrightarrow> db_reviews s1 = db_reviews s"
  "set_acceptance_act e p tid acc v actor rq s = Inr (s1, r) \<Longrightarrow> db_reviews s1 = db_reviews s"
  "add_update_act e p tid author txt ns sid rq s = Inr (s1, r) \<Longrightarrow> db_reviews s1 = db_reviews s"
  "set_dependencies_act e p tid deps v actor rq s = Inr (s1, r) \<Longrightarrow> db_reviews s1 = db_reviews s"
  "create_ticket_act e p mint_id title role outcome acc deps files actor rq s = Inr (s1, r)
     \<Longrightarrow> db_reviews s1 = db_reviews s"
  by (drule claim_act_Inr transition_act_Inr set_acceptance_act_Inr
      add_update_act_Inr set_dependencies_act_Inr create_ticket_act_Inr;
    elim exE conjE; drule audited_reviews; simp add: set_deps_reviews split: if_splits)+

lemma store_op_reviews:
  "create_project e n src pid s = Inr (s1, r) \<Longrightarrow> db_reviews s1 = db_reviews s"
  "create_agent e p n ro caps m k rt aid s = Inr (s1, r) \<Longrightarrow> db_reviews s1 = db_reviews s"
  "set_agent_preset e p a ps pol prof wt at s = Inr (s1, r) \<Longrightarrow> db_reviews s1 = db_reviews s"
  "re_enroll_agent e p a ro caps m k wt s = Inr (s1, r) \<Longrightarrow> db_reviews s1 = db_reviews s"
  "record_heartbeat e a at s = Inr (s1, r) \<Longrightarrow> db_reviews s1 = db_reviews s"
  "open_session e a x sid at s = Inr (s1, r) \<Longrightarrow> db_reviews s1 = db_reviews s"
  "revoke_session e sd note at s = Inr (s1, r) \<Longrightarrow> db_reviews s1 = db_reviews s"
  "assign e p t a x re ep ac s = Inr (s1, r) \<Longrightarrow> db_reviews s1 = db_reviews s"
  "import_set_state e p t st own c u s = Inr (s1, r) \<Longrightarrow> db_reviews s1 = db_reviews s"
  "import_set_dependencies e p t ds s = Inr (s1, r) \<Longrightarrow> db_reviews s1 = db_reviews s"
           apply (auto simp: create_project_def result_simps Let_def dest!: audit_reviews split: if_splits)[1]
          apply (auto simp: create_agent_def result_simps Let_def dest!: audit_reviews split: if_splits)[1]
         apply (auto simp: set_agent_preset_def result_simps Let_def dest!: audit_reviews split: if_splits)[1]
        apply (auto simp: re_enroll_agent_def result_simps Let_def dest!: audit_reviews
          split: if_splits option.splits)[1]
       apply (auto simp: record_heartbeat_def result_simps Let_def split: if_splits)[1]
      apply (auto simp: open_session_def result_simps Let_def dest!: audit_reviews
        split: if_splits option.splits)[1]
     apply (auto simp: revoke_session_def result_simps Let_def dest!: audit_reviews
       split: if_splits option.splits)[1]
    apply (auto simp: assign_def result_simps Let_def dest!: audit_reviews split: if_splits)[1]
   apply (auto simp: import_set_state_def result_simps dest!: audit_reviews split: option.splits)[1]
  apply (auto simp: import_set_dependencies_def result_simps dest!: audit_reviews set_deps_reviews)
  done

lemma review_change_submit:
  "submit_review_act e p tid by' ev v notes rq s = Inr (s1, r) \<Longrightarrow>
     review_change (db_reviews s) (db_reviews s1)"
  by (drule submit_review_act_Inr, elim exE conjE, drule audited_reviews)
    (simp add: review_change.submitted)

lemma review_change_decide:
  "decide_review_act e p rid dn d by' sha v notes rq s = Inr (s1, r) \<Longrightarrow>
     review_change (db_reviews s) (db_reviews s1)"
  by (drule decide_review_act_Inr, elim exE conjE, drule audited_reviews)
    (auto simp: decidable_def intro: review_change.decided)

lemma review_change_idem:
  assumes "idem e p rq opn body act s = Inr (s', r)"
    and "\<And>s1. act s = Inr (s1, r) \<Longrightarrow> review_change (db_reviews s) (db_reviews s1)"
  shows "review_change (db_reviews s) (db_reviews s')"
  using idem_cases [OF assms(1)]
proof (elim disjE exE conjE)
  fix s1 assume "act s = Inr (s1, r)" "s' = s1\<lparr>db_requests := db_requests s'\<rparr>"
  then show ?thesis using assms(2) [of s1] by (metis db.select_convs(7) db.surjective db.update_convs(12))
qed (simp add: review_change.same)

lemma review_change_eq: "rs' = rs \<Longrightarrow> review_change rs rs'"
  by (simp add: review_change.same)

lemma body_reviews: "body_of e x s = Inr (s', r) \<Longrightarrow> review_change (db_reviews s) (db_reviews s')"
  by (cases x)
    (auto simp: claim_ticket_def transition_def set_acceptance_def submit_review_def decide_review_def
      add_update_def set_dependencies_def create_ticket_def split: if_splits option.splits
      elim!: review_change_idem dest: store_op_reviews
      intro: review_change_eq act_reviews store_op_reviews review_change_submit review_change_decide)

lemma exec_reviews: "review_change (db_reviews s) (db_reviews (snd (exec e x s)))"
  by (auto simp: exec_def write_txn_def body_reviews review_change.same split: sum.splits)

lemma decide_write_simps [simp]:
  "rv_id (decide_write e d by' notes r) = rv_id r" "rv_project (decide_write e d by' notes r) = rv_project r"
  "rv_ticket (decide_write e d by' notes r) = rv_ticket r"
  "rv_evidence (decide_write e d by' notes r) = rv_evidence r"
  by (simp_all add: decide_write_def)

lemma review_change_ids:
  "review_change rs rs' \<Longrightarrow> distinct (map rv_id rs) \<Longrightarrow> distinct (map rv_id rs')"
  by (erule review_change.cases) (auto simp: map_update_where)

lemma reach_review_ids: "reach True s \<Longrightarrow> distinct (map rv_id (db_reviews s))"
  by (induction rule: reach_induct) (auto simp: empty_db_def intro: review_change_ids exec_reviews)

text \<open>What time leaves alone of a review.\<close>

definition review_kept :: "review_row \<Rightarrow> review_row \<Rightarrow> bool" where
  "review_kept rv rv' \<longleftrightarrow> rv_id rv' = rv_id rv \<and> rv_ticket rv' = rv_ticket rv
     \<and> rv_evidence rv' = rv_evidence rv \<and> (rv_state rv \<noteq> Requested \<longrightarrow> rv' = rv)"

lemma review_change_kept:
  assumes "review_change rs rs'" and "distinct (map rv_id rs)" and "rv \<in> set rs"
  shows "\<exists>rv' \<in> set rs'. review_kept rv rv'"
  using assms(1)
proof cases
  case (decided rid p u e d by' ns)
  show ?thesis
  proof (cases "rv_id rv = rid \<and> rv_project rv = p")
    case True
    then have "rv = u"
      using find_SomeD [OF decided(2)] unique_key [OF assms(2,3), of u] by simp
    then show ?thesis unfolding decided(1)
      using True decided(3) assms(3)
      by (intro bexI [of _ "decide_write e d by' ns rv"]) (auto simp: review_kept_def in_update_where)
  next
    case False
    then show ?thesis unfolding decided(1) using assms(3)
      by (intro bexI [of _ rv]) (auto simp: review_kept_def in_update_where)
  qed
qed (use assms(3) in \<open>auto simp: review_kept_def\<close>)

text \<open>
  C9: A review is decided once: on every later board the review is still there, with the
  ticket and the evidence it was submitted with, and if it was decided, unchanged in
  every column.
\<close>
theorem reviews_are_decided_once:
  assumes "reach True s" and "steps True s s'" and "rv \<in> set (db_reviews s)"
  shows "\<exists>rv' \<in> set (db_reviews s'). review_kept rv rv'"
  using assms(2,1,3)
proof induction
  case (stay s)
  then show ?case by (auto simp: review_kept_def)
next
  case (call s s' x e)
  then obtain u where u: "u \<in> set (db_reviews s')" "review_kept rv u" by blast
  have "reach True s'" using call reach_steps by blast
  then obtain w where "w \<in> set (db_reviews (snd (exec e x s')))" "review_kept u w"
    using review_change_kept [OF exec_reviews reach_review_ids u(1)] by blast
  then show ?case using u(2) by (auto simp: review_kept_def)
qed

theorem reviews_are_decided_once_witness:
  "\<exists>rv' \<in> set (db_reviews (run 30 [ODecideReview ''p'' ''rev_21-0'' ''rejected'' (JStr ''bob'') (JStr ''abc'') 3 None None] demo_review)).
     review_kept (db_reviews demo_review ! 0) rv'"
proof (rule reviews_are_decided_once)
  have "steps False demo demo_review"
    unfolding demo_review_def by (rule run_steps) (simp add: claim1_def)
  then show "reach True demo_review" using demo_reach reach_steps reach_weaken by blast
  show "steps True demo_review (run 30 [ODecideReview ''p'' ''rev_21-0'' ''rejected'' (JStr ''bob'') (JStr ''abc'') 3 None None] demo_review)"
    by (rule run_steps) simp
  show "db_reviews demo_review ! 0 \<in> set (db_reviews demo_review)"
    by (rule nth_mem) code_simp
qed

end
