(* ===== verification/Master_Lease.thy ===== *)
theory Master_Lease
  imports Board_Guarantees
begin

text \<open>
  \<open>server/master.py\<close>: the master lease with its fencing epoch, the pause switch, the
  reservations a master queues, and the fenced writes the sweep of
  \<open>orchestrator/sweep.py\<close> adds (its decision log, the expiry of reservations, the
  checkpoint). Every one of them reads the epoch inside the transaction that writes.
  A lease row is served as \<open>server/views.py\<close> serialises it: no holder once expired,
  epoch 0 when the board was never held.
\<close>

section \<open>Lease and serialisation\<close>

definition DEFAULT_LEASE_TTL_SECONDS :: int where "DEFAULT_LEASE_TTL_SECONDS = 120"
definition DEFAULT_ASSIGNMENT_TTL_SECONDS :: int where "DEFAULT_ASSIGNMENT_TTL_SECONDS = 600"
definition SWEEP_INTERVAL_SECONDS :: int where "SWEEP_INTERVAL_SECONDS = 30"

definition current_epoch :: "db \<Rightarrow> string \<Rightarrow> int" where
  "current_epoch s p = (case find_lease s p of None \<Rightarrow> 0 | Some r \<Rightarrow> ml_epoch r)"

definition serialize_master_lease :: "env \<Rightarrow> string \<Rightarrow> lease_row option \<Rightarrow> lease_row" where
  "serialize_master_lease e p row =
     (case row of
        None \<Rightarrow> \<lparr>ml_project = p, ml_holder = None, ml_epoch = 0, ml_acquired_at = clock e,
                 ml_expires_at = clock e, ml_routing = Deterministic, ml_paused = False,
                 ml_last_sweep_at = None, ml_next_sweep_at = None, ml_interval = 30\<rparr>
      | Some r \<Rightarrow> r\<lparr>ml_holder :=
          (case ml_holder r of
             None \<Rightarrow> None
           | Some h \<Rightarrow> if h = JNull \<or> ml_expires_at r \<le> clock e then None else Some h)\<rparr>)"

definition take_lease_act :: "env \<Rightarrow> string \<Rightarrow> json \<Rightarrow> int \<Rightarrow> int \<Rightarrow> string option \<Rightarrow> db
    \<Rightarrow> error + db \<times> response" where
  "take_lease_act e p holder expected ttl request_id s =
     (let existing = current_epoch s p; epoch = existing + 1 in
      if expected \<noteq> existing then Inl (MasterLeaseConflict expected existing)
      else bindE
        (case find_lease s p of
           None \<Rightarrow>
             if \<not> project_exists s p then Inl IntegrityError
             else Inr (s\<lparr>db_leases := db_leases s @
               [\<lparr>ml_project = p, ml_holder = Some holder, ml_epoch = epoch, ml_acquired_at = clock e,
                 ml_expires_at = in_seconds e ttl, ml_routing = Deterministic, ml_paused = False,
                 ml_last_sweep_at = None, ml_next_sweep_at = Some (in_seconds e SWEEP_INTERVAL_SECONDS),
                 ml_interval = SWEEP_INTERVAL_SECONDS\<rparr>]\<rparr>)
         | Some _ \<Rightarrow>
             Inr (s\<lparr>db_leases := update_where (\<lambda>r. ml_project r = p)
               (\<lambda>r. r\<lparr>ml_holder := Some holder, ml_epoch := epoch, ml_acquired_at := clock e,
                      ml_expires_at := in_seconds e ttl,
                      ml_next_sweep_at := Some (in_seconds e SWEEP_INTERVAL_SECONDS)\<rparr>) (db_leases s)\<rparr>))
        (\<lambda>s1. bindE (audit e 1 p holder ''master.lease.taken'' (Some ''master_lease'')
                 (Some (dec_int epoch)) request_id (''lease taken at epoch '' @ dec_int epoch) s1)
          (\<lambda>s2. Inr (s2, RLease (serialize_master_lease e p (find_lease s2 p))))))"

definition take_lease :: "env \<Rightarrow> string \<Rightarrow> json \<Rightarrow> int \<Rightarrow> int \<Rightarrow> string option \<Rightarrow> db
    \<Rightarrow> error + db \<times> response" where
  "take_lease e p holder expected ttl request_id s =
     idem e p request_id ''master.take_lease''
       (JObj [(''expected_epoch'', JInt expected), (''ttl_seconds'', JInt ttl), (''holder'', holder)])
       (take_lease_act e p holder expected ttl request_id) s"

definition set_paused_act :: "env \<Rightarrow> string \<Rightarrow> json \<Rightarrow> int \<Rightarrow> bool \<Rightarrow> string option \<Rightarrow> db
    \<Rightarrow> error + db \<times> response" where
  "set_paused_act e p actor lease_epoch paused request_id s =
     (if lease_epoch \<noteq> current_epoch s p then Inl (MasterLeaseExpired lease_epoch (current_epoch s p))
      else bindE (audit e 1 p actor (if paused then ''master.paused'' else ''master.resumed'')
               (Some ''master_lease'') (Some (dec_int lease_epoch)) request_id
               (''sweeps '' @ (if paused then ''paused'' else ''resumed''))
               (s\<lparr>db_leases := update_where (\<lambda>r. ml_project r = p) (\<lambda>r. r\<lparr>ml_paused := paused\<rparr>) (db_leases s)\<rparr>))
        (\<lambda>s1. Inr (s1, RLease (serialize_master_lease e p (find_lease s1 p)))))"

definition set_paused :: "env \<Rightarrow> string \<Rightarrow> json \<Rightarrow> int \<Rightarrow> bool \<Rightarrow> string option \<Rightarrow> db
    \<Rightarrow> error + db \<times> response" where
  "set_paused e p actor lease_epoch paused request_id s =
     idem e p request_id ''master.pause''
       (JObj [(''lease_epoch'', JInt lease_epoch), (''paused'', JBool paused)])
       (set_paused_act e p actor lease_epoch paused request_id) s"

section \<open>Reservations\<close>

definition decision_of :: "env \<Rightarrow> string \<Rightarrow> string \<Rightarrow> string \<Rightarrow> string \<Rightarrow> string option \<Rightarrow> decision_row" where
  "decision_of e p tid kind reason aid =
     \<lparr>dc_project = p, dc_ticket = tid, dc_decision = kind, dc_reason = reason, dc_agent = aid,
      dc_decided_at = clock e\<rparr>"

definition new_assignment :: "env \<Rightarrow> string \<Rightarrow> string \<Rightarrow> string \<Rightarrow> string \<Rightarrow> int \<Rightarrow> int \<Rightarrow> assignment_row" where
  "new_assignment e p tid aid reason epoch ttl =
     \<lparr>as_id = mint ''asg'' (rnd e 0), as_project = p, as_ticket = tid, as_agent = aid,
      as_state = Queued, as_reason = reason, as_created_at = clock e,
      as_expires_at = in_seconds e ttl, as_epoch = epoch, as_version = 1\<rparr>"

definition create_assignment_act :: "env \<Rightarrow> string \<Rightarrow> json \<Rightarrow> string \<Rightarrow> string \<Rightarrow> string \<Rightarrow> int \<Rightarrow> int \<Rightarrow> int
    \<Rightarrow> string option \<Rightarrow> db \<Rightarrow> error + db \<times> response" where
  "create_assignment_act e p actor tid aid reason lease_epoch expected ttl request_id s =
     (if lease_epoch \<noteq> current_epoch s p then Inl (MasterLeaseExpired lease_epoch (current_epoch s p))
      else case find_ticket s p tid of
        None \<Rightarrow> Inl (NotFound ''No such ticket in this project.'' [(''ticket_id'', JStr tid)])
      | Some ticket \<Rightarrow>
          if t_version ticket \<noteq> expected
          then Inl (TicketVersionConflict tid expected (t_version ticket))
          else if \<not> list_ex (\<lambda>a. ag_id a = aid \<and> ag_project a = p) (db_agents s)
          then Inl (NotFound ''No such agent in this project.'' [(''agent_id'', JStr aid)])
          else let row = new_assignment e p tid aid reason lease_epoch ttl in
            bindE (insert_row as_id row (db_assignments s)) (\<lambda>as.
            bindE (audit e 1 p actor ''assignment.create'' (Some ''assignment'') (Some (as_id row))
                    request_id (tid @ '' reserved for '' @ aid)
                    (s\<lparr>db_assignments := as,
                       db_decisions := db_decisions s @ [decision_of e p tid ''assigned'' reason (Some aid)]\<rparr>))
              (\<lambda>s'. Inr (s', RAssignment row))))"

definition create_assignment :: "env \<Rightarrow> string \<Rightarrow> json \<Rightarrow> string \<Rightarrow> string \<Rightarrow> string \<Rightarrow> int \<Rightarrow> int \<Rightarrow> int
    \<Rightarrow> string option \<Rightarrow> db \<Rightarrow> error + db \<times> response" where
  "create_assignment e p actor tid aid reason lease_epoch expected ttl request_id s =
     idem e p request_id ''master.assign''
       (JObj [(''ticket_id'', JStr tid), (''agent_id'', JStr aid), (''reason'', JStr reason),
              (''lease_epoch'', JInt lease_epoch), (''expected_version'', JInt expected),
              (''ttl_seconds'', JInt ttl)])
       (create_assignment_act e p actor tid aid reason lease_epoch expected ttl request_id) s"

definition elapsed :: "env \<Rightarrow> string \<Rightarrow> assignment_row \<Rightarrow> bool" where
  "elapsed e p r \<longleftrightarrow> as_project r = p \<and> as_state r = Queued \<and> as_expires_at r \<le> clock e"

definition expire_row :: "assignment_row \<Rightarrow> assignment_row" where
  "expire_row r = r\<lparr>as_state := Expired, as_version := as_version r + 1\<rparr>"

text \<open>
  \<open>expire_assignments\<close>, on the read paths: unfenced and unaudited. Its read before the
  write only saves the lock; with nothing elapsed the update matches no row.
\<close>

definition expire_assignments :: "env \<Rightarrow> string \<Rightarrow> db \<Rightarrow> db" where
  "expire_assignments e p s =
     (if \<not> list_ex (elapsed e p) (db_assignments s) then s
      else s\<lparr>db_assignments := update_where (elapsed e p) expire_row (db_assignments s)\<rparr>)"

text \<open>\<open>ORDER BY created_at DESC, rowid DESC LIMIT 1\<close>, and the two other reads.\<close>

definition queued_assignment :: "db \<Rightarrow> string \<Rightarrow> string \<Rightarrow> assignment_row option" where
  "queued_assignment s p tid =
     foldl (\<lambda>best r. case best of
              None \<Rightarrow> Some r
            | Some b \<Rightarrow> if as_created_at b \<le> as_created_at r then Some r else Some b)
       None (filter (\<lambda>r. as_project r = p \<and> as_ticket r = tid) (db_assignments s))"

definition assignment_queue :: "db \<Rightarrow> string \<Rightarrow> assignment_row list" where
  "assignment_queue s p =
     sort_key as_created_at (filter (\<lambda>r. as_project r = p \<and> as_state r = Queued) (db_assignments s))"

definition decisions :: "db \<Rightarrow> string \<Rightarrow> nat \<Rightarrow> decision_row list" where
  "decisions s p limit = take limit (rev (filter (\<lambda>d. dc_project d = p) (db_decisions s)))"

section \<open>The fenced writes of the sweep\<close>

definition sweep_log :: "env \<Rightarrow> string \<Rightarrow> int \<Rightarrow> string \<Rightarrow> string \<Rightarrow> string \<Rightarrow> string option \<Rightarrow> db
    \<Rightarrow> error + db \<times> response" where
  "sweep_log e p lease_epoch tid kind reason aid s =
     (if current_epoch s p \<noteq> lease_epoch then Inl (MasterLeaseExpired lease_epoch (current_epoch s p))
      else Inr (s\<lparr>db_decisions := db_decisions s @ [decision_of e p tid kind reason aid]\<rparr>, RUnit))"

text \<open>
  The loop over the elapsed rows: an audit row and a decision for each. The i-th audit row
  draws the suffixes 2i and 2i+1.
\<close>

fun expire_loop :: "env \<Rightarrow> string \<Rightarrow> json \<Rightarrow> nat \<Rightarrow> assignment_row list \<Rightarrow> db \<Rightarrow> error + db" where
  "expire_loop e p actor i [] s = Inr s"
| "expire_loop e p actor i (r # rs) s =
     bindE (audit e (2 * i) p actor ''assignment.expire'' (Some ''assignment'') (Some (as_id r)) None
             (''reservation of '' @ as_ticket r @ '' for '' @ as_agent r @ '' expired unclaimed'') s)
       (\<lambda>s1. expire_loop e p actor (Suc i) rs
          (s1\<lparr>db_decisions := db_decisions s1 @
             [decision_of e p (as_ticket r) ''skipped'' ''reservation expired unclaimed'' (Some (as_agent r))]\<rparr>))"

definition expire_reservations :: "env \<Rightarrow> string \<Rightarrow> json \<Rightarrow> int \<Rightarrow> db \<Rightarrow> error + db \<times> nat" where
  "expire_reservations e p actor lease_epoch s =
     (if current_epoch s p \<noteq> lease_epoch then Inl (MasterLeaseExpired lease_epoch (current_epoch s p))
      else let rows = sort_key as_id (filter (elapsed e p) (db_assignments s)) in
        if rows = [] then Inr (s, 0)
        else bindE (expire_loop e p actor 0 rows
               (s\<lparr>db_assignments := update_where (elapsed e p) expire_row (db_assignments s)\<rparr>))
             (\<lambda>s'. Inr (s', length rows)))"

text \<open>\<open>checkpoint\<close>: on a board that has no lease row, \<open>row[...]\<close> is a subscript of \<open>None\<close>.\<close>

definition checkpoint :: "env \<Rightarrow> string \<Rightarrow> int \<Rightarrow> db \<Rightarrow> error + db \<times> response" where
  "checkpoint e p lease_epoch s =
     (if current_epoch s p \<noteq> lease_epoch then Inl (MasterLeaseExpired lease_epoch (current_epoch s p))
      else case find_lease s p of
        None \<Rightarrow> Inl AttributeError
      | Some row \<Rightarrow>
          let interval = (if ml_interval row = 0 then SWEEP_INTERVAL_SECONDS else ml_interval row) in
          Inr (s\<lparr>db_leases := update_where (\<lambda>r. ml_project r = p)
                 (\<lambda>r. r\<lparr>ml_last_sweep_at := Some (clock e),
                        ml_next_sweep_at := Some (in_seconds e interval)\<rparr>) (db_leases s)\<rparr>, RUnit))"

end
