(* ===== verification/Board_Frame.thy ===== *)
theory Board_Frame
  imports Board_Reach
begin

text \<open>
  What the calls of the board store leave alone. A part of the database is
  \<open>board_blind\<close> when none of the board's own tables is in it; every call of the store
  leaves such a part as it was. The master's lease, its decision log, the messaging tables
  and the runner leases are such parts.
\<close>

lemma idem_frame:
  assumes "idem e p rq opn body act s = Inr (s', r)"
    and "\<And>s1. act s = Inr (s1, r) \<Longrightarrow> R s s1"
    and "\<And>s1 rs. R s (s1\<lparr>db_requests := rs\<rparr>) = R s s1" and "R s s"
  shows "R s s'"
  using idem_cases [OF assms(1)] assms(2-4) by metis

locale board_blind =
  fixes g :: "db \<Rightarrow> 'a"
  assumes blind [simp]:
    "g (s\<lparr>db_projects := a\<rparr>) = g s" "g (s\<lparr>db_agents := b\<rparr>) = g s" "g (s\<lparr>db_sessions := c\<rparr>) = g s"
    "g (s\<lparr>db_tickets := d\<rparr>) = g s" "g (s\<lparr>db_deps := f\<rparr>) = g s" "g (s\<lparr>db_updates := h\<rparr>) = g s"
    "g (s\<lparr>db_reviews := i\<rparr>) = g s" "g (s\<lparr>db_assignments := j\<rparr>) = g s" "g (s\<lparr>db_audits := k\<rparr>) = g s"
    "g (s\<lparr>db_requests := l\<rparr>) = g s" "g (s\<lparr>db_presets := m\<rparr>) = g s"
begin

lemma audit_blind: "audit e k p actor action st sid rq summary s = Inr s' \<Longrightarrow> g s' = g s"
  by (drule audit_effect) auto

lemma audited_blind: "audited s core s1 \<Longrightarrow> g s1 = g core"
  by (auto simp: audited_def)

lemma set_deps_blind: "set_deps p tid new s = Inr s' \<Longrightarrow> g s' = g s"
  by (drule set_deps_effect) auto

lemma update_blind [simp]: "g (update_ticket p tid f s) = g s" "g (update_agent aid h s) = g s"
  by (simp_all add: update_ticket_def update_agent_def)

lemma updates_blind [simp]:
  "g (claim_updates e p tid aid sid wt s) = g s"
  "g (transition_updates e p tid st reason row s) = g s"
  "g (decide_updates e p rid rv row d by' notes s) = g s"
  "g (apply_progress e p tid ns row s) = g s"
  by (simp_all add: claim_updates_def transition_updates_def decide_updates_def apply_progress_def Let_def)

lemma act_blind:
  "claim_ticket_act e p tid aid v sid wt rq s = Inr (s1, r) \<Longrightarrow> g s1 = g s"
  "transition_act e p tid to v actor reason rq s = Inr (s1, r) \<Longrightarrow> g s1 = g s"
  "set_acceptance_act e p tid acc v actor rq s = Inr (s1, r) \<Longrightarrow> g s1 = g s"
  "submit_review_act e p tid by' ev v notes rq s = Inr (s1, r) \<Longrightarrow> g s1 = g s"
  "decide_review_act e p rid dn d by' sha v notes rq s = Inr (s1, r) \<Longrightarrow> g s1 = g s"
  "add_update_act e p tid author txt ns sid rq s = Inr (s1, r) \<Longrightarrow> g s1 = g s"
  "set_dependencies_act e p tid deps v actor rq s = Inr (s1, r) \<Longrightarrow> g s1 = g s"
  "create_ticket_act e p mint_id title role outcome acc deps files actor rq s = Inr (s1, r) \<Longrightarrow> g s1 = g s"
  by (drule claim_act_Inr transition_act_Inr set_acceptance_act_Inr submit_review_act_Inr
      decide_review_act_Inr add_update_act_Inr set_dependencies_act_Inr create_ticket_act_Inr;
    elim exE conjE; drule audited_blind; simp add: set_deps_blind split: if_splits)+

lemma store_op_blind:
  "create_project e n src pid s = Inr (s1, r) \<Longrightarrow> g s1 = g s"
  "create_agent e p n ro caps m k rt aid s = Inr (s1, r) \<Longrightarrow> g s1 = g s"
  "set_agent_preset e p a ps pol prof wt at s = Inr (s1, r) \<Longrightarrow> g s1 = g s"
  "re_enroll_agent e p a ro caps m k wt s = Inr (s1, r) \<Longrightarrow> g s1 = g s"
  "record_heartbeat e a at s = Inr (s1, r) \<Longrightarrow> g s1 = g s"
  "open_session e a x sid at s = Inr (s1, r) \<Longrightarrow> g s1 = g s"
  "revoke_session e sd note at s = Inr (s1, r) \<Longrightarrow> g s1 = g s"
  "assign e p t a x re ep ac s = Inr (s1, r) \<Longrightarrow> g s1 = g s"
  "import_set_state e p t st own c u s = Inr (s1, r) \<Longrightarrow> g s1 = g s"
  "import_set_dependencies e p t ds s = Inr (s1, r) \<Longrightarrow> g s1 = g s"
           apply (auto simp: create_project_def result_simps Let_def dest!: audit_blind split: if_splits)[1]
          apply (auto simp: create_agent_def result_simps Let_def dest!: audit_blind split: if_splits)[1]
         apply (auto simp: set_agent_preset_def result_simps Let_def dest!: audit_blind split: if_splits)[1]
        apply (auto simp: re_enroll_agent_def result_simps Let_def dest!: audit_blind
          split: if_splits option.splits)[1]
       apply (auto simp: record_heartbeat_def result_simps Let_def split: if_splits)[1]
      apply (auto simp: open_session_def result_simps Let_def dest!: audit_blind
        split: if_splits option.splits)[1]
     apply (auto simp: revoke_session_def result_simps Let_def dest!: audit_blind
       split: if_splits option.splits)[1]
    apply (auto simp: assign_def result_simps Let_def dest!: audit_blind split: if_splits)[1]
   apply (auto simp: import_set_state_def result_simps dest!: audit_blind split: option.splits)[1]
  apply (auto simp: import_set_dependencies_def result_simps dest!: audit_blind set_deps_blind)
  done

lemma idem_blind:
  assumes "idem e p rq opn body act s = Inr (s', r)"
    and "\<And>s1. act s = Inr (s1, r) \<Longrightarrow> g s1 = g s"
  shows "g s' = g s"
  by (rule idem_frame [OF assms(1), where R = "\<lambda>s s'. g s' = g s"]) (simp_all add: assms(2))

lemma body_blind: "body_of e x s = Inr (s', r) \<Longrightarrow> g s' = g s"
  by (cases x)
    (auto simp: claim_ticket_def transition_def set_acceptance_def submit_review_def decide_review_def
      add_update_def set_dependencies_def create_ticket_def
      split: if_splits option.splits
      elim!: idem_blind dest: store_op_blind intro: act_blind)

end

interpretation leases: board_blind db_leases by unfold_locales simp_all

interpretation decided: board_blind db_decisions by unfold_locales simp_all

interpretation messaging: board_blind "\<lambda>s. (db_msg s, db_runners s)" by unfold_locales simp_all

end
