(* ===== verification/Master_Fence.thy ===== *)
theory Master_Fence
  imports Master_Lease Board_Frame
begin

text \<open>
  The fence: board and master calls as one transition system, the epoch of a project's
  lease along it, and the contract of a fenced write as a locale. A superseded master can
  never write again, and of the masters that race for one epoch one wins.
\<close>

section \<open>Board and master calls together\<close>

datatype mop =
    MBoard op
  | MTake string json int int "string option"
  | MPause string json int bool "string option"
  | MAssign string json string string string int int int "string option"
  | MExpireOnRead string
  | MExpire string json int
  | MLog string int string string string "string option"
  | MCheckpoint string int

fun mbody :: "env \<Rightarrow> mop \<Rightarrow> db \<Rightarrow> error + db \<times> response" where
  "mbody e (MBoard x) s = body_of e x s"
| "mbody e (MTake p h n ttl rq) s = take_lease e p h n ttl rq s"
| "mbody e (MPause p a n b rq) s = set_paused e p a n b rq s"
| "mbody e (MAssign p a t ag re n v ttl rq) s = create_assignment e p a t ag re n v ttl rq s"
| "mbody e (MExpireOnRead p) s = Inr (expire_assignments e p s, RUnit)"
| "mbody e (MExpire p a n) s = bindE (expire_reservations e p a n s) (\<lambda>(s', k). Inr (s', RUnit))"
| "mbody e (MLog p n t k re ag) s = sweep_log e p n t k re ag s"
| "mbody e (MCheckpoint p n) s = checkpoint e p n s"

definition mexec :: "env \<Rightarrow> mop \<Rightarrow> db \<Rightarrow> (error + response) \<times> db" where
  "mexec e m s = write_txn (mbody e m) s"

definition mstep :: "db \<Rightarrow> db \<Rightarrow> bool" where
  "mstep s s' \<longleftrightarrow> (\<exists>e m. s' = snd (mexec e m s))"

fun mrequest :: "mop \<Rightarrow> (string \<times> string) option" where
  "mrequest (MBoard x) = request_of x"
| "mrequest (MTake p _ _ _ rq) = map_option (Pair p) rq"
| "mrequest (MPause p _ _ _ rq) = map_option (Pair p) rq"
| "mrequest (MAssign p _ _ _ _ _ _ _ rq) = map_option (Pair p) rq"
| "mrequest _ = None"

definition mlogged :: "mop \<Rightarrow> db \<Rightarrow> bool" where
  "mlogged m s \<longleftrightarrow> (\<exists>k. mrequest m = Some k \<and> k \<in> set (map rq_key (db_requests s)))"

section \<open>The epoch never falls\<close>

lemma find_lease_update:
  assumes "\<And>r. ml_project (f r) = ml_project r"
  shows "List.find (\<lambda>r. ml_project r = q) (update_where (\<lambda>r. ml_project r = p) f ls)
    = map_option (\<lambda>r. if p = q then f r else r) (List.find (\<lambda>r. ml_project r = q) ls)"
  by (induction ls) (use assms in auto)

text \<open>The lease tables a fenced write or a take-over may leave.\<close>

inductive lease_change :: "lease_row list \<Rightarrow> lease_row list \<Rightarrow> bool" where
  same: "lease_change ls ls"
| taken_new: "List.find (\<lambda>r. ml_project r = p) ls = None \<Longrightarrow> ml_project l = p \<Longrightarrow> ml_epoch l = 1
    \<Longrightarrow> lease_change ls (ls @ [l])"
| updated: "(\<And>r. ml_project (f r) = ml_project r)
    \<Longrightarrow> (\<And>r. List.find (\<lambda>r. ml_project r = p) ls = Some r \<Longrightarrow> ml_epoch r \<le> ml_epoch (f r))
    \<Longrightarrow> lease_change ls (update_where (\<lambda>r. ml_project r = p) f ls)"

definition epoch_in :: "lease_row list \<Rightarrow> string \<Rightarrow> int" where
  "epoch_in ls p = (case List.find (\<lambda>r. ml_project r = p) ls of None \<Rightarrow> 0 | Some r \<Rightarrow> ml_epoch r)"

lemma current_epoch_in: "current_epoch s p = epoch_in (db_leases s) p"
  by (simp add: current_epoch_def epoch_in_def find_lease_def)

lemma lease_change_mono:
  assumes "lease_change ls ls'"
  shows "epoch_in ls q \<le> epoch_in ls' q"
  using assms
proof cases
  case (updated f p)
  then show ?thesis by (auto simp: epoch_in_def find_lease_update split: option.splits)
qed (auto simp: epoch_in_def find_append split: option.splits)

lemma lease_change_requests [simp]:
  "db_leases (s\<lparr>db_requests := rq\<rparr>) = db_leases s" "db_leases (s\<lparr>db_audits := a\<rparr>) = db_leases s"
  by simp_all

lemma take_lease_act_Inr:
  assumes "take_lease_act e p h n ttl rq s = Inr (s1, r)"
  shows "n = current_epoch s p \<and> lease_change (db_leases s) (db_leases s1) \<and> current_epoch s1 p = n + 1"
proof (cases "find_lease s p")
  case None
  then have "n = 0 \<and> (\<exists>l. ml_project l = p \<and> ml_epoch l = 1 \<and> db_leases s1 = db_leases s @ [l])"
    using assms by (auto simp: take_lease_act_def current_epoch_def result_simps Let_def
        dest!: leases.audit_blind split: if_splits)
  then show ?thesis using None
    by (auto simp: current_epoch_def find_lease_def find_append intro: lease_change.taken_new)
next
  case (Some l)
  let ?f = "\<lambda>r. r\<lparr>ml_holder := Some h, ml_epoch := ml_epoch l + 1, ml_acquired_at := clock e,
      ml_expires_at := in_seconds e ttl, ml_next_sweep_at := Some (in_seconds e SWEEP_INTERVAL_SECONDS)\<rparr>"
  have n: "n = ml_epoch l"
    and s1: "db_leases s1 = update_where (\<lambda>r. ml_project r = p) ?f (db_leases s)"
    using assms Some by (auto simp: take_lease_act_def current_epoch_def result_simps Let_def
        dest!: leases.audit_blind split: if_splits)
  have "lease_change (db_leases s) (db_leases s1)" unfolding s1
    using Some by (intro lease_change.updated) (auto simp: find_lease_def)
  moreover have "current_epoch s1 p = n + 1"
    using Some n by (simp add: current_epoch_def find_lease_def s1 find_lease_update)
  ultimately show ?thesis using Some n by (simp add: current_epoch_def)
qed

lemma set_paused_act_Inr:
  assumes "set_paused_act e p a n b rq s = Inr (s1, r)"
  shows "n = current_epoch s p \<and> lease_change (db_leases s) (db_leases s1)"
  using assms by (auto simp: set_paused_act_def result_simps dest!: leases.audit_blind
      intro!: lease_change.updated split: if_splits)

lemma create_assignment_act_Inr:
  assumes "create_assignment_act e p a t ag re n v ttl rq s = Inr (s1, r)"
  shows "n = current_epoch s p \<and> db_leases s1 = db_leases s"
  using assms by (auto simp: create_assignment_act_def result_simps Let_def dest!: leases.audit_blind
      split: if_splits option.splits)

lemma expire_loop_leases: "expire_loop e p a i rs s = Inr s' \<Longrightarrow> db_leases s' = db_leases s"
  by (induction rs arbitrary: i s) (fastforce simp: result_simps dest: leases.audit_blind)+

lemma expire_reservations_Inr:
  "expire_reservations e p a n s = Inr (s', k) \<Longrightarrow> n = current_epoch s p \<and> db_leases s' = db_leases s"
  by (auto simp: expire_reservations_def result_simps Let_def dest!: expire_loop_leases split: if_splits)

lemma sweep_log_Inr:
  "sweep_log e p n t k re ag s = Inr (s', r) \<Longrightarrow> n = current_epoch s p \<and> db_leases s' = db_leases s"
  by (auto simp: sweep_log_def split: if_splits)

lemma checkpoint_Inr:
  "checkpoint e p n s = Inr (s', r) \<Longrightarrow> n = current_epoch s p \<and> lease_change (db_leases s) (db_leases s')"
  by (auto simp: checkpoint_def Let_def intro!: lease_change.updated split: if_splits option.splits)

lemma leases_idem_change:
  assumes "idem e p rq opn body act s = Inr (s', r)"
    and "\<And>s1. act s = Inr (s1, r) \<Longrightarrow> lease_change (db_leases s) (db_leases s1)"
  shows "lease_change (db_leases s) (db_leases s')"
  by (rule idem_frame [OF assms(1), where R = "\<lambda>s s'. lease_change (db_leases s) (db_leases s')"])
    (simp_all add: assms(2) lease_change.same)

lemma mbody_lease_change: "mbody e m s = Inr (s', r) \<Longrightarrow> lease_change (db_leases s) (db_leases s')"
proof (cases m)
  case (MBoard x)
  then show "mbody e m s = Inr (s', r) \<Longrightarrow> ?thesis" using leases.body_blind lease_change.same by fastforce
next
  case (MExpireOnRead p)
  then show "mbody e m s = Inr (s', r) \<Longrightarrow> ?thesis"
    by (auto simp: expire_assignments_def lease_change.same)
qed (auto simp: take_lease_def set_paused_def create_assignment_def result_simps lease_change.same
    elim!: leases_idem_change dest: take_lease_act_Inr set_paused_act_Inr create_assignment_act_Inr
      expire_reservations_Inr sweep_log_Inr checkpoint_Inr)

lemma mexec_lease_change: "lease_change (db_leases s) (db_leases (snd (mexec e m s)))"
  by (cases "mbody e m s")
    (auto simp: mexec_def write_txn_def lease_change.same intro: mbody_lease_change)

lemma mstep_epoch_mono: "mstep s s' \<Longrightarrow> current_epoch s p \<le> current_epoch s' p"
  unfolding mstep_def current_epoch_in using mexec_lease_change lease_change_mono by blast

section \<open>The contract of a fenced write\<close>

text \<open>
  A system of steps that never lowers an epoch, and writes that name the epoch they were
  issued under and commit only while it is the current one.
\<close>

locale fenced =
  fixes step :: "'s \<Rightarrow> 's \<Rightarrow> bool" and epoch :: "'s \<Rightarrow> int"
    and commit :: "'w \<Rightarrow> int \<Rightarrow> 's \<Rightarrow> 's option"
  assumes epoch_mono: "step s s' \<Longrightarrow> epoch s \<le> epoch s'"
    and current_only: "commit w n s = Some s' \<Longrightarrow> epoch s = n"
begin

lemma epoch_mono_steps: "step\<^sup>*\<^sup>* s s' \<Longrightarrow> epoch s \<le> epoch s'"
  by (induction rule: rtranclp_induct) (auto dest: epoch_mono)

lemma superseded_never_writes:
  assumes "n < epoch s" and "step\<^sup>*\<^sup>* s s'"
  shows "commit w n s' = None"
  using epoch_mono_steps [OF assms(2)] assms(1) current_only by (cases "commit w n s'") fastforce+

end

fun named_epoch :: "mop \<Rightarrow> (string \<times> int) option" where
  "named_epoch (MPause p _ n _ _) = Some (p, n)"
| "named_epoch (MAssign p _ _ _ _ n _ _ _) = Some (p, n)"
| "named_epoch (MExpire p _ n) = Some (p, n)"
| "named_epoch (MLog p n _ _ _ _) = Some (p, n)"
| "named_epoch (MCheckpoint p n) = Some (p, n)"
| "named_epoch _ = None"

definition mcommits :: "env \<times> mop \<Rightarrow> db \<Rightarrow> db option" where
  "mcommits x s =
     (if mlogged (snd x) s then None
      else case mbody (fst x) (snd x) s of Inl _ \<Rightarrow> None | Inr (s', _) \<Rightarrow> Some s')"

definition fenced_write :: "string \<Rightarrow> env \<times> mop \<Rightarrow> int \<Rightarrow> db \<Rightarrow> db option" where
  "fenced_write p x n s = (if named_epoch (snd x) = Some (p, n) then mcommits x s else None)"

lemma fenced_commit_current:
  assumes "mcommits (e, m) s = Some s'" and "named_epoch m = Some (p, n)"
  shows "current_epoch s p = n"
proof -
  have fresh: "\<not> mlogged m s" and run: "\<exists>r. mbody e m s = Inr (s', r)"
    using assms(1) by (auto simp: mcommits_def split: if_splits sum.splits)
  have idem: "\<exists>s1. act s = Inr (s1, r)"
    if "idem e p rq opn body act s = Inr (s', r)" "mrequest m = map_option (Pair p) rq" for rq opn body act r
  proof -
    have "\<forall>rid. rq = Some rid \<longrightarrow> (p, rid) \<notin> set (map rq_key (db_requests s))"
      using fresh that(2) by (auto simp: mlogged_def)
    then show ?thesis using idem_fresh [OF that(1)] by metis
  qed
  show ?thesis
  proof (cases m)
    case (MPause q a k b rq)
    then show ?thesis using run assms(2) idem [of rq]
      by (fastforce simp: set_paused_def dest: set_paused_act_Inr)
  next
    case (MAssign q a t ag re k v ttl rq)
    then show ?thesis using run assms(2) idem [of rq]
      by (fastforce simp: create_assignment_def dest: create_assignment_act_Inr)
  qed (use run assms(2) in \<open>auto simp: result_simps dest: expire_reservations_Inr sweep_log_Inr checkpoint_Inr\<close>)
qed

interpretation lease_fence: fenced mstep "\<lambda>s. current_epoch s p" "fenced_write p" for p
proof unfold_locales
  show "current_epoch s p \<le> current_epoch s' p" if "mstep s s'" for s s'
    using that by (rule mstep_epoch_mono)
next
  show "current_epoch s p = n" if "fenced_write p x n s = Some s'" for x n s s'
    using that fenced_commit_current by (cases x) (auto simp: fenced_write_def split: if_splits)
qed

text \<open>A take-over as an operation of \<open>versioned\<close>: the object is the lease, its version the epoch.\<close>

fun takes :: "mop \<Rightarrow> (string \<times> int) option" where
  "takes (MTake p _ n _ _) = Some (p, n)"
| "takes _ = None"

lemma take_commit:
  assumes "mcommits x s = Some s'" and "takes (snd x) = Some (p, n)"
  shows "current_epoch s p = n \<and> current_epoch s' p = n + 1"
proof -
  obtain h ttl rq where m: "snd x = MTake p h n ttl rq" using assms(2) by (cases "snd x") auto
  have fresh: "\<not> mlogged (snd x) s" and run: "\<exists>r. mbody (fst x) (snd x) s = Inr (s', r)"
    using assms(1) by (auto simp: mcommits_def split: if_splits sum.splits)
  have key: "\<forall>rid. rq = Some rid \<longrightarrow> (p, rid) \<notin> set (map rq_key (db_requests s))"
    using fresh m by (auto simp: mlogged_def)
  obtain r where "take_lease (fst x) p h n ttl rq s = Inr (s', r)" using run m by auto
  then obtain s1 where "take_lease_act (fst x) p h n ttl rq s = Inr (s1, r)"
    "s' = s1\<lparr>db_requests := db_requests s'\<rparr>"
    using idem_fresh [OF _ key] unfolding take_lease_def by metis
  then show ?thesis using take_lease_act_Inr [of "fst x" p h n ttl rq s s1 r]
    by (metis current_epoch_in lease_change_requests(1))
qed

interpretation lease_versions: versioned mstep "\<lambda>p s. Some (current_epoch s p)" mcommits "\<lambda>x s. takes (snd x)"
proof unfold_locales
  show "\<exists>v' \<ge> v. Some (current_epoch s' k) = Some v'" if "mstep s s'" "Some (current_epoch s k) = Some v" for s s' k v
    using that mstep_epoch_mono by auto
next
  show "Some (current_epoch s k) = Some v"
    if "mcommits x s = Some s'" "takes (snd x) = Some (k, v)" for x s s' k v
    using take_commit [OF that] by simp
next
  show "\<exists>v' > v. Some (current_epoch s' k) = Some v'"
    if "mcommits x s = Some s'" "takes (snd x) = Some (k, v)" for x s s' k v
    using take_commit [OF that] by simp
qed

section \<open>The properties\<close>

lemma mexec_refused: "mcommits (e, m) s = None \<Longrightarrow> \<not> mlogged m s \<Longrightarrow> \<exists>err. mexec e m s = (Inl err, s)"
  by (auto simp: mcommits_def mexec_def write_txn_def split: sum.splits)

lemma mexec_commits: "fst (mexec e m s) = Inr r \<Longrightarrow> \<not> mlogged m s \<Longrightarrow> mcommits (e, m) s = Some (snd (mexec e m s))"
  by (auto simp: mcommits_def mexec_def write_txn_def split: sum.splits)

text \<open>
  C18: Once a master has taken the lease from epoch n, no fenced write issued under epoch n
  (a reservation, a pause, a logged decision, an expiry, a checkpoint) ever commits again,
  whatever any board or master call does in between; the superseded master's write is
  refused and changes nothing.
\<close>
theorem superseded_master_never_writes:
  assumes "fst (mexec e (MTake p h n ttl rq) s) = Inr r" and "\<not> mlogged (MTake p h n ttl rq) s"
    and "mstep\<^sup>*\<^sup>* (snd (mexec e (MTake p h n ttl rq) s)) s2"
    and "named_epoch m = Some (p, n)" and "\<not> mlogged m s2"
  shows "\<exists>err. mexec e' m s2 = (Inl err, s2)"
proof -
  let ?s1 = "snd (mexec e (MTake p h n ttl rq) s)"
  have "current_epoch ?s1 p = n + 1"
    using take_commit [OF mexec_commits [OF assms(1,2)]] by simp
  then have "fenced_write p (e', m) n s2 = None"
    using lease_fence.superseded_never_writes [where p = p, OF _ assms(3)] by simp
  then show ?thesis using assms(4,5) mexec_refused by (simp add: fenced_write_def)
qed

text \<open>
  Masters racing for one epoch have one winner: after a take-over from epoch n has
  committed, every later take-over that expects n is refused and changes nothing.
\<close>
theorem one_takeover_per_epoch:
  assumes "fst (mexec e (MTake p h n ttl rq) s) = Inr r" and "\<not> mlogged (MTake p h n ttl rq) s"
    and "mstep\<^sup>*\<^sup>* (snd (mexec e (MTake p h n ttl rq) s)) s2"
    and "\<not> mlogged (MTake p h' n ttl' rq') s2"
  shows "\<exists>err. mexec e' (MTake p h' n ttl' rq') s2 = (Inl err, s2)"
proof (rule mexec_refused [OF _ assms(4)])
  show "mcommits (e', MTake p h' n ttl' rq') s2 = None"
    using lease_versions.commits_once [OF mexec_commits [OF assms(1,2)] _ assms(3)] by simp
qed

definition take0 :: mop where
  "take0 = MTake ''p'' (JStr ''m1'') 0 120 None"

lemma take0_ok: "\<exists>r. fst (mexec (demo_env 50) take0 demo) = Inr r"
proof -
  have "\<not> isl (fst (mexec (demo_env 50) take0 demo))" by code_simp
  then show ?thesis by (cases "fst (mexec (demo_env 50) take0 demo)") auto
qed

theorem superseded_master_never_writes_witness:
  "\<exists>err. mexec (demo_env 51) (MAssign ''p'' (JStr ''m0'') ''DM-1'' ''a'' ''why'' 0 1 600 None)
       (snd (mexec (demo_env 50) take0 demo)) = (Inl err, snd (mexec (demo_env 50) take0 demo))"
proof -
  obtain r where "fst (mexec (demo_env 50) take0 demo) = Inr r" using take0_ok by blast
  then show ?thesis unfolding take0_def
    by (rule superseded_master_never_writes) (simp_all add: mlogged_def)
qed

theorem one_takeover_per_epoch_witness:
  "\<exists>err. mexec (demo_env 51) (MTake ''p'' (JStr ''m2'') 0 120 None)
       (snd (mexec (demo_env 50) take0 demo)) = (Inl err, snd (mexec (demo_env 50) take0 demo))"
proof -
  obtain r where "fst (mexec (demo_env 50) take0 demo) = Inr r" using take0_ok by blast
  then show ?thesis unfolding take0_def
    by (rule one_takeover_per_epoch) (simp_all add: mlogged_def)
qed

text \<open>
  On a board that no master ever held, epoch 0 passes the fence: a reservation under
  epoch 0 commits although there is no lease, and pausing answers a lease that is not
  paused while the trail records that the sweeps were paused.
\<close>
theorem epoch_zero_passes_the_fence:
  "find_lease demo ''p'' = None
   \<and> length (db_assignments (snd (mexec (demo_env 50)
       (MAssign ''p'' (JStr ''m0'') ''DM-1'' ''a'' ''why'' 0 1 600 None) demo))) = 1
   \<and> (case mexec (demo_env 50) (MPause ''p'' (JStr ''m0'') 0 True None) demo of
        (Inr (RLease l), s') \<Rightarrow> \<not> ml_paused l \<and> au_summary (last (db_audits s')) = ''sweeps paused''
      | _ \<Rightarrow> False)"
  by (intro conjI; code_simp)

end
