(* ===== verification/Eligibility.thy ===== *)
theory Eligibility
  imports Master_Fence
begin

text \<open>
  \<open>orchestrator/eligibility.py\<close> with the parts of \<open>server/views.py\<close> it reads: the
  snapshot of one project, the gates a ticket and an agent must pass, and the plan that
  hands out capacity, files and worktrees as it goes. Everything here is pure. A dictionary
  that \<open>setdefault\<close> fills is a map; the JSON columns are their loaded values.
\<close>

section \<open>What the views say of an agent\<close>

definition HEARTBEAT_OFFLINE_SECONDS :: int where "HEARTBEAT_OFFLINE_SECONDS = 300"

definition age_seconds :: "env \<Rightarrow> stamp option \<Rightarrow> int option" where
  "age_seconds e stamp = map_option (\<lambda>w. clock e - w) stamp"

text \<open>\<open>ORDER BY acquired_at DESC, rowid DESC LIMIT 1\<close>.\<close>

definition latest_session :: "db \<Rightarrow> string \<Rightarrow> session_row option" where
  "latest_session s aid =
     foldl (\<lambda>best r. case best of
              None \<Rightarrow> Some r
            | Some b \<Rightarrow> if se_acquired_at b \<le> se_acquired_at r then Some r else Some b)
       None (filter (\<lambda>r. se_agent r = aid) (db_sessions s))"

definition session_is_live :: "env \<Rightarrow> session_row option \<Rightarrow> bool" where
  "session_is_live e lease =
     (case lease of None \<Rightarrow> False
      | Some l \<Rightarrow> if se_revoked_at l \<noteq> None then False else se_expires_at l > clock e)"

text \<open>\<open>(agent.get("hook_health") or {}).get(flag)\<close>: the column holds an object.\<close>

definition health_flag :: "json \<Rightarrow> string \<Rightarrow> bool" where
  "health_flag h k = (case h of JObj kvs \<Rightarrow> (case map_of kvs k of None \<Rightarrow> False | Some v \<Rightarrow> truthy v) | _ \<Rightarrow> False)"

definition derive_agent_state :: "env \<Rightarrow> agent_row \<Rightarrow> nat \<Rightarrow> session_row option \<Rightarrow> agent_state" where
  "derive_agent_state e a active lease =
     (if (case lease of None \<Rightarrow> False | Some l \<Rightarrow> se_revoked_at l \<noteq> None) then Revoked
      else if health_flag (ag_hook_health a) ''last_error'' then Offline
      else if (case age_seconds e (ag_last_heartbeat_at a) of None \<Rightarrow> False
               | Some n \<Rightarrow> n > HEARTBEAT_OFFLINE_SECONDS) then Offline
      else if active \<noteq> 0 then Working
      else if session_is_live e lease then Idle
      else if health_flag (ag_hook_health a) ''server_received'' then Connected
      else Idle)"

section \<open>The snapshot\<close>

record snapshot =
  sn_tickets :: "ticket_row list"
  sn_agents :: "agent_row list"
  sn_deps :: "string \<Rightarrow> string list"
  sn_reservations :: "assignment_row list"
  sn_state :: "string \<Rightarrow> agent_state"
  sn_live :: "string \<Rightarrow> bool"

text \<open>Tickets held plus reservations queued.\<close>

definition active_in :: "ticket_row list \<Rightarrow> assignment_row list \<Rightarrow> string \<Rightarrow> nat" where
  "active_in ts rs aid =
     length (filter (\<lambda>t. t_owner t = Some aid \<and> is_active t) ts)
     + length (filter (\<lambda>r. as_agent r = aid) rs)"

definition active_ticket_count :: "snapshot \<Rightarrow> string \<Rightarrow> nat" where
  "active_ticket_count sn aid = active_in (sn_tickets sn) (sn_reservations sn) aid"

definition lease_is_live :: "env \<Rightarrow> session_row option \<Rightarrow> bool" where
  "lease_is_live e lease =
     (case lease of None \<Rightarrow> False
      | Some l \<Rightarrow> se_revoked_at l = None \<and> se_expires_at l > clock e)"

definition take_snapshot :: "env \<Rightarrow> db \<Rightarrow> string \<Rightarrow> snapshot" where
  "take_snapshot e s p =
     (let ts = sort_key (\<lambda>t. (t_created_at t, t_id t)) (filter (\<lambda>t. t_project t = p) (db_tickets s));
          ags = sort_key ag_id (filter (\<lambda>a. ag_project a = p) (db_agents s));
          rs = sort_key (\<lambda>r. (as_created_at r, as_id r))
                 (filter (\<lambda>r. as_project r = p \<and> as_state r = Queued) (db_assignments s))
      in \<lparr>sn_tickets = ts, sn_agents = ags, sn_deps = dependencies s p, sn_reservations = rs,
          sn_state = (\<lambda>aid. case List.find (\<lambda>a. ag_id a = aid) ags of
             None \<Rightarrow> Offline
           | Some a \<Rightarrow> derive_agent_state e a (active_in ts rs aid) (latest_session s aid)),
          sn_live = (\<lambda>aid. List.find (\<lambda>a. ag_id a = aid) ags \<noteq> None
             \<and> lease_is_live e (latest_session s aid))\<rparr>)"

text \<open>\<open>{t["id"]: t for t in tickets}\<close>: the last row of an id.\<close>

definition by_id :: "snapshot \<Rightarrow> string \<Rightarrow> ticket_row option" where
  "by_id sn tid = List.find (\<lambda>t. t_id t = tid) (rev (sn_tickets sn))"

definition setdefault :: "'k \<Rightarrow> 'v \<Rightarrow> ('k \<Rightarrow> 'v option) \<Rightarrow> 'k \<Rightarrow> 'v option" where
  "setdefault k v m = (case m k of None \<Rightarrow> m(k := Some v) | Some _ \<Rightarrow> m)"

definition claim_paths :: "'v \<Rightarrow> 'k list \<Rightarrow> ('k \<Rightarrow> 'v option) \<Rightarrow> 'k \<Rightarrow> 'v option" where
  "claim_paths v = fold (\<lambda>k. setdefault k v)"

definition occupied_files :: "snapshot \<Rightarrow> string \<Rightarrow> string \<Rightarrow> string option" where
  "occupied_files sn exclude =
     fold (\<lambda>r m. if as_ticket r = exclude then m
                 else case by_id sn (as_ticket r) of
                   None \<Rightarrow> m | Some other \<Rightarrow> claim_paths (t_id other) (t_files other) m)
       (sn_reservations sn)
       (fold (\<lambda>t m. if t_id t = exclude \<or> \<not> is_active t then m
                    else claim_paths (t_id t) (t_files t) m)
          (sn_tickets sn) (\<lambda>_. None))"

text \<open>Worktree to the agent living in it; an active ticket without an owner puts \<open>None\<close> there.\<close>

definition occupied_worktrees :: "snapshot \<Rightarrow> string \<Rightarrow> string option option" where
  "occupied_worktrees sn =
     fold (\<lambda>t m. if is_active t \<and> truthy_str (t_worktree t)
                 then setdefault (the (t_worktree t)) (t_owner t) m else m)
       (sn_tickets sn)
       (fold (\<lambda>a m. if truthy_str (ag_worktree a) \<and> sn_state sn (ag_id a) \<noteq> Revoked
                    then setdefault (the (ag_worktree a)) (Some (ag_id a)) m else m)
          (sn_agents sn) (\<lambda>_. None))"

section \<open>The gates\<close>

record route_decision =
  de_ticket :: string
  de_kind :: string
  de_reason :: string
  de_agent :: "string option"

record candidate =
  cd_agent :: string
  cd_reason :: string
  cd_active :: nat

definition unmet_in :: "snapshot \<Rightarrow> ticket_row \<Rightarrow> string list" where
  "unmet_in sn t = filter (\<lambda>d. case by_id sn d of None \<Rightarrow> True | Some u \<Rightarrow> t_state u \<noteq> Done)
     (sn_deps sn (t_id t))"

definition skip :: "ticket_row \<Rightarrow> string \<Rightarrow> route_decision" where
  "skip t why = \<lparr>de_ticket = t_id t, de_kind = ''skipped'', de_reason = why, de_agent = None\<rparr>"

datatype verdict = NotCandidate | Decided route_decision | Eligible

definition verdict_of :: "snapshot \<Rightarrow> ticket_row \<Rightarrow> verdict" where
  "verdict_of sn t =
     (if t_state t \<noteq> Open then NotCandidate
      else if truthy_str (t_owner t)
      then Decided (skip t (''ticket is open but already owned by '' @ the (t_owner t)))
      else if t_id t \<in> set (map as_ticket (sn_reservations sn))
      then Decided (skip t ''a reservation is already queued for this ticket'')
      else if unmet_in sn t \<noteq> []
      then Decided (skip t (''waiting on '' @ py_join '', '' (unmet_in sn t)))
      else Eligible)"

definition routable_tickets :: "snapshot \<Rightarrow> (ticket_row \<times> verdict) list" where
  "routable_tickets sn = map (\<lambda>t. (t, verdict_of sn t)) (sn_tickets sn)"

definition capability_reason :: "ticket_row \<Rightarrow> agent_row \<Rightarrow> bool \<times> string" where
  "capability_reason t a =
     (let role = py_strip (str_or_empty (t_role t)) in
      if role = [] then (True, ''no role required'')
      else if py_strip (str_or_empty (ag_role a)) = role then (True, ''role '' @ role)
      else if role \<in> set (ag_capabilities a) then (True, ''capability '' @ role)
      else (False, ''does not cover role '' @ role))"

definition assignable :: "agent_state \<Rightarrow> bool" where
  "assignable st \<longleftrightarrow> st = Connected \<or> st = Idle \<or> st = Working"

definition limit_of :: "agent_row \<Rightarrow> nat" where
  "limit_of a = (if ag_max_active a = 0 then 1 else nat (ag_max_active a))"

definition merged_files :: "snapshot \<Rightarrow> ticket_row \<Rightarrow> (string \<Rightarrow> string option) \<Rightarrow> string \<Rightarrow> string option" where
  "merged_files sn t planned path =
     (case occupied_files sn (t_id t) path of Some h \<Rightarrow> Some h | None \<Rightarrow> planned path)"

definition merged_trees :: "snapshot \<Rightarrow> (string \<Rightarrow> string option option) \<Rightarrow> string \<Rightarrow> string option option" where
  "merged_trees sn planned w =
     (case occupied_worktrees sn w of Some h \<Rightarrow> Some h | None \<Rightarrow> planned w)"

definition file_clash :: "snapshot \<Rightarrow> ticket_row \<Rightarrow> (string \<Rightarrow> string option) \<Rightarrow> string list" where
  "file_clash sn t planned =
     sort (remdups (filter (\<lambda>f. merged_files sn t planned f \<noteq> None) (t_files t)))"

definition tree_holder :: "snapshot \<Rightarrow> ticket_row \<Rightarrow> (string \<Rightarrow> string option option) \<Rightarrow> string option" where
  "tree_holder sn t planned =
     (if truthy_str (t_worktree t)
      then (case merged_trees sn planned (the (t_worktree t)) of None \<Rightarrow> None | Some h \<Rightarrow> h)
      else None)"

text \<open>One agent for one ticket: the reason it is rejected for, or the candidate.\<close>

definition judge :: "snapshot \<Rightarrow> ticket_row \<Rightarrow> (string \<Rightarrow> string option) \<Rightarrow> (string \<Rightarrow> string option option)
    \<Rightarrow> agent_row \<Rightarrow> string + candidate" where
  "judge sn t pfiles ptrees a =
     (let aid = ag_id a; active = active_ticket_count sn aid; limit = limit_of a;
          clash = file_clash sn t pfiles; holder = tree_holder sn t ptrees in
      if \<not> assignable (sn_state sn aid) then Inl (''agent is '' @ agent_state_name (sn_state sn aid))
      else if \<not> sn_live sn aid then Inl ''agent has no live session lease''
      else if \<not> fst (capability_reason t a) then Inl (snd (capability_reason t a))
      else if active \<ge> limit
      then Inl (''at capacity ('' @ dec active @ ''/'' @ dec limit @ '')'')
      else if clash \<noteq> []
      then Inl (''files held by '' @ the (merged_files sn t pfiles (hd clash)) @ '': '' @ py_join '', '' clash)
      else if holder \<noteq> None \<and> holder \<noteq> Some aid
      then Inl (''worktree '' @ the (t_worktree t) @ '' is in use by '' @ the holder)
      else Inr \<lparr>cd_agent = aid, cd_reason = snd (capability_reason t a), cd_active = active\<rparr>)"

definition eligible_agents :: "snapshot \<Rightarrow> ticket_row \<Rightarrow> (string \<Rightarrow> string option) \<Rightarrow> (string \<Rightarrow> string option option)
    \<Rightarrow> candidate list \<times> (string \<times> string) list" where
  "eligible_agents sn t pfiles ptrees =
     (let js = map (\<lambda>a. (ag_id a, judge sn t pfiles ptrees a)) (sn_agents sn) in
      (sort_key (\<lambda>c. (cd_active c, cd_agent c))
         (List.map_filter (\<lambda>(i, j). case j of Inl _ \<Rightarrow> None | Inr c \<Rightarrow> Some c) js),
       sort (List.map_filter (\<lambda>(i, j). case j of Inl why \<Rightarrow> Some (i, why) | Inr _ \<Rightarrow> None) js)))"

section \<open>The plan\<close>

definition agent_limit :: "snapshot \<Rightarrow> string \<Rightarrow> nat" where
  "agent_limit sn aid = (case List.find (\<lambda>a. ag_id a = aid) (sn_agents sn) of None \<Rightarrow> 1 | Some a \<Rightarrow> limit_of a)"

record plan_state =
  pl_decisions :: "route_decision list"
  pl_consumed :: "string \<Rightarrow> nat"
  pl_files :: "string \<Rightarrow> string option"
  pl_trees :: "string \<Rightarrow> string option option"

definition plan_start :: plan_state where
  "plan_start = \<lparr>pl_decisions = [], pl_consumed = (\<lambda>_. 0), pl_files = (\<lambda>_. None), pl_trees = (\<lambda>_. None)\<rparr>"

definition assigned :: "snapshot \<Rightarrow> ticket_row \<Rightarrow> candidate \<Rightarrow> nat \<Rightarrow> route_decision" where
  "assigned sn t c used =
     \<lparr>de_ticket = t_id t, de_kind = ''assigned'',
      de_reason = cd_reason c @ '', '' @ dec (cd_active c + used) @ '' of ''
        @ dec (agent_limit sn (cd_agent c)) @ '' slots used'',
      de_agent = Some (cd_agent c)\<rparr>"

definition open_candidates :: "snapshot \<Rightarrow> ticket_row \<Rightarrow> plan_state \<Rightarrow> candidate list" where
  "open_candidates sn t st =
     filter (\<lambda>c. cd_active c + pl_consumed st (cd_agent c) < agent_limit sn (cd_agent c))
       (fst (eligible_agents sn t (pl_files st) (pl_trees st)))"

definition nobody :: "snapshot \<Rightarrow> ticket_row \<Rightarrow> plan_state \<Rightarrow> route_decision" where
  "nobody sn t st =
     (let why = py_join ''; '' (map (\<lambda>(i, w). i @ '': '' @ w)
            (snd (eligible_agents sn t (pl_files st) (pl_trees st)))) in
      \<lparr>de_ticket = t_id t, de_kind = ''no_eligible_agent'',
       de_reason = (if why = [] then ''no agents are enrolled on this board'' else why), de_agent = None\<rparr>)"

definition hand_out :: "snapshot \<Rightarrow> ticket_row \<Rightarrow> candidate \<Rightarrow> plan_state \<Rightarrow> plan_state" where
  "hand_out sn t c st =
     (let used = pl_consumed st (cd_agent c) + 1 in
      \<lparr>pl_decisions = pl_decisions st @ [assigned sn t c used],
       pl_consumed = (pl_consumed st)(cd_agent c := used),
       pl_files = claim_paths (t_id t) (t_files t) (pl_files st),
       pl_trees = (if truthy_str (t_worktree t)
                   then setdefault (the (t_worktree t)) (Some (cd_agent c)) (pl_trees st)
                   else pl_trees st)\<rparr>)"

definition plan_ticket :: "snapshot \<Rightarrow> ticket_row \<times> verdict \<Rightarrow> plan_state \<Rightarrow> plan_state" where
  "plan_ticket sn tv st =
     (case tv of (t, v) \<Rightarrow>
       (case v of
          NotCandidate \<Rightarrow> st
        | Decided d \<Rightarrow> st\<lparr>pl_decisions := pl_decisions st @ [d]\<rparr>
        | Eligible \<Rightarrow>
            (case open_candidates sn t st of
               [] \<Rightarrow> st\<lparr>pl_decisions := pl_decisions st @ [nobody sn t st]\<rparr>
             | c # _ \<Rightarrow> hand_out sn t c st)))"

definition plan :: "snapshot \<Rightarrow> route_decision list" where
  "plan sn = pl_decisions (fold (plan_ticket sn) (routable_tickets sn) plan_start)"

end
