(* ===== verification/Route_Plan.thy ===== *)
theory Route_Plan
  imports Eligibility
begin

text \<open>
  What the plan of \<open>Eligibility\<close> guarantees: every ticket that could move gets one
  decision, and the assignments among them pass every gate together, not only one by one.
\<close>

section \<open>The gates, read off a candidate\<close>

definition may_take :: "snapshot \<Rightarrow> ticket_row \<Rightarrow> string \<Rightarrow> bool" where
  "may_take sn t aid \<longleftrightarrow>
     t \<in> set (sn_tickets sn) \<and> t_state t = Open \<and> \<not> truthy_str (t_owner t)
     \<and> t_id t \<notin> set (map as_ticket (sn_reservations sn)) \<and> unmet_in sn t = []
     \<and> (\<exists>a \<in> set (sn_agents sn). ag_id a = aid \<and> fst (capability_reason t a))
     \<and> assignable (sn_state sn aid) \<and> sn_live sn aid
     \<and> (\<forall>f \<in> set (t_files t). occupied_files sn (t_id t) f = None)
     \<and> (truthy_str (t_worktree t) \<longrightarrow>
          occupied_worktrees sn (the (t_worktree t)) \<in> {None, Some None, Some (Some aid)})"

lemma setdefault_other [simp]: "k \<noteq> j \<Longrightarrow> setdefault k v m j = m j"
  by (simp add: setdefault_def split: option.splits)

lemma setdefault_None [simp]: "setdefault k v m j = None \<longleftrightarrow> j \<noteq> k \<and> m j = None"
  by (auto simp: setdefault_def split: option.splits)

lemma setdefault_keeps: "m j = Some x \<Longrightarrow> setdefault k v m j = Some x"
  by (auto simp: setdefault_def split: option.splits)

lemma claim_paths_None: "claim_paths v ks m j = None \<longleftrightarrow> j \<notin> set ks \<and> m j = None"
  by (induction ks arbitrary: m) (auto simp: claim_paths_def)

lemma eligible_agents_iff:
  "c \<in> set (fst (eligible_agents sn t pf pt)) \<longleftrightarrow> (\<exists>a \<in> set (sn_agents sn). judge sn t pf pt a = Inr c)"
  by (force simp: eligible_agents_def Let_def List.map_filter_def split: sum.splits)

lemma judge_Inr:
  assumes "judge sn t pf pt a = Inr c"
  shows "cd_agent c = ag_id a \<and> cd_active c = active_ticket_count sn (ag_id a)
    \<and> assignable (sn_state sn (ag_id a)) \<and> sn_live sn (ag_id a) \<and> fst (capability_reason t a)
    \<and> active_ticket_count sn (ag_id a) < limit_of a
    \<and> file_clash sn t pf = [] \<and> (tree_holder sn t pt = None \<or> tree_holder sn t pt = Some (ag_id a))"
  using assms by (auto simp: judge_def Let_def split: if_splits)

lemma no_clash:
  assumes "file_clash sn t pf = []"
  shows "\<forall>f \<in> set (t_files t). occupied_files sn (t_id t) f = None \<and> pf f = None"
proof -
  have "set (file_clash sn t pf) = {}" using assms by simp
  then show ?thesis by (auto simp: file_clash_def merged_files_def split: option.splits)
qed

section \<open>The invariant of the pass\<close>

text \<open>\<open>asg\<close> is what the pass has handed out so far: tickets with their agents.\<close>

definition handed :: "(ticket_row \<times> string) list \<Rightarrow> string \<Rightarrow> nat" where
  "handed asg aid = length (filter (\<lambda>x. snd x = aid) asg)"

definition disjoint_files :: "(ticket_row \<times> string) list \<Rightarrow> bool" where
  "disjoint_files = sorted_wrt (\<lambda>x y. set (t_files (fst x)) \<inter> set (t_files (fst y)) = {})"

definition plan_inv :: "snapshot \<Rightarrow> (ticket_row \<times> string) list \<Rightarrow> plan_state \<Rightarrow> bool" where
  "plan_inv sn asg st \<longleftrightarrow>
     map (\<lambda>d. (de_ticket d, de_agent d)) (filter (\<lambda>d. de_kind d = ''assigned'') (pl_decisions st))
       = map (\<lambda>x. (t_id (fst x), Some (snd x))) asg
     \<and> (\<forall>x \<in> set asg. may_take sn (fst x) (snd x))
     \<and> (\<forall>aid. pl_consumed st aid = handed asg aid)
     \<and> (\<forall>aid. 0 < handed asg aid \<longrightarrow> active_ticket_count sn aid + handed asg aid \<le> agent_limit sn aid)
     \<and> (\<forall>f. pl_files st f \<noteq> None \<longleftrightarrow> (\<exists>x \<in> set asg. f \<in> set (t_files (fst x))))
     \<and> disjoint_files asg
     \<and> (\<forall>w. pl_trees st w \<noteq> Some None)
     \<and> (\<forall>x \<in> set asg. \<forall>w. t_worktree (fst x) = Some w \<longrightarrow> w \<noteq> [] \<longrightarrow> occupied_worktrees sn w \<noteq> Some None
          \<longrightarrow> merged_trees sn (pl_trees st) w = Some (Some (snd x)))"

lemma plan_inv_start: "plan_inv sn [] plan_start"
  by (simp add: plan_inv_def plan_start_def handed_def disjoint_files_def)

lemma plan_inv_note:
  "plan_inv sn asg st \<Longrightarrow> de_kind d \<noteq> ''assigned'' \<Longrightarrow>
     plan_inv sn asg (st\<lparr>pl_decisions := pl_decisions st @ [d]\<rparr>)"
  by (simp add: plan_inv_def)

lemma merged_trees_keeps:
  "merged_trees sn m w = Some (Some a) \<Longrightarrow> merged_trees sn (setdefault k v m) w = Some (Some a)"
  by (auto simp: merged_trees_def setdefault_keeps split: option.splits)

lemma hand_out_inv:
  assumes inv: "plan_inv sn asg st" and t: "t \<in> set (sn_tickets sn)" and v: "verdict_of sn t = Eligible"
    and c: "c \<in> set (open_candidates sn t st)"
  shows "plan_inv sn (asg @ [(t, cd_agent c)]) (hand_out sn t c st)"
proof -
  let ?a = "cd_agent c" and ?st = "hand_out sn t c st"
  from c obtain a where a: "a \<in> set (sn_agents sn)" "judge sn t (pl_files st) (pl_trees st) a = Inr c"
    and room: "cd_active c + pl_consumed st ?a < agent_limit sn ?a"
    by (auto simp: open_candidates_def eligible_agents_iff)
  note j = judge_Inr [OF a(2)]
  have free: "occupied_files sn (t_id t) f = None \<and> pl_files st f = None" if "f \<in> set (t_files t)" for f
    using no_clash j that by blast
  have holder: "tree_holder sn t (pl_trees st) = None \<or> tree_holder sn t (pl_trees st) = Some ?a"
    using j by simp
  have may: "may_take sn t ?a"
    using t v a(1) j free holder
    by (auto simp: may_take_def verdict_of_def tree_holder_def merged_trees_def
        split: if_splits option.splits)
  have dec: "map (\<lambda>d. (de_ticket d, de_agent d)) (filter (\<lambda>d. de_kind d = ''assigned'') (pl_decisions ?st))
       = map (\<lambda>x. (t_id (fst x), Some (snd x))) (asg @ [(t, ?a)])"
    using inv by (simp add: plan_inv_def hand_out_def Let_def assigned_def)
  have used: "pl_consumed ?st aid = handed (asg @ [(t, ?a)]) aid" for aid
    using inv by (simp add: plan_inv_def hand_out_def Let_def handed_def)
  have cap: "active_ticket_count sn aid + handed (asg @ [(t, ?a)]) aid \<le> agent_limit sn aid"
    if "0 < handed (asg @ [(t, ?a)]) aid" for aid
    using inv room j that by (cases "aid = ?a") (auto simp: plan_inv_def handed_def)
  have files: "pl_files ?st f \<noteq> None \<longleftrightarrow> (\<exists>x \<in> set (asg @ [(t, ?a)]). f \<in> set (t_files (fst x)))" for f
    using inv by (auto simp: plan_inv_def hand_out_def Let_def claim_paths_None)
  have disj: "disjoint_files (asg @ [(t, ?a)])"
  proof -
    have "disjoint_files asg"
      and "\<And>f. pl_files st f \<noteq> None \<longleftrightarrow> (\<exists>x \<in> set asg. f \<in> set (t_files (fst x)))"
      using inv unfolding plan_inv_def by blast+
    then have "set (t_files (fst x)) \<inter> set (t_files t) = {}" if "x \<in> set asg" for x
      using free that by blast
    then show ?thesis using \<open>disjoint_files asg\<close> by (simp add: disjoint_files_def sorted_wrt_append)
  qed
  have trees: "pl_trees ?st w \<noteq> Some None" for w
    using inv by (auto simp: plan_inv_def hand_out_def Let_def setdefault_def split: option.splits)
  have old: "merged_trees sn (pl_trees ?st) w = Some (Some (snd x))"
    if "x \<in> set asg" "t_worktree (fst x) = Some w" "w \<noteq> []" "occupied_worktrees sn w \<noteq> Some None" for x w
  proof -
    have "merged_trees sn (pl_trees st) w = Some (Some (snd x))"
      using inv that unfolding plan_inv_def by blast
    then show ?thesis by (auto simp: hand_out_def Let_def intro: merged_trees_keeps)
  qed
  have new: "merged_trees sn (pl_trees ?st) w = Some (Some ?a)"
    if "t_worktree t = Some w" "w \<noteq> []" "occupied_worktrees sn w \<noteq> Some None" for w
    using that holder inv
    by (auto simp: hand_out_def Let_def merged_trees_def tree_holder_def setdefault_def plan_inv_def
        split: option.splits)
  have may_all: "\<forall>x \<in> set (asg @ [(t, ?a)]). may_take sn (fst x) (snd x)"
    using inv may unfolding plan_inv_def by simp
  have tree_all: "\<forall>x \<in> set (asg @ [(t, ?a)]). \<forall>w. t_worktree (fst x) = Some w \<longrightarrow> w \<noteq> []
      \<longrightarrow> occupied_worktrees sn w \<noteq> Some None \<longrightarrow> merged_trees sn (pl_trees ?st) w = Some (Some (snd x))"
    using old new by simp
  show ?thesis
    unfolding plan_inv_def using dec may_all used cap files disj trees tree_all by blast
qed

section \<open>The whole pass\<close>

lemma plan_ticket_inv:
  assumes "plan_inv sn asg st" and "t \<in> set (sn_tickets sn)"
  shows "\<exists>asg'. plan_inv sn asg' (plan_ticket sn (t, verdict_of sn t) st)"
proof (cases "verdict_of sn t")
  case NotCandidate
  then show ?thesis using assms(1) by (auto simp: plan_ticket_def)
next
  case (Decided d)
  then have "de_kind d = ''skipped''" by (auto simp: verdict_of_def skip_def split: if_splits)
  then show ?thesis using Decided assms(1) plan_inv_note [of sn asg st d] by (auto simp: plan_ticket_def)
next
  case Eligible
  show ?thesis
  proof (cases "open_candidates sn t st")
    case Nil
    have "de_kind (nobody sn t st) \<noteq> ''assigned''" by (simp add: nobody_def Let_def)
    from plan_inv_note [OF assms(1) this] show ?thesis
      using Nil Eligible by (auto simp: plan_ticket_def)
  next
    case (Cons c cs)
    then show ?thesis using hand_out_inv [OF assms Eligible, of c] Eligible by (auto simp: plan_ticket_def)
  qed
qed

lemma fold_plan_inv:
  "plan_inv sn asg st \<Longrightarrow> set ts \<subseteq> set (sn_tickets sn) \<Longrightarrow>
     \<exists>asg'. plan_inv sn asg' (fold (plan_ticket sn) (map (\<lambda>t. (t, verdict_of sn t)) ts) st)"
proof (induction ts arbitrary: asg st)
  case Nil
  then show ?case by auto
next
  case (Cons t ts)
  then obtain asg1 where "plan_inv sn asg1 (plan_ticket sn (t, verdict_of sn t) st)"
    using plan_ticket_inv by (meson list.set_intros(1) subsetD)
  then show ?case using Cons.IH Cons.prems(2) by auto
qed


lemma plan_ticket_decides:
  "map de_ticket (pl_decisions (plan_ticket sn (t, verdict_of sn t) st))
    = map de_ticket (pl_decisions st) @ (if t_state t = Open then [t_id t] else [])"
  by (auto simp: plan_ticket_def verdict_of_def skip_def nobody_def hand_out_def assigned_def Let_def
      split: list.splits)

lemma fold_plan_decides:
  "map de_ticket (pl_decisions (fold (plan_ticket sn) (map (\<lambda>t. (t, verdict_of sn t)) ts) st))
    = map de_ticket (pl_decisions st) @ map t_id (filter (\<lambda>t. t_state t = Open) ts)"
  by (induction ts arbitrary: st) (simp_all add: plan_ticket_decides)

text \<open>
  Nothing is passed over in silence: the plan decides exactly the open tickets, each
  once, oldest first.
\<close>
theorem plan_decides_every_open_ticket:
  "map de_ticket (plan sn) = map t_id (filter (\<lambda>t. t_state t = Open) (sn_tickets sn))"
  by (simp add: plan_def routable_tickets_def fold_plan_decides plan_start_def)

section \<open>On a concrete board\<close>

text \<open>The demo board once agent \<open>a\<close> has a live session.\<close>

definition routed :: snapshot where
  "routed = take_snapshot (demo_env 60) (run 20 [OOpenSession ''a'' 1000 (Some ''s1'') None] demo) ''p''"


text \<open>A board of one agent, limited to one ticket, and two independent tickets.\<close>

definition one_seat :: snapshot where
  "one_seat = take_snapshot (demo_env 60)
     (run 1 [OCreateProject ''demo'' ''native'' (Some ''p''),
        OCreateAgent ''p'' ''ann'' None [] ''managed'' 1 (JObj []) (Some ''a''),
        OOpenSession ''a'' 1000 (Some ''s1'') None,
        OCreateTicket ''p'' ''DM-1'' ''one'' None None [] [] [] None None,
        OCreateTicket ''p'' ''DM-2'' ''two'' None None [] [] [] None None] empty_db) ''p''"

text \<open>
  The reason given for a ticket without an agent can be untrue: when the plan itself
  has used up the only agent's capacity, the second ticket is reported as if no agent were
  enrolled on the board.
\<close>
theorem plan_reports_no_agent_enrolled:
  "map ag_id (sn_agents one_seat) = [''a'']
   \<and> map (\<lambda>d. (de_ticket d, de_kind d, de_agent d)) (plan one_seat)
      = [(''DM-1'', ''assigned'', Some ''a''), (''DM-2'', ''no_eligible_agent'', None)]
   \<and> de_reason (plan one_seat ! 1) = ''no agents are enrolled on this board''"
  by (intro conjI; code_simp)

end
