(* ===== verification/Sweep.thy ===== *)
theory Sweep
  imports Route_Plan
begin

text \<open>
  One pass of the master's routing loop: \<open>orchestrator/recommend.py\<close> (what a model may
  suggest) and \<open>Sweeper.run_once\<close> of \<open>orchestrator/sweep.py\<close> over the fenced writes of
  \<open>Master_Lease\<close>. A pass is a sequence of transactions, and other writers may commit
  between any two of them: \<open>st_others i\<close> is what they do to the database before the i-th
  access of the pass, \<open>st_env i\<close> the environment of that access. A recommender is code of
  its own: a function of the ticket and the candidates' ids that answers a value or raises
  an exception, given by its class name and text. A note is kept as its parts.
\<close>

section \<open>Suggestions\<close>

type_synonym recommender = "ticket_row \<Rightarrow> string list \<Rightarrow> (string \<times> string) + json"

datatype sweep_note =
    NotAList string string
  | NonString json
  | Duplicate string
  | Ineligible string
  | NoneEligible
  | RecommenderRaised string string
  | NotConsulted routing
  | BoardChanged string string

fun type_name :: "json \<Rightarrow> string" where
  "type_name JNull = ''NoneType''"
| "type_name (JBool _) = ''bool''"
| "type_name (JInt _) = ''int''"
| "type_name (JStr _) = ''str''"
| "type_name (JArr _) = ''list''"
| "type_name (JObj _) = ''dict''"

text \<open>The loop of \<open>apply\<close>: the candidates taken so far, the ids seen, the notes.\<close>

record suggest_state =
  su_ordered :: "candidate list"
  su_seen :: "string list"
  su_notes :: "sweep_note list"

definition suggest_entry :: "candidate list \<Rightarrow> json \<Rightarrow> suggest_state \<Rightarrow> suggest_state" where
  "suggest_entry cs entry st =
     (case entry of
        JStr aid \<Rightarrow>
          if aid \<in> set (su_seen st) then st\<lparr>su_notes := su_notes st @ [Duplicate aid]\<rparr>
          else (case List.find (\<lambda>c. cd_agent c = aid) (rev cs) of
                  None \<Rightarrow> st\<lparr>su_seen := aid # su_seen st, su_notes := su_notes st @ [Ineligible aid]\<rparr>
                | Some c \<Rightarrow> st\<lparr>su_seen := aid # su_seen st, su_ordered := su_ordered st @ [c]\<rparr>)
      | v \<Rightarrow> st\<lparr>su_notes := su_notes st @ [NonString v]\<rparr>)"

definition recommend_apply :: "candidate list \<Rightarrow> json \<Rightarrow> string \<Rightarrow> candidate list \<times> sweep_note list" where
  "recommend_apply cs suggested tid =
     (case suggested of
        JNull \<Rightarrow> (cs, [])
      | JArr entries \<Rightarrow>
          let st = fold (suggest_entry cs) entries \<lparr>su_ordered = [], su_seen = [], su_notes = []\<rparr>;
              tail = filter (\<lambda>c. cd_agent c \<notin> set (su_seen st)) cs in
          if su_ordered st = [] then (cs, su_notes st @ [NoneEligible])
          else (su_ordered st @ tail, su_notes st)
      | v \<Rightarrow> (cs, [NotAList tid (type_name v)]))"

definition recommend_call :: "recommender option \<Rightarrow> ticket_row \<Rightarrow> candidate list \<Rightarrow> json \<times> sweep_note list" where
  "recommend_call rec t cs =
     (case rec of
        None \<Rightarrow> (JNull, [])
      | Some f \<Rightarrow> (case f t (map cd_agent cs) of
                      Inl (cls, msg) \<Rightarrow> (JNull, [RecommenderRaised cls msg])
                    | Inr v \<Rightarrow> (v, [])))"

section \<open>The sweeper\<close>

record sweeper =
  sw_project :: string
  sw_actor :: json
  sw_epoch :: int
  sw_recommender :: "recommender option"
  sw_ttl :: int

datatype sweep_status = Swept | SweepPaused | SweepSuperseded | NotDue

record sweep_result =
  sr_status :: sweep_status
  sr_decisions :: "route_decision list"
  sr_expired :: nat
  sr_notes :: "sweep_note list"
  sr_epoch :: int

definition bare_result :: "sweep_status \<Rightarrow> sweeper \<Rightarrow> sweep_result" where
  "bare_result status sw =
     \<lparr>sr_status = status, sr_decisions = [], sr_expired = 0, sr_notes = [], sr_epoch = sw_epoch sw\<rparr>"

definition is_current :: "sweeper \<Rightarrow> db \<Rightarrow> bool" where
  "is_current sw s \<longleftrightarrow> current_epoch s (sw_project sw) = sw_epoch sw"

definition is_paused :: "sweeper \<Rightarrow> db \<Rightarrow> bool" where
  "is_paused sw s = (case find_lease s (sw_project sw) of None \<Rightarrow> False | Some r \<Rightarrow> ml_paused r)"

definition is_due :: "env \<Rightarrow> sweeper \<Rightarrow> db \<Rightarrow> bool" where
  "is_due e sw s =
     (case find_lease s (sw_project sw) of
        None \<Rightarrow> False
      | Some r \<Rightarrow> (case ml_next_sweep_at r of None \<Rightarrow> True | Some due \<Rightarrow> due \<le> clock e))"

text \<open>One decision after the recommender has been asked about it.\<close>

definition suggest_one :: "sweeper \<Rightarrow> snapshot \<Rightarrow> route_decision \<Rightarrow> error + route_decision \<times> sweep_note list" where
  "suggest_one sw sn d =
     (if de_kind d \<noteq> ''assigned'' then Inr (d, [])
      else case by_id sn (de_ticket d) of
        None \<Rightarrow> Inl KeyError
      | Some t \<Rightarrow>
          let cs = fst (eligible_agents sn t (\<lambda>_. None) (\<lambda>_. None));
              (suggested, call_notes) = recommend_call (sw_recommender sw) t cs;
              (ordered, apply_notes) = recommend_apply cs suggested (de_ticket d);
              notes = call_notes @ apply_notes in
          (case ordered of
             [] \<Rightarrow> Inr (d, notes)
           | c # _ \<Rightarrow>
               if Some (cd_agent c) = de_agent d then Inr (d, notes)
               else Inr (d\<lparr>de_agent := Some (cd_agent c),
                           de_reason := cd_reason c @ '' (suggested over '' @ str_or_empty (de_agent d) @ '')''\<rparr>,
                         notes)))"

fun suggest_all :: "sweeper \<Rightarrow> snapshot \<Rightarrow> route_decision list \<Rightarrow> error + route_decision list \<times> sweep_note list" where
  "suggest_all sw sn [] = Inr ([], [])"
| "suggest_all sw sn (d # ds) =
     bindE (suggest_one sw sn d) (\<lambda>(d', ns). bindE (suggest_all sw sn ds) (\<lambda>(ds', ns'). Inr (d' # ds', ns @ ns')))"

definition routing_mode :: "sweeper \<Rightarrow> db \<Rightarrow> routing" where
  "routing_mode sw s = (case find_lease s (sw_project sw) of None \<Rightarrow> Deterministic | Some r \<Rightarrow> ml_routing r)"

definition apply_suggestions :: "sweeper \<Rightarrow> db \<Rightarrow> snapshot \<Rightarrow> route_decision list
    \<Rightarrow> error + route_decision list \<times> sweep_note list" where
  "apply_suggestions sw s sn planned =
     (if sw_recommender sw = None then Inr (planned, [])
      else if routing_mode sw s \<noteq> DeterministicPlusSuggestions
      then Inr (planned, [NotConsulted (routing_mode sw s)])
      else suggest_all sw sn planned)"

section \<open>The pass\<close>

record setting =
  st_env :: "nat \<Rightarrow> env"
  st_others :: "nat \<Rightarrow> db \<Rightarrow> db"

text \<open>The number of accesses made so far and the database.\<close>

type_synonym world = "nat \<times> db"

definition turn :: "setting \<Rightarrow> world \<Rightarrow> world" where
  "turn st w = (case w of (i, s) \<Rightarrow> (Suc i, st_others st i s))"

definition world_env :: "setting \<Rightarrow> world \<Rightarrow> env" where
  "world_env st w = st_env st (fst w)"

definition transact :: "setting \<Rightarrow> (env \<Rightarrow> db \<Rightarrow> error + db \<times> 'a) \<Rightarrow> world \<Rightarrow> (error + 'a) \<times> world" where
  "transact st body w =
     (let (i, s) = turn st w; (r, s') = write_txn (body (st_env st i)) s in (r, (i, s')))"

definition log_decision :: "setting \<Rightarrow> sweeper \<Rightarrow> string \<Rightarrow> string \<Rightarrow> string \<Rightarrow> string option \<Rightarrow> world
    \<Rightarrow> (error + response) \<times> world" where
  "log_decision st sw tid kind reason aid =
     transact st (\<lambda>e. sweep_log e (sw_project sw) (sw_epoch sw) tid kind reason aid)"

definition commit_decision :: "setting \<Rightarrow> sweeper \<Rightarrow> snapshot \<Rightarrow> route_decision \<Rightarrow> world
    \<Rightarrow> (error + response) \<times> world" where
  "commit_decision st sw sn d w =
     (if de_kind d \<noteq> ''assigned''
      then log_decision st sw (de_ticket d) (de_kind d) (de_reason d) (de_agent d) w
      else case by_id sn (de_ticket d) of
        None \<Rightarrow> (Inl KeyError, w)
      | Some t \<Rightarrow>
          transact st (\<lambda>e. create_assignment e (sw_project sw) (sw_actor sw) (de_ticket d)
            (str_or_empty (de_agent d)) (de_reason d) (sw_epoch sw) (t_version t) (sw_ttl sw) None) w)"

text \<open>The names of the two exceptions that mean the board moved.\<close>

fun moved_name :: "error \<Rightarrow> string option" where
  "moved_name (TicketVersionConflict _ _ _) = Some ''TicketVersionConflict''"
| "moved_name (NotFound _ _) = Some ''NotFound''"
| "moved_name _ = None"

fun is_lease_expired :: "error \<Rightarrow> bool" where
  "is_lease_expired (MasterLeaseExpired _ _) = True"
| "is_lease_expired _ = False"

definition changed_reason :: "string \<Rightarrow> string" where
  "changed_reason cls = ''board changed during the sweep ('' @ cls @ '')''"

datatype loop_end =
    LoopDone "route_decision list" "sweep_note list"
  | LoopSuperseded "route_decision list" "sweep_note list"
  | LoopRaised error

fun commit_all :: "setting \<Rightarrow> sweeper \<Rightarrow> snapshot \<Rightarrow> route_decision list \<Rightarrow> route_decision list \<Rightarrow> sweep_note list
    \<Rightarrow> world \<Rightarrow> loop_end \<times> world" where
  "commit_all st sw sn [] recorded notes w = (LoopDone recorded notes, w)"
| "commit_all st sw sn (d # ds) recorded notes w =
     (case commit_decision st sw sn d w of
        (Inr _, w1) \<Rightarrow> commit_all st sw sn ds (recorded @ [d]) notes w1
      | (Inl x, w1) \<Rightarrow>
          if is_lease_expired x then (LoopSuperseded recorded notes, w1)
          else (case moved_name x of
            None \<Rightarrow> (LoopRaised x, w1)
          | Some cls \<Rightarrow>
              (case log_decision st sw (de_ticket d) ''skipped'' (changed_reason cls) None w1 of
                 (Inl y, w2) \<Rightarrow> (LoopRaised y, w2)
               | (Inr _, w2) \<Rightarrow>
                   commit_all st sw sn ds
                     (recorded @ [d\<lparr>de_kind := ''skipped'', de_agent := None, de_reason := changed_reason cls\<rparr>])
                     (notes @ [BoardChanged (de_ticket d) cls]) w2)))"

text \<open>The pass once its reservations have been expired.\<close>

definition route_all :: "setting \<Rightarrow> sweeper \<Rightarrow> nat \<Rightarrow> world \<Rightarrow> (error + sweep_result) \<times> world" where
  "route_all st sw expired w =
     (let w1 = turn st w; sn = take_snapshot (world_env st w1) (snd w1) (sw_project sw);
          w2 = (if sw_recommender sw = None then w1 else turn st w1) in
      case apply_suggestions sw (snd w2) sn (plan sn) of
        Inl x \<Rightarrow> (Inl x, w2)
      | Inr (planned, notes) \<Rightarrow>
          (case commit_all st sw sn planned [] notes w2 of
             (LoopRaised x, w3) \<Rightarrow> (Inl x, w3)
           | (LoopSuperseded recorded notes', w3) \<Rightarrow>
               (Inr \<lparr>sr_status = SweepSuperseded, sr_decisions = recorded, sr_expired = expired,
                     sr_notes = notes', sr_epoch = sw_epoch sw\<rparr>, w3)
           | (LoopDone recorded notes', w3) \<Rightarrow>
               (case transact st (\<lambda>e. checkpoint e (sw_project sw) (sw_epoch sw)) w3 of
                  (Inl x, w4) \<Rightarrow> (Inl x, w4)
                | (Inr _, w4) \<Rightarrow>
                    (Inr \<lparr>sr_status = Swept, sr_decisions = recorded, sr_expired = expired,
                          sr_notes = notes', sr_epoch = sw_epoch sw\<rparr>, w4))))"

definition expire_and_route :: "setting \<Rightarrow> sweeper \<Rightarrow> world \<Rightarrow> (error + sweep_result) \<times> world" where
  "expire_and_route st sw w =
     (case transact st (\<lambda>e. expire_reservations e (sw_project sw) (sw_actor sw) (sw_epoch sw)) w of
        (Inl x, w1) \<Rightarrow> (if is_lease_expired x then Inr (bare_result SweepSuperseded sw) else Inl x, w1)
      | (Inr expired, w1) \<Rightarrow> route_all st sw expired w1)"

definition run_once :: "setting \<Rightarrow> sweeper \<Rightarrow> bool \<Rightarrow> world \<Rightarrow> (error + sweep_result) \<times> world" where
  "run_once st sw force w =
     (let w1 = turn st w in
      if \<not> is_current sw (snd w1) then (Inr (bare_result SweepSuperseded sw), w1)
      else let w2 = turn st w1 in
        if is_paused sw (snd w2) then (Inr (bare_result SweepPaused sw), w2)
        else if force then expire_and_route st sw w2
        else let w3 = turn st w2 in
          if \<not> is_due (world_env st w3) sw (snd w3) then (Inr (bare_result NotDue sw), w3)
          else expire_and_route st sw w3)"

end
