(* ===== verification/Sweep_Guarantees.thy ===== *)
theory Sweep_Guarantees
  imports Sweep "HOL-Library.Multiset"
begin

text \<open>
  What a pass of the routing loop guarantees: a recommender can only reorder, whatever it
  answers; the decisions it may change still pass every gate one by one, though not
  together; an undisturbed pass records exactly the plan and touches no ticket; a pass
  whose lease was taken over writes nothing more.
\<close>

section \<open>Suggestions\<close>

definition suggested_ids :: "json list \<Rightarrow> string list" where
  "suggested_ids es = List.map_filter (\<lambda>v. case v of JStr i \<Rightarrow> Some i | _ \<Rightarrow> None) es"

text \<open>The first occurrences of a list, in order.\<close>

definition firsts :: "'a list \<Rightarrow> 'a list" where
  "firsts xs = rev (remdups (rev xs))"

lemma firsts_snoc: "firsts (xs @ [x]) = (if x \<in> set xs then firsts xs else firsts xs @ [x])"
  by (simp add: firsts_def)

lemma set_firsts [simp]: "set (firsts xs) = set xs"
  by (simp add: firsts_def)

lemma distinct_firsts [simp]: "distinct (firsts xs)"
  by (simp add: firsts_def)

lemma suggested_ids_snoc:
  "suggested_ids (es @ [v]) = suggested_ids es @ (case v of JStr i \<Rightarrow> [i] | _ \<Rightarrow> [])"
  by (simp add: suggested_ids_def map_filter_simps List.map_filter_def split: json.splits)

definition fresh_suggest :: suggest_state where
  "fresh_suggest = \<lparr>su_ordered = [], su_seen = [], su_notes = []\<rparr>"

lemma suggest_entry_simps:
  "suggest_entry cs (JStr i) st =
     (if i \<in> set (su_seen st) then st\<lparr>su_notes := su_notes st @ [Duplicate i]\<rparr>
      else (case List.find (\<lambda>c. cd_agent c = i) (rev cs) of
              None \<Rightarrow> st\<lparr>su_seen := i # su_seen st, su_notes := su_notes st @ [Ineligible i]\<rparr>
            | Some c \<Rightarrow> st\<lparr>su_seen := i # su_seen st, su_ordered := su_ordered st @ [c]\<rparr>))"
  "(\<And>i. v \<noteq> JStr i) \<Longrightarrow> suggest_entry cs v st = st\<lparr>su_notes := su_notes st @ [NonString v]\<rparr>"
  by (simp_all add: suggest_entry_def split: json.splits)

lemma suggest_fold:
  "set (su_seen (fold (suggest_entry cs) es fresh_suggest)) = set (suggested_ids es)
   \<and> map cd_agent (su_ordered (fold (suggest_entry cs) es fresh_suggest))
      = firsts (filter (\<lambda>i. i \<in> cd_agent ` set cs) (suggested_ids es))
   \<and> set (su_ordered (fold (suggest_entry cs) es fresh_suggest)) \<subseteq> set cs"
proof (induction es rule: rev_induct)
  case Nil
  then show ?case by (simp add: fresh_suggest_def suggested_ids_def firsts_def map_filter_simps)
next
  case (snoc v es)
  let ?st = "fold (suggest_entry cs) es fresh_suggest"
  show ?case
  proof (cases v)
    case (JStr i)
    show ?thesis
    proof (cases "i \<in> set (su_seen ?st)")
      case True
      then show ?thesis using snoc.IH JStr
        by (auto simp: suggest_entry_simps suggested_ids_snoc firsts_snoc)
    next
      case False
      show ?thesis
      proof (cases "List.find (\<lambda>c. cd_agent c = i) (rev cs)")
        case None
        then have "i \<notin> cd_agent ` set cs" by (auto simp: find_None_set)
        then show ?thesis using snoc.IH JStr False None
          by (auto simp: suggest_entry_simps suggested_ids_snoc)
      next
        case (Some c)
        then have "c \<in> set cs \<and> cd_agent c = i" by (auto dest: find_SomeD)
        then show ?thesis using snoc.IH JStr False Some
          by (auto simp: suggest_entry_simps suggested_ids_snoc firsts_snoc)
      qed
    qed
  qed (use snoc.IH in \<open>simp_all add: suggest_entry_simps suggested_ids_snoc\<close>)
qed

lemma recommend_apply_list:
  "recommend_apply cs (JArr es) tid =
     (let st = fold (suggest_entry cs) es fresh_suggest in
      if su_ordered st = [] then (cs, su_notes st @ [NoneEligible])
      else (su_ordered st @ filter (\<lambda>c. cd_agent c \<notin> set (su_seen st)) cs, su_notes st))"
  by (simp add: recommend_apply_def fresh_suggest_def Let_def)

lemma recommend_apply_other:
  "(\<And>es. v \<noteq> JArr es) \<Longrightarrow> fst (recommend_apply cs v tid) = cs"
  by (cases v) (auto simp: recommend_apply_def)

lemma recommend_apply_subset: "set (fst (recommend_apply cs v tid)) \<subseteq> set cs"
proof (cases "\<exists>es. v = JArr es")
  case True
  then obtain es where "v = JArr es" by auto
  then show ?thesis using suggest_fold [of cs es] by (auto simp: recommend_apply_list Let_def)
next
  case False
  then show ?thesis by (simp add: recommend_apply_other)
qed

lemma recommend_apply_ids:
  "map cd_agent (fst (recommend_apply cs (JArr es) tid))
    = (let named = firsts (filter (\<lambda>i. i \<in> cd_agent ` set cs) (suggested_ids es))
       in named @ filter (\<lambda>i. i \<notin> set named) (map cd_agent cs))"
proof -
  let ?st = "fold (suggest_entry cs) es fresh_suggest"
  let ?named = "firsts (filter (\<lambda>i. i \<in> cd_agent ` set cs) (suggested_ids es))"
  have st: "set (su_seen ?st) = set (suggested_ids es)" "map cd_agent (su_ordered ?st) = ?named"
    using suggest_fold [of cs es] by blast+
  have "filter (\<lambda>i. i \<notin> set ?named) (map cd_agent cs)
      = map cd_agent (filter (\<lambda>c. cd_agent c \<notin> set (suggested_ids es)) cs)"
    by (auto simp: filter_map o_def intro!: arg_cong [where f = "map cd_agent"] filter_cong)
  then have rest: "map cd_agent (filter (\<lambda>c. cd_agent c \<notin> set (su_seen ?st)) cs)
      = filter (\<lambda>i. i \<notin> set ?named) (map cd_agent cs)"
    unfolding st(1) by (rule sym)
  show ?thesis
  proof (cases "su_ordered ?st = []")
    case True
    then have "?named = []" using st(2) by simp
    then show ?thesis using True unfolding Let_def by (simp add: recommend_apply_list)
  next
    case False
    then show ?thesis using st(2) rest by (simp add: recommend_apply_list Let_def)
  qed
qed

text \<open>
  C34: A recommender can only reorder. Whatever value it answers, the candidates it leaves
  are the eligible ones, each as often as before; and for a list, the ones it named come
  first, in the order it named them first, and all others keep their places behind.
\<close>
theorem suggestions_only_reorder:
  assumes "distinct (map cd_agent cs)"
  shows "mset (fst (recommend_apply cs v tid)) = mset cs
    \<and> (\<forall>es. v = JArr es \<longrightarrow> map cd_agent (fst (recommend_apply cs v tid))
        = (let named = firsts (filter (\<lambda>i. i \<in> cd_agent ` set cs) (suggested_ids es))
           in named @ filter (\<lambda>i. i \<notin> set named) (map cd_agent cs)))"
proof (cases "\<exists>es. v = JArr es")
  case True
  then obtain es where v: "v = JArr es" by auto
  let ?out = "fst (recommend_apply cs v tid)"
  let ?named = "firsts (filter (\<lambda>i. i \<in> cd_agent ` set cs) (suggested_ids es))"
  have ids: "map cd_agent ?out = ?named @ filter (\<lambda>i. i \<notin> set ?named) (map cd_agent cs)"
    using recommend_apply_ids [of cs es tid] by (simp add: v Let_def)
  have d: "distinct (map cd_agent ?out)" unfolding ids using assms by auto
  have "cd_agent ` set ?out = cd_agent ` set cs"
    using arg_cong [OF ids, of set] by auto
  moreover have "inj_on cd_agent (set cs)" using assms by (simp add: distinct_map)
  ultimately have "set ?out = set cs"
    using recommend_apply_subset [of cs v tid] by (simp add: inj_on_image_eq_iff)
  then have "mset ?out = mset cs"
    using d assms by (simp add: distinct_map set_eq_iff_mset_eq_distinct)
  then show ?thesis using ids v by (simp add: Let_def)
qed (simp add: recommend_apply_other)

definition two_seats :: "candidate list" where
  "two_seats = [\<lparr>cd_agent = ''a'', cd_reason = ''r'', cd_active = 0\<rparr>,
                \<lparr>cd_agent = ''b'', cd_reason = ''r'', cd_active = 0\<rparr>]"

theorem suggestions_only_reorder_witness:
  "map cd_agent (fst (recommend_apply two_seats (JArr [JStr ''ghost'', JStr ''b'', JNull, JStr ''b'']) ''T-1''))
     = [''b'', ''a'']"
proof -
  let ?es = "[JStr ''ghost'', JStr ''b'', JNull, JStr ''b'']"
  have "distinct (map cd_agent two_seats)" by (simp add: two_seats_def)
  from suggestions_only_reorder [OF this, of "JArr ?es" "''T-1''"]
  have "map cd_agent (fst (recommend_apply two_seats (JArr ?es) ''T-1''))
      = (let named = firsts (filter (\<lambda>i. i \<in> cd_agent ` set two_seats) (suggested_ids ?es))
           in named @ filter (\<lambda>i. i \<notin> set named) (map cd_agent two_seats))" by blast
  then show ?thesis
    by (simp add: two_seats_def suggested_ids_def firsts_def map_filter_simps)
qed

section \<open>The decisions a recommender may change\<close>

text \<open>What a decision of the plan promises, and keeps when a recommender changes it.\<close>

definition decision_ok :: "snapshot \<Rightarrow> route_decision \<Rightarrow> bool" where
  "decision_ok sn d \<longleftrightarrow> (de_kind d = ''assigned'' \<longrightarrow>
     (\<exists>t \<in> set (sn_tickets sn). \<exists>aid. t_id t = de_ticket d \<and> de_agent d = Some aid \<and> may_take sn t aid))"

lemma candidate_may_take:
  assumes "may_take sn t b" and "c \<in> set (fst (eligible_agents sn t (\<lambda>_. None) (\<lambda>_. None)))"
  shows "may_take sn t (cd_agent c)"
proof -
  from assms(2) obtain a where a: "a \<in> set (sn_agents sn)" "judge sn t (\<lambda>_. None) (\<lambda>_. None) a = Inr c"
    by (auto simp: eligible_agents_iff)
  note j = judge_Inr [OF a(2)]
  have "tree_holder sn t (\<lambda>_. None) = None \<or> tree_holder sn t (\<lambda>_. None) = Some (cd_agent c)"
    using j by simp
  then show ?thesis using assms(1) a(1) j no_clash [of sn t "\<lambda>_. None"]
    by (auto simp: may_take_def tree_holder_def merged_trees_def split: if_splits option.splits)
qed

lemma plan_decision_ok: "d \<in> set (plan sn) \<Longrightarrow> decision_ok sn d"
proof -
  assume d: "d \<in> set (plan sn)"
  obtain asg where inv: "plan_inv sn asg (fold (plan_ticket sn) (routable_tickets sn) plan_start)"
    using fold_plan_inv [OF plan_inv_start, of "sn_tickets sn" sn] by (auto simp: routable_tickets_def)
  then have eq: "map (\<lambda>d. (de_ticket d, de_agent d)) (filter (\<lambda>d. de_kind d = ''assigned'') (plan sn))
      = map (\<lambda>x. (t_id (fst x), Some (snd x))) asg"
    and may: "\<forall>x \<in> set asg. may_take sn (fst x) (snd x)"
    by (auto simp: plan_inv_def plan_def)
  have "\<exists>x \<in> set asg. t_id (fst x) = de_ticket d \<and> de_agent d = Some (snd x)"
    if "de_kind d = ''assigned''"
  proof -
    have "(de_ticket d, de_agent d) \<in> set (map (\<lambda>d. (de_ticket d, de_agent d))
        (filter (\<lambda>d. de_kind d = ''assigned'') (plan sn)))" using d that by auto
    then show ?thesis unfolding eq by force
  qed
  then show ?thesis using may unfolding decision_ok_def by (metis may_take_def)
qed

lemma by_id_unique:
  "distinct (map t_id (sn_tickets sn)) \<Longrightarrow> t \<in> set (sn_tickets sn) \<Longrightarrow> by_id sn (t_id t) = Some t"
  unfolding by_id_def by (rule find_unique) (simp_all flip: rev_map)

lemma suggest_one_ok:
  assumes d: "decision_ok sn d" and u: "distinct (map t_id (sn_tickets sn))"
  shows "\<exists>d' ns. suggest_one sw sn d = Inr (d', ns) \<and> de_ticket d' = de_ticket d
    \<and> de_kind d' = de_kind d \<and> decision_ok sn d'"
proof (cases "de_kind d = ''assigned''")
  case False
  then show ?thesis using d by (simp add: suggest_one_def)
next
  case True
  then obtain t aid where t: "t \<in> set (sn_tickets sn)" "t_id t = de_ticket d" "de_agent d = Some aid"
    "may_take sn t aid" using d by (auto simp: decision_ok_def)
  let ?cs = "fst (eligible_agents sn t (\<lambda>_. None) (\<lambda>_. None))"
  let ?call = "recommend_call (sw_recommender sw) t ?cs"
  let ?app = "recommend_apply ?cs (fst ?call) (de_ticket d)"
  have row: "by_id sn (de_ticket d) = Some t" using by_id_unique [OF u t(1)] t(2) by simp
  show ?thesis
  proof (cases "fst ?app")
    case Nil
    then show ?thesis using True d by (simp add: suggest_one_def row Let_def split_beta)
  next
    case (Cons c rest)
    then have "c \<in> set ?cs" using recommend_apply_subset [of ?cs "fst ?call" "de_ticket d"] by auto
    then have "may_take sn t (cd_agent c)" by (rule candidate_may_take [OF t(4)])
    then have "decision_ok sn (d\<lparr>de_agent := Some (cd_agent c), de_reason := why\<rparr>)" for why
      using t by (auto simp: decision_ok_def)
    then show ?thesis using True d Cons by (simp add: suggest_one_def row Let_def split_beta)
  qed
qed

lemma suggest_all_ok:
  assumes "distinct (map t_id (sn_tickets sn))" and "\<forall>d \<in> set ds. decision_ok sn d"
  shows "\<exists>out ns. suggest_all sw sn ds = Inr (out, ns) \<and> map de_ticket out = map de_ticket ds
    \<and> map de_kind out = map de_kind ds \<and> (\<forall>d \<in> set out. decision_ok sn d)"
  using assms(2)
proof (induction ds)
  case Nil
  then show ?case by simp
next
  case (Cons d ds)
  obtain d' ns where one: "suggest_one sw sn d = Inr (d', ns)" "de_ticket d' = de_ticket d"
    "de_kind d' = de_kind d" "decision_ok sn d'"
    using suggest_one_ok [OF _ assms(1), of d sw] Cons.prems by auto
  obtain out ns' where "suggest_all sw sn ds = Inr (out, ns')" "map de_ticket out = map de_ticket ds"
    "map de_kind out = map de_kind ds" "\<forall>d \<in> set out. decision_ok sn d"
    using Cons by auto
  then show ?case using one by simp
qed

lemma apply_suggestions_ok:
  assumes "distinct (map t_id (sn_tickets sn))"
  shows "\<exists>out ns. apply_suggestions sw s sn (plan sn) = Inr (out, ns)
    \<and> map de_ticket out = map de_ticket (plan sn) \<and> map de_kind out = map de_kind (plan sn)
    \<and> (\<forall>d \<in> set out. decision_ok sn d)"
proof -
  have ok: "\<forall>d \<in> set (plan sn). decision_ok sn d" by (simp add: plan_decision_ok)
  consider "sw_recommender sw = None" | "sw_recommender sw \<noteq> None" "routing_mode sw s \<noteq> DeterministicPlusSuggestions"
    | "sw_recommender sw \<noteq> None" "routing_mode sw s = DeterministicPlusSuggestions" by blast
  then show ?thesis
  proof cases
    case 3
    then show ?thesis using suggest_all_ok [OF assms ok, of sw] by (auto simp: apply_suggestions_def)
  qed (use ok in \<open>simp_all add: apply_suggestions_def\<close>)
qed

text \<open>
  A hostile recommender can move a ticket to another eligible agent and nothing else.
  Whatever it answers or raises, the pass goes on with the same tickets and the same kinds
  of decision, and each assignment still gives an open, unowned, unreserved ticket with
  finished dependencies to a live agent that covers it and is clear of the work in
  progress.
\<close>
theorem suggested_decisions_stay_eligible:
  assumes "distinct (map t_id (sn_tickets sn))"
  shows "\<exists>out ns. apply_suggestions sw s sn (plan sn) = Inr (out, ns)
    \<and> map de_ticket out = map de_ticket (plan sn) \<and> map de_kind out = map de_kind (plan sn)
    \<and> (\<forall>d \<in> set out. de_kind d = ''assigned'' \<longrightarrow>
        (\<exists>t \<in> set (sn_tickets sn). \<exists>aid. t_id t = de_ticket d \<and> de_agent d = Some aid \<and> may_take sn t aid))"
  using apply_suggestions_ok [OF assms, of sw s] unfolding decision_ok_def .

text \<open>Two agents of one slot each, two tickets, and a recommender that always says \<open>a\<close>.\<close>

definition seat :: "string \<Rightarrow> agent_row" where
  "seat aid = \<lparr>ag_id = aid, ag_project = ''p'', ag_name = aid, ag_role = None, ag_capabilities = [], ag_state = Idle,
     ag_mode = ''managed'', ag_runtime = JObj [], ag_max_active = 1, ag_current_ticket = None, ag_worktree = None,
     ag_hook_health = JObj [], ag_last_heartbeat_at = None, ag_last_progress_at = None, ag_version = 1,
     ag_created_at = 2\<rparr>"

definition open_ticket :: "string \<Rightarrow> int \<Rightarrow> ticket_row" where
  "open_ticket tid n = \<lparr>t_id = tid, t_project = ''p'', t_title = tid, t_outcome = None, t_acceptance = [],
     t_state = Open, t_version = 1, t_role = None, t_owner = None, t_owner_session = None, t_blocked_reason = None,
     t_files = [], t_worktree = None, t_evidence = None, t_next_step = None, t_handoff = None, t_created_at = n,
     t_updated_at = n, t_claimed_at = None, t_last_progress_at = None\<rparr>"

definition live_session :: "string \<Rightarrow> string \<Rightarrow> session_row" where
  "live_session sid aid = \<lparr>se_id = sid, se_agent = aid, se_acquired_at = 4, se_expires_at = 1000, se_version = 1,
     se_revoked_at = None, se_note = None\<rparr>"

definition led :: "routing \<Rightarrow> db" where
  "led mode = empty_db\<lparr>
     db_projects := [\<lparr>pr_id = ''p'', pr_name = ''demo'', pr_version = 1, pr_created_at = 1, pr_source = ''native'',
       pr_paused = False\<rparr>],
     db_agents := [seat ''a'', seat ''b''], db_sessions := [live_session ''s1'' ''a'', live_session ''s2'' ''b''],
     db_tickets := [open_ticket ''DM-1'' 6, open_ticket ''DM-2'' 7],
     db_leases := [\<lparr>ml_project = ''p'', ml_holder = Some (JStr ''m''), ml_epoch = 1, ml_acquired_at = 8,
       ml_expires_at = 500, ml_routing = mode, ml_paused = False, ml_last_sweep_at = None,
       ml_next_sweep_at = Some 20, ml_interval = 30\<rparr>]\<rparr>"

definition always_a :: sweeper where
  "always_a = \<lparr>sw_project = ''p'', sw_actor = JStr ''m'', sw_epoch = 1,
     sw_recommender = Some (\<lambda>t ids. Inr (JArr [JStr ''a''])), sw_ttl = 600\<rparr>"

definition two_seat_plan :: snapshot where
  "two_seat_plan = take_snapshot (demo_env 60) (led Deterministic) ''p''"

definition routed_to :: "error + route_decision list \<times> sweep_note list \<Rightarrow> (string \<times> string option) list" where
  "routed_to r = (case r of Inl _ \<Rightarrow> [] | Inr (ds, _) \<Rightarrow> map (\<lambda>d. (de_ticket d, de_agent d)) ds)"

theorem suggested_decisions_stay_eligible_witness:
  "\<exists>out ns. apply_suggestions always_a (led DeterministicPlusSuggestions) two_seat_plan (plan two_seat_plan) = Inr (out, ns)
     \<and> map de_ticket out = [''DM-1'', ''DM-2'']"
proof -
  have "map t_id (sn_tickets two_seat_plan) = [''DM-1'', ''DM-2'']" by code_simp
  then have d: "distinct (map t_id (sn_tickets two_seat_plan))" by simp
  have "map de_ticket (plan two_seat_plan) = [''DM-1'', ''DM-2'']" by code_simp
  with suggested_decisions_stay_eligible [OF d, of always_a "led DeterministicPlusSuggestions"]
  show ?thesis by auto
qed

text \<open>
  Taken one by one the changed decisions pass every gate, but not together: each is
  judged against the board alone, without what the pass has already handed out. With two
  agents of one slot the plan gives each a ticket; a recommender that always names the
  first agent gets both tickets reserved for it, over its limit.
\<close>
theorem suggestions_can_overbook:
  "routed_to (Inr (plan two_seat_plan, [])) = [(''DM-1'', Some ''a''), (''DM-2'', Some ''b'')]
   \<and> routed_to (apply_suggestions always_a (led DeterministicPlusSuggestions) two_seat_plan (plan two_seat_plan))
      = [(''DM-1'', Some ''a''), (''DM-2'', Some ''a'')]
   \<and> agent_limit two_seat_plan ''a'' = 1"
  by (intro conjI; code_simp)

section \<open>What a pass writes\<close>

text \<open>
  A part of the database is \<open>routing_blind\<close> when no table that routing writes is in it:
  reservations, leases, decisions and the audit trail.
\<close>

locale routing_blind =
  fixes g :: "db \<Rightarrow> 'a"
  assumes blind [simp]:
    "g (s\<lparr>db_assignments := a\<rparr>) = g s" "g (s\<lparr>db_leases := b\<rparr>) = g s"
    "g (s\<lparr>db_decisions := c\<rparr>) = g s" "g (s\<lparr>db_audits := d\<rparr>) = g s"
begin

lemma audit_keeps: "audit e k p actor action st sid rq summary s = Inr s' \<Longrightarrow> g s' = g s"
  by (drule audit_effect) auto

lemma expire_loop_keeps: "expire_loop e p a i rs s = Inr s' \<Longrightarrow> g s' = g s"
  by (induction rs arbitrary: i s) (fastforce simp: result_simps dest: audit_keeps)+

lemma fenced_keeps:
  "create_assignment e p a tid aid why n v ttl None s = Inr (s', r) \<Longrightarrow> g s' = g s"
  "sweep_log e p n tid kind why ag s = Inr (s', r) \<Longrightarrow> g s' = g s"
  "expire_reservations e p a n s = Inr (s', k) \<Longrightarrow> g s' = g s"
  "checkpoint e p n s = Inr (s', r) \<Longrightarrow> g s' = g s"
     apply (auto simp: create_assignment_def idem_def replay_def remember_def create_assignment_act_def
        result_simps Let_def dest!: audit_keeps split: if_splits option.splits)[1]
    apply (auto simp: sweep_log_def split: if_splits)[1]
   apply (auto simp: expire_reservations_def result_simps Let_def dest!: expire_loop_keeps split: if_splits)[1]
  apply (auto simp: checkpoint_def Let_def split: if_splits option.splits)
  done

lemma transact_keeps:
  assumes "\<And>i s. g (st_others st i s) = g s" and "\<And>e s s' r. body e s = Inr (s', r) \<Longrightarrow> g s' = g s"
  shows "g (snd (snd (transact st body w))) = g (snd w)"
  using assms by (cases w) (auto simp: transact_def turn_def write_txn_def Let_def split: sum.splits)

lemma turn_keeps: "(\<And>i s. g (st_others st i s) = g s) \<Longrightarrow> g (snd (turn st w)) = g (snd w)"
  by (cases w) (simp add: turn_def)

lemma logged_keeps:
  "(\<And>i s. g (st_others st i s) = g s) \<Longrightarrow> g (snd (snd (log_decision st sw tid kind why ag w))) = g (snd w)"
  unfolding log_decision_def by (rule transact_keeps) (auto dest: fenced_keeps)

lemma commit_keeps:
  assumes "\<And>i s. g (st_others st i s) = g s"
  shows "g (snd (snd (commit_decision st sw sn d w))) = g (snd w)"
proof -
  have "g (snd (snd (transact st (\<lambda>e. create_assignment e p a tid aid why n v ttl None) w))) = g (snd w)"
    for p a tid aid why n v ttl
    using assms by (rule transact_keeps) (auto dest: fenced_keeps)
  then show ?thesis using logged_keeps [OF assms]
    by (simp add: commit_decision_def split: option.splits)
qed

lemma commit_all_keeps:
  assumes "\<And>i s. g (st_others st i s) = g s"
  shows "g (snd (snd (commit_all st sw sn ds recd ns w))) = g (snd w)"
proof (induction ds arbitrary: recd ns w)
  case Nil
  then show ?case by simp
next
  case (Cons d ds)
  obtain x w1 where x: "commit_decision st sw sn d w = (x, w1)" by (rule prod.exhaust)
  then have w1: "g (snd w1) = g (snd w)" using commit_keeps [OF assms, where w = w] by (metis snd_conv)
  show ?case
  proof (cases x)
    case (Inr r)
    then show ?thesis using x w1 Cons.IH by simp
  next
    case (Inl y)
    show ?thesis
    proof (cases "is_lease_expired y \<or> moved_name y = None")
      case True
      then show ?thesis using x w1 Inl by auto
    next
      case False
      then obtain cls where cls: "moved_name y = Some cls" by auto
      let ?log = "log_decision st sw (de_ticket d) ''skipped'' (changed_reason cls) None w1"
      obtain z w2 where z: "?log = (z, w2)" by (rule prod.exhaust)
      then have "g (snd w2) = g (snd w1)" using logged_keeps [OF assms, where w = w1] by (metis snd_conv)
      then show ?thesis using x w1 Inl False cls z Cons.IH by (cases z) auto
    qed
  qed
qed

lemma run_once_keeps:
  assumes "\<And>i s. g (st_others st i s) = g s"
  shows "g (snd (snd (run_once st sw force w))) = g (snd w)"
proof -
  note t = turn_keeps [OF assms]
  have cp: "g (snd (snd (transact st (\<lambda>e. checkpoint e p n) w))) = g (snd w)" for p n w
    using assms by (rule transact_keeps) (auto dest: fenced_keeps)
  have ex: "g (snd (snd (transact st (\<lambda>e. expire_reservations e p a n) w))) = g (snd w)" for p a n w
    using assms by (rule transact_keeps) (auto dest: fenced_keeps)
  have route: "g (snd (snd (route_all st sw k w))) = g (snd w)" for k w
  proof -
    have all: "commit_all st sw sn ds [] ns w2 = (l, w3) \<Longrightarrow> g (snd w3) = g (snd w2)" for sn ds ns w2 l w3
      using commit_all_keeps [OF assms, of sw sn ds "[]" ns w2] by simp
    have cp': "transact st (\<lambda>e. checkpoint e p n) w = (x, w4) \<Longrightarrow> g (snd w4) = g (snd w)" for p n w x w4
      using cp [of p n w] by simp
    show ?thesis
      by (auto simp: route_all_def Let_def t dest!: all cp' split: sum.splits prod.splits loop_end.splits)
  qed
  have er: "g (snd (snd (expire_and_route st sw w))) = g (snd w)" for w
    using ex [of "sw_project sw" "sw_actor sw" "sw_epoch sw" w] route
    by (auto simp: expire_and_route_def split: sum.splits prod.splits)
  show ?thesis by (simp add: run_once_def Let_def t er)
qed

end

text \<open>The board's work: everything but what routing writes.\<close>

definition work :: "db \<Rightarrow> project_row list \<times> agent_row list \<times> session_row list \<times> ticket_row list
    \<times> dep_row list \<times> update_row list \<times> review_row list \<times> runner_row list \<times> msg_tables" where
  "work s = (db_projects s, db_agents s, db_sessions s, db_tickets s, db_deps s, db_updates s,
     db_reviews s, db_runners s, db_msg s)"

interpretation working: routing_blind work by unfold_locales (simp_all add: work_def)

text \<open>
  The loop routes and does nothing else: whatever it decides, and whatever other writers
  do meanwhile, as long as they leave the board's work alone (tickets, dependencies,
  reviews, agents, sessions, messages and runs) a pass leaves it alone too. It merges,
  claims, moves and reassigns nothing.
\<close>
theorem pass_leaves_the_work_alone:
  assumes "\<And>i s. work (st_others st i s) = work s"
  shows "work (snd (snd (run_once st sw force w))) = work (snd w)"
  by (rule working.run_once_keeps [OF assms])

section \<open>An undisturbed pass\<close>

definition quiet :: "setting \<Rightarrow> bool" where
  "quiet st \<longleftrightarrow> (\<forall>i s. st_others st i s = s)"

lemma quiet_turn [simp]: "quiet st \<Longrightarrow> turn st (i, s) = (Suc i, s)"
  by (simp add: quiet_def turn_def)

definition decision_view :: "decision_row \<Rightarrow> string \<times> string \<times> string \<times> string \<times> string option" where
  "decision_view r = (dc_project r, dc_ticket r, dc_decision r, dc_reason r, dc_agent r)"

definition reservation_view :: "assignment_row \<Rightarrow> string \<times> string \<times> string \<times> asg_state \<times> int" where
  "reservation_view r = (as_project r, as_ticket r, as_agent r, as_state r, as_epoch r)"

text \<open>From \<open>s\<close> to \<open>s'\<close> the decisions \<open>ds\<close> were recorded, with a reservation for each that assigns.\<close>

definition records :: "sweeper \<Rightarrow> route_decision list \<Rightarrow> db \<Rightarrow> db \<Rightarrow> bool" where
  "records sw ds s s' \<longleftrightarrow>
     map decision_view (db_decisions s') = map decision_view (db_decisions s)
       @ map (\<lambda>d. (sw_project sw, de_ticket d, de_kind d, de_reason d, de_agent d)) ds
     \<and> map reservation_view (db_assignments s') = map reservation_view (db_assignments s)
       @ map (\<lambda>d. (sw_project sw, de_ticket d, the (de_agent d), Queued, sw_epoch sw))
           (filter (\<lambda>d. de_kind d = ''assigned'') ds)"

lemma records_Nil [simp]: "records sw [] s s' \<longleftrightarrow>
    map decision_view (db_decisions s') = map decision_view (db_decisions s)
    \<and> map reservation_view (db_assignments s') = map reservation_view (db_assignments s)"
  by (simp add: records_def)

lemma records_trans: "records sw ds s s1 \<Longrightarrow> records sw ds' s1 s2 \<Longrightarrow> records sw (ds @ ds') s s2"
  by (simp add: records_def)

text \<open>The board a snapshot was taken of, as far as the commits look at it.\<close>

definition routes_for :: "sweeper \<Rightarrow> snapshot \<Rightarrow> db \<Rightarrow> bool" where
  "routes_for sw sn s \<longleftrightarrow> distinct (map t_key (db_tickets s))
     \<and> (\<forall>t \<in> set (sn_tickets sn). t \<in> set (db_tickets s) \<and> t_project t = sw_project sw)
     \<and> (\<forall>a \<in> set (sn_agents sn). a \<in> set (db_agents s) \<and> ag_project a = sw_project sw)"

lemma routes_for_work: "work s' = work s \<Longrightarrow> routes_for sw sn s' = routes_for sw sn s"
  by (simp add: routes_for_def work_def)

lemma routes_for_find:
  assumes "routes_for sw sn s" and "by_id sn tid = Some t"
  shows "find_ticket s (sw_project sw) tid = Some t"
proof -
  have t: "t \<in> set (sn_tickets sn)" "t_id t = tid" using assms(2) by (auto simp: by_id_def dest: find_SomeD)
  then have "t \<in> set (db_tickets s)" "t_project t = sw_project sw" using assms(1) by (auto simp: routes_for_def)
  moreover have "distinct (map t_key (db_tickets s))" using assms(1) by (simp add: routes_for_def)
  ultimately have "List.find (\<lambda>r. t_key r = t_key t) (db_tickets s) = Some t"
    by (intro find_unique)
  then show ?thesis using t(2) \<open>t_project t = sw_project sw\<close> by (simp add: find_ticket_def t_key_def)
qed

lemma commit_records:
  assumes q: "quiet st" and "commit_decision st sw sn d (i, s) = (Inr r, (j, s'))"
    and "decision_ok sn d"
  shows "records sw [d] s s'"
proof (cases "de_kind d = ''assigned''")
  case False
  then show ?thesis using assms(1,2)
    by (auto simp: commit_decision_def log_decision_def transact_def write_txn_def sweep_log_def records_def
        decision_of_def decision_view_def split: sum.splits if_splits)
next
  case True
  then obtain aid where "de_agent d = Some aid" using assms(3) by (auto simp: decision_ok_def)
  then show ?thesis using assms(1,2) True
    by (auto simp: commit_decision_def transact_def write_txn_def create_assignment_def idem_def replay_def
        remember_def create_assignment_act_def result_simps Let_def records_def decision_of_def
        decision_view_def reservation_view_def new_assignment_def
        dest!: audit_effect split: sum.splits if_splits option.splits)
qed

lemma commit_not_moved:
  assumes q: "quiet st" and f: "routes_for sw sn s" and ok: "decision_ok sn d"
    and "commit_decision st sw sn d (i, s) = (Inl x, w1)"
  shows "moved_name x = None"
proof (cases "de_kind d = ''assigned''")
  case False
  then show ?thesis using assms(1,4)
    by (auto simp: commit_decision_def log_decision_def transact_def write_txn_def sweep_log_def
        split: sum.splits if_splits)
next
  case True
  then obtain t aid where t: "t \<in> set (sn_tickets sn)" "de_agent d = Some aid" "may_take sn t aid"
    using ok by (auto simp: decision_ok_def)
  then obtain a where "a \<in> set (sn_agents sn)" "ag_id a = aid" by (auto simp: may_take_def)
  then have ag: "list_ex (\<lambda>a. ag_id a = aid \<and> ag_project a = sw_project sw) (db_agents s)"
    using f by (auto simp: routes_for_def list_ex_iff)
  show ?thesis
  proof (cases "by_id sn (de_ticket d)")
    case None
    then show ?thesis using assms(4) True by (auto simp: commit_decision_def)
  next
    case (Some u)
    note find = routes_for_find [OF f this]
    show ?thesis using assms(1,4) True Some find ag t(2)
      by (auto simp: commit_decision_def transact_def write_txn_def create_assignment_def idem_def replay_def
          remember_def create_assignment_act_def result_simps Let_def insert_row_def
          dest: audit_fails split: sum.splits if_splits)
  qed
qed

lemma quiet_work:
  assumes "quiet st"
  shows "work (snd (snd (commit_decision st sw sn d w))) = work (snd w)"
  using assms by (intro working.commit_keeps) (simp add: quiet_def)

lemma commit_all_records:
  assumes q: "quiet st"
  shows "routes_for sw sn s \<Longrightarrow> \<forall>d \<in> set ds. decision_ok sn d \<Longrightarrow>
    commit_all st sw sn ds recd ns (i, s) = (LoopDone recd' ns', (j, s')) \<Longrightarrow>
    recd' = recd @ ds \<and> ns' = ns \<and> records sw ds s s'"
proof (induction ds arbitrary: recd ns i s)
  case Nil
  then show ?case by simp
next
  case (Cons d ds)
  obtain x k s1 where x: "commit_decision st sw sn d (i, s) = (x, (k, s1))" by (metis prod.exhaust)
  have ok: "decision_ok sn d" using Cons.prems(2) by simp
  show ?case
  proof (cases x)
    case (Inl y)
    then have "moved_name y = None" using commit_not_moved [OF q Cons.prems(1) ok] x by simp
    then show ?thesis using Cons.prems(3) x Inl by (simp split: if_splits)
  next
    case (Inr r)
    then have rec: "records sw [d] s s1" using commit_records [OF q _ ok] x by simp
    have "work s1 = work s" using quiet_work [OF q, of sw sn d "(i, s)"] x by simp
    then have "routes_for sw sn s1" using Cons.prems(1) routes_for_work by blast
    moreover have "commit_all st sw sn ds (recd @ [d]) ns (k, s1) = (LoopDone recd' ns', (j, s'))"
      using Cons.prems(3) x Inr by simp
    ultimately have "recd' = (recd @ [d]) @ ds \<and> ns' = ns \<and> records sw ds s1 s'"
      using Cons.prems(2) by (intro Cons.IH) simp_all
    then show ?thesis using records_trans [OF rec, of ds s'] by simp
  qed
qed

lemma take_snapshot_routes:
  assumes "distinct (map t_key (db_tickets s))"
  shows "routes_for sw (take_snapshot e s (sw_project sw)) s"
    and "distinct (map t_id (sn_tickets (take_snapshot e s (sw_project sw))))"
proof -
  let ?ts = "filter (\<lambda>t. t_project t = sw_project sw) (db_tickets s)"
  show "routes_for sw (take_snapshot e s (sw_project sw)) s"
    using assms by (auto simp: routes_for_def take_snapshot_def Let_def)
  have "distinct ?ts" using assms by (simp add: distinct_map)
  moreover have "inj_on t_id (set ?ts)"
    using assms by (auto simp: distinct_map inj_on_def t_key_def)
  ultimately show "distinct (map t_id (sn_tickets (take_snapshot e s (sw_project sw))))"
    by (simp add: take_snapshot_def Let_def distinct_map)
qed

lemma checkpoint_records: "checkpoint e p n s = Inr (s', r) \<Longrightarrow> db_decisions s' = db_decisions s \<and> db_assignments s' = db_assignments s"
  by (auto simp: checkpoint_def Let_def split: if_splits option.splits)

lemma plan_tickets: "map de_ticket (plan sn) = map t_id (filter (\<lambda>t. t_state t = Open) (sn_tickets sn))"
  by (simp add: plan_def routable_tickets_def fold_plan_decides plan_start_def)

definition routed_by :: "setting \<Rightarrow> sweeper \<Rightarrow> nat \<Rightarrow> sweep_result \<Rightarrow> db \<Rightarrow> db \<Rightarrow> bool" where
  "routed_by st sw m r s s' \<longleftrightarrow>
     (let sn = take_snapshot (st_env st m) s (sw_project sw) in
      apply_suggestions sw s sn (plan sn) = Inr (sr_decisions r, sr_notes r)
      \<and> map de_ticket (sr_decisions r) = map t_id (filter (\<lambda>t. t_state t = Open) (sn_tickets sn))
      \<and> records sw (sr_decisions r) s s')"

lemma route_all_records:
  assumes q: "quiet st" and u: "distinct (map t_key (db_tickets s))"
    and run: "route_all st sw k (i, s) = (Inr r, (j, s'))" and sw: "sr_status r = Swept"
  shows "sr_expired r = k \<and> (\<exists>m. routed_by st sw m r s s')"
proof -
  let ?sn = "take_snapshot (st_env st (Suc i)) s (sw_project sw)"
  note ok = apply_suggestions_ok [OF take_snapshot_routes(2) [OF u], of sw s "st_env st (Suc i)" sw]
  then obtain out ns where out: "apply_suggestions sw s ?sn (plan ?sn) = Inr (out, ns)"
    "map de_ticket out = map de_ticket (plan ?sn)" "\<forall>d \<in> set out. decision_ok ?sn d" by blast
  let ?i = "if sw_recommender sw = None then Suc i else Suc (Suc i)"
  obtain l i3 s3 where l: "commit_all st sw ?sn out [] ns (?i, s) = (l, (i3, s3))" by (metis prod.exhaust)
  have run': "(case l of
      LoopRaised x \<Rightarrow> (Inl x, (i3, s3))
    | LoopSuperseded recd ns' \<Rightarrow> (Inr \<lparr>sr_status = SweepSuperseded, sr_decisions = recd, sr_expired = k,
          sr_notes = ns', sr_epoch = sw_epoch sw\<rparr>, (i3, s3))
    | LoopDone recd ns' \<Rightarrow>
        (case transact st (\<lambda>e. checkpoint e (sw_project sw) (sw_epoch sw)) (i3, s3) of
           (Inl x, w4) \<Rightarrow> (Inl x, w4)
         | (Inr _, w4) \<Rightarrow> (Inr \<lparr>sr_status = Swept, sr_decisions = recd, sr_expired = k, sr_notes = ns',
             sr_epoch = sw_epoch sw\<rparr>, w4))) = (Inr r, (j, s'))"
    using run q out(1) l by (simp add: route_all_def Let_def world_env_def split: if_splits)
  obtain recd ns' where d: "l = LoopDone recd ns'"
    using run' sw by (cases l) auto
  have r: "r = \<lparr>sr_status = Swept, sr_decisions = recd, sr_expired = k, sr_notes = ns', sr_epoch = sw_epoch sw\<rparr>"
    and cp: "\<exists>resp. checkpoint (st_env st (Suc i3)) (sw_project sw) (sw_epoch sw) s3 = Inr (s', resp)"
    using run' d q by (auto simp: transact_def write_txn_def split: sum.splits)
  have all: "recd = out \<and> ns' = ns \<and> records sw out s s3"
    using commit_all_records [OF q take_snapshot_routes(1) [OF u] out(3) l [unfolded d]] by simp
  have "records sw out s s'" using cp all checkpoint_records by (fastforce simp: records_def)
  then have "routed_by st sw (Suc i) r s s'"
    using r all out(1,2) plan_tickets [of ?sn] by (simp add: routed_by_def Let_def)
  then show ?thesis using r by auto
qed

lemma expire_and_route_records:
  assumes q: "quiet st" and u: "distinct (map t_key (db_tickets s))"
    and run: "expire_and_route st sw (i, s) = (Inr r, (j, s'))" and sw: "sr_status r = Swept"
  shows "\<exists>k m s1. expire_reservations (st_env st k) (sw_project sw) (sw_actor sw) (sw_epoch sw) s = Inr (s1, sr_expired r)
    \<and> routed_by st sw m r s1 s'"
proof -
  let ?ex = "expire_reservations (st_env st (Suc i)) (sw_project sw) (sw_actor sw) (sw_epoch sw) s"
  obtain n s1 where ex: "?ex = Inr (s1, n)" and route: "route_all st sw n (Suc i, s1) = (Inr r, (j, s'))"
    using run q sw
    by (auto simp: expire_and_route_def transact_def write_txn_def bare_result_def split: sum.splits if_splits)
  have "db_tickets s1 = db_tickets s" using working.fenced_keeps(3) [OF ex] by (simp add: work_def)
  then have "sr_expired r = n \<and> (\<exists>m. routed_by st sw m r s1 s')"
    using route_all_records [OF q _ route sw] u by simp
  then show ?thesis using ex by blast
qed

text \<open>
  C35: An undisturbed pass does what it planned. A pass that ends as swept expired the
  elapsed reservations and decided every open ticket of the board it then saw, oldest
  first; it appended exactly one decision row for each, saying what was decided and why,
  and one queued reservation under its own epoch for each ticket it assigned.
\<close>
theorem sweep_records_the_plan:
  assumes "quiet st" and "distinct (map t_key (db_tickets s))"
    and "run_once st sw force (i, s) = (Inr r, (j, s'))" and "sr_status r = Swept"
  shows "\<exists>k m s1. expire_reservations (st_env st k) (sw_project sw) (sw_actor sw) (sw_epoch sw) s = Inr (s1, sr_expired r)
    \<and> routed_by st sw m r s1 s'"
proof -
  have "\<exists>i. expire_and_route st sw (i, s) = (Inr r, (j, s'))"
    using assms(1,3,4) by (auto simp: run_once_def Let_def bare_result_def split: if_splits)
  then show ?thesis using expire_and_route_records [OF assms(1,2) _ assms(4)] by blast
qed

text \<open>A sweeper without a recommender, and the settings the witnesses run in.\<close>

definition plain :: sweeper where
  "plain = \<lparr>sw_project = ''p'', sw_actor = JStr ''m'', sw_epoch = 1, sw_recommender = None, sw_ttl = 600\<rparr>"

definition alone :: setting where
  "alone = \<lparr>st_env = (\<lambda>i. demo_env (60 + int i)), st_others = (\<lambda>i s. s)\<rparr>"

text \<open>Before access \<open>k\<close> another master takes the lease.\<close>

definition taken_at :: "nat \<Rightarrow> setting" where
  "taken_at k = \<lparr>st_env = (\<lambda>i. demo_env (60 + int i)),
     st_others = (\<lambda>i s. if i = k then snd (mexec (demo_env 99) (MTake ''p'' (JStr ''m2'') 1 120 None) s) else s)\<rparr>"

definition pass_view :: "(error + sweep_result) \<times> world \<Rightarrow> error + sweep_status \<times> (string \<times> string option) list" where
  "pass_view out = (case fst out of Inl x \<Rightarrow> Inl x
     | Inr r \<Rightarrow> Inr (sr_status r, map (\<lambda>d. (de_ticket d, de_agent d)) (sr_decisions r)))"

theorem sweep_records_the_plan_witness:
  "\<exists>r s' m s1. sr_status r = Swept \<and> map de_ticket (sr_decisions r) = [''DM-1'', ''DM-2'']
     \<and> routed_by alone plain m r s1 s'"
proof -
  let ?out = "run_once alone plain True (0, led Deterministic)"
  have v: "pass_view ?out = Inr (Swept, [(''DM-1'', Some ''a''), (''DM-2'', Some ''b'')])" by code_simp
  obtain x j s' where out: "?out = (x, (j, s'))" by (metis prod.exhaust)
  then obtain r where r: "x = Inr r" "sr_status r = Swept"
    "map (\<lambda>d. (de_ticket d, de_agent d)) (sr_decisions r) = [(''DM-1'', Some ''a''), (''DM-2'', Some ''b'')]"
    using v by (cases x) (auto simp: pass_view_def)
  have t: "map de_ticket (sr_decisions r) = [''DM-1'', ''DM-2'']"
    using arg_cong [OF r(3), of "map fst"] by (simp add: o_def)
  have "map t_key (db_tickets (led Deterministic)) = [(''p'', ''DM-1''), (''p'', ''DM-2'')]" by code_simp
  then have d: "distinct (map t_key (db_tickets (led Deterministic)))" by simp
  have q: "quiet alone" by (simp add: quiet_def alone_def)
  obtain m s1 where "routed_by alone plain m r s1 s'"
    using sweep_records_the_plan [OF q d out [unfolded r(1)] r(2)] by blast
  with r(2) t show ?thesis by (intro exI conjI)
qed

lemma take_lease_keeps_work: "work (snd (mexec e (MTake p h n ttl None) s)) = work s"
proof (cases "take_lease e p h n ttl None s")
  case (Inl x)
  then show ?thesis by (simp add: mexec_def write_txn_def)
next
  case (Inr y)
  then show ?thesis
    by (cases y) (auto simp: mexec_def write_txn_def take_lease_def idem_def replay_def remember_def take_lease_act_def
        Let_def result_simps dest!: working.audit_keeps split: option.splits if_splits)
qed

theorem pass_leaves_the_work_alone_witness:
  "work (snd (snd (run_once (taken_at 6) always_a True (0, led DeterministicPlusSuggestions))))
     = work (led DeterministicPlusSuggestions)"
  by (subst pass_leaves_the_work_alone) (simp_all add: taken_at_def take_lease_keeps_work)

section \<open>A pass that lost its lease\<close>

text \<open>
  A pass whose lease was taken over writes nothing more. At its start it ends as
  superseded; between two decisions it stops before the next and reports what it had
  recorded; at its checkpoint, which no handler guards, the exception leaves the pass, and
  what the pass recorded is not reported.
\<close>
theorem superseded_pass_stops:
  assumes "current_epoch (st_others st i s) (sw_project sw) \<noteq> sw_epoch sw"
  shows "run_once st sw force (i, s) = (Inr (bare_result SweepSuperseded sw), (Suc i, st_others st i s))
    \<and> expire_and_route st sw (i, s) = (Inr (bare_result SweepSuperseded sw), (Suc i, st_others st i s))
    \<and> (de_kind d = ''skipped'' \<or> by_id sn (de_ticket d) = Some t \<longrightarrow>
        commit_all st sw sn (d # ds) recd ns (i, s) = (LoopSuperseded recd ns, (Suc i, st_others st i s)))
    \<and> transact st (\<lambda>e. checkpoint e (sw_project sw) (sw_epoch sw)) (i, s)
       = (Inl (MasterLeaseExpired (sw_epoch sw) (current_epoch (st_others st i s) (sw_project sw))),
          (Suc i, st_others st i s))"
  using assms
  by (auto simp: run_once_def turn_def is_current_def Let_def expire_and_route_def transact_def write_txn_def
      expire_reservations_def checkpoint_def commit_decision_def log_decision_def sweep_log_def
      create_assignment_def idem_def replay_def create_assignment_act_def)

theorem superseded_pass_stops_witness:
  "fst (transact (taken_at 6) (\<lambda>e. checkpoint e ''p'' 1) (6, led Deterministic)) = Inl (MasterLeaseExpired 1 2)
   \<and> pass_view (run_once (taken_at 6) plain True (0, led Deterministic)) = Inl (MasterLeaseExpired 1 2)
   \<and> pass_view (run_once (taken_at 5) plain True (0, led Deterministic))
      = Inr (SweepSuperseded, [(''DM-1'', Some ''a'')])"
proof -
  have e: "current_epoch (st_others (taken_at 6) 6 (led Deterministic)) ''p'' = 2" by code_simp
  have p: "sw_project plain = ''p''" "sw_epoch plain = 1" by (simp_all add: plain_def)
  have "fst (transact (taken_at 6) (\<lambda>e. checkpoint e ''p'' 1) (6, led Deterministic)) = Inl (MasterLeaseExpired 1 2)"
    using superseded_pass_stops [of "taken_at 6" 6 "led Deterministic" plain] by (simp add: p e)
  moreover have "pass_view (run_once (taken_at 6) plain True (0, led Deterministic)) = Inl (MasterLeaseExpired 1 2)"
    by code_simp
  moreover have "pass_view (run_once (taken_at 5) plain True (0, led Deterministic))
      = Inr (SweepSuperseded, [(''DM-1'', Some ''a'')])" by code_simp
  ultimately show ?thesis by blast
qed

end
