(* ===== verification/Py_Number.thy ===== *)
theory Py_Number
  imports Atman_Errors
begin

text \<open>
  Python's \<open>int(text)\<close> and \<open>int(value)\<close>: an optional sign and groups of digits that
  single underscores may separate, spaces around them ignored; a value of another type has
  no integer. Digits are the ASCII ones.
\<close>

definition digits_value :: "string \<Rightarrow> int" where
  "digits_value ds = foldl (\<lambda>n c. 10 * n + (int (of_char c) - 48)) 0 ds"

definition unsigned_int :: "string \<Rightarrow> error + int" where
  "unsigned_int s =
     (let ps = py_split (CHR ''_'') s in
      if list_all (\<lambda>p. p \<noteq> [] \<and> list_all is_digit p) ps then Inr (digits_value (concat ps)) else Inl ValueError)"

text \<open>\<open>int(text)\<close>.\<close>

definition py_int :: "string \<Rightarrow> error + int" where
  "py_int s =
     (case py_strip s of
        [] \<Rightarrow> Inl ValueError
      | c # r \<Rightarrow>
          if c = CHR ''-'' then bindE (unsigned_int r) (\<lambda>n. Inr (- n))
          else if c = CHR ''+'' then unsigned_int r
          else unsigned_int (c # r))"

text \<open>\<open>int(value)\<close> of a loaded JSON value.\<close>

fun py_int_of :: "json \<Rightarrow> error + int" where
  "py_int_of (JInt i) = Inr i"
| "py_int_of (JBool b) = Inr (if b then 1 else 0)"
| "py_int_of (JStr s) = py_int s"
| "py_int_of _ = Inl AttributeError"

end
