(* ===== verification/Seat_Schedule.thy ===== *)
theory Seat_Schedule
  imports Worktrees Py_Number
begin

text \<open>
  \<open>seat_schedule.py\<close>: the recurring wake of a seat, and the \<open>--due\<close> pass of \<open>cmd_schedule\<close>
  in \<open>tickets.py\<close> that crontab runs every minute. Moments are seconds since the epoch in UTC,
  as \<open>now()\<close> writes them; the fields of one are computed with the Gregorian calendar of
  \<open>datetime\<close>. The board file is its loaded form, a list of seats with their entries. The
  crontab is its text; the digest of the board's path is a parameter. Line boundaries and
  spaces are the ASCII ones.
\<close>

section \<open>The calendar\<close>

text \<open>Day of the month and month of a day counted from 1970-01-01, and its weekday (Monday 0).\<close>

definition civil :: "int \<Rightarrow> int \<times> int" where
  "civil z =
     (let doe = (z + 719468) mod 146097;
          yoe = (doe - doe div 1460 + doe div 36524 - doe div 146096) div 365;
          doy = doe - (365 * yoe + yoe div 4 - yoe div 100);
          mp = (5 * doy + 2) div 153
      in (doy - (153 * mp + 2) div 5 + 1, if mp < 10 then mp + 3 else mp - 9))"

definition minute_of :: "int \<Rightarrow> int" where "minute_of t = t div 60 mod 60"
definition hour_of :: "int \<Rightarrow> int" where "hour_of t = t div 3600 mod 24"
definition day_of :: "int \<Rightarrow> int" where "day_of t = fst (civil (t div 86400))"
definition month_of :: "int \<Rightarrow> int" where "month_of t = snd (civil (t div 86400))"
definition weekday_of :: "int \<Rightarrow> int" where "weekday_of t = (t div 86400 + 3) mod 7"

lemma civil_examples:
  "civil 0 = (1, 1)" "civil 58 = (28, 2)" "civil 59 = (1, 3)" "civil 11016 = (29, 2)"
  "civil 11017 = (1, 3)" "civil 20088 = (31, 12)" "civil 20089 = (1, 1)" "civil (- 1) = (31, 12)"
  by code_simp+

section \<open>Numbers in a specification\<close>

definition unit_seconds :: "char \<Rightarrow> int option" where
  "unit_seconds c =
     (if c = CHR ''s'' then Some 1 else if c = CHR ''m'' then Some 60
      else if c = CHR ''h'' then Some 3600 else if c = CHR ''d'' then Some 86400 else None)"

text \<open>The pattern: digits, then at most one unit.\<close>

definition parse_every :: "string \<Rightarrow> error + int" where
  "parse_every spec =
     (let raw = py_lower (py_strip spec); ds = takeWhile is_digit raw; rest = dropWhile is_digit raw in
      if raw = [] then Inr 0
      else if ds = [] then Inl ValueError
      else case rest of
        [] \<Rightarrow> Inr (digits_value ds)
      | [c] \<Rightarrow> (case unit_seconds c of None \<Rightarrow> Inl ValueError | Some n \<Rightarrow> Inr (digits_value ds * n))
      | _ \<Rightarrow> Inl ValueError)"

section \<open>Cron expressions\<close>

text \<open>\<open>text.split()\<close>: the words between runs of white space.\<close>

fun py_words :: "string \<Rightarrow> string list" where
  "py_words [] = []"
| "py_words (c # cs) =
     (if is_space c then py_words cs
      else case cs of
        [] \<Rightarrow> [[c]]
      | d # _ \<Rightarrow> (if is_space d then [c] # py_words cs
                 else (case py_words cs of [] \<Rightarrow> [[c]] | w # ws \<Rightarrow> (c # w) # ws)))"

fun cron_parts :: "string list \<Rightarrow> int \<Rightarrow> int \<Rightarrow> int \<Rightarrow> error + bool" where
  "cron_parts [] value lo hi = Inr False"
| "cron_parts (p # ps) value lo hi =
     (let part = py_strip p in
      if part = [] then cron_parts ps value lo hi
      else if take 2 part = ''*/'' then
        bindE (py_int (drop 2 part)) (\<lambda>step.
          if step \<le> 0 then Inr False
          else if (value - lo) mod step = 0 \<and> lo \<le> value \<and> value \<le> hi then Inr True
          else cron_parts ps value lo hi)
      else if CHR ''-'' \<in> set part then
        bindE (py_int (takeWhile (\<lambda>c. c \<noteq> CHR ''-'') part)) (\<lambda>a.
          if \<not> a \<le> value then cron_parts ps value lo hi
          else bindE (py_int (drop 1 (dropWhile (\<lambda>c. c \<noteq> CHR ''-'') part))) (\<lambda>b.
            if value \<le> b then Inr True else cron_parts ps value lo hi))
      else
        bindE (py_int part) (\<lambda>n. if n = value then Inr True else cron_parts ps value lo hi))"

definition cron_field :: "string \<Rightarrow> int \<Rightarrow> int \<Rightarrow> int \<Rightarrow> error + bool" where
  "cron_field field value lo hi =
     (let f = py_strip field in
      if f = ''*'' then Inr True else cron_parts (py_split (CHR '','') f) value lo hi)"

text \<open>\<open>a and b\<close> where \<open>b\<close> may raise.\<close>

definition andE :: "error + bool \<Rightarrow> error + bool \<Rightarrow> error + bool" where
  "andE a b = bindE a (\<lambda>x. if x then b else Inr False)"

definition cron_match :: "string \<Rightarrow> int \<Rightarrow> error + bool" where
  "cron_match expr t =
     (case py_words (py_strip expr) of
        [f0, f1, f2, f3, f4] \<Rightarrow>
          andE (cron_field f0 (minute_of t) 0 59)
            (andE (cron_field f1 (hour_of t) 0 23)
              (andE (cron_field f2 (day_of t) 1 31)
                (andE (cron_field f3 (month_of t) 1 12)
                  (cron_field f4 (weekday_of t mod 7) 0 6))))
      | _ \<Rightarrow> Inl ValueError)"

text \<open>The loop of \<open>cron_next\<close>, one minute at a time.\<close>

function cron_scan :: "string \<Rightarrow> int \<Rightarrow> int \<Rightarrow> error + int" where
  "cron_scan expr cur fin =
     (if cur \<le> fin
      then bindE (cron_match expr cur) (\<lambda>hit. if hit then Inr cur else cron_scan expr (cur + 60) fin)
      else Inl ValueError)"
  by pat_completeness auto

termination
  by (relation "measure (\<lambda>(_, cur, fin). nat (fin + 1 - cur))") auto

declare cron_scan.simps [simp del]

definition cron_next :: "string \<Rightarrow> int \<Rightarrow> error + int" where
  "cron_next expr t = cron_scan expr (t div 60 * 60 + 60) (t + 8 * 86400)"

section \<open>Seats\<close>

record seat_entry =
  sc_enabled :: bool
  sc_every :: int
  sc_cron :: string
  sc_next :: "int option"
  sc_last :: "int option"

type_synonym schedule = "(string \<times> seat_entry) list"

definition bump_next :: "seat_entry \<Rightarrow> int \<Rightarrow> error + int" where
  "bump_next en t =
     (if sc_every en \<noteq> 0 then Inr (t + sc_every en)
      else if py_strip (sc_cron en) \<noteq> [] then cron_next (py_strip (sc_cron en)) t
      else Inr (t + 60))"

definition due_seats :: "schedule \<Rightarrow> int \<Rightarrow> string list" where
  "due_seats seats t =
     map fst (filter (\<lambda>(_, en). sc_enabled en \<and> (case sc_next en of None \<Rightarrow> True | Some n \<Rightarrow> n \<le> t)) seats)"

definition set_entry :: "string \<Rightarrow> seat_entry \<Rightarrow> schedule \<Rightarrow> schedule" where
  "set_entry name en = map (\<lambda>(n, old). (n, if n = name then en else old))"

text \<open>
  The loop of the \<open>--due\<close> pass: the seats that were poked, and the schedule or the exception.
  A seat that has left the workforce is skipped.
\<close>

fun due_loop :: "string set \<Rightarrow> int \<Rightarrow> string list \<Rightarrow> schedule \<Rightarrow> string list \<Rightarrow> (error + schedule) \<times> string list" where
  "due_loop joined t [] seats poked = (Inr seats, poked)"
| "due_loop joined t (name # names) seats poked =
     (if name \<notin> joined then due_loop joined t names seats poked
      else case map_of seats name of
        None \<Rightarrow> (Inl KeyError, poked @ [name])
      | Some en \<Rightarrow>
          (case bump_next en t of
             Inl x \<Rightarrow> (Inl x, poked @ [name])
           | Inr n \<Rightarrow>
               due_loop joined t names
                 (set_entry name (en\<lparr>sc_last := Some t, sc_next := Some n, sc_enabled := True\<rparr>) seats)
                 (poked @ [name])))"

text \<open>The pass: what it did to the file, whom it poked, and the exception it ended with.\<close>

definition due_pass :: "string set \<Rightarrow> int \<Rightarrow> schedule \<Rightarrow> schedule \<times> string list \<times> error option" where
  "due_pass joined t seats =
     (case due_seats seats t of
        [] \<Rightarrow> (seats, [], None)
      | due \<Rightarrow>
          (case due_loop joined t due seats [] of
             (Inl x, poked) \<Rightarrow> (seats, poked, Some x)
           | (Inr seats', poked) \<Rightarrow> (seats', poked, None)))"

section \<open>The crontab\<close>

definition LF :: char where "LF = CHR 0x0A"
definition CR :: char where "CR = CHR 0x0D"

text \<open>\<open>text.splitlines()\<close>.\<close>

definition is_break :: "char \<Rightarrow> bool" where
  "is_break c = (let n = (of_char c :: nat) in (10 \<le> n \<and> n \<le> 13) \<or> (28 \<le> n \<and> n \<le> 30))"

definition after_break :: "char \<Rightarrow> string \<Rightarrow> string" where
  "after_break c cs = (if c = CR \<and> cs \<noteq> [] \<and> hd cs = LF then tl cs else cs)"

lemma length_after_break [termination_simp]: "length (after_break c cs) < Suc (length cs)"
  by (auto simp: after_break_def)

fun splitlines :: "string \<Rightarrow> string list" where
  "splitlines [] = []"
| "splitlines (c # cs) =
     (if is_break c then [] # splitlines (after_break c cs)
      else (case splitlines cs of [] \<Rightarrow> [[c]] | l # ls \<Rightarrow> (c # l) # ls))"

definition rstrip :: "string \<Rightarrow> string" where
  "rstrip s = rev (dropWhile is_space (rev s))"

text \<open>\<open>part in text\<close>.\<close>

fun occurs_in :: "string \<Rightarrow> string \<Rightarrow> bool" where
  "occurs_in p [] = (p = [])"
| "occurs_in p (c # cs) = (take (length p) (c # cs) = p \<or> occurs_in p cs)"

definition abspath :: "string \<Rightarrow> string \<Rightarrow> string" where
  "abspath cwd path =
     normpath (if path \<noteq> [] \<and> hd path = CHR ''/'' then path
               else if cwd \<noteq> [] \<and> last cwd = CHR ''/'' then cwd @ path else cwd @ ''/'' @ path)"

text \<open>What the crontab line is built from: the digest, the directory the command runs in.\<close>

record host =
  h_digest :: "string \<Rightarrow> string"
  h_cwd :: string

definition board_mark :: "host \<Rightarrow> string \<Rightarrow> string" where
  "board_mark h board = ''tickets-schedule-'' @ take 12 (h_digest h (abspath (h_cwd h) board))"

definition quote_char :: "char \<Rightarrow> string" where
  "quote_char c = (if c = CHR 0x27 then [CHR 0x27, CHR 0x22, CHR 0x27, CHR 0x22, CHR 0x27] else [c])"

definition shell_quote :: "string \<Rightarrow> string" where
  "shell_quote s = CHR 0x27 # concat (map quote_char s) @ [CHR 0x27]"

definition env_prefix :: "host \<Rightarrow> string \<Rightarrow> string" where
  "env_prefix h board = ''TICKETS_DIR='' @ shell_quote (abspath (h_cwd h) board) @ '' TICKET_AGENT=schedule''"

definition due_crontab_line :: "host \<Rightarrow> string \<Rightarrow> string \<Rightarrow> string \<Rightarrow> string" where
  "due_crontab_line h board tickets_py python_exe =
     ''* * * * * '' @ env_prefix h board @ '' '' @ shell_quote python_exe @ '' ''
       @ shell_quote (abspath (h_cwd h) tickets_py) @ '' schedule --due''"

text \<open>The loop over the lines: a line with the mark and the line after it are dropped.\<close>

fun kept_lines :: "string \<Rightarrow> bool \<Rightarrow> string list \<Rightarrow> string list" where
  "kept_lines mark skip_next [] = []"
| "kept_lines mark skip_next (l # ls) =
     (if skip_next then kept_lines mark False ls
      else if occurs_in mark l then kept_lines mark True ls
      else l # kept_lines mark False ls)"

fun mark_found :: "string \<Rightarrow> bool \<Rightarrow> string list \<Rightarrow> bool" where
  "mark_found mark skip_next [] = False"
| "mark_found mark skip_next (l # ls) =
     (if skip_next then mark_found mark False ls
      else occurs_in mark l \<or> mark_found mark False ls)"

text \<open>\<open>write_crontab_text\<close> ends the file with a newline.\<close>

definition written :: "string \<Rightarrow> string" where
  "written s = (if s \<noteq> [] \<and> last s \<noteq> LF then s @ [LF] else s)"

definition upsert_crontab :: "host \<Rightarrow> string \<Rightarrow> string \<Rightarrow> string \<Rightarrow> string \<Rightarrow> string" where
  "upsert_crontab h board tickets_py python_exe body =
     (let mark = board_mark h board;
          kept = kept_lines mark False (splitlines body) @ [''# '' @ mark]
                   @ [due_crontab_line h board tickets_py python_exe] in
      written (rstrip (py_join [LF] kept) @ [LF]))"

definition remove_crontab :: "host \<Rightarrow> string \<Rightarrow> string \<Rightarrow> string \<times> bool" where
  "remove_crontab h board body =
     (let mark = board_mark h board; kept = kept_lines mark False (splitlines body) in
      if mark_found mark False (splitlines body)
      then (written (rstrip (py_join [LF] kept) @ (if kept = [] then [] else [LF])), True)
      else (body, False))"

end
