(* ===== verification/Seat_Guarantees.thy ===== *)
theory Seat_Guarantees
  imports Seat_Schedule
begin

text \<open>
  What the seat schedule guarantees: the crontab entry goes in and out without touching the
  other lines, \<open>cron_next\<close> is the first matching minute, and the specifications it reads
  back what it is given. A monthly schedule is accepted and then never advances.
\<close>

section \<open>Lines\<close>

definition plain_line :: "string \<Rightarrow> bool" where
  "plain_line l = list_all (\<lambda>c. \<not> is_break c) l"

lemma plain_line_simps [simp]:
  "plain_line []" "plain_line (c # l) \<longleftrightarrow> \<not> is_break c \<and> plain_line l"
  "plain_line (l @ l') \<longleftrightarrow> plain_line l \<and> plain_line l'"
  by (simp_all add: plain_line_def)

lemma LF_break [simp]: "is_break LF" "LF \<noteq> CR"
  by (simp_all add: LF_def CR_def is_break_def)

lemma splitlines_plain: "l \<in> set (splitlines s) \<Longrightarrow> plain_line l"
  by (induction s arbitrary: l rule: splitlines.induct) (auto split: if_splits list.splits)

lemma splitlines_line: "plain_line l \<Longrightarrow> splitlines (l @ LF # s) = l # splitlines s"
  by (induction l) (simp_all add: after_break_def)

lemma splitlines_join:
  "ls \<noteq> [] \<Longrightarrow> \<forall>l \<in> set ls. plain_line l \<Longrightarrow> splitlines (py_join [LF] ls @ [LF]) = ls"
proof (induction ls rule: induct_list012)
  case (2 l)
  then show ?case using splitlines_line [of l "[]"] by simp
next
  case (3 l m ls)
  then show ?case using splitlines_line [of l "py_join [LF] (m # ls) @ [LF]"] by simp
qed simp

lemma py_join_snoc: "py_join sep (xs @ [y]) = (if xs = [] then y else py_join sep xs @ sep @ y)"
  by (induction xs rule: induct_list012) simp_all

lemma rstrip_snoc: "\<not> is_space c \<Longrightarrow> rstrip (s @ [c]) = s @ [c]"
  by (simp add: rstrip_def)

lemma occurs_in_self: "occurs_in p p"
  by (cases p) simp_all

lemma occurs_in_suffix: "occurs_in p (x @ p)"
  by (induction x) (simp_all add: occurs_in_self)

section \<open>The entry in the crontab\<close>

lemma kept_subset: "set (kept_lines m b ls) \<subseteq> set ls"
  by (induction m b ls rule: kept_lines.induct) auto

lemma kept_clean: "l \<in> set (kept_lines m b ls) \<Longrightarrow> \<not> occurs_in m l"
  by (induction m b ls rule: kept_lines.induct) (auto split: if_splits)

lemma kept_all: "\<not> mark_found m False ls \<Longrightarrow> kept_lines m False ls = ls"
  by (induction ls) auto

lemma kept_entry: "\<forall>l \<in> set ls. \<not> occurs_in m l \<Longrightarrow> occurs_in m l' \<Longrightarrow> kept_lines m False (ls @ [l', x]) = ls"
  by (induction ls) simp_all

lemma found_entry: "occurs_in m l' \<Longrightarrow> \<forall>l \<in> set ls. \<not> occurs_in m l \<Longrightarrow> mark_found m False (ls @ [l', x])"
  by (induction ls) simp_all

text \<open>The mark and the line of the entry are single lines: no path holds a line break.\<close>

definition entry_ok :: "host \<Rightarrow> string \<Rightarrow> string \<Rightarrow> string \<Rightarrow> bool" where
  "entry_ok h board py exe \<longleftrightarrow> plain_line (board_mark h board) \<and> plain_line (due_crontab_line h board py exe)"

text \<open>A crontab as \<open>remove_crontab\<close> leaves it: no blank end, one newline.\<close>

definition tidy :: "string \<Rightarrow> bool" where
  "tidy body \<longleftrightarrow> body = rstrip (py_join [LF] (splitlines body)) @ (if splitlines body = [] then [] else [LF])"

definition other_lines :: "host \<Rightarrow> string \<Rightarrow> string \<Rightarrow> string list" where
  "other_lines h board body = kept_lines (board_mark h board) False (splitlines body)"

lemma line_end: "\<exists>s. due_crontab_line h board py exe = s @ ''e''"
  by (simp add: due_crontab_line_def)

lemma upsert_text:
  "upsert_crontab h board py exe body
    = py_join [LF] (other_lines h board body @ [''# '' @ board_mark h board, due_crontab_line h board py exe]) @ [LF]"
proof -
  let ?ks = "other_lines h board body @ [''# '' @ board_mark h board]"
  let ?line = "due_crontab_line h board py exe"
  obtain s where s: "?line = s @ ''e''" using line_end by blast
  have "\<exists>s. py_join [LF] (?ks @ [?line]) = s @ ''e''"
    unfolding py_join_snoc [of "[LF]" ?ks] s by simp
  then obtain s' where s': "py_join [LF] (?ks @ [?line]) = s' @ ''e''" by blast
  have "rstrip (py_join [LF] (?ks @ [?line])) = py_join [LF] (?ks @ [?line])"
    unfolding s' by (rule rstrip_snoc) (simp add: is_space_def)
  then show ?thesis by (simp add: upsert_crontab_def other_lines_def Let_def written_def)
qed

lemma upsert_lines:
  assumes "entry_ok h board py exe"
  shows "splitlines (upsert_crontab h board py exe body)
    = other_lines h board body @ [''# '' @ board_mark h board, due_crontab_line h board py exe]"
  unfolding upsert_text
proof (rule splitlines_join)
  have "plain_line l" if "l \<in> set (other_lines h board body)" for l
    using that kept_subset splitlines_plain unfolding other_lines_def by blast
  then show "\<forall>l \<in> set (other_lines h board body
      @ [''# '' @ board_mark h board, due_crontab_line h board py exe]). plain_line l"
    using assms by (auto simp: entry_ok_def is_break_def)
qed simp

lemma other_lines_clean: "\<forall>l \<in> set (other_lines h board body). \<not> occurs_in (board_mark h board) l"
  by (auto simp: other_lines_def dest: kept_clean)

lemma other_lines_upsert:
  assumes "entry_ok h board py exe"
  shows "other_lines h board (upsert_crontab h board py exe body) = other_lines h board body"
    and "mark_found (board_mark h board) False (splitlines (upsert_crontab h board py exe body))"
proof -
  have m: "occurs_in (board_mark h board) (''# '' @ board_mark h board)" by (rule occurs_in_suffix)
  show "other_lines h board (upsert_crontab h board py exe body) = other_lines h board body"
    unfolding other_lines_def [of h board "upsert_crontab h board py exe body"] upsert_lines [OF assms]
    by (rule kept_entry [OF other_lines_clean m])
  show "mark_found (board_mark h board) False (splitlines (upsert_crontab h board py exe body))"
    unfolding upsert_lines [OF assms] by (rule found_entry [OF m other_lines_clean])
qed

text \<open>
  C36: The crontab entry of a board goes in and out cleanly. After an installation the
  crontab holds the lines that were there (less an old entry of the board) and the entry;
  installing again changes nothing; and removing the entry gives back, byte for byte, a
  crontab that had none and ended in one newline.
\<close>
theorem crontab_entry_round_trip:
  assumes "entry_ok h board py exe"
  shows "splitlines (upsert_crontab h board py exe body)
      = other_lines h board body @ [''# '' @ board_mark h board, due_crontab_line h board py exe]
    \<and> upsert_crontab h board py exe (upsert_crontab h board py exe body) = upsert_crontab h board py exe body
    \<and> (tidy body \<and> \<not> mark_found (board_mark h board) False (splitlines body) \<longrightarrow>
        remove_crontab h board (upsert_crontab h board py exe body) = (body, True))"
proof (intro conjI impI)
  show "splitlines (upsert_crontab h board py exe body)
      = other_lines h board body @ [''# '' @ board_mark h board, due_crontab_line h board py exe]"
    by (rule upsert_lines [OF assms])
  show "upsert_crontab h board py exe (upsert_crontab h board py exe body) = upsert_crontab h board py exe body"
    using other_lines_upsert(1) [OF assms, of body] by (simp add: upsert_text)
  assume t: "tidy body \<and> \<not> mark_found (board_mark h board) False (splitlines body)"
  then have o: "other_lines h board body = splitlines body" by (simp add: other_lines_def kept_all)
  then have k: "kept_lines (board_mark h board) False (splitlines (upsert_crontab h board py exe body)) = splitlines body"
    using other_lines_upsert(1) [OF assms, of body] by (simp add: other_lines_def)
  have b: "rstrip (py_join [LF] (splitlines body)) @ (if splitlines body = [] then [] else [LF]) = body"
    using t by (simp add: tidy_def)
  have "written body = body"
  proof (cases "splitlines body = []")
    case True
    then show ?thesis using b by (simp add: written_def rstrip_def)
  next
    case False
    then have "last body = LF" using b by (metis last_snoc)
    then show ?thesis by (simp add: written_def)
  qed
  then show "remove_crontab h board (upsert_crontab h board py exe body) = (body, True)"
    using other_lines_upsert(2) [OF assms, of body] by (simp add: remove_crontab_def Let_def k b)
qed

text \<open>A host whose digest is a constant, and a crontab with one line of its own.\<close>

definition demo_host :: host where
  "demo_host = \<lparr>h_digest = (\<lambda>s. ''0123456789abcdef''), h_cwd = ''/w''\<rparr>"

definition own_line :: string where
  "own_line = ''0 1 * * * backup'' @ [LF]"

theorem crontab_entry_round_trip_witness:
  "remove_crontab demo_host ''b'' (upsert_crontab demo_host ''b'' ''t.py'' ''py'' own_line) = (own_line, True)
   \<and> length (splitlines (upsert_crontab demo_host ''b'' ''t.py'' ''py'' own_line)) = 3"
proof -
  have e: "entry_ok demo_host ''b'' ''t.py'' ''py''" by code_simp
  have t: "tidy own_line" by code_simp
  have f: "\<not> mark_found (board_mark demo_host ''b'') False (splitlines own_line)" by code_simp
  have "length (other_lines demo_host ''b'' own_line) = 1" by code_simp
  then show ?thesis using crontab_entry_round_trip [OF e, of own_line] t f by simp
qed

section \<open>The next minute\<close>

lemma ex_nat_cases: "(\<exists>k::nat. P k) \<longleftrightarrow> P 0 \<or> (\<exists>k. P (Suc k))"
  by (metis not0_implies_Suc)

lemma cron_scan_hit:
  "cron_scan expr cur fin = Inr c \<longleftrightarrow>
     (\<exists>k. c = cur + 60 * int k \<and> c \<le> fin \<and> cron_match expr c = Inr True
        \<and> (\<forall>j < k. cron_match expr (cur + 60 * int j) = Inr False))"
proof (induction expr cur fin rule: cron_scan.induct)
  case (1 expr cur fin)
  let ?R = "\<lambda>cur k. c = cur + 60 * int k \<and> c \<le> fin \<and> cron_match expr c = Inr True
        \<and> (\<forall>j < k. cron_match expr (cur + 60 * int j) = Inr False)"
  have shift: "?R cur (Suc k) \<longleftrightarrow> cron_match expr cur = Inr False \<and> ?R (cur + 60) k" for k
    by (auto simp: All_less_Suc2 algebra_simps)
  have split: "(\<exists>k. ?R cur k) \<longleftrightarrow> ?R cur 0 \<or> cron_match expr cur = Inr False \<and> (\<exists>k. ?R (cur + 60) k)"
    unfolding ex_nat_cases [of "?R cur"] shift by blast
  show ?case
  proof (cases "cur \<le> fin")
    case False
    then show ?thesis by (subst cron_scan.simps) auto
  next
    case True
    show ?thesis
    proof (cases "cron_match expr cur")
      case (Inl x)
      then have "cron_scan expr cur fin = Inl x" using True by (subst cron_scan.simps) simp
      then show ?thesis unfolding split using Inl by auto
    next
      case (Inr hit)
      then have "cron_scan expr cur fin = (if hit then Inr cur else cron_scan expr (cur + 60) fin)"
        using True by (subst cron_scan.simps) simp
      then show ?thesis unfolding split using True Inr "1.IH" [OF True Inr] by (cases hit) auto
    qed
  qed
qed

lemma cron_scan_never:
  "(\<And>k. cur + 60 * int k \<le> fin \<Longrightarrow> cron_match expr (cur + 60 * int k) = Inr False)
    \<Longrightarrow> cron_scan expr cur fin = Inl ValueError"
proof (induction expr cur fin rule: cron_scan.induct)
  case (1 expr cur fin)
  show ?case
  proof (cases "cur \<le> fin")
    case True
    have here: "cron_match expr cur = Inr False" using "1.prems" [of 0] True by simp
    have "cron_match expr (cur + 60 + 60 * int k) = Inr False" if "cur + 60 + 60 * int k \<le> fin" for k
      using "1.prems" [of "Suc k"] that by (simp add: algebra_simps)
    then have "cron_scan expr (cur + 60) fin = Inl ValueError"
      using "1.IH" [OF True here] by simp
    then show ?thesis using True here by (subst cron_scan.simps) simp
  next
    case False
    then show ?thesis by (subst cron_scan.simps) simp
  qed
qed

lemma minute_after: "t < u \<and> u mod 60 = 0 \<longleftrightarrow> (\<exists>k. u = t div 60 * 60 + 60 + 60 * int k)"
proof
  assume u: "t < u \<and> u mod 60 = 0"
  let ?q = "u div 60" and ?p = "t div 60"
  have uq: "u = 60 * ?q" using u div_mult_mod_eq [of u 60] by simp
  have tp: "t = 60 * ?p + t mod 60" "0 \<le> t mod 60" by simp_all
  have "?p < ?q" using u uq tp by linarith
  then have "u = ?p * 60 + 60 + 60 * int (nat (?q - ?p - 1))" using uq by simp
  then show "\<exists>k. u = t div 60 * 60 + 60 + 60 * int k" by blast
next
  assume "\<exists>k. u = t div 60 * 60 + 60 + 60 * int k"
  then obtain k where u: "u = t div 60 * 60 + 60 + 60 * int k" by auto
  have "t = 60 * (t div 60) + t mod 60" "t mod 60 < 60" by simp_all
  then have "t < u" unfolding u by linarith
  moreover have "u = 60 * (t div 60 + 1 + int k)" unfolding u by simp
  then have "u mod 60 = 0" by (metis mod_mult_self1_is_0)
  ultimately show "t < u \<and> u mod 60 = 0" by blast
qed

lemma minutes_before:
  "(\<forall>u. t < u \<and> u mod 60 = 0 \<and> u < t div 60 * 60 + 60 + 60 * int k \<longrightarrow> P u)
    \<longleftrightarrow> (\<forall>j < k. P (t div 60 * 60 + 60 + 60 * int j))"
proof
  assume all: "\<forall>u. t < u \<and> u mod 60 = 0 \<and> u < t div 60 * 60 + 60 + 60 * int k \<longrightarrow> P u"
  show "\<forall>j < k. P (t div 60 * 60 + 60 + 60 * int j)"
  proof (intro allI impI)
    fix j assume "j < k"
    moreover have "t < t div 60 * 60 + 60 + 60 * int j \<and> (t div 60 * 60 + 60 + 60 * int j) mod 60 = 0"
      unfolding minute_after by blast
    ultimately show "P (t div 60 * 60 + 60 + 60 * int j)" using all by simp
  qed
next
  assume all: "\<forall>j < k. P (t div 60 * 60 + 60 + 60 * int j)"
  show "\<forall>u. t < u \<and> u mod 60 = 0 \<and> u < t div 60 * 60 + 60 + 60 * int k \<longrightarrow> P u"
  proof (intro allI impI)
    fix u assume u: "t < u \<and> u mod 60 = 0 \<and> u < t div 60 * 60 + 60 + 60 * int k"
    then have "\<exists>j. u = t div 60 * 60 + 60 + 60 * int j" unfolding minute_after [symmetric] by simp
    then obtain j where "u = t div 60 * 60 + 60 + 60 * int j" by (elim exE)
    then show "P u" using all u by simp
  qed
qed

named_theorems fails \<open>the only exception of the parser is a ValueError\<close>

lemma unsigned_int_fails [fails]: "unsigned_int s = Inl x \<Longrightarrow> x = ValueError"
  by (auto simp: unsigned_int_def Let_def split: if_splits)

lemma py_int_fails [fails]: "py_int s = Inl x \<Longrightarrow> x = ValueError"
  by (auto simp: py_int_def result_simps dest: fails split: list.splits if_splits)

lemma cron_parts_fails [fails]: "cron_parts ps v lo hi = Inl x \<Longrightarrow> x = ValueError"
  by (induction ps) (auto simp: Let_def result_simps dest: fails split: if_splits)

lemma cron_field_fails [fails]: "cron_field f v lo hi = Inl x \<Longrightarrow> x = ValueError"
  by (auto simp: cron_field_def Let_def dest: fails split: if_splits)

lemma andE_fails: "andE a b = Inl x \<Longrightarrow> a = Inl x \<or> b = Inl x"
  by (auto simp: andE_def result_simps split: if_splits)

lemma cron_match_fails [fails]: "cron_match expr t = Inl x \<Longrightarrow> x = ValueError"
  unfolding cron_match_def by (auto dest!: andE_fails dest: fails split: list.splits)

lemma cron_scan_fails [fails]: "cron_scan expr cur fin = Inl x \<Longrightarrow> x = ValueError"
proof (induction expr cur fin rule: cron_scan.induct)
  case (1 expr cur fin)
  show ?case
  proof (cases "cur \<le> fin")
    case True
    then have "cron_match expr cur = Inl x \<or> (cron_match expr cur = Inr False \<and> cron_scan expr (cur + 60) fin = Inl x)"
      using "1.prems" by (subst (asm) cron_scan.simps) (auto simp: result_simps split: if_splits)
    then show ?thesis using "1.IH" [OF True] by (auto dest: fails)
  next
    case False
    then show ?thesis using "1.prems" by (subst (asm) cron_scan.simps) simp
  qed
qed

text \<open>
  \<open>cron_next\<close> ends, and answers \<open>c\<close> exactly when \<open>c\<close> is the first whole minute after
  the given moment that the expression matches, at most eight days later; otherwise, for an
  expression it cannot read or one that does not match in that time, it raises a
  \<open>ValueError\<close>.
\<close>
theorem cron_next_is_the_first_match:
  "(cron_next expr t = Inr c \<longleftrightarrow>
      t < c \<and> c mod 60 = 0 \<and> c \<le> t + 8 * 86400 \<and> cron_match expr c = Inr True
      \<and> (\<forall>u. t < u \<and> u mod 60 = 0 \<and> u < c \<longrightarrow> cron_match expr u = Inr False))
   \<and> (cron_next expr t = Inl x \<longrightarrow> x = ValueError)"
proof
  let ?b = "t div 60 * 60 + 60"
  let ?none = "\<forall>u. t < u \<and> u mod 60 = 0 \<and> u < c \<longrightarrow> cron_match expr u = Inr False"
  have none: "(\<forall>j < k. cron_match expr (?b + 60 * int j) = Inr False) \<longleftrightarrow> ?none" if "c = ?b + 60 * int k" for k
    unfolding that by (rule minutes_before [of t k "\<lambda>u. cron_match expr u = Inr False", symmetric])
  have hit: "cron_next expr t = Inr c \<longleftrightarrow> (\<exists>k. c = ?b + 60 * int k \<and> c \<le> t + 8 * 86400
      \<and> cron_match expr c = Inr True \<and> (\<forall>j < k. cron_match expr (?b + 60 * int j) = Inr False))"
    unfolding cron_next_def by (rule cron_scan_hit)
  show "cron_next expr t = Inr c \<longleftrightarrow>
      t < c \<and> c mod 60 = 0 \<and> c \<le> t + 8 * 86400 \<and> cron_match expr c = Inr True \<and> ?none"
  proof
    assume "cron_next expr t = Inr c"
    then obtain k where k: "c = ?b + 60 * int k" "c \<le> t + 8 * 86400" "cron_match expr c = Inr True"
      "\<forall>j < k. cron_match expr (?b + 60 * int j) = Inr False" unfolding hit by (elim exE conjE)
    have "t < c \<and> c mod 60 = 0" unfolding minute_after using k(1) by (rule exI)
    then show "t < c \<and> c mod 60 = 0 \<and> c \<le> t + 8 * 86400 \<and> cron_match expr c = Inr True \<and> ?none"
      using k(2,3) iffD1 [OF none [OF k(1)] k(4)] by simp
  next
    assume r: "t < c \<and> c mod 60 = 0 \<and> c \<le> t + 8 * 86400 \<and> cron_match expr c = Inr True \<and> ?none"
    then have "\<exists>k. c = ?b + 60 * int k" unfolding minute_after [symmetric] by simp
    then obtain k where k: "c = ?b + 60 * int k" by (elim exE)
    show "cron_next expr t = Inr c"
      unfolding hit by (rule exI [of _ k]) (use r k iffD2 [OF none [OF k]] in simp)
  qed
  show "cron_next expr t = Inl x \<longrightarrow> x = ValueError" by (auto simp: cron_next_def dest: fails)
qed

theorem cron_next_is_the_first_match_witness:
  "cron_next ''*/15 9 * * *'' 32399 = Inr 32400 \<and> cron_match ''*/15 9 * * *'' 32400 = Inr True
   \<and> cron_next ''*/15 9 * *'' 0 = Inl ValueError"
proof -
  have n: "cron_next ''*/15 9 * * *'' 32399 = Inr 32400" by code_simp
  moreover have "cron_match ''*/15 9 * * *'' 32400 = Inr True"
    using cron_next_is_the_first_match [of "''*/15 9 * * *''" 32399 32400] n by simp
  moreover have "cron_next ''*/15 9 * *'' 0 = Inl ValueError" by code_simp
  ultimately show ?thesis by blast
qed

section \<open>A monthly schedule\<close>

lemma single_field:
  assumes "py_strip f = f" "py_split (CHR '','') f = [f]" "py_int f = Inr n"
    and "f \<noteq> []" "take 2 f \<noteq> ''*/''" "CHR ''-'' \<notin> set f" "f \<noteq> ''*''"
  shows "cron_field f v lo hi = Inr (v = n)"
  using assms by (auto simp: cron_field_def Let_def)

lemma fields_0_9_1:
  "cron_field ''0'' v lo hi = Inr (v = 0)" "cron_field ''9'' v lo hi = Inr (v = 9)"
  "cron_field ''1'' v lo hi = Inr (v = 1)" "cron_field ''*'' v lo hi = Inr True"
proof -
  have "py_strip ''0'' = ''0''" "py_strip ''9'' = ''9''" "py_strip ''1'' = ''1''" "py_strip ''*'' = ''*''"
    "py_split (CHR '','') ''0'' = [''0'']" "py_split (CHR '','') ''9'' = [''9'']"
    "py_split (CHR '','') ''1'' = [''1'']" "py_int ''0'' = Inr 0" "py_int ''9'' = Inr 9" "py_int ''1'' = Inr 1"
    by code_simp+
  then show "cron_field ''0'' v lo hi = Inr (v = 0)" "cron_field ''9'' v lo hi = Inr (v = 9)"
    "cron_field ''1'' v lo hi = Inr (v = 1)" "cron_field ''*'' v lo hi = Inr True"
    by (auto intro: single_field simp: cron_field_def Let_def)
qed

lemma monthly_match: "cron_match ''0 9 1 * *'' u = Inr (minute_of u = 0 \<and> hour_of u = 9 \<and> day_of u = 1)"
proof -
  have "py_words (py_strip ''0 9 1 * *'') = [''0'', ''9'', ''1'', ''*'', ''*'']" by code_simp
  then show ?thesis by (simp add: cron_match_def fields_0_9_1 andE_def)
qed

text \<open>The days from the second of January 2026 that are more than a week from the next first.\<close>

lemma january_days: "20455 \<le> z \<Longrightarrow> z \<le> 20483 \<Longrightarrow> fst (civil z) \<noteq> 1"
proof -
  assume "20455 \<le> z" "z \<le> 20483"
  then have z: "z \<in> set [20455..20483]" by (simp only: set_upto atLeastAtMost_iff)
  have "list_all (\<lambda>z. fst (civil z) \<noteq> 1) [20455..20483]" by code_simp
  then have "\<forall>z \<in> set [20455..20483]. fst (civil z) \<noteq> 1" by (simp only: list_all_iff)
  then show ?thesis using z by (rule bspec)
qed

lemma monthly_never:
  assumes "20455 \<le> t div 86400" "t div 86400 \<le> 20475"
  shows "cron_next ''0 9 1 * *'' t = Inl ValueError"
  unfolding cron_next_def
proof (rule cron_scan_never)
  fix k
  let ?u = "t div 60 * 60 + 60 + 60 * int k"
  assume u: "?u \<le> t + 8 * 86400"
  have "t < ?u \<and> ?u mod 60 = 0" unfolding minute_after by blast
  then have "t div 86400 \<le> ?u div 86400" "?u div 86400 \<le> (t + 8 * 86400) div 86400"
    using u by (auto intro!: zdiv_mono1)
  moreover have "(t + 8 * 86400) div 86400 = t div 86400 + 8" by simp
  ultimately have "20455 \<le> ?u div 86400" "?u div 86400 \<le> 20483" using assms by linarith+
  then have "day_of ?u \<noteq> 1" unfolding day_of_def by (rule january_days)
  then show "cron_match ''0 9 1 * *'' ?u = Inr False" by (simp add: monthly_match)
qed

text \<open>Seat \<open>a\<close> on the first of each month at nine, seat \<open>b\<close> every quarter of an hour.\<close>

definition two_seat_file :: schedule where
  "two_seat_file =
     [(''a'', \<lparr>sc_enabled = True, sc_every = 0, sc_cron = ''0 9 1 * *'', sc_next = Some (20454 * 86400), sc_last = None\<rparr>),
      (''b'', \<lparr>sc_enabled = True, sc_every = 900, sc_cron = [], sc_next = Some (20454 * 86400), sc_last = None\<rparr>)]"

text \<open>
  A schedule that fires less often than weekly sticks. \<open>cmd_schedule\<close> accepts the
  expression, but the pass that pokes the seat then finds no match in eight days and raises
  before it saves: for three weeks of January 2026 every pass, each minute, pokes the same seat
  again, never reaches the seat behind it, and leaves the file as it was.
\<close>
theorem monthly_schedule_sticks:
  assumes "20455 \<le> t div 86400" "t div 86400 \<le> 20475"
  shows "cron_match ''0 9 1 * *'' t = Inr (minute_of t = 0 \<and> hour_of t = 9 \<and> day_of t = 1)
    \<and> due_pass {''a'', ''b''} t two_seat_file = (two_seat_file, [''a''], Some ValueError)"
proof -
  have t: "20454 * 86400 \<le> t" using assms(1) by linarith
  have s: "py_strip ''0 9 1 * *'' = ''0 9 1 * *''" by code_simp
  show ?thesis
    using t by (simp add: due_pass_def due_seats_def two_seat_file_def bump_next_def s monthly_never [OF assms] monthly_match)
qed

theorem monthly_schedule_sticks_witness:
  "due_pass {''a'', ''b''} (20455 * 86400 + 60) two_seat_file = (two_seat_file, [''a''], Some ValueError)"
  using monthly_schedule_sticks [of "20455 * 86400 + 60"] by simp

end
