(* ===== verification/Msg_Store.thy ===== *)
theory Msg_Store
  imports Board_Reviews
begin

text \<open>
  \<open>MessagingMixin\<close> of \<open>storage/messaging.py\<close>, first half: members, invitations,
  channels and their membership, messages, threads and the message listing with its
  cursor. An operation is a function of the environment, its arguments and the database,
  with the conventions of the board store.
\<close>

section \<open>The component of the database\<close>

definition upd_msg :: "(msg_tables \<Rightarrow> msg_tables) \<Rightarrow> db \<Rightarrow> db" where
  "upd_msg f s = s\<lparr>db_msg := f (db_msg s)\<rparr>"

lemma upd_msg_frame [simp]:
  "db_msg (upd_msg f s) = f (db_msg s)" "db_audits (upd_msg f s) = db_audits s"
  "db_requests (upd_msg f s) = db_requests s" "db_agents (upd_msg f s) = db_agents s"
  "db_runners (upd_msg f s) = db_runners s" "db_tickets (upd_msg f s) = db_tickets s"
  "db_sessions (upd_msg f s) = db_sessions s" "db_projects (upd_msg f s) = db_projects s"
  by (simp_all add: upd_msg_def)

definition members :: "db \<Rightarrow> member_row list" where "members s = mt_members (db_msg s)"

definition channels :: "db \<Rightarrow> channel_row list" where "channels s = mt_channels (db_msg s)"

definition channel_members :: "db \<Rightarrow> channel_member_row list" where
  "channel_members s = mt_channel_members (db_msg s)"

definition messages :: "db \<Rightarrow> message_row list" where "messages s = mt_messages (db_msg s)"

definition threads :: "db \<Rightarrow> thread_row list" where "threads s = mt_threads (db_msg s)"

definition deliveries :: "db \<Rightarrow> delivery_row list" where "deliveries s = mt_deliveries (db_msg s)"

definition wakes :: "db \<Rightarrow> wake_row list" where "wakes s = mt_wakes (db_msg s)"

definition runs :: "db \<Rightarrow> run_row list" where "runs s = mt_runs (db_msg s)"

lemmas table_defs = members_def channels_def channel_members_def messages_def threads_def
  deliveries_def wakes_def runs_def

text \<open>\<open>_assert_member\<close>: the enumerations the callers are checked against.\<close>

definition MEMBER_KINDS :: "string list" where
  "MEMBER_KINDS = [''human'', ''agent'', ''master'']"

definition PROJECT_ROLES :: "string list" where
  "PROJECT_ROLES = [''owner'', ''admin'', ''member'', ''viewer'']"

definition AVAILABILITY :: "string list" where
  "AVAILABILITY = [''available'', ''busy'', ''offline'', ''unknown'']"

definition CHANNEL_KINDS :: "string list" where "CHANNEL_KINDS = [''channel'', ''dm'']"

definition VISIBILITY :: "string list" where "VISIBILITY = [''public'', ''private'']"

definition MESSAGE_INTENTS :: "string list" where
  "MESSAGE_INTENTS = [''message'', ''task'', ''reply'', ''receipt'']"

definition DELIVERY_REASONS :: "string list" where
  "DELIVERY_REASONS = [''runner_offline'', ''manual_resume_required'', ''agent_busy'',
     ''dependency_unmet'', ''permission_required'', ''budget_exceeded'', ''project_paused'',
     ''canceled_by_operator'', ''dispatch_failed'']"

definition assert_member :: "string \<Rightarrow> string list \<Rightarrow> string \<Rightarrow> error + unit" where
  "assert_member value allowed field =
     (if value \<notin> set allowed
      then Inl (MalformedRequest (field @ '' is not a valid value.'') [(field, JStr value)]) else Inr ())"

lemma assert_member_Inr [result_simps]: "assert_member v allowed f = Inr u \<longleftrightarrow> v \<in> set allowed"
  by (simp add: assert_member_def)

text \<open>The lookup of an agent an argument names, for membership, channels, runs and leases.\<close>

definition agent_of :: "db \<Rightarrow> string \<Rightarrow> string \<Rightarrow> error + unit" where
  "agent_of s p aid =
     (case find_agent s aid of
        None \<Rightarrow> Inl (NotFound ''No such agent.'' [(''agent_id'', JStr aid)])
      | Some a \<Rightarrow> if ag_project a \<noteq> p then Inl (ForbiddenScope p (Some aid)) else Inr ())"

definition agent_of_opt :: "db \<Rightarrow> string \<Rightarrow> string option \<Rightarrow> error + unit" where
  "agent_of_opt s p a = (case a of None \<Rightarrow> Inr () | Some aid \<Rightarrow> agent_of s p aid)"

section \<open>Members\<close>

definition member_row_of :: "db \<Rightarrow> string \<Rightarrow> string \<Rightarrow> error + member_row" where
  "member_row_of s p mid =
     (case List.find (\<lambda>m. me_id m = mid) (members s) of
        None \<Rightarrow> Inl (NotFound ''No such member.'' [(''member_id'', JStr mid)])
      | Some m \<Rightarrow> if me_project m \<noteq> p then Inl (ForbiddenScope p (Some mid)) else Inr m)"

definition id_or_mint :: "string option \<Rightarrow> string \<Rightarrow> string \<Rightarrow> string" where
  "id_or_mint given prefix suffix = (if truthy_str given then the given else mint prefix suffix)"

definition create_member_act :: "env \<Rightarrow> string \<Rightarrow> string \<Rightarrow> string \<Rightarrow> string \<Rightarrow> string option \<Rightarrow> string
    \<Rightarrow> string \<Rightarrow> string option \<Rightarrow> json option \<Rightarrow> db \<Rightarrow> error + db \<times> response" where
  "create_member_act e p kind name role aid avail mid rq actor s =
     bindE (agent_of_opt s p aid) (\<lambda>_.
       if \<not> project_exists s p
          \<or> (aid \<noteq> None \<and> (p, aid) \<in> set (map (\<lambda>m. (me_project m, me_agent m)) (members s)))
       then Inl IntegrityError
       else bindE (insert_row me_id \<lparr>me_id = mid, me_project = p, me_kind = kind, me_name = name,
                     me_role = role, me_state = Active, me_agent = aid, me_availability = avail,
                     me_version = 1, me_created_at = clock e\<rparr> (members s)) (\<lambda>ms.
            bindE (audit e 1 p (actor_or_system actor) ''member.create'' (Some ''member'') (Some mid) rq
                    (''created member '' @ name) (upd_msg (\<lambda>m. m\<lparr>mt_members := ms\<rparr>) s)) (\<lambda>s'.
            bindE (member_row_of s' p mid) (\<lambda>m. Inr (s', RMember m)))))"

definition create_member :: "env \<Rightarrow> string \<Rightarrow> string \<Rightarrow> string \<Rightarrow> string \<Rightarrow> string option \<Rightarrow> string
    \<Rightarrow> string option \<Rightarrow> string option \<Rightarrow> json option \<Rightarrow> db \<Rightarrow> error + db \<times> response" where
  "create_member e p kind name role aid avail member_id rq actor s =
     bindE (assert_member kind MEMBER_KINDS ''kind'') (\<lambda>_.
     bindE (assert_member role PROJECT_ROLES ''role'') (\<lambda>_.
     bindE (assert_member avail AVAILABILITY ''availability'') (\<lambda>_.
       idem e p rq ''create_member''
         (JObj [(''kind'', JStr kind), (''display_name'', JStr name), (''role'', JStr role),
                (''agent_id'', jopt aid), (''availability'', JStr avail)])
         (create_member_act e p kind name role aid avail (id_or_mint member_id ''mem'' (rnd e 0)) rq actor)
         s)))"

definition get_member :: "string \<Rightarrow> string \<Rightarrow> db \<Rightarrow> error + response" where
  "get_member p mid s = bindE (member_row_of s p mid) (\<lambda>m. Inr (RMember m))"

definition list_members :: "string \<Rightarrow> db \<Rightarrow> member_row list" where
  "list_members p s =
     sort_key (\<lambda>m. (me_name m, me_id m)) (filter (\<lambda>m. me_project m = p) (members s))"

text \<open>What a revocation does to the outbox of the member's agent.\<close>

definition block_write :: "env \<Rightarrow> delivery_row \<Rightarrow> delivery_row" where
  "block_write e d = d\<lparr>dl_state := DBlocked, dl_reason := Some ''permission_required'',
     dl_detail := Some ''membership revoked'', dl_version := dl_version d + 1, dl_updated_at := clock e\<rparr>"

definition revoke_updates :: "env \<Rightarrow> string \<Rightarrow> string \<Rightarrow> db \<Rightarrow> db" where
  "revoke_updates e p mid s =
     upd_msg (\<lambda>m. m\<lparr>
       mt_members := update_where (\<lambda>r. me_id r = mid)
          (\<lambda>r. r\<lparr>me_state := MRevoked, me_version := me_version r + 1\<rparr>) (mt_members m),
       mt_deliveries := update_where
          (\<lambda>d. dl_project d = p \<and> (dl_state d = Sent \<or> dl_state d = DQueued)
             \<and> list_ex (\<lambda>r. me_id r = mid \<and> me_agent r = Some (dl_agent d)) (mt_members m))
          (block_write e) (mt_deliveries m)\<rparr>) s"

definition revoke_member_act :: "env \<Rightarrow> string \<Rightarrow> string \<Rightarrow> int \<Rightarrow> string option \<Rightarrow> json option \<Rightarrow> db
    \<Rightarrow> error + db \<times> response" where
  "revoke_member_act e p mid expected rq actor s =
     bindE (member_row_of s p mid) (\<lambda>row.
       if me_version row \<noteq> expected then Inl (TicketVersionConflict mid expected (me_version row))
       else bindE (audit e 0 p (actor_or_system actor) ''member.revoke'' (Some ''member'') (Some mid) rq
                    ''revoked membership'' (revoke_updates e p mid s)) (\<lambda>s'.
            bindE (member_row_of s' p mid) (\<lambda>m. Inr (s', RMember m))))"

definition revoke_member :: "env \<Rightarrow> string \<Rightarrow> string \<Rightarrow> int \<Rightarrow> string option \<Rightarrow> json option \<Rightarrow> db
    \<Rightarrow> error + db \<times> response" where
  "revoke_member e p mid expected rq actor s =
     idem e p rq ''revoke_member''
       (JObj [(''member_id'', JStr mid), (''expected_version'', JInt expected)])
       (revoke_member_act e p mid expected rq actor) s"

section \<open>Invitations\<close>

text \<open>\<open>if created_by\<close>: an empty value is stored as NULL.\<close>

definition create_invitation_act :: "env \<Rightarrow> string \<Rightarrow> string \<Rightarrow> stamp \<Rightarrow> json option \<Rightarrow> string
    \<Rightarrow> string option \<Rightarrow> string option \<Rightarrow> db \<Rightarrow> error + db \<times> response" where
  "create_invitation_act e p role expires_at created_by iid code rq s =
     (let row = \<lparr>iv_id = iid, iv_project = p, iv_role = role, iv_state = ''pending'',
                 iv_created_by = (case created_by of Some j \<Rightarrow> if truthy j then Some j else None | None \<Rightarrow> None),
                 iv_created_at = clock e, iv_expires_at = expires_at, iv_accepted_by = None, iv_version = 1\<rparr>
      in if \<not> project_exists s p then Inl IntegrityError
         else bindE (insert_row iv_id row (mt_invitations (db_msg s))) (\<lambda>is.
              bindE (audit e 1 p (actor_or_system created_by) ''invitation.create'' (Some ''member'') (Some iid)
                      rq ''created invitation'' (upd_msg (\<lambda>m. m\<lparr>mt_invitations := is\<rparr>) s)) (\<lambda>s'.
              Inr (s', RInvitation row code))))"

definition create_invitation :: "env \<Rightarrow> string \<Rightarrow> string \<Rightarrow> stamp \<Rightarrow> json option \<Rightarrow> string option
    \<Rightarrow> string option \<Rightarrow> string option \<Rightarrow> db \<Rightarrow> error + db \<times> response" where
  "create_invitation e p role expires_at created_by invitation_id code rq s =
     bindE (assert_member role PROJECT_ROLES ''role'') (\<lambda>_.
       idem e p rq ''create_invitation'' (JObj [(''role'', JStr role), (''expires_at'', JInt expires_at)])
         (create_invitation_act e p role expires_at created_by
            (id_or_mint invitation_id ''inv'' (rnd e 0)) code rq) s)"

section \<open>Channels\<close>

definition channel_row_of :: "db \<Rightarrow> string \<Rightarrow> string \<Rightarrow> error + channel_row" where
  "channel_row_of s p cid =
     (case List.find (\<lambda>c. ch_id c = cid) (channels s) of
        None \<Rightarrow> Inl (NotFound ''No such channel.'' [(''channel_id'', JStr cid)])
      | Some c \<Rightarrow> if ch_project c \<noteq> p then Inl (ForbiddenScope p (Some cid)) else Inr c)"

definition channel_unread_count :: "db \<Rightarrow> string \<Rightarrow> string \<Rightarrow> int" where
  "channel_unread_count s p cid =
     int (length (filter (\<lambda>m. ms_project m = p \<and> ms_channel m = cid) (messages s)))"

definition serialize_channel :: "db \<Rightarrow> channel_row \<Rightarrow> response" where
  "serialize_channel s c = RChannel c (channel_unread_count s (ch_project c) (ch_id c))"

text \<open>The reading rule of a channel, for a member, for nobody, and for the system itself.\<close>

definition channel_visible :: "db \<Rightarrow> string \<Rightarrow> string \<Rightarrow> string option \<Rightarrow> bool \<Rightarrow> error + channel_row" where
  "channel_visible s p cid member_id as_system =
     bindE (channel_row_of s p cid) (\<lambda>channel.
       if as_system then Inr channel
       else case member_id of
         None \<Rightarrow> if ch_visibility channel \<noteq> ''public'' then Inl (NotChannelMember cid None) else Inr channel
       | Some mid \<Rightarrow>
           bindE (member_row_of s p mid) (\<lambda>member.
             if me_state member = MRevoked then Inl (MembershipRevoked mid)
             else if ch_visibility channel = ''public'' then Inr channel
             else if list_ex (\<lambda>r. cm_project r = p \<and> cm_channel r = cid \<and> cm_member r = mid)
                       (channel_members s)
             then Inr channel
             else Inl (NotChannelMember cid (Some mid))))"

definition create_channel_act :: "env \<Rightarrow> string \<Rightarrow> string \<Rightarrow> string \<Rightarrow> string \<Rightarrow> string option
    \<Rightarrow> string option \<Rightarrow> string \<Rightarrow> string option \<Rightarrow> json option \<Rightarrow> db \<Rightarrow> error + db \<times> response" where
  "create_channel_act e p name visibility kind topic master cid rq actor s =
     bindE (agent_of_opt s p master) (\<lambda>_.
       if \<not> project_exists s p \<or> (p, name) \<in> set (map (\<lambda>c. (ch_project c, ch_name c)) (channels s))
       then Inl IntegrityError
       else bindE (insert_row ch_id \<lparr>ch_id = cid, ch_project = p, ch_name = name, ch_kind = kind,
                     ch_visibility = visibility, ch_topic = topic, ch_master = master, ch_version = 1,
                     ch_created_at = clock e\<rparr> (channels s)) (\<lambda>cs.
            bindE (audit e 1 p (actor_or_system actor) ''channel.create'' (Some ''channel'') (Some cid) rq
                    (''created channel '' @ name) (upd_msg (\<lambda>m. m\<lparr>mt_channels := cs\<rparr>) s)) (\<lambda>s'.
            bindE (channel_row_of s' p cid) (\<lambda>c. Inr (s', serialize_channel s' c)))))"

definition create_channel :: "env \<Rightarrow> string \<Rightarrow> string \<Rightarrow> string \<Rightarrow> string \<Rightarrow> string option
    \<Rightarrow> string option \<Rightarrow> string option \<Rightarrow> string option \<Rightarrow> json option \<Rightarrow> db \<Rightarrow> error + db \<times> response" where
  "create_channel e p name visibility kind topic master channel_id rq actor s =
     bindE (assert_member kind CHANNEL_KINDS ''kind'') (\<lambda>_.
     bindE (assert_member visibility VISIBILITY ''visibility'') (\<lambda>_.
       idem e p rq ''create_channel''
         (JObj [(''name'', JStr name), (''visibility'', JStr visibility), (''kind'', JStr kind),
                (''topic'', jopt topic), (''designated_master'', jopt master)])
         (create_channel_act e p name visibility kind topic master
            (id_or_mint channel_id ''chn'' (rnd e 0)) rq actor) s))"

definition get_channel :: "string \<Rightarrow> string \<Rightarrow> string option \<Rightarrow> bool \<Rightarrow> db \<Rightarrow> error + response" where
  "get_channel p cid member_id as_system s =
     bindE (channel_visible s p cid member_id as_system) (\<lambda>c. Inr (serialize_channel s c))"

text \<open>
  The listing of a member joins the membership rows of any project's channel by id alone;
  without a member it is every channel of the project.
\<close>

definition list_channels :: "string \<Rightarrow> string option \<Rightarrow> db \<Rightarrow> error + channel_row list" where
  "list_channels p member_id s =
     (case member_id of
        None \<Rightarrow> Inr (sort_key (\<lambda>c. (ch_name c, ch_id c)) (filter (\<lambda>c. ch_project c = p) (channels s)))
      | Some mid \<Rightarrow>
          bindE (member_row_of s p mid) (\<lambda>member.
            if me_state member = MRevoked then Inl (MembershipRevoked mid)
            else Inr (sort_key (\<lambda>c. (ch_name c, ch_id c))
              (filter (\<lambda>c. ch_project c = p \<and> (ch_visibility c = ''public''
                   \<or> list_ex (\<lambda>r. cm_channel r = ch_id c \<and> cm_member r = mid) (channel_members s)))
                 (channels s)))))"

text \<open>The upsert on \<open>(channel_id, member_id)\<close>: a row that is there changes \<open>subscribed\<close> only.\<close>

definition upsert_channel_member :: "channel_member_row \<Rightarrow> channel_member_row list \<Rightarrow> channel_member_row list" where
  "upsert_channel_member row rs =
     (let same = (\<lambda>r. cm_channel r = cm_channel row \<and> cm_member r = cm_member row)
      in if list_ex same rs
         then update_where same (\<lambda>r. r\<lparr>cm_subscribed := cm_subscribed row\<rparr>) rs
         else rs @ [row])"

definition add_channel_member_act :: "env \<Rightarrow> string \<Rightarrow> string \<Rightarrow> string \<Rightarrow> bool \<Rightarrow> string option \<Rightarrow> json option \<Rightarrow> db
    \<Rightarrow> error + db \<times> response" where
  "add_channel_member_act e p cid mid subscribed rq actor s =
     bindE (channel_row_of s p cid) (\<lambda>_.
     bindE (member_row_of s p mid) (\<lambda>member.
       if me_state member = MRevoked then Inl (MembershipRevoked mid)
       else let row = \<lparr>cm_project = p, cm_channel = cid, cm_member = mid, cm_subscribed = subscribed,
                       cm_joined_at = clock e\<rparr>
            in bindE (audit e 0 p (actor_or_system actor) ''channel.member.add'' (Some ''channel'') (Some cid) rq
                       (''added member '' @ mid)
                       (upd_msg (\<lambda>m. m\<lparr>mt_channel_members :=
                          upsert_channel_member row (mt_channel_members m)\<rparr>) s)) (\<lambda>s'.
               case List.find (\<lambda>r. cm_channel r = cid \<and> cm_member r = mid) (channel_members s') of
                 None \<Rightarrow> Inl AttributeError
               | Some r \<Rightarrow> Inr (s', RChannelMember r))))"

definition add_channel_member :: "env \<Rightarrow> string \<Rightarrow> string \<Rightarrow> string \<Rightarrow> bool \<Rightarrow> string option \<Rightarrow> json option \<Rightarrow> db
    \<Rightarrow> error + db \<times> response" where
  "add_channel_member e p cid mid subscribed rq actor s =
     idem e p rq ''add_channel_member''
       (JObj [(''channel_id'', JStr cid), (''member_id'', JStr mid), (''subscribed'', JBool subscribed)])
       (add_channel_member_act e p cid mid subscribed rq actor) s"

section \<open>Messages\<close>

definition message_row_of :: "db \<Rightarrow> string \<Rightarrow> string \<Rightarrow> error + message_row" where
  "message_row_of s p mid =
     (case List.find (\<lambda>m. ms_id m = mid) (messages s) of
        None \<Rightarrow> Inl (NotFound ''No such message.'' [(''message_id'', JStr mid)])
      | Some m \<Rightarrow> if ms_project m \<noteq> p then Inl (ForbiddenScope p (Some mid)) else Inr m)"

text \<open>
  A JSON value bound to a parameter that is compared with a TEXT column: a number is
  compared as its text, NULL with nothing, and a list or a dictionary cannot be bound.
\<close>

fun sql_text :: "json \<Rightarrow> error + string option" where
  "sql_text JNull = Inr None"
| "sql_text (JBool b) = Inr (Some (if b then ''1'' else ''0''))"
| "sql_text (JInt i) = Inr (Some (dec_int i))"
| "sql_text (JStr w) = Inr (Some w)"
| "sql_text (JArr _) = Inl InterfaceError"
| "sql_text (JObj _) = Inl InterfaceError"

text \<open>
  The member an author speaks as: nobody for the system, an agent's own member row, and
  otherwise the id the author carries, which the channel check then looks up.
\<close>

definition member_id_for_actor :: "db \<Rightarrow> string \<Rightarrow> json \<Rightarrow> error + string option" where
  "member_id_for_actor s p actor =
     bindE (py_get actor ''type'') (\<lambda>ty.
     bindE (py_get actor ''id'') (\<lambda>i.
       if ty = JStr ''system'' then Inr None
       else bindE (sql_text i) (\<lambda>aid.
         if ty = JStr ''agent''
         then case List.find (\<lambda>m. me_project m = p \<and> aid \<noteq> None \<and> me_agent m = aid) (members s) of
                None \<Rightarrow> Inl (ForbiddenScope p aid)
              | Some m \<Rightarrow> if me_state m = MRevoked then Inl (MembershipRevoked (me_id m)) else Inr (Some (me_id m))
         else Inr aid)))"

text \<open>The agents behind the mentioned members; a revoked member is passed over.\<close>

fun agent_recipients_for_mentions :: "db \<Rightarrow> string \<Rightarrow> string list \<Rightarrow> error + string list" where
  "agent_recipients_for_mentions s p [] = Inr []"
| "agent_recipients_for_mentions s p (mid # mids) =
     bindE (member_row_of s p mid) (\<lambda>member.
     bindE (agent_recipients_for_mentions s p mids) (\<lambda>rest.
       Inr (if me_state member = MRevoked then rest
            else case me_agent member of None \<Rightarrow> rest | Some a \<Rightarrow> a # rest)))"

text \<open>\<open>sorted(set(xs))\<close>.\<close>

definition sorted_set :: "string list \<Rightarrow> string list" where
  "sorted_set xs = sort (remdups xs)"

lemma sorted_set_simps [simp]: "set (sorted_set xs) = set xs" "distinct (sorted_set xs)"
  by (simp_all add: sorted_set_def)

definition new_delivery :: "env \<Rightarrow> nat \<Rightarrow> string \<Rightarrow> string \<Rightarrow> string \<Rightarrow> delivery_state \<Rightarrow> delivery_row" where
  "new_delivery e k p mid aid st =
     \<lparr>dl_id = mint ''dlv'' (rnd e k), dl_project = p, dl_message = mid, dl_agent = aid, dl_state = st,
      dl_reason = None, dl_detail = None, dl_run = None, dl_blocking = None, dl_attempts = 1,
      dl_next_attempt = None, dl_created_at = clock e, dl_updated_at = clock e, dl_version = 1\<rparr>"

text \<open>
  \<open>_insert_delivery\<close>, one for each recipient in order; the k-th drawn suffix is the
  first one's. A recipient that is no agent of any project breaks the foreign key.
\<close>

fun insert_deliveries :: "env \<Rightarrow> nat \<Rightarrow> string \<Rightarrow> string \<Rightarrow> string \<Rightarrow> string list \<Rightarrow> db
    \<Rightarrow> error + db \<times> delivery_row list" where
  "insert_deliveries e k p mid state [] s = Inr (s, [])"
| "insert_deliveries e k p mid state (aid # aids) s =
     (case parse_delivery_state state of
        None \<Rightarrow> Inl (MalformedRequest ''state is not a valid value.'' [(''state'', JStr state)])
      | Some st \<Rightarrow>
          let d = new_delivery e k p mid aid st in
          if find_agent s aid = None
             \<or> (mid, aid) \<in> set (map (\<lambda>d. (dl_message d, dl_agent d)) (deliveries s))
          then Inl IntegrityError
          else bindE (insert_row dl_id d (deliveries s)) (\<lambda>ds.
               bindE (insert_deliveries e (Suc k) p mid state aids
                        (upd_msg (\<lambda>m. m\<lparr>mt_deliveries := ds\<rparr>) s)) (\<lambda>(s', rest).
               Inr (s', d # rest))))"

definition thread_check :: "db \<Rightarrow> string \<Rightarrow> string \<Rightarrow> string option \<Rightarrow> error + unit" where
  "thread_check s p cid thread_id =
     (case thread_id of
        None \<Rightarrow> Inr ()
      | Some tid \<Rightarrow>
          (case List.find (\<lambda>t. th_project t = p \<and> th_id t = tid) (threads s) of
             None \<Rightarrow> Inl (NotFound ''No such thread.'' [(''thread_id'', JStr tid)])
           | Some t \<Rightarrow> if th_channel t \<noteq> cid
               then Inl (MalformedRequest ''thread belongs to another channel.'' [(''thread_id'', JStr tid)])
               else Inr ()))"

definition link_check :: "db \<Rightarrow> string \<Rightarrow> string option \<Rightarrow> error + unit" where
  "link_check s p link = (case link of None \<Rightarrow> Inr () | Some l \<Rightarrow> bindE (message_row_of s p l) (\<lambda>_. Inr ()))"

definition message_recipients :: "db \<Rightarrow> string \<Rightarrow> json \<Rightarrow> string list \<Rightarrow> string list \<Rightarrow> error + string list" where
  "message_recipients s p author mentions given =
     bindE (agent_recipients_for_mentions s p mentions) (\<lambda>ms.
     bindE (py_get author ''type'') (\<lambda>ty.
     bindE (py_get author ''id'') (\<lambda>i.
       Inr (sorted_set (if ty = JStr ''agent'' then filter (\<lambda>r. JStr r \<noteq> i) (given @ ms) else given @ ms)))))"

definition bump_thread :: "env \<Rightarrow> string \<Rightarrow> string option \<Rightarrow> db \<Rightarrow> db" where
  "bump_thread e p thread_id s =
     (case thread_id of
        None \<Rightarrow> s
      | Some tid \<Rightarrow> upd_msg (\<lambda>m. m\<lparr>mt_threads := update_where (\<lambda>t. th_project t = p \<and> th_id t = tid)
          (\<lambda>t. t\<lparr>th_replies := th_replies t + 1, th_updated_at := clock e\<rparr>) (mt_threads m)\<rparr>) s)"

record message_args =
  ma_channel :: string
  ma_author :: json
  ma_body :: string
  ma_intent :: string
  ma_thread :: "string option"
  ma_mentions :: "string list"
  ma_ticket :: "string option"
  ma_causation :: "string option"
  ma_conversation :: "string option"
  ma_supersedes :: "string option"
  ma_recipients :: "string list"
  ma_message_id :: "string option"
  ma_delivery_state :: string

definition new_message :: "env \<Rightarrow> string \<Rightarrow> message_args \<Rightarrow> message_row" where
  "new_message e p a =
     \<lparr>ms_id = id_or_mint (ma_message_id a) ''msg'' (rnd e 0), ms_project = p, ms_channel = ma_channel a,
      ms_thread = ma_thread a, ms_author = ma_author a, ms_body = ma_body a, ms_intent = ma_intent a,
      ms_ticket = ma_ticket a, ms_mentions = sort (ma_mentions a), ms_causation = ma_causation a,
      ms_conversation = ma_conversation a, ms_supersedes = ma_supersedes a, ms_version = 1,
      ms_created_at = clock e\<rparr>"

definition send_message_act :: "env \<Rightarrow> string \<Rightarrow> message_args \<Rightarrow> string option \<Rightarrow> db
    \<Rightarrow> error + db \<times> response" where
  "send_message_act e p a rq s =
     bindE (member_id_for_actor s p (ma_author a)) (\<lambda>author_member.
     bindE (channel_visible s p (ma_channel a) author_member False) (\<lambda>_.
     bindE (thread_check s p (ma_channel a) (ma_thread a)) (\<lambda>_.
     bindE (link_check s p (ma_causation a)) (\<lambda>_.
     bindE (link_check s p (ma_supersedes a)) (\<lambda>_.
     bindE (message_recipients s p (ma_author a) (sort (ma_mentions a)) (sorted_set (ma_recipients a))) (\<lambda>rcpts.
     bindE (insert_row ms_id (new_message e p a) (messages s)) (\<lambda>ms.
     bindE (insert_deliveries e 1 p (ms_id (new_message e p a)) (ma_delivery_state a) rcpts
              (upd_msg (\<lambda>m. m\<lparr>mt_messages := ms\<rparr>) s)) (\<lambda>(s1, ds).
     bindE (audit e (Suc (length rcpts)) p (ma_author a) ''message.create'' (Some ''message'')
              (Some (ms_id (new_message e p a))) rq ''message created''
              (bump_thread e p (ma_thread a) s1)) (\<lambda>s2.
     bindE (message_row_of s2 p (ms_id (new_message e p a))) (\<lambda>m. Inr (s2, RMessage m ds)))))))))))"

definition message_body_json :: "message_args \<Rightarrow> json" where
  "message_body_json a =
     JObj [(''channel_id'', JStr (ma_channel a)), (''author'', ma_author a), (''body'', JStr (ma_body a)),
           (''intent'', JStr (ma_intent a)), (''thread_id'', jopt (ma_thread a)),
           (''mentions'', jstrs (sort (ma_mentions a))), (''ticket_id'', jopt (ma_ticket a)),
           (''causation_id'', jopt (ma_causation a)), (''conversation_id'', jopt (ma_conversation a)),
           (''supersedes_message_id'', jopt (ma_supersedes a)),
           (''recipient_agent_ids'', jstrs (sorted_set (ma_recipients a))),
           (''delivery_state'', JStr (ma_delivery_state a))]"

definition send_message :: "env \<Rightarrow> string \<Rightarrow> message_args \<Rightarrow> string option \<Rightarrow> db \<Rightarrow> error + db \<times> response" where
  "send_message e p a rq s =
     bindE (assert_member (ma_intent a) MESSAGE_INTENTS ''intent'') (\<lambda>_.
       if \<not> is_dict (ma_author a) \<or> \<not> has_key (ma_author a) ''type'' \<or> \<not> has_key (ma_author a) ''id''
       then Inl SenderIdentityRejected
       else idem e p rq ''send_message'' (message_body_json a) (send_message_act e p a rq) s)"

definition create_thread :: "env \<Rightarrow> string \<Rightarrow> string \<Rightarrow> string \<Rightarrow> string option \<Rightarrow> string option \<Rightarrow> db
    \<Rightarrow> error + db \<times> response" where
  "create_thread e p cid root ticket_id thread_id s =
     (let tid = id_or_mint thread_id ''thr'' (rnd e 0);
          row = \<lparr>th_id = tid, th_project = p, th_channel = cid, th_root = root, th_ticket = ticket_id,
                 th_replies = 0, th_updated_at = clock e\<rparr>
      in bindE (channel_row_of s p cid) (\<lambda>channel.
         bindE (message_row_of s p root) (\<lambda>message.
           if ms_channel message \<noteq> ch_id channel
           then Inl (MalformedRequest ''root message belongs to another channel.'' [(''message_id'', JStr root)])
           else bindE (insert_row th_id row (threads s)) (\<lambda>ts.
                bindE (audit e 1 p SYSTEM_ACTOR ''thread.create'' (Some ''message'') (Some tid) None
                        ''thread created''
                        (upd_msg (\<lambda>m. m\<lparr>mt_threads := ts,
                           mt_messages := update_where (\<lambda>r. ms_project r = p \<and> ms_id r = root)
                             (\<lambda>r. r\<lparr>ms_thread := Some tid\<rparr>) (mt_messages m)\<rparr>) s)) (\<lambda>s'.
                Inr (s', RThread row))))))"

section \<open>The listing of a channel\<close>

text \<open>
  A message's place in the channel is \<open>(created_at, rowid)\<close>; messages are never
  deleted, so the rowid of a message is its position in the table, counted from one.
\<close>

type_synonym place = "stamp \<times> nat"

definition placed :: "message_row list \<Rightarrow> (place \<times> message_row) list" where
  "placed ms = map (\<lambda>(i, m). ((ms_created_at m, Suc i), m)) (enumerate 0 ms)"

definition after_place :: "place option \<Rightarrow> place \<Rightarrow> bool" where
  "after_place cursor k =
     (case cursor of None \<Rightarrow> True | Some c \<Rightarrow> fst k > fst c \<or> (fst k = fst c \<and> snd k > snd c))"

definition message_query :: "db \<Rightarrow> string \<Rightarrow> string \<Rightarrow> string option \<Rightarrow> place option \<Rightarrow> (place \<times> message_row) list" where
  "message_query s p cid thread_id cursor =
     sort_key fst (filter (\<lambda>(k, m). ms_project m = p \<and> ms_channel m = cid
        \<and> (thread_id = None \<or> ms_thread m = thread_id) \<and> after_place cursor k) (placed (messages s)))"

record message_page =
  pg_items :: "message_row list"
  pg_threads :: "thread_row list"
  pg_deliveries :: "delivery_row list"
  pg_next :: "place option"

definition list_messages :: "string \<Rightarrow> string \<Rightarrow> string option \<Rightarrow> string option \<Rightarrow> nat \<Rightarrow> place option \<Rightarrow> db
    \<Rightarrow> error + message_page" where
  "list_messages p cid member_id thread_id limit cursor s =
     bindE (channel_visible s p cid member_id False) (\<lambda>_.
       let fetched = take (limit + 1) (message_query s p cid thread_id cursor);
           rows = take limit fetched;
           shown = map snd rows
       in Inr \<lparr>pg_items = shown,
               pg_threads = sort_key th_updated_at
                 (filter (\<lambda>t. th_project t = p \<and> th_channel t = cid) (threads s)),
               pg_deliveries = sort_key dl_created_at
                 (filter (\<lambda>d. dl_project d = p \<and> dl_message d \<in> set (map ms_id shown)) (deliveries s)),
               pg_next = (if length fetched > limit \<and> rows \<noteq> [] then Some (fst (last rows)) else None)\<rparr>)"

definition list_deliveries :: "string \<Rightarrow> string \<Rightarrow> db \<Rightarrow> delivery_row list" where
  "list_deliveries p mid s =
     sort_key dl_created_at (filter (\<lambda>d. dl_project d = p \<and> dl_message d = mid) (deliveries s))"

text \<open>\<open>_stream_status\<close>: the newest audit row of the project.\<close>

definition stream_status :: "db \<Rightarrow> string \<Rightarrow> (int \<times> string) option" where
  "stream_status s p =
     (case sort_key au_seq (filter (\<lambda>r. au_project r = p) (db_audits s)) of
        [] \<Rightarrow> None
      | rs \<Rightarrow> Some (au_seq (last rs), au_event_id (last rs)))"

end
