(* ===== verification/Credentials.thy ===== *)
theory Credentials
  imports Msg_Store Eligibility
begin

text \<open>
  \<open>server/auth.py\<close> over the credential tables of \<open>server/schema.py\<close>: operators and their
  sessions, agent tokens, enrollment and invitation codes. The connection is in autocommit
  mode, so each statement is a transaction of its own. A secret appears here as the text
  its holder presents; the tables hold its digest, which is a parameter, like the clock.
  Drawn secrets and ids are arguments.
\<close>

section \<open>Exceptions of the API layer\<close>

text \<open>The classes of \<open>server/errors.py\<close> raised here; \<open>Stored\<close> is an exception of the storage layer.\<close>

datatype api_error =
    Unauthenticated string
  | ScopeForbidden string
  | AgentTokenInsufficient string
  | EnrollmentCodeInvalid
  | EnrollmentCodeExpired
  | InvitationCodeInvalid
  | InvitationCodeExpired
  | Stored error

fun api_status :: "api_error \<Rightarrow> nat" where
  "api_status (Unauthenticated _) = 401"
| "api_status (ScopeForbidden _) = 403"
| "api_status (AgentTokenInsufficient _) = 403"
| "api_status EnrollmentCodeInvalid = 422"
| "api_status EnrollmentCodeExpired = 422"
| "api_status InvitationCodeInvalid = 422"
| "api_status InvitationCodeExpired = 422"
| "api_status (Stored e) = err_status e"

definition no_credential :: api_error where
  "no_credential = Unauthenticated ''No valid credential on this request.''"

definition stored :: "error + 'a \<Rightarrow> api_error + 'a" where
  "stored r = (case r of Inl e \<Rightarrow> Inl (Stored e) | Inr x \<Rightarrow> Inr x)"

section \<open>The tables\<close>

record operator_row =
  op_id :: string
  op_project :: string
  op_name :: string
  op_role :: string
  op_created_at :: stamp

record op_session_row =
  os_hash :: string
  os_operator :: string
  os_project :: string
  os_csrf :: string
  os_created_at :: stamp
  os_expires_at :: stamp
  os_revoked_at :: "stamp option"

record token_row =
  tk_hash :: string
  tk_agent :: string
  tk_project :: string
  tk_session :: "string option"
  tk_created_at :: stamp
  tk_revoked_at :: "stamp option"

record enrollment_row =
  en_id :: string
  en_project :: string
  en_agent :: string
  en_hash :: string
  en_created_at :: stamp
  en_expires_at :: stamp
  en_used_at :: "stamp option"

record code_row =
  co_hash :: string
  co_invitation :: string
  co_project :: string
  co_created_at :: stamp
  co_used_at :: "stamp option"

record creds =
  cr_operators :: "operator_row list"
  cr_sessions :: "op_session_row list"
  cr_tokens :: "token_row list"
  cr_enrollments :: "enrollment_row list"
  cr_codes :: "code_row list"

definition no_creds :: creds where
  "no_creds = \<lparr>cr_operators = [], cr_sessions = [], cr_tokens = [], cr_enrollments = [], cr_codes = []\<rparr>"

text \<open>The clock and the digest \<open>hash_secret\<close>.\<close>

record auth_env =
  ae_now :: stamp
  ae_hash :: "string \<Rightarrow> string"

definition OPERATOR_SESSION_SECONDS :: int where "OPERATOR_SESSION_SECONDS = 43200"
definition ENROLLMENT_CODE_SECONDS :: int where "ENROLLMENT_CODE_SECONDS = 600"
definition SESSION_LEASE_SECONDS :: int where "SESSION_LEASE_SECONDS = 1800"

section \<open>Operators\<close>

definition create_operator :: "auth_env \<Rightarrow> string \<Rightarrow> string \<Rightarrow> string \<Rightarrow> string \<Rightarrow> creds \<Rightarrow> api_error + creds" where
  "create_operator h oid p name role c =
     (if role \<notin> {''owner'', ''admin'', ''member'', ''viewer''} then Inl (Stored IntegrityError)
      else stored (bindE (insert_row op_id \<lparr>op_id = oid, op_project = p, op_name = name, op_role = role,
             op_created_at = ae_now h\<rparr> (cr_operators c)) (\<lambda>os. Inr (c\<lparr>cr_operators := os\<rparr>))))"

text \<open>The foreign key: the operator exists.\<close>

definition open_operator_session :: "auth_env \<Rightarrow> string \<Rightarrow> string \<Rightarrow> string \<Rightarrow> string \<Rightarrow> int \<Rightarrow> creds \<Rightarrow> api_error + creds" where
  "open_operator_session h token csrf oid p ttl c =
     (if oid \<notin> op_id ` set (cr_operators c) then Inl (Stored IntegrityError)
      else stored (bindE (insert_row os_hash \<lparr>os_hash = ae_hash h token, os_operator = oid, os_project = p,
             os_csrf = ae_hash h csrf, os_created_at = ae_now h, os_expires_at = ae_now h + ttl,
             os_revoked_at = None\<rparr> (cr_sessions c)) (\<lambda>ss. Inr (c\<lparr>cr_sessions := ss\<rparr>))))"

definition revoke_operator_session :: "auth_env \<Rightarrow> string \<Rightarrow> creds \<Rightarrow> creds" where
  "revoke_operator_session h token c =
     c\<lparr>cr_sessions := update_where (\<lambda>r. os_hash r = ae_hash h token)
        (\<lambda>r. r\<lparr>os_revoked_at := Some (ae_now h)\<rparr>) (cr_sessions c)\<rparr>"

section \<open>Agent tokens\<close>

definition issue_agent_token :: "auth_env \<Rightarrow> string \<Rightarrow> string \<Rightarrow> string \<Rightarrow> string option \<Rightarrow> creds \<Rightarrow> api_error + creds" where
  "issue_agent_token h token aid p sid c =
     stored (bindE (insert_row tk_hash \<lparr>tk_hash = ae_hash h token, tk_agent = aid, tk_project = p,
         tk_session = sid, tk_created_at = ae_now h, tk_revoked_at = None\<rparr> (cr_tokens c))
       (\<lambda>ts. Inr (c\<lparr>cr_tokens := ts\<rparr>)))"

definition revoke_agent_tokens_for_session :: "auth_env \<Rightarrow> string \<Rightarrow> creds \<Rightarrow> creds" where
  "revoke_agent_tokens_for_session h sid c =
     c\<lparr>cr_tokens := update_where (\<lambda>r. tk_session r = Some sid \<and> tk_revoked_at r = None)
        (\<lambda>r. r\<lparr>tk_revoked_at := Some (ae_now h)\<rparr>) (cr_tokens c)\<rparr>"

section \<open>Codes\<close>

definition create_enrollment :: "auth_env \<Rightarrow> string \<Rightarrow> string \<Rightarrow> string \<Rightarrow> string \<Rightarrow> int \<Rightarrow> creds \<Rightarrow> api_error + creds" where
  "create_enrollment h eid code p aid ttl c =
     (if ae_hash h code \<in> en_hash ` set (cr_enrollments c) then Inl (Stored IntegrityError)
      else stored (bindE (insert_row en_id \<lparr>en_id = eid, en_project = p, en_agent = aid, en_hash = ae_hash h code,
             en_created_at = ae_now h, en_expires_at = ae_now h + ttl, en_used_at = None\<rparr> (cr_enrollments c))
           (\<lambda>es. Inr (c\<lparr>cr_enrollments := es\<rparr>))))"

text \<open>
  \<open>consume_enrollment\<close> is two statements: the read with its checks, and the update that
  marks the row as used without looking at it again.
\<close>

definition redeemable :: "auth_env \<Rightarrow> string \<Rightarrow> json \<Rightarrow> creds \<Rightarrow> api_error + enrollment_row" where
  "redeemable h p code c =
     (case code of
        JStr raw \<Rightarrow>
          if raw = [] then Inl EnrollmentCodeInvalid
          else (case List.find (\<lambda>r. en_hash r = ae_hash h raw \<and> en_project r = p) (cr_enrollments c) of
            None \<Rightarrow> Inl EnrollmentCodeInvalid
          | Some row \<Rightarrow>
              if en_used_at row \<noteq> None then Inl EnrollmentCodeInvalid
              else if en_expires_at row \<le> ae_now h then Inl EnrollmentCodeExpired
              else Inr row)
      | _ \<Rightarrow> Inl EnrollmentCodeInvalid)"

definition spend_enrollment :: "auth_env \<Rightarrow> string \<Rightarrow> creds \<Rightarrow> creds" where
  "spend_enrollment h eid c =
     c\<lparr>cr_enrollments := update_where (\<lambda>r. en_id r = eid) (\<lambda>r. r\<lparr>en_used_at := Some (ae_now h)\<rparr>)
        (cr_enrollments c)\<rparr>"

definition consume_enrollment :: "auth_env \<Rightarrow> string \<Rightarrow> json \<Rightarrow> creds \<Rightarrow> api_error + creds \<times> enrollment_row" where
  "consume_enrollment h p code c =
     bindE (redeemable h p code c) (\<lambda>row. Inr (spend_enrollment h (en_id row) c, row))"

definition remember_invitation_code :: "auth_env \<Rightarrow> string \<Rightarrow> string \<Rightarrow> string \<Rightarrow> creds \<Rightarrow> api_error + creds" where
  "remember_invitation_code h code p invid c =
     stored (bindE (insert_row co_hash \<lparr>co_hash = ae_hash h code, co_invitation = invid, co_project = p,
         co_created_at = ae_now h, co_used_at = None\<rparr> (cr_codes c)) (\<lambda>cs. Inr (c\<lparr>cr_codes := cs\<rparr>)))"

definition consume_invitation_code :: "auth_env \<Rightarrow> string \<Rightarrow> json \<Rightarrow> creds \<Rightarrow> db \<Rightarrow> api_error + invitation_row" where
  "consume_invitation_code h p code c s =
     (case code of
        JStr raw \<Rightarrow>
          if raw = [] then Inl InvitationCodeInvalid
          else (case List.find (\<lambda>r. co_hash r = ae_hash h raw \<and> co_project r = p) (cr_codes c) of
            None \<Rightarrow> Inl InvitationCodeInvalid
          | Some row \<Rightarrow>
              if co_used_at row \<noteq> None then Inl InvitationCodeInvalid
              else (case List.find (\<lambda>i. iv_id i = co_invitation row \<and> iv_project i = p) (mt_invitations (db_msg s)) of
                None \<Rightarrow> Inl InvitationCodeInvalid
              | Some i \<Rightarrow>
                  if iv_state i \<noteq> ''pending'' then Inl InvitationCodeInvalid
                  else if iv_expires_at i \<le> ae_now h then Inl InvitationCodeExpired
                  else Inr i))
      | _ \<Rightarrow> Inl InvitationCodeInvalid)"

definition spend_invitation_code :: "auth_env \<Rightarrow> string \<Rightarrow> creds \<Rightarrow> creds" where
  "spend_invitation_code h code c =
     c\<lparr>cr_codes := update_where (\<lambda>r. co_hash r = ae_hash h code) (\<lambda>r. r\<lparr>co_used_at := Some (ae_now h)\<rparr>) (cr_codes c)\<rparr>"

section \<open>Authentication\<close>

datatype principal_kind = OperatorKind | AgentKind

record principal =
  pp_kind :: principal_kind
  pp_project :: string
  pp_actor :: json
  pp_agent :: "string option"
  pp_session :: "string option"
  pp_operator :: "string option"
  pp_role :: "string option"
  pp_csrf :: "string option"

record request =
  rq_method :: string
  rq_path :: string
  rq_authorization :: "string option"
  rq_cookie :: "string option"
  rq_csrf_token :: "string option"
  rq_origin :: "string option"
  rq_referer :: "string option"

definition agent_principal :: "auth_env \<Rightarrow> string \<Rightarrow> creds \<Rightarrow> db \<Rightarrow> api_error + principal" where
  "agent_principal h token c s =
     (case List.find (\<lambda>r. tk_hash r = ae_hash h token) (cr_tokens c) of
        None \<Rightarrow> Inl no_credential
      | Some row \<Rightarrow>
          if tk_revoked_at row \<noteq> None then Inl no_credential
          else (case find_agent s (tk_agent row) of
            None \<Rightarrow> Inl no_credential
          | Some a \<Rightarrow>
              Inr \<lparr>pp_kind = AgentKind, pp_project = tk_project row,
                   pp_actor = JObj [(''type'', JStr ''agent''), (''id'', JStr (ag_id a)),
                     (''display_name'', JStr (ag_name a)), (''session_id'', jopt (tk_session row))],
                   pp_agent = Some (ag_id a), pp_session = tk_session row, pp_operator = None,
                   pp_role = None, pp_csrf = None\<rparr>))"

text \<open>The join: a session whose operator is gone answers no row.\<close>

definition operator_principal :: "auth_env \<Rightarrow> string \<Rightarrow> creds \<Rightarrow> api_error + principal" where
  "operator_principal h token c =
     (case List.find (\<lambda>r. os_hash r = ae_hash h token) (cr_sessions c) of
        None \<Rightarrow> Inl no_credential
      | Some row \<Rightarrow>
          (case List.find (\<lambda>o'. op_id o' = os_operator row) (cr_operators c) of
             None \<Rightarrow> Inl no_credential
           | Some o' \<Rightarrow>
               if os_revoked_at row \<noteq> None then Inl no_credential
               else if os_expires_at row \<le> ae_now h then Inl (Unauthenticated ''Session expired. Sign in again.'')
               else Inr \<lparr>pp_kind = OperatorKind, pp_project = os_project row,
                         pp_actor = JObj [(''type'', JStr ''human''), (''id'', JStr (os_operator row)),
                           (''display_name'', JStr (op_name o')), (''session_id'', JNull)],
                         pp_agent = None, pp_session = None, pp_operator = Some (os_operator row),
                         pp_role = Some (op_role o'), pp_csrf = Some (os_csrf row)\<rparr>))"

text \<open>\<open>header.partition(" ")\<close> and \<open>value.strip()\<close>.\<close>

definition bearer_value :: "string \<Rightarrow> string option" where
  "bearer_value header =
     (let scheme = takeWhile (\<lambda>c. c \<noteq> CHR '' '') header;
          value = py_strip (drop 1 (dropWhile (\<lambda>c. c \<noteq> CHR '' '') header)) in
      if py_lower scheme \<noteq> ''bearer'' \<or> value = [] then None else Some value)"

definition header_principals :: "auth_env \<Rightarrow> request \<Rightarrow> creds \<Rightarrow> db \<Rightarrow> api_error + principal list" where
  "header_principals h rq c s =
     (if \<not> truthy_str (rq_authorization rq) then Inr []
      else case bearer_value (the (rq_authorization rq)) of
        None \<Rightarrow> Inl (Unauthenticated ''Authorization header is not a bearer token.'')
      | Some value \<Rightarrow> bindE (agent_principal h value c s) (\<lambda>p. Inr [p]))"

definition cookie_principals :: "auth_env \<Rightarrow> request \<Rightarrow> creds \<Rightarrow> api_error + principal list" where
  "cookie_principals h rq c =
     (if \<not> truthy_str (rq_cookie rq) then Inr []
      else bindE (operator_principal h (the (rq_cookie rq)) c) (\<lambda>p. Inr [p]))"

definition authenticate_all :: "auth_env \<Rightarrow> request \<Rightarrow> creds \<Rightarrow> db \<Rightarrow> api_error + principal list" where
  "authenticate_all h rq c s =
     bindE (header_principals h rq c s) (\<lambda>ps. bindE (cookie_principals h rq c) (\<lambda>qs. Inr (ps @ qs)))"

definition in_scope :: "principal \<Rightarrow> string option \<Rightarrow> bool" where
  "in_scope p project_id \<longleftrightarrow> project_id = None \<or> Some (pp_project p) = project_id"

section \<open>Cross-site requests\<close>

definition SAFE_METHODS :: "string list" where "SAFE_METHODS = [''GET'', ''HEAD'', ''OPTIONS'']"

text \<open>
  \<open>urlsplit\<close> as far as the scheme and the network location go, for printable ASCII: the
  scheme is a letter and then letters, digits, \<open>+\<close>, \<open>-\<close> and \<open>.\<close> up to the first
  colon; the location stands between \<open>//\<close> and the next \<open>/\<close>, \<open>?\<close> or \<open>#\<close>. A bracket without
  its partner is a \<open>ValueError\<close>.
\<close>

definition is_scheme_char :: "char \<Rightarrow> bool" where
  "is_scheme_char c \<longleftrightarrow> is_lower c \<or> is_upper c \<or> is_digit c \<or> c \<in> {CHR ''+'', CHR ''-'', CHR ''.''}"

definition url_scheme :: "string \<Rightarrow> string \<times> string" where
  "url_scheme url =
     (let s = takeWhile (\<lambda>c. c \<noteq> CHR '':'') url in
      if s \<noteq> [] \<and> length s < length url \<and> (is_lower (hd s) \<or> is_upper (hd s)) \<and> list_all is_scheme_char s
      then (py_lower s, drop (length s + 1) url) else ([], url))"

definition url_origin :: "string \<Rightarrow> api_error + string" where
  "url_origin url =
     (case url_scheme url of (scheme, rest) \<Rightarrow>
        let netloc = (if take 2 rest = ''//''
              then takeWhile (\<lambda>c. c \<notin> {CHR ''/'', CHR ''?'', CHR ''#''}) (drop 2 rest) else []) in
        if (CHR ''['' \<in> set netloc) \<noteq> (CHR '']'' \<in> set netloc) then Inl (Stored ValueError)
        else Inr (scheme @ ''://'' @ netloc))"

definition check_csrf :: "auth_env \<Rightarrow> string list \<Rightarrow> principal \<Rightarrow> request \<Rightarrow> api_error + unit" where
  "check_csrf h allowed p rq =
     (if pp_kind p \<noteq> OperatorKind \<or> rq_method rq \<in> set SAFE_METHODS then Inr ()
      else if \<not> truthy_str (rq_csrf_token rq) \<or> Some (ae_hash h (the (rq_csrf_token rq))) \<noteq> pp_csrf p
      then Inl (ScopeForbidden ''Missing or invalid CSRF token.'')
      else bindE
        (if truthy_str (rq_origin rq) then Inr (the (rq_origin rq))
         else if truthy_str (rq_referer rq) then url_origin (the (rq_referer rq))
         else Inl (ScopeForbidden ''Unsafe request has no Origin or Referer.''))
        (\<lambda>candidate. if candidate \<in> set allowed then Inr ()
           else Inl (ScopeForbidden (''Origin '' @ candidate @ '' is not allowed.''))))"

end
