(* ===== verification/Access.thy ===== *)
theory Access
  imports Credentials
begin

text \<open>
  The seam of \<open>server/app.py\<close> that decides who a request acts as (\<open>_authorize\<close>), and the
  routes that hand out and take back an agent's access: \<open>create_enrollment\<close>'s code, the
  exchange of it for a session and a token, and the revocation of a session lease. The
  state is the pair of the credential tables and the board; a route that raises leaves what
  its earlier statements committed. The shape of a request body is checked by
  \<open>validate.py\<close> before; here its fields are arguments.
\<close>

type_synonym access = "creds \<times> db"

section \<open>Authorisation\<close>

datatype route_auth = AnyCredential | OperatorOnly | AgentOnly | NoCredential

definition satisfies :: "principal \<Rightarrow> route_auth \<Rightarrow> bool" where
  "satisfies p a \<longleftrightarrow>
     (if a = OperatorOnly then pp_kind p = OperatorKind
      else if a = AgentOnly then pp_kind p = AgentKind else True)"

definition require_live_lease :: "auth_env \<Rightarrow> string option \<Rightarrow> string option \<Rightarrow> db \<Rightarrow> api_error + unit" where
  "require_live_lease h aid sid s =
     (let refuse = (\<lambda>why. Inl (Stored (SessionLeaseExpired (str_or_empty sid) [(''reason'', JStr why)]))) in
      case (case sid of None \<Rightarrow> None | Some i \<Rightarrow> find_session s i) of
        None \<Rightarrow> refuse ''no such session for this agent''
      | Some lease \<Rightarrow>
          if Some (se_agent lease) \<noteq> aid then refuse ''no such session for this agent''
          else if se_revoked_at lease \<noteq> None then refuse ''revoked''
          else if se_expires_at lease \<le> ae_now h
          then Inl (Stored (SessionLeaseExpired (str_or_empty sid)
                 [(''reason'', JStr ''lease expired''), (''expires_at'', JInt (se_expires_at lease))]))
          else Inr ())"

definition require_lease_if_unsafe :: "auth_env \<Rightarrow> bool \<Rightarrow> principal \<Rightarrow> request \<Rightarrow> db \<Rightarrow> api_error + unit" where
  "require_lease_if_unsafe h hook p rq s =
     (if pp_kind p \<noteq> AgentKind \<or> rq_method rq \<in> set SAFE_METHODS \<or> hook then Inr ()
      else require_live_lease h (pp_agent p) (pp_session p) s)"

text \<open>\<open>hook\<close>: the handler is \<open>post_hook_event\<close>. A route without credentials has no principal.\<close>

definition authorize :: "auth_env \<Rightarrow> string list \<Rightarrow> request \<Rightarrow> bool \<Rightarrow> route_auth \<Rightarrow> string option \<Rightarrow> access
    \<Rightarrow> api_error + principal option" where
  "authorize h allowed rq hook a project_id st =
     (if a = NoCredential then Inr None
      else bindE (authenticate_all h rq (fst st) (snd st)) (\<lambda>ps.
        let scoped = filter (\<lambda>p. in_scope p project_id) ps; candidates = filter (\<lambda>p. satisfies p a) scoped in
        if ps = [] then Inl no_credential
        else if scoped = []
        then Inl (ScopeForbidden ''This credential is not authorized for the requested project.'')
        else if candidates = []
        then (if a = OperatorOnly then Inl (AgentTokenInsufficient (rq_method rq @ '' '' @ rq_path rq))
              else Inl (ScopeForbidden ''This route acts through a runtime session; use an agent credential.''))
        else let p = hd candidates in
          bindE (check_csrf h allowed p rq) (\<lambda>_.
          bindE (require_lease_if_unsafe h hook p rq (snd st)) (\<lambda>_. Inr (Some p)))))"

section \<open>Enrolling an agent\<close>

text \<open>The pattern \<open>^ses_[0-9a-z]{8,32}$\<close>, whose \<open>$\<close> also matches before a final newline.\<close>

definition session_id_ok :: "string \<Rightarrow> bool" where
  "session_id_ok s =
     (let s' = drop_final_newline s; r = drop 4 s' in
      take 4 s' = ''ses_'' \<and> 8 \<le> length r \<and> length r \<le> 32 \<and> list_all (\<lambda>c. is_digit c \<or> is_lower c) r)"

definition session_id_taken :: api_error where
  "session_id_taken = Stored (MalformedRequest ''session_id is already in use; start a new runtime session.''
     [(''rejected_fields'', jstrs [''session_id''])])"

definition set_default :: "string \<Rightarrow> json \<Rightarrow> json \<Rightarrow> json" where
  "set_default k v d = (if has_key d k then d else py_set k v d)"

text \<open>\<open>runtime.get(key, default)\<close> for a member that may be missing.\<close>

definition member :: "string \<Rightarrow> (string \<times> json) list \<Rightarrow> json \<Rightarrow> json" where
  "member k kvs d = (case map_of kvs k of None \<Rightarrow> d | Some v \<Rightarrow> v)"

definition installed_runtime :: "(string \<times> json) list \<Rightarrow> json" where
  "installed_runtime runtime =
     JObj (filter (\<lambda>kv. snd kv \<noteq> JNull)
       [(''adapter'', member ''adapter'' runtime (JStr ''claude_code'')), (''version'', member ''version'' runtime JNull),
        (''unsupported_capabilities'', JArr [])])"

definition installed_health :: "json \<Rightarrow> json" where
  "installed_health health =
     set_default ''last_error'' JNull
       (set_default ''session_adopted'' (JBool False)
         (set_default ''response_delivered'' (JBool False)
           (set_default ''server_received'' (JBool False) (py_set ''config_installed'' (JBool True) health))))"

definition mark_installed :: "string \<Rightarrow> (string \<times> json) list \<Rightarrow> db \<Rightarrow> db" where
  "mark_installed aid runtime =
     update_agent aid (\<lambda>a. a\<lparr>ag_hook_health := installed_health (ag_hook_health a),
       ag_runtime := installed_runtime runtime, ag_version := ag_version a + 1\<rparr>)"

text \<open>\<open>body.get("runtime") or {}\<close>, or what the route refuses.\<close>

definition runtime_of :: "json \<Rightarrow> (string \<times> json) list option" where
  "runtime_of v =
     (if \<not> truthy v then Some []
      else case v of
        JObj kvs \<Rightarrow> (if set (map fst kvs) \<subseteq> {''adapter'', ''version''} then Some kvs else None)
      | _ \<Rightarrow> None)"

text \<open>
  The exchange: the answer or the exception, and what is committed by then. \<open>token\<close> is the
  secret it draws.
\<close>

definition exchange_enrollment :: "env \<Rightarrow> auth_env \<Rightarrow> string \<Rightarrow> json \<Rightarrow> string \<Rightarrow> json \<Rightarrow> string \<Rightarrow> access
    \<Rightarrow> (api_error + string) \<times> access" where
  "exchange_enrollment e h p code sid runtime token st =
     (case st of (c, s) \<Rightarrow>
      if \<not> session_id_ok sid
      then (Inl (Stored (MalformedRequest ''session_id must look like ses_...''
              [(''rejected_fields'', jstrs [''session_id''])])), st)
      else if find_session s sid \<noteq> None then (Inl session_id_taken, st)
      else case consume_enrollment h p code c of
        Inl x \<Rightarrow> (Inl x, st)
      | Inr (c1, row) \<Rightarrow>
          (case open_session e (en_agent row) (ae_now h + SESSION_LEASE_SECONDS) (Some sid) None s of
             Inl x \<Rightarrow> (Inl (if x = IntegrityError then session_id_taken else Stored x), (c1, s))
           | Inr (s1, _) \<Rightarrow>
               (case runtime_of runtime of
                  None \<Rightarrow> (Inl (Stored (MalformedRequest ''runtime accepts adapter and version only.''
                             [(''rejected_fields'', jstrs [''runtime''])])), (c1, s1))
                | Some kvs \<Rightarrow>
                    let s2 = mark_installed (en_agent row) kvs s1 in
                    (case issue_agent_token h (''tbk_'' @ token) (en_agent row) p (Some sid) c1 of
                       Inl x \<Rightarrow> (Inl x, (c1, s2))
                     | Inr c2 \<Rightarrow> (Inr (''tbk_'' @ token), (c2, s2))))))"

section \<open>Taking access back\<close>

text \<open>\<open>^(agt_[0-9a-z]{8,32}|[a-z][a-z0-9-]{1,31})$\<close>.\<close>

definition agent_id_ok :: "string \<Rightarrow> bool" where
  "agent_id_ok s =
     (let s' = drop_final_newline s; r = drop 4 s' in
      (take 4 s' = ''agt_'' \<and> 8 \<le> length r \<and> length r \<le> 32 \<and> list_all (\<lambda>c. is_digit c \<or> is_lower c) r)
      \<or> (s' \<noteq> [] \<and> is_lower (hd s') \<and> 2 \<le> length s' \<and> length s' \<le> 32
         \<and> list_all (\<lambda>c. is_lower c \<or> is_digit c \<or> c = CHR ''-'') (tl s')))"

definition revoke_agent :: "string \<Rightarrow> db \<Rightarrow> db" where
  "revoke_agent aid = update_agent aid (\<lambda>a. a\<lparr>ag_state := Revoked, ag_version := ag_version a + 1\<rparr>)"

definition revoke_session_lease :: "env \<Rightarrow> auth_env \<Rightarrow> string \<Rightarrow> string \<Rightarrow> int \<Rightarrow> string \<Rightarrow> access
    \<Rightarrow> (api_error + response) \<times> access" where
  "revoke_session_lease e h p aid expected note st =
     (case st of (c, s) \<Rightarrow>
      if \<not> agent_id_ok aid
      then (Inl (Stored (NotFound ''No such agent in this project.'' [(''agent_id'', JStr aid)])), st)
      else case find_agent s aid of
        None \<Rightarrow> (Inl (Stored (NotFound ''No such agent.'' [(''agent_id'', JStr aid)])), st)
      | Some a \<Rightarrow>
          if ag_project a \<noteq> p then (Inl (Stored (NotFound ''No such agent.'' [(''agent_id'', JStr aid)])), st)
          else if ag_version a \<noteq> expected
          then (Inl (Stored (TicketVersionConflict aid expected (ag_version a))), st)
          else case latest_session s aid of
            None \<Rightarrow> (Inl (Stored (NotFound ''That agent has no session lease.'' [(''agent_id'', JStr aid)])), st)
          | Some lease \<Rightarrow>
              if se_revoked_at lease \<noteq> None
              then (Inl (Stored (SessionLeaseExpired (se_id lease) [(''reason'', JStr ''already revoked''),
                      (''revoked_at'', JInt (the (se_revoked_at lease)))])), st)
              else case revoke_session e (se_id lease) (Some note) None s of
                Inl x \<Rightarrow> (Inl (Stored x), st)
              | Inr (s1, _) \<Rightarrow>
                  let c1 = revoke_agent_tokens_for_session h (se_id lease) c; s2 = revoke_agent aid s1 in
                  (case get_agent aid (Some p) s2 of
                     Inl x \<Rightarrow> (Inl (Stored x), (c1, s2))
                   | Inr r \<Rightarrow> (Inr r, (c1, s2))))"

end
