(* ===== verification/Access_Guarantees.thy ===== *)
theory Access_Guarantees
  imports Access
begin

text \<open>
  What the credentials guarantee. The statements on the credential tables are a step
  relation; a key that is dead (a revoked token, a spent code) is dead for ever, which the
  locale \<open>one_way\<close> says once for both tables.
\<close>

section \<open>The credential tables over time\<close>

inductive cstep :: "creds \<Rightarrow> creds \<Rightarrow> bool" where
  operator: "create_operator h oid p name role c = Inr c' \<Longrightarrow> cstep c c'"
| signed_in: "open_operator_session h token csrf oid p ttl c = Inr c' \<Longrightarrow> cstep c c'"
| signed_out: "cstep c (revoke_operator_session h token c)"
| issued: "issue_agent_token h token aid p sid c = Inr c' \<Longrightarrow> cstep c c'"
| revoked: "cstep c (revoke_agent_tokens_for_session h sid c)"
| enrolled: "create_enrollment h eid code p aid ttl c = Inr c' \<Longrightarrow> cstep c c'"
| consumed: "consume_enrollment h p code' c = Inr (c', row) \<Longrightarrow> cstep c c'"
| invited: "remember_invitation_code h code p invid c = Inr c' \<Longrightarrow> cstep c c'"
| spent: "cstep c (spend_invitation_code h code c)"

definition creach :: "creds \<Rightarrow> bool" where
  "creach c \<longleftrightarrow> cstep\<^sup>*\<^sup>* no_creds c"

lemma stored_Inr [simp]: "stored r = Inr x \<longleftrightarrow> r = Inr x"
  by (cases r) (simp_all add: stored_def)

lemmas cred_writes = create_operator_def open_operator_session_def revoke_operator_session_def
  issue_agent_token_def revoke_agent_tokens_for_session_def create_enrollment_def consume_enrollment_def
  spend_enrollment_def remember_invitation_code_def spend_invitation_code_def

text \<open>What a step can do to the two tables: append a row with a new key, or mark rows.\<close>

definition marks :: "('r \<Rightarrow> 'k) \<Rightarrow> ('r \<Rightarrow> stamp option) \<Rightarrow> 'r list \<Rightarrow> 'r list \<Rightarrow> bool" where
  "marks key dead rs rs' \<longleftrightarrow>
     (\<exists>r. rs' = rs @ [r] \<and> key r \<notin> key ` set rs)
     \<or> (\<exists>p f. rs' = update_where p f rs \<and> (\<forall>r. key (f r) = key r) \<and> (\<forall>r. p r \<longrightarrow> dead (f r) \<noteq> None))"

lemma marks_same [simp]: "marks key dead rs rs"
  unfolding marks_def by (rule disjI2) (rule exI [of _ "\<lambda>_. False"], auto simp: update_where_def)

lemma marks_append: "key r \<notin> key ` set rs \<Longrightarrow> marks key dead rs (rs @ [r])"
  by (auto simp: marks_def)

lemma marks_update:
  "(\<And>r. key (f r) = key r) \<Longrightarrow> (\<And>r. p r \<Longrightarrow> dead (f r) \<noteq> None) \<Longrightarrow> marks key dead rs (update_where p f rs)"
  unfolding marks_def by blast

lemma cstep_marks:
  assumes "cstep c c'"
  shows "marks tk_hash tk_revoked_at (cr_tokens c) (cr_tokens c')
    \<and> marks en_hash en_used_at (cr_enrollments c) (cr_enrollments c')"
  using assms
  by cases (auto simp: cred_writes result_simps intro!: marks_append marks_update split: if_splits)

lemma marks_distinct: "marks key dead rs rs' \<Longrightarrow> distinct (map key rs) \<Longrightarrow> distinct (map key rs')"
  by (auto simp: marks_def map_update_where)

definition dead_keys :: "('r \<Rightarrow> 'k) \<Rightarrow> ('r \<Rightarrow> stamp option) \<Rightarrow> 'r list \<Rightarrow> 'k set" where
  "dead_keys key dead rs = {k \<in> key ` set rs. \<forall>r \<in> set rs. key r = k \<longrightarrow> dead r \<noteq> None}"

lemma keys_update_where: "\<forall>r. key (f r) = key r \<Longrightarrow> key ` set (update_where p f rs) = key ` set rs"
  using map_update_where [of p key f rs] by (metis set_map)

lemma marks_dead:
  assumes "marks key dead rs rs'" and "k \<in> dead_keys key dead rs"
  shows "k \<in> dead_keys key dead rs'"
  using assms(1) unfolding marks_def
proof (elim disjE exE conjE)
  fix r assume "rs' = rs @ [r]" "key r \<notin> key ` set rs"
  then show ?thesis using assms(2) by (auto simp: dead_keys_def)
next
  fix p f assume f: "rs' = update_where p f rs" "\<forall>r. key (f r) = key r" "\<forall>r. p r \<longrightarrow> dead (f r) \<noteq> None"
  have "k \<in> key ` set rs'"
    using assms(2) keys_update_where [of key f p rs] f(1,2) by (simp add: dead_keys_def)
  then show ?thesis using assms(2) f by (auto simp: dead_keys_def set_update_where)
qed

section \<open>Dead for ever\<close>

locale one_way =
  fixes step :: "'s \<Rightarrow> 's \<Rightarrow> bool" and gone :: "'s \<Rightarrow> 'k set"
  assumes stays: "step s s' \<Longrightarrow> k \<in> gone s \<Longrightarrow> k \<in> gone s'"
begin

lemma gone_for_ever: "step\<^sup>*\<^sup>* s s' \<Longrightarrow> k \<in> gone s \<Longrightarrow> k \<in> gone s'"
  by (induction rule: rtranclp_induct) (auto intro: stays)

end

definition dead_tokens :: "creds \<Rightarrow> string set" where
  "dead_tokens c = dead_keys tk_hash tk_revoked_at (cr_tokens c)"

definition spent_codes :: "creds \<Rightarrow> string set" where
  "spent_codes c = dead_keys en_hash en_used_at (cr_enrollments c)"

interpretation tokens: one_way cstep dead_tokens
  by unfold_locales (auto simp: dead_tokens_def intro: marks_dead dest: cstep_marks)

interpretation codes: one_way cstep spent_codes
  by unfold_locales (auto simp: spent_codes_def intro: marks_dead dest: cstep_marks)

lemma creach_keys:
  "creach c \<Longrightarrow> distinct (map tk_hash (cr_tokens c)) \<and> distinct (map en_hash (cr_enrollments c))"
  unfolding creach_def
proof (induction rule: rtranclp_induct)
  case base
  then show ?case by (simp add: no_creds_def)
next
  case (step c c')
  then show ?case using cstep_marks [OF step(2)] marks_distinct by metis
qed

lemma dead_token_refused: "ae_hash h token \<in> dead_tokens c \<Longrightarrow> agent_principal h token c s = Inl no_credential"
  by (auto simp: agent_principal_def dead_tokens_def dead_keys_def dest!: find_SomeD split: option.splits)

lemma spent_code_refused:
  "ae_hash h raw \<in> spent_codes c \<Longrightarrow> redeemable h p (JStr raw) c = Inl EnrollmentCodeInvalid"
  by (auto simp: redeemable_def spent_codes_def dead_keys_def dest!: find_SomeD split: option.splits)

section \<open>Codes\<close>

lemma spend_spends:
  assumes "creach c" and row: "row \<in> set (cr_enrollments c)"
  shows "en_hash row \<in> spent_codes (spend_enrollment h (en_id row) c)"
proof -
  have d: "distinct (map en_hash (cr_enrollments c))" using creach_keys [OF assms(1)] by blast
  have one: "x = row" if "x \<in> set (cr_enrollments c)" "en_hash x = en_hash row" for x
    using unique_key [OF d that(1) row that(2)] .
  let ?f = "\<lambda>r. r\<lparr>en_used_at := Some (ae_now h)\<rparr>"
  have "en_hash row \<in> en_hash ` set (update_where (\<lambda>r. en_id r = en_id row) ?f (cr_enrollments c))"
    using row by (subst keys_update_where) auto
  moreover have "en_used_at r \<noteq> None"
    if "r \<in> set (update_where (\<lambda>r. en_id r = en_id row) ?f (cr_enrollments c))" "en_hash r = en_hash row" for r
    using that one by (auto simp: in_update_where)
  ultimately show ?thesis by (auto simp: spent_codes_def dead_keys_def spend_enrollment_def)
qed

text \<open>
  An enrollment code is good for one redemption. Once a code has been redeemed, no call
  redeems it again, in any project, whatever the credential tables went through since; the
  answer is the one an unknown code gets.
\<close>
theorem enrollment_code_redeems_once:
  assumes "creach c" and "consume_enrollment h p code c = Inr (c1, row)" and "cstep\<^sup>*\<^sup>* c1 c2"
    and "ae_hash h' = ae_hash h"
  shows "consume_enrollment h' p' code c2 = Inl EnrollmentCodeInvalid"
proof -
  obtain raw where raw: "code = JStr raw"
    using assms(2) by (cases code) (auto simp: consume_enrollment_def redeemable_def)
  have row: "row \<in> set (cr_enrollments c)" "en_hash row = ae_hash h raw"
    and c1: "c1 = spend_enrollment h (en_id row) c"
    using assms(2) raw
    by (auto simp: consume_enrollment_def redeemable_def result_simps dest!: find_SomeD
        split: if_splits option.splits)
  have "ae_hash h raw \<in> spent_codes c1"
    unfolding c1 row(2) [symmetric] by (rule spend_spends [OF assms(1) row(1)])
  then have "ae_hash h' raw \<in> spent_codes c2"
    unfolding assms(4) by (rule codes.gone_for_ever [OF assms(3)])
  then show ?thesis by (simp add: raw consume_enrollment_def spent_code_refused)
qed

section \<open>Who a request acts as\<close>

lemma agent_principal_Inr:
  assumes "agent_principal h v c s = Inr p"
  shows "pp_kind p = AgentKind \<and> (\<exists>row \<in> set (cr_tokens c). tk_hash row = ae_hash h v \<and> tk_revoked_at row = None
    \<and> pp_agent p = Some (tk_agent row) \<and> pp_session p = tk_session row \<and> pp_project p = tk_project row)"
  using assms by (auto simp: agent_principal_def dest!: find_SomeD find_agent_Some split: option.splits if_splits)

lemma operator_principal_Inr:
  assumes "operator_principal h v c = Inr p"
  shows "pp_kind p = OperatorKind \<and> (\<exists>row \<in> set (cr_sessions c). os_hash row = ae_hash h v \<and> os_revoked_at row = None
    \<and> ae_now h < os_expires_at row \<and> pp_csrf p = Some (os_csrf row) \<and> pp_operator p = Some (os_operator row)
    \<and> pp_project p = os_project row)"
  using assms by (auto simp: operator_principal_def dest!: find_SomeD split: option.splits if_splits)

lemma authenticate_cases:
  assumes "authenticate_all h rq c s = Inr ps" and "p \<in> set ps"
  obtains (bearer) header v where "rq_authorization rq = Some header" "bearer_value header = Some v"
      "agent_principal h v c s = Inr p"
    | (cookie) v where "rq_cookie rq = Some v" "operator_principal h v c = Inr p"
  using assms
  by (auto simp: authenticate_all_def header_principals_def cookie_principals_def truthy_str_def result_simps
      split: if_splits option.splits)

lemma require_live_lease_Inr:
  assumes "require_live_lease h aid sid s = Inr ()"
  shows "\<exists>lease \<in> set (db_sessions s). sid = Some (se_id lease) \<and> aid = Some (se_agent lease)
    \<and> se_revoked_at lease = None \<and> ae_now h < se_expires_at lease"
  using assms
  by (auto simp: require_live_lease_def Let_def find_session_def dest!: find_SomeD split: option.splits if_splits)

lemma check_csrf_Inr:
  assumes "check_csrf h allowed p rq = Inr ()" and "pp_kind p = OperatorKind" and "rq_method rq \<notin> set SAFE_METHODS"
  shows "\<exists>t. rq_csrf_token rq = Some t \<and> pp_csrf p = Some (ae_hash h t)"
    and "\<exists>origin \<in> set allowed. rq_origin rq = Some origin
      \<or> \<not> truthy_str (rq_origin rq) \<and> (\<exists>referer. rq_referer rq = Some referer \<and> url_origin referer = Inr origin)"
  using assms by (auto simp: check_csrf_def truthy_str_def result_simps split: if_splits option.splits)

lemma authorize_Inr:
  assumes "authorize h allowed rq hook a pid (c, s) = Inr (Some p)"
  obtains ps where "authenticate_all h rq c s = Inr ps" "p \<in> set ps" "in_scope p pid" "satisfies p a"
    "check_csrf h allowed p rq = Inr ()" "require_lease_if_unsafe h hook p rq s = Inr ()"
proof -
  obtain ps where ps: "authenticate_all h rq c s = Inr ps"
    and c: "filter (\<lambda>p. satisfies p a) (filter (\<lambda>p. in_scope p pid) ps) \<noteq> []"
    and p: "p = hd (filter (\<lambda>p. satisfies p a) (filter (\<lambda>p. in_scope p pid) ps))"
    and "check_csrf h allowed p rq = Inr ()" "require_lease_if_unsafe h hook p rq s = Inr ()"
    using assms by (auto simp: authorize_def Let_def result_simps split: if_splits)
  moreover have "p \<in> set (filter (\<lambda>p. satisfies p a) (filter (\<lambda>p. in_scope p pid) ps))"
    using c unfolding p by (rule hd_in_set)
  ultimately show ?thesis using that by simp
qed

definition unsafe :: "request \<Rightarrow> bool" where
  "unsafe rq \<longleftrightarrow> rq_method rq \<notin> set SAFE_METHODS"


section \<open>Revocation\<close>

lemma revoke_kills:
  assumes "creach c" and t: "t \<in> set (cr_tokens c)" and "tk_session t = Some sid"
  shows "tk_hash t \<in> dead_tokens (revoke_agent_tokens_for_session h sid c)"
proof -
  have d: "distinct (map tk_hash (cr_tokens c))" using creach_keys [OF assms(1)] by blast
  have one: "x = t" if "x \<in> set (cr_tokens c)" "tk_hash x = tk_hash t" for x
    using unique_key [OF d that(1) t that(2)] .
  let ?p = "\<lambda>r. tk_session r = Some sid \<and> tk_revoked_at r = None" and ?f = "\<lambda>r. r\<lparr>tk_revoked_at := Some (ae_now h)\<rparr>"
  have "tk_hash t \<in> tk_hash ` set (update_where ?p ?f (cr_tokens c))"
    using t by (subst keys_update_where) auto
  moreover have "tk_revoked_at r \<noteq> None"
    if "r \<in> set (update_where ?p ?f (cr_tokens c))" "tk_hash r = tk_hash t" for r
    using that one assms(3) by (auto simp: in_update_where)
  ultimately show ?thesis
    by (auto simp: dead_tokens_def dead_keys_def revoke_agent_tokens_for_session_def)
qed

lemma dead_header_refused:
  assumes "rq_authorization rq = Some header" "bearer_value header = Some token" "a \<noteq> NoCredential"
    and "ae_hash h token \<in> dead_tokens c"
  shows "authorize h allowed rq hook a pid (c, s) = Inl no_credential"
proof -
  have "header \<noteq> []" using assms(2) by (auto simp: bearer_value_def py_lower_def Let_def)
  then show ?thesis using assms dead_token_refused [of h token c s]
    by (simp add: authorize_def authenticate_all_def header_principals_def)
qed

lemma revoke_route_tokens:
  assumes "revoke_session_lease e h p aid expected note (c, s) = (Inr r, (c1, s1))"
    and "latest_session s aid = Some lease"
  shows "c1 = revoke_agent_tokens_for_session h (se_id lease) c"
  using assms by (auto simp: revoke_session_lease_def Let_def split: if_splits option.splits sum.splits prod.splits)

text \<open>
  C11: Revoking an agent's session lease takes its credential with it, for good: a request
  that carries a token issued for that session is unauthenticated on every route that
  reads credentials, whatever cookie it carries too, and whatever the tables went through
  since.
\<close>
theorem revoked_session_is_locked_out:
  assumes "creach c" and "revoke_session_lease e h p aid expected note (c, s) = (Inr r, (c1, s1))"
    and "latest_session s aid = Some lease"
    and "t \<in> set (cr_tokens c)" "tk_session t = Some (se_id lease)" "ae_hash h' token = tk_hash t"
    and "cstep\<^sup>*\<^sup>* c1 c2"
    and "rq_authorization rq = Some header" "bearer_value header = Some token" "a \<noteq> NoCredential"
  shows "authorize h' allowed rq hook a pid (c2, s2) = Inl no_credential"
proof -
  have "tk_hash t \<in> dead_tokens c1"
    unfolding revoke_route_tokens [OF assms(2,3)] by (rule revoke_kills [OF assms(1,4,5)])
  then have "ae_hash h' token \<in> dead_tokens c2"
    unfolding assms(6) by (rule tokens.gone_for_ever [OF assms(7)])
  then show ?thesis by (rule dead_header_refused [OF assms(8-10)])
qed

section \<open>A code that is burnt\<close>

text \<open>
  C38: The exchange checks the runtime field last: a request that is refused for it has
  already spent its code and opened its session. No token was issued for the session, the
  session id is taken, and the code is not accepted again.
\<close>
theorem bad_runtime_burns_the_code:
  assumes "creach c" and "session_id_ok sid" "find_session s sid = None" "runtime_of runtime = None"
    and "redeemable h p code c = Inr row"
    and "open_session e (en_agent row) (ae_now h + SESSION_LEASE_SECONDS) (Some sid) None s = Inr (s1, r)"
  shows "\<exists>c1 why. exchange_enrollment e h p code sid runtime token (c, s) = (Inl (Stored (MalformedRequest why
        [(''rejected_fields'', jstrs [''runtime''])])), (c1, s1))
    \<and> find_session s1 sid \<noteq> None \<and> cr_tokens c1 = cr_tokens c
    \<and> (\<forall>h' p'. ae_hash h' = ae_hash h \<longrightarrow> consume_enrollment h' p' code c1 = Inl EnrollmentCodeInvalid)"
proof -
  obtain raw where raw: "code = JStr raw"
    using assms(5) by (cases code) (auto simp: redeemable_def)
  have row: "row \<in> set (cr_enrollments c)" "en_hash row = ae_hash h raw"
    using assms(5) raw by (auto simp: redeemable_def dest!: find_SomeD split: if_splits option.splits)
  let ?c = "spend_enrollment h (en_id row) c"
  have "ae_hash h raw \<in> spent_codes ?c" using spend_spends [OF assms(1) row(1), of h] row(2) by simp
  then have no: "consume_enrollment h' p' code ?c = Inl EnrollmentCodeInvalid" if "ae_hash h' = ae_hash h" for h' p'
    using that spent_code_refused [of h' raw ?c p'] by (simp add: raw consume_enrollment_def)
  have "sid \<noteq> []" using assms(2) by (auto simp: session_id_ok_def drop_final_newline_def Let_def)
  then have "find_session s1 sid \<noteq> None" using assms(6)
    by (auto simp: open_session_def get_session_def result_simps Let_def split: option.splits if_splits)
  then show ?thesis using assms(2-6) no
    by (auto simp: exchange_enrollment_def consume_enrollment_def spend_enrollment_def)
qed

section \<open>On concrete tables\<close>

definition clocked :: "int \<Rightarrow> auth_env" where
  "clocked n = \<lparr>ae_now = n, ae_hash = rev\<rparr>"

definition board :: db where
  "board = empty_db\<lparr>
     db_agents := [\<lparr>ag_id = ''ann'', ag_project = ''p'', ag_name = ''ann'', ag_role = None, ag_capabilities = [],
       ag_state = Idle, ag_mode = ''managed'', ag_runtime = JObj [], ag_max_active = 1, ag_current_ticket = None,
       ag_worktree = None, ag_hook_health = JObj [], ag_last_heartbeat_at = None, ag_last_progress_at = None,
       ag_version = 1, ag_created_at = 2\<rparr>]\<rparr>"

text \<open>An agent with a code, and the same agent once it has exchanged it.\<close>

definition with_code :: creds where
  "with_code = (case create_enrollment (clocked 5) ''enr_1'' ''secret'' ''p'' ''ann'' 600 no_creds of
     Inl _ \<Rightarrow> no_creds | Inr c \<Rightarrow> c)"

definition enrolled :: access where
  "enrolled = snd (exchange_enrollment (demo_env 6) (clocked 6) ''p'' (JStr ''secret'') ''ses_00000001'' JNull ''tok''
     (with_code, board))"

definition get_tickets :: request where
  "get_tickets = \<lparr>rq_method = ''GET'', rq_path = ''/tickets'', rq_authorization = Some ''Bearer tbk_tok'',
     rq_cookie = None, rq_csrf_token = None, rq_origin = None, rq_referer = None\<rparr>"

definition post_ticket :: request where
  "post_ticket = get_tickets\<lparr>rq_method := ''POST''\<rparr>"

lemma with_code_step: "cstep no_creds with_code"
proof -
  have "create_enrollment (clocked 5) ''enr_1'' ''secret'' ''p'' ''ann'' 600 no_creds = Inr with_code" by code_simp
  then show ?thesis by (rule cstep.enrolled)
qed

lemma with_code_reach: "creach with_code"
  using with_code_step by (simp add: creach_def)

definition used :: creds where
  "used = spend_enrollment (clocked 6) ''enr_1'' with_code"

lemma used_row: "\<exists>row. consume_enrollment (clocked 6) ''p'' (JStr ''secret'') with_code = Inr (used, row)"
proof -
  have "map_sum id fst (consume_enrollment (clocked 6) ''p'' (JStr ''secret'') with_code) = Inr used" by code_simp
  then show ?thesis by (cases "consume_enrollment (clocked 6) ''p'' (JStr ''secret'') with_code") auto
qed

theorem enrollment_code_redeems_once_witness:
  "consume_enrollment (clocked 7) ''q'' (JStr ''secret'') used = Inl EnrollmentCodeInvalid"
proof -
  obtain row where "consume_enrollment (clocked 6) ''p'' (JStr ''secret'') with_code = Inr (used, row)"
    using used_row by blast
  then show ?thesis
    by (rule enrollment_code_redeems_once [OF with_code_reach]) (simp_all add: clocked_def)
qed

theorem bad_runtime_burns_the_code_witness:
  "\<exists>c1 s1. cr_tokens c1 = [] \<and> find_session s1 ''ses_00000001'' \<noteq> None
     \<and> consume_enrollment (clocked 7) ''p'' (JStr ''secret'') c1 = Inl EnrollmentCodeInvalid"
proof -
  have s: "session_id_ok ''ses_00000001''" "find_session board ''ses_00000001'' = None"
    "runtime_of (JStr ''cursor'') = None" "cr_tokens with_code = []" by code_simp+
  have "map_sum id en_agent (redeemable (clocked 6) ''p'' (JStr ''secret'') with_code) = Inr ''ann''" by code_simp
  then obtain row where r: "redeemable (clocked 6) ''p'' (JStr ''secret'') with_code = Inr row" "en_agent row = ''ann''"
    by (cases "redeemable (clocked 6) ''p'' (JStr ''secret'') with_code") auto
  have "(case open_session (demo_env 6) ''ann'' (ae_now (clocked 6) + SESSION_LEASE_SECONDS) (Some ''ses_00000001'') None board
      of Inl _ \<Rightarrow> False | Inr _ \<Rightarrow> True)" by code_simp
  then obtain s1 q where o: "open_session (demo_env 6) (en_agent row) (ae_now (clocked 6) + SESSION_LEASE_SECONDS)
      (Some ''ses_00000001'') None board = Inr (s1, q)" unfolding r(2) by (auto split: sum.splits)
  obtain c1 where "cr_tokens c1 = cr_tokens with_code" "find_session s1 ''ses_00000001'' \<noteq> None"
    "\<forall>h' p'. ae_hash h' = ae_hash (clocked 6) \<longrightarrow> consume_enrollment h' p' (JStr ''secret'') c1 = Inl EnrollmentCodeInvalid"
    using bad_runtime_burns_the_code [OF with_code_reach s(1-3) r(1) o] by blast
  then show ?thesis using s(4) by (intro exI [of _ c1] exI [of _ s1]) (simp add: clocked_def)
qed

definition acts_as :: "api_error + principal option \<Rightarrow> string option" where
  "acts_as r = (case r of Inl _ \<Rightarrow> None | Inr None \<Rightarrow> None | Inr (Some p) \<Rightarrow> pp_agent p)"


lemma enrolled_reach: "creach (fst enrolled)"
proof -
  obtain row where "consume_enrollment (clocked 6) ''p'' (JStr ''secret'') with_code = Inr (used, row)"
    using used_row by blast
  then have "cstep with_code used" by (rule cstep.consumed)
  moreover have "issue_agent_token (clocked 6) ''tbk_tok'' ''ann'' ''p'' (Some ''ses_00000001'') used = Inr (fst enrolled)"
    by code_simp
  then have "cstep used (fst enrolled)" by (rule cstep.issued)
  ultimately show ?thesis
    using with_code_reach unfolding creach_def by (meson rtranclp.rtrancl_into_rtrancl)
qed

theorem revoked_session_is_locked_out_witness:
  "acts_as (authorize (clocked 8) [] get_tickets False AnyCredential (Some ''p'') (fst enrolled, snd enrolled)) = Some ''ann''
   \<and> (\<exists>c1 s1. snd (revoke_session_lease (demo_env 9) (clocked 9) ''p'' ''ann'' 2 ''gone'' enrolled) = (c1, s1)
        \<and> authorize (clocked 10) [] get_tickets False AnyCredential (Some ''p'') (c1, s1) = Inl no_credential)"
proof -
  obtain c s where e: "enrolled = (c, s)" by (rule prod.exhaust)
  let ?out = "revoke_session_lease (demo_env 9) (clocked 9) ''p'' ''ann'' 2 ''gone'' enrolled"
  have "(case fst ?out of Inl _ \<Rightarrow> False | Inr _ \<Rightarrow> True)" by code_simp
  then obtain r c1 s1 where out: "revoke_session_lease (demo_env 9) (clocked 9) ''p'' ''ann'' 2 ''gone'' (c, s) = (Inr r, (c1, s1))"
    unfolding e by (cases "revoke_session_lease (demo_env 9) (clocked 9) ''p'' ''ann'' 2 ''gone'' (c, s)")
      (auto split: sum.splits)
  have "map_option se_id (latest_session (snd enrolled) ''ann'') = Some ''ses_00000001''" by code_simp
  then obtain lease where lease: "latest_session s ''ann'' = Some lease" "se_id lease = ''ses_00000001''" by (auto simp: e)
  have "map (\<lambda>t. (tk_hash t, tk_session t)) (cr_tokens (fst enrolled)) = [(rev ''tbk_tok'', Some ''ses_00000001'')]" by code_simp
  then obtain t where t: "t \<in> set (cr_tokens c)" "tk_session t = Some (se_id lease)" "tk_hash t = rev ''tbk_tok''"
    by (auto simp: e lease(2) map_eq_Cons_conv)
  have b: "bearer_value ''Bearer tbk_tok'' = Some ''tbk_tok''" by code_simp
  have "creach c" using enrolled_reach by (simp add: e)
  then have "authorize (clocked 10) [] get_tickets False AnyCredential (Some ''p'') (c1, s1) = Inl no_credential"
    by (rule revoked_session_is_locked_out [OF _ out lease(1) t(1,2) _ rtranclp.rtrancl_refl _ b])
      (simp_all add: clocked_def t(3) get_tickets_def)
  moreover have "acts_as (authorize (clocked 8) [] get_tickets False AnyCredential (Some ''p'') (fst enrolled, snd enrolled)) = Some ''ann''"
    by code_simp
  ultimately show ?thesis using out by (simp add: e)
qed

end
