(* ===== verification/Run_Store.thy ===== *)
theory Run_Store
  imports Msg_Store
begin

text \<open>
  \<open>MessagingMixin\<close> of \<open>storage/messaging.py\<close>, second half: the delivery state machine,
  wake jobs, runs and runner leases.
\<close>

section \<open>Deliveries\<close>

definition delivery_row_of :: "db \<Rightarrow> string \<Rightarrow> string \<Rightarrow> error + delivery_row" where
  "delivery_row_of s p did =
     (case List.find (\<lambda>d. dl_id d = did) (deliveries s) of
        None \<Rightarrow> Inl (NotFound ''No such delivery.'' [(''delivery_id'', JStr did)])
      | Some d \<Rightarrow> if dl_project d \<noteq> p then Inl (ForbiddenScope p (Some did)) else Inr d)"

fun DELIVERY_TRANSITIONS :: "delivery_state \<Rightarrow> delivery_state list" where
  "DELIVERY_TRANSITIONS Sent = [DQueued, Delivered, DBlocked, AwaitingApproval, Canceled, Failed]"
| "DELIVERY_TRANSITIONS DQueued = [Delivered, Started, DBlocked, AwaitingApproval, Canceled, Failed]"
| "DELIVERY_TRANSITIONS Delivered = [Started, Responded, Canceled, Failed]"
| "DELIVERY_TRANSITIONS Started = [Responded, AwaitingApproval, Canceled, Failed]"
| "DELIVERY_TRANSITIONS DBlocked = [DQueued, Canceled, Failed]"
| "DELIVERY_TRANSITIONS AwaitingApproval = [DQueued, Started, Canceled, Failed]"
| "DELIVERY_TRANSITIONS Responded = []"
| "DELIVERY_TRANSITIONS Canceled = []"
| "DELIVERY_TRANSITIONS Failed = []"

record delivery_args =
  da_state :: string
  da_expected :: int
  da_reason :: "string option"
  da_detail :: "string option"
  da_run :: "string option"
  da_blocking :: "string option"
  da_next :: "stamp option"

definition delivery_write :: "env \<Rightarrow> delivery_state \<Rightarrow> delivery_args \<Rightarrow> delivery_row \<Rightarrow> delivery_row" where
  "delivery_write e st a d =
     d\<lparr>dl_state := st, dl_reason := da_reason a, dl_detail := da_detail a,
       dl_run := coalesce (da_run a) (dl_run d), dl_blocking := da_blocking a,
       dl_next_attempt := da_next a,
       dl_attempts := dl_attempts d + (if st = DQueued then 1 else 0),
       dl_updated_at := clock e, dl_version := dl_version d + 1\<rparr>"

definition transition_delivery_act :: "env \<Rightarrow> string \<Rightarrow> string \<Rightarrow> delivery_state \<Rightarrow> delivery_args
    \<Rightarrow> string option \<Rightarrow> json option \<Rightarrow> db \<Rightarrow> error + db \<times> response" where
  "transition_delivery_act e p did st a rq actor s =
     bindE (delivery_row_of s p did) (\<lambda>row.
       if dl_version row \<noteq> da_expected a
       then Inl (TicketVersionConflict did (da_expected a) (dl_version row))
       else if st \<notin> set (DELIVERY_TRANSITIONS (dl_state row))
       then Inl (InvalidStateTransition did (delivery_name (dl_state row)) (da_state a))
       else bindE (audit e 0 p (actor_or_system actor) ''delivery.transition'' (Some ''message'') (Some did) rq
                    (''delivery '' @ did @ '' -> '' @ da_state a)
                    (upd_msg (\<lambda>m. m\<lparr>mt_deliveries := update_where (\<lambda>d. dl_id d = did)
                       (delivery_write e st a) (mt_deliveries m)\<rparr>) s)) (\<lambda>s'.
            bindE (delivery_row_of s' p did) (\<lambda>d. Inr (s', RDelivery d))))"

definition jnat :: "int option \<Rightarrow> json" where
  "jnat v = (case v of None \<Rightarrow> JNull | Some i \<Rightarrow> JInt i)"

definition transition_delivery :: "env \<Rightarrow> string \<Rightarrow> string \<Rightarrow> delivery_args \<Rightarrow> string option \<Rightarrow> json option \<Rightarrow> db
    \<Rightarrow> error + db \<times> response" where
  "transition_delivery e p did a rq actor s =
     (case parse_delivery_state (da_state a) of
        None \<Rightarrow> Inl (MalformedRequest ''state is not a valid value.'' [(''state'', JStr (da_state a))])
      | Some st \<Rightarrow>
          bindE (case da_reason a of None \<Rightarrow> Inr () | Some r \<Rightarrow> assert_member r DELIVERY_REASONS ''reason'') (\<lambda>_.
            idem e p rq ''transition_delivery''
              (JObj [(''delivery_id'', JStr did), (''to_state'', JStr (da_state a)),
                     (''expected_version'', JInt (da_expected a)), (''reason'', jopt (da_reason a)),
                     (''reason_detail'', jopt (da_detail a)), (''run_id'', jopt (da_run a)),
                     (''blocking_ticket_id'', jopt (da_blocking a)), (''next_attempt_at'', jnat (da_next a))])
              (transition_delivery_act e p did st a rq actor) s))"

section \<open>Budgets\<close>

definition DEFAULT_BUDGET :: "(string \<times> json) list" where
  "DEFAULT_BUDGET = [(''max_hops'', JInt 3), (''max_turns'', JInt 10), (''max_seconds'', JInt 900),
     (''hops_used'', JInt 0), (''turns_used'', JInt 0), (''seconds_used'', JInt 0)]"

text \<open>\<open>dict.update\<close>: members of the argument replace or follow the ones that are there.\<close>

definition py_update :: "json \<Rightarrow> (string \<times> json) list \<Rightarrow> json" where
  "py_update d kvs = foldl (\<lambda>d kv. py_set (fst kv) (snd kv) d) d kvs"

definition budget :: "(string \<times> json) list option \<Rightarrow> json" where
  "budget v = (case v of None \<Rightarrow> JObj DEFAULT_BUDGET | Some kvs \<Rightarrow> py_update (JObj DEFAULT_BUDGET) kvs)"

definition members_of :: "json \<Rightarrow> (string \<times> json) list" where
  "members_of j = (case j of JObj kvs \<Rightarrow> kvs | _ \<Rightarrow> [])"

section \<open>Wake jobs\<close>

definition wake_row_of :: "db \<Rightarrow> string \<Rightarrow> string \<Rightarrow> error + wake_row" where
  "wake_row_of s p wid =
     (case List.find (\<lambda>w. wk_id w = wid) (wakes s) of
        None \<Rightarrow> Inl (NotFound ''No such wake job.'' [(''wake_job_id'', JStr wid)])
      | Some w \<Rightarrow> if wk_project w \<noteq> p then Inl (ForbiddenScope p (Some wid)) else Inr w)"

definition dedupe_key :: "string \<Rightarrow> string \<Rightarrow> string" where
  "dedupe_key mid aid = mid @ '':'' @ aid"

definition new_wake :: "env \<Rightarrow> string \<Rightarrow> string \<Rightarrow> string \<Rightarrow> string \<Rightarrow> string option \<Rightarrow> string \<Rightarrow> wake_row" where
  "new_wake e p mid aid did tid wid =
     \<lparr>wk_id = wid, wk_project = p, wk_message = mid, wk_agent = aid, wk_delivery = did, wk_ticket = tid,
      wk_state = WPending, wk_dedupe = dedupe_key mid aid, wk_attempts = 0, wk_lease = None,
      wk_created_at = clock e\<rparr>"

text \<open>A second job for the same message and agent is the first one, unlogged and unaudited.\<close>

definition create_wake_job_act :: "env \<Rightarrow> string \<Rightarrow> string \<Rightarrow> string \<Rightarrow> string \<Rightarrow> string option \<Rightarrow> string
    \<Rightarrow> string option \<Rightarrow> json option \<Rightarrow> db \<Rightarrow> error + (db \<times> response) \<times> bool" where
  "create_wake_job_act e p mid aid did tid wid rq actor s =
     bindE (message_row_of s p mid) (\<lambda>_.
     bindE (delivery_row_of s p did) (\<lambda>_.
       case List.find (\<lambda>w. wk_project w = p \<and> wk_dedupe w = dedupe_key mid aid) (wakes s) of
         Some w \<Rightarrow> Inr ((s, RWake w), False)
       | None \<Rightarrow>
           if find_agent s aid = None then Inl IntegrityError
           else bindE (insert_row wk_id (new_wake e p mid aid did tid wid) (wakes s)) (\<lambda>ws.
                bindE (audit e 1 p (actor_or_system actor) ''wake_job.create'' (Some ''run'') (Some wid) rq
                        ''wake job created'' (upd_msg (\<lambda>m. m\<lparr>mt_wakes := ws\<rparr>) s)) (\<lambda>s'.
                bindE (wake_row_of s' p wid) (\<lambda>w. Inr ((s', RWake w), True))))))"

text \<open>\<open>_remember\<close> is reached only by a call that created its job.\<close>

definition create_wake_job :: "env \<Rightarrow> string \<Rightarrow> string \<Rightarrow> string \<Rightarrow> string \<Rightarrow> string option \<Rightarrow> string option
    \<Rightarrow> string option \<Rightarrow> json option \<Rightarrow> db \<Rightarrow> error + db \<times> response" where
  "create_wake_job e p mid aid did tid wake_job_id rq actor s =
     (let body = JObj [(''message_id'', JStr mid), (''recipient_agent_id'', JStr aid),
                       (''delivery_id'', JStr did), (''ticket_id'', jopt tid)]
      in bindE (replay e p rq ''create_wake_job'' body s) (\<lambda>stored.
           case stored of
             Some r \<Rightarrow> Inr (s, r)
           | None \<Rightarrow>
               bindE (create_wake_job_act e p mid aid did tid (id_or_mint wake_job_id ''wjb'' (rnd e 0)) rq actor s)
                 (\<lambda>((s', r), created).
                    if created then bindE (remember e p rq ''create_wake_job'' body r s') (\<lambda>s''. Inr (s'', r))
                    else Inr (s', r))))"

definition list_wake_jobs :: "string \<Rightarrow> string option \<Rightarrow> db \<Rightarrow> wake_row list" where
  "list_wake_jobs p aid s =
     sort_key wk_created_at
       (filter (\<lambda>w. wk_project w = p \<and> (aid = None \<or> aid = Some (wk_agent w))) (wakes s))"

definition WAKE_LEASE_SECONDS :: int where "WAKE_LEASE_SECONDS = 120"

definition WAKE_MAX_ATTEMPTS :: int where "WAKE_MAX_ATTEMPTS = 3"

definition run_id_for_wake_job :: "string \<Rightarrow> string" where
  "run_id_for_wake_job wid = ''run_'' @ drop 4 wid"

definition terminal_run :: "run_state \<Rightarrow> bool" where
  "terminal_run st \<longleftrightarrow> st = RResponded \<or> st = RCanceled \<or> st = RFailed"

definition set_wake :: "string \<Rightarrow> (wake_row \<Rightarrow> wake_row) \<Rightarrow> db \<Rightarrow> db" where
  "set_wake wid f s = upd_msg (\<lambda>m. m\<lparr>mt_wakes := update_where (\<lambda>w. wk_id w = wid) f (mt_wakes m)\<rparr>) s"

definition set_run :: "string \<Rightarrow> (run_row \<Rightarrow> run_row) \<Rightarrow> db \<Rightarrow> db" where
  "set_run rid f s = upd_msg (\<lambda>m. m\<lparr>mt_runs := update_where (\<lambda>r. ru_id r = rid) f (mt_runs m)\<rparr>) s"

definition ORPHAN_REASON :: string where
  "ORPHAN_REASON = ''The runner lease expired while this run was in flight. Its effects are uncertain; it needs review and was not retried.''"

definition orphan_run :: "stamp \<Rightarrow> run_row \<Rightarrow> run_row" where
  "orphan_run now r = r\<lparr>ru_state := RFailed, ru_reason := Some ORPHAN_REASON, ru_ended := Some now,
     ru_version := ru_version r + 1\<rparr>"

text \<open>
  The run a wake job is looked up by: \<open>SELECT * FROM runs WHERE wake_job_id = ?\<close> without
  an order, so the first row in table order.
\<close>

definition run_of_wake :: "db \<Rightarrow> string \<Rightarrow> run_row option" where
  "run_of_wake s wid = List.find (\<lambda>r. ru_wake r = Some wid) (runs s)"

text \<open>
  One turn of the loop of \<open>_reclaim_expired\<close>; \<open>k\<close> counts the suffixes drawn so far and is
  returned for the next turn.
\<close>

definition reclaim_one :: "env \<Rightarrow> string \<Rightarrow> stamp \<Rightarrow> wake_row \<Rightarrow> nat \<times> db \<Rightarrow> error + nat \<times> db" where
  "reclaim_one e p now job ks =
     (let k = fst ks; s = snd ks in
      case run_of_wake s (wk_id job) of
        Some run \<Rightarrow>
          if ru_state run = RPaused then Inr (k, s)
          else if ru_state run \<noteq> RPending
          then bindE (if terminal_run (ru_state run) then Inr (k, s)
                      else bindE (audit e k p SYSTEM_ACTOR ''run.event.orphaned'' (Some ''run'')
                                   (Some (ru_id run)) None ORPHAN_REASON
                                   (set_run (ru_id run) (orphan_run now) s)) (\<lambda>s1. Inr (k + 2, s1)))
                 (\<lambda>(k1, s1).
                  bindE (audit e k1 p SYSTEM_ACTOR ''wake_job.failed'' (Some ''run'') (Some (wk_id job)) None
                          ''wake job orphaned by an expired runner lease after its run had started''
                          (set_wake (wk_id job) (\<lambda>w. w\<lparr>wk_state := WFailed, wk_lease := None\<rparr>) s1)) (\<lambda>s2.
                  Inr (k1 + 2, s2)))
          else bindE (audit e k p SYSTEM_ACTOR ''wake_job.reclaimed'' (Some ''run'') (Some (wk_id job)) None
                       ''lease expired before the run started; requeued for another attempt''
                       (set_wake (wk_id job) (\<lambda>w. w\<lparr>wk_state := WPending, wk_lease := None\<rparr>) s)) (\<lambda>s1.
               Inr (k + 2, s1))
      | None \<Rightarrow>
          bindE (audit e k p SYSTEM_ACTOR ''wake_job.reclaimed'' (Some ''run'') (Some (wk_id job)) None
                   ''lease expired before the run started; requeued for another attempt''
                   (set_wake (wk_id job) (\<lambda>w. w\<lparr>wk_state := WPending, wk_lease := None\<rparr>) s)) (\<lambda>s1.
          Inr (k + 2, s1)))"

definition expired_jobs :: "string \<Rightarrow> string \<Rightarrow> stamp \<Rightarrow> db \<Rightarrow> wake_row list" where
  "expired_jobs p aid now s =
     filter (\<lambda>w. wk_project w = p \<and> wk_agent w = aid \<and> wk_state w = WLeased
        \<and> (case wk_lease w of None \<Rightarrow> False | Some x \<Rightarrow> x \<le> now)) (wakes s)"

definition reclaim_expired :: "env \<Rightarrow> nat \<Rightarrow> string \<Rightarrow> string \<Rightarrow> stamp \<Rightarrow> db \<Rightarrow> error + nat \<times> db" where
  "reclaim_expired e k p aid now s = foldE (reclaim_one e p now) (expired_jobs p aid now s) (k, s)"

definition agent_is_busy :: "db \<Rightarrow> string \<Rightarrow> string \<Rightarrow> bool" where
  "agent_is_busy s p aid \<longleftrightarrow>
     list_ex (\<lambda>r. ru_project r = p \<and> ru_agent r = aid
        \<and> (ru_state r = RStarting \<or> ru_state r = RRunning \<or> ru_state r = RPaused)) (runs s)
     \<or> list_ex (\<lambda>w. wk_project w = p \<and> wk_agent w = aid \<and> wk_state w = WLeased) (wakes s)"

definition find_runner :: "db \<Rightarrow> string \<Rightarrow> runner_row option" where
  "find_runner s aid = List.find (\<lambda>l. rl_agent l = aid) (db_runners s)"

definition assert_runner_lease :: "db \<Rightarrow> string \<Rightarrow> string \<Rightarrow> string \<Rightarrow> int \<Rightarrow> stamp \<Rightarrow> error + runner_row" where
  "assert_runner_lease s p aid runner epoch now =
     (case find_runner s aid of
        None \<Rightarrow> Inl (RunAlreadyActive aid None None)
      | Some l \<Rightarrow>
          if rl_project l \<noteq> p then Inl (RunAlreadyActive aid None None)
          else if rl_runner l \<noteq> runner \<or> rl_epoch l \<noteq> epoch \<or> rl_expires_at l \<le> now
          then Inl (RunAlreadyActive aid (Some (rl_runner l)) (Some (rl_epoch l)))
          else Inr l)"

text \<open>A pending job that has used its attempts moves to the failed queue.\<close>

definition retire_one :: "env \<Rightarrow> string \<Rightarrow> wake_row \<Rightarrow> nat \<times> db \<Rightarrow> error + nat \<times> db" where
  "retire_one e p job ks =
     bindE (audit e (fst ks) p SYSTEM_ACTOR ''wake_job.failed'' (Some ''run'') (Some (wk_id job)) None
              (''wake job exhausted '' @ dec_int WAKE_MAX_ATTEMPTS @ '' attempts; moved to the failed queue'')
              (set_wake (wk_id job) (\<lambda>w. w\<lparr>wk_state := WFailed\<rparr>) (snd ks))) (\<lambda>s1.
       Inr (fst ks + 2, s1))"

definition retire_exhausted :: "env \<Rightarrow> nat \<Rightarrow> string \<Rightarrow> string \<Rightarrow> db \<Rightarrow> error + nat \<times> db" where
  "retire_exhausted e k p aid s =
     foldE (retire_one e p)
       (filter (\<lambda>w. wk_project w = p \<and> wk_agent w = aid \<and> wk_state w = WPending
          \<and> wk_attempts w \<ge> WAKE_MAX_ATTEMPTS) (wakes s)) (k, s)"

definition lease_budget :: "db \<Rightarrow> string \<Rightarrow> (string \<times> json) list option" where
  "lease_budget s aid = map_option (\<lambda>l. members_of (rl_budget l)) (find_runner s aid)"

definition minted_run :: "env \<Rightarrow> string \<Rightarrow> string \<Rightarrow> wake_row \<Rightarrow> stamp \<Rightarrow> db \<Rightarrow> run_row" where
  "minted_run e p aid job now s =
     \<lparr>ru_id = run_id_for_wake_job (wk_id job), ru_project = p, ru_agent = aid, ru_session = None,
      ru_wake = Some (wk_id job), ru_ticket = wk_ticket job, ru_state = RPending, ru_reason = None,
      ru_budget = budget (lease_budget s aid), ru_approval = False, ru_started = None, ru_ended = None,
      ru_created_at = now, ru_version = 1\<rparr>"

definition mint_run_for :: "env \<Rightarrow> nat \<Rightarrow> string \<Rightarrow> string \<Rightarrow> wake_row \<Rightarrow> stamp \<Rightarrow> db \<Rightarrow> error + nat \<times> db" where
  "mint_run_for e k p aid job now s =
     (if list_ex (\<lambda>r. ru_id r = run_id_for_wake_job (wk_id job)) (runs s) then Inr (k, s)
      else bindE (audit e k p SYSTEM_ACTOR ''run.create'' (Some ''run'') (Some (run_id_for_wake_job (wk_id job)))
                   None (''run minted for wake job '' @ wk_id job)
                   (upd_msg (\<lambda>m. m\<lparr>mt_runs := mt_runs m @ [minted_run e p aid job now s]\<rparr>) s)) (\<lambda>s1.
           Inr (k + 2, s1)))"

definition next_job :: "db \<Rightarrow> string \<Rightarrow> string \<Rightarrow> wake_row option" where
  "next_job s p aid =
     (case sort_key wk_created_at (filter (\<lambda>w. wk_project w = p \<and> wk_agent w = aid \<and> wk_state w = WPending) (wakes s)) of
        [] \<Rightarrow> None
      | w # _ \<Rightarrow> Some w)"

definition hand_out_job :: "env \<Rightarrow> nat \<Rightarrow> string \<Rightarrow> string \<Rightarrow> string \<Rightarrow> int \<Rightarrow> stamp \<Rightarrow> wake_row \<Rightarrow> db
    \<Rightarrow> error + db \<times> response" where
  "hand_out_job e k p aid runner secs now job s =
     bindE (mint_run_for e k p aid job now
              (set_wake (wk_id job) (\<lambda>w. w\<lparr>wk_state := WLeased, wk_attempts := wk_attempts w + 1,
                 wk_lease := Some (now + secs)\<rparr>) s)) (\<lambda>(k1, s1).
     bindE (audit e k1 p SYSTEM_ACTOR ''wake_job.leased'' (Some ''run'') (Some (wk_id job)) None
              (''wake job leased to runner '' @ runner) s1) (\<lambda>s2.
     bindE (wake_row_of s2 p (wk_id job)) (\<lambda>w. Inr (s2, RWakes [w] 0))))"

definition lease_wake_jobs :: "env \<Rightarrow> string \<Rightarrow> string \<Rightarrow> string \<Rightarrow> int \<Rightarrow> int option \<Rightarrow> stamp option \<Rightarrow> db
    \<Rightarrow> error + db \<times> response" where
  "lease_wake_jobs e p aid runner epoch lease_seconds at s =
     (let secs = (case lease_seconds of None \<Rightarrow> WAKE_LEASE_SECONDS | Some n \<Rightarrow> n);
          now = (case at of None \<Rightarrow> clock e | Some w \<Rightarrow> w)
      in bindE (assert_runner_lease s p aid runner epoch now) (\<lambda>_.
         bindE (reclaim_expired e 0 p aid now s) (\<lambda>(k1, s1).
         bindE (retire_exhausted e k1 p aid s1) (\<lambda>(k2, s2).
           if agent_is_busy s2 p aid then Inr (s2, RWakes [] 1)
           else case next_job s2 p aid of
                  None \<Rightarrow> Inr (s2, RWakes [] 1)
                | Some job \<Rightarrow> hand_out_job e k2 p aid runner secs now job s2))))"

text \<open>
  \<open>complete_wake_job\<close>: no look at the job's present state, and none at the owner
  unless the caller names one.
\<close>

definition parse_wake_end :: "string \<Rightarrow> wake_state option" where
  "parse_wake_end w =
     (if w = ''completed'' then Some WCompleted else if w = ''failed'' then Some WFailed
      else if w = ''canceled'' then Some WCanceled else None)"

definition complete_wake_job_act :: "env \<Rightarrow> string \<Rightarrow> string \<Rightarrow> string \<Rightarrow> wake_state \<Rightarrow> string option
    \<Rightarrow> string option \<Rightarrow> db \<Rightarrow> error + db \<times> response" where
  "complete_wake_job_act e p wid state st aid rq s =
     bindE (wake_row_of s p wid) (\<lambda>row.
       if aid \<noteq> None \<and> aid \<noteq> Some (wk_agent row) then Inl (ForbiddenScope p (Some wid))
       else bindE (audit e 0 p SYSTEM_ACTOR (''wake_job.'' @ state) (Some ''run'') (Some wid) rq
                    (''wake job '' @ state)
                    (set_wake wid (\<lambda>w. w\<lparr>wk_state := st, wk_lease := None\<rparr>) s)) (\<lambda>s'.
            bindE (wake_row_of s' p wid) (\<lambda>w. Inr (s', RWake w))))"

definition complete_wake_job :: "env \<Rightarrow> string \<Rightarrow> string \<Rightarrow> string \<Rightarrow> string option \<Rightarrow> string option \<Rightarrow> db
    \<Rightarrow> error + db \<times> response" where
  "complete_wake_job e p wid state aid rq s =
     (case parse_wake_end state of
        None \<Rightarrow> Inl (MalformedRequest ''wake job state is not terminal.''
                       [(''rejected_fields'', jstrs [''state''])])
      | Some st \<Rightarrow>
          idem e p rq ''complete_wake_job'' (JObj [(''wake_job_id'', JStr wid), (''state'', JStr state)])
            (complete_wake_job_act e p wid state st aid rq) s)"

definition close_wake_job_for_run :: "string \<Rightarrow> string option \<Rightarrow> wake_state \<Rightarrow> db \<Rightarrow> db" where
  "close_wake_job_for_run p wid st s =
     (if \<not> truthy_str wid then s
      else upd_msg (\<lambda>m. m\<lparr>mt_wakes := update_where
             (\<lambda>w. wk_id w = the wid \<and> wk_project w = p \<and> (wk_state w = WPending \<or> wk_state w = WLeased))
             (\<lambda>w. w\<lparr>wk_state := st, wk_lease := None\<rparr>) (mt_wakes m)\<rparr>) s)"

section \<open>Runs\<close>

definition run_row_of :: "db \<Rightarrow> string \<Rightarrow> string \<Rightarrow> error + run_row" where
  "run_row_of s p rid =
     (case List.find (\<lambda>r. ru_id r = rid) (runs s) of
        None \<Rightarrow> Inl (NotFound ''No such run.'' [(''run_id'', JStr rid)])
      | Some r \<Rightarrow> if ru_project r \<noteq> p then Inl (ForbiddenScope p (Some rid)) else Inr r)"

definition get_run :: "string \<Rightarrow> string \<Rightarrow> db \<Rightarrow> error + response" where
  "get_run p rid s = bindE (run_row_of s p rid) (\<lambda>r. Inr (RRun r))"

record run_args =
  ra_agent :: string
  ra_session :: "string option"
  ra_wake :: "string option"
  ra_ticket :: "string option"
  ra_state :: string
  ra_budget :: "(string \<times> json) list option"

definition new_run :: "env \<Rightarrow> string \<Rightarrow> run_args \<Rightarrow> run_state \<Rightarrow> string \<Rightarrow> run_row" where
  "new_run e p a st rid =
     \<lparr>ru_id = rid, ru_project = p, ru_agent = ra_agent a, ru_session = ra_session a,
      ru_wake = ra_wake a, ru_ticket = ra_ticket a, ru_state = st, ru_reason = None,
      ru_budget = budget (ra_budget a), ru_approval = False, ru_started = None, ru_ended = None,
      ru_created_at = clock e, ru_version = 1\<rparr>"

definition create_run_act :: "env \<Rightarrow> string \<Rightarrow> run_args \<Rightarrow> run_state \<Rightarrow> string \<Rightarrow> string option \<Rightarrow> db
    \<Rightarrow> error + db \<times> response" where
  "create_run_act e p a st rid rq s =
     bindE (agent_of s p (ra_agent a)) (\<lambda>_.
     bindE (case ra_wake a of None \<Rightarrow> Inr () | Some w \<Rightarrow> bindE (wake_row_of s p w) (\<lambda>_. Inr ())) (\<lambda>_.
     bindE (insert_row ru_id (new_run e p a st rid) (runs s)) (\<lambda>rs.
     bindE (audit e 1 p SYSTEM_ACTOR ''run.create'' (Some ''run'') (Some rid) rq ''run created''
              (upd_msg (\<lambda>m. m\<lparr>mt_runs := rs\<rparr>) s)) (\<lambda>s'.
     bindE (run_row_of s' p rid) (\<lambda>r. Inr (s', RRun r))))))"

definition create_run :: "env \<Rightarrow> string \<Rightarrow> run_args \<Rightarrow> string option \<Rightarrow> string option \<Rightarrow> db
    \<Rightarrow> error + db \<times> response" where
  "create_run e p a run_id rq s =
     (case parse_run_state (ra_state a) of
        None \<Rightarrow> Inl (MalformedRequest ''state is not a valid value.'' [(''state'', JStr (ra_state a))])
      | Some st \<Rightarrow>
          idem e p rq ''create_run''
            (JObj [(''recipient_agent_id'', JStr (ra_agent a)), (''session_id'', jopt (ra_session a)),
                   (''wake_job_id'', jopt (ra_wake a)), (''ticket_claim'', jopt (ra_ticket a)),
                   (''state'', JStr (ra_state a)), (''budget'', budget (ra_budget a))])
            (create_run_act e p a st (id_or_mint run_id ''run'' (rnd e 0)) rq) s)"

definition RUN_EVENT_TARGETS :: "(string \<times> run_state) list" where
  "RUN_EVENT_TARGETS =
     [(''starting'', RStarting), (''started'', RRunning), (''turn_completed'', RRunning),
      (''needs_approval'', RPaused), (''responded'', RResponded), (''failed'', RFailed),
      (''budget_reached'', RPaused)]"

record event_args =
  ea_event :: string
  ea_expected :: int
  ea_reporter :: "string option"
  ea_session :: "string option"
  ea_ticket :: "string option"
  ea_reason :: "string option"
  ea_budget :: "(string \<times> json) list option"

text \<open>\<open>reason or default\<close>.\<close>

definition or_text :: "string option \<Rightarrow> string \<Rightarrow> string option" where
  "or_text v d = (if truthy_str v then v else Some d)"

definition event_write :: "env \<Rightarrow> event_args \<Rightarrow> run_state \<Rightarrow> run_row \<Rightarrow> run_row" where
  "event_write e a st r =
     r\<lparr>ru_session := coalesce (ea_session a) (ru_session r),
       ru_ticket := coalesce (ea_ticket a) (ru_ticket r),
       ru_state := st,
       ru_reason := (if ea_event a = ''needs_approval'' then or_text (ea_reason a) ''Needs approval.''
                     else if ea_event a \<in> {''responded'', ''failed''} then ea_reason a
                     else if ea_event a = ''budget_reached'' then or_text (ea_reason a) ''Run budget reached.''
                     else ru_reason r),
       ru_budget := py_update (budget (Some (members_of (ru_budget r))))
                      (case ea_budget a of None \<Rightarrow> [] | Some kvs \<Rightarrow> kvs),
       ru_approval := (ea_event a = ''needs_approval'' \<or> ru_approval r),
       ru_started := (if ea_event a = ''started'' \<and> ru_started r = None then Some (clock e) else ru_started r),
       ru_ended := (if ea_event a \<in> {''responded'', ''failed''} then Some (clock e) else ru_ended r),
       ru_version := ru_version r + 1\<rparr>"

definition attributed :: "db \<Rightarrow> event_args \<Rightarrow> run_row \<Rightarrow> bool" where
  "attributed s a r \<longleftrightarrow>
     session_is_current s (ea_reporter a)
     \<and> \<not> (ea_session a \<noteq> None \<and> ru_session r \<noteq> None \<and> ea_session a \<noteq> ru_session r)"

definition event_updates :: "env \<Rightarrow> string \<Rightarrow> string \<Rightarrow> event_args \<Rightarrow> run_state \<Rightarrow> run_row \<Rightarrow> db \<Rightarrow> db" where
  "event_updates e p rid a st row s =
     (let s1 = set_run rid (event_write e a st) s in
      if st = RResponded then close_wake_job_for_run p (ru_wake row) WCompleted s1
      else if st = RFailed then close_wake_job_for_run p (ru_wake row) WFailed s1
      else s1)"

definition record_run_event_act :: "env \<Rightarrow> string \<Rightarrow> string \<Rightarrow> event_args \<Rightarrow> run_state \<Rightarrow> string option \<Rightarrow> db
    \<Rightarrow> error + db \<times> response" where
  "record_run_event_act e p rid a st rq s =
     bindE (run_row_of s p rid) (\<lambda>row.
       if ru_version row \<noteq> ea_expected a
       then Inl (TicketVersionConflict rid (ea_expected a) (ru_version row))
       else if terminal_run (ru_state row)
       then Inl (InvalidStateTransition rid (run_name (ru_state row)) (run_name st))
       else if ea_event a = ''started'' \<and> ea_session a = None \<and> ru_session row = None
       then Inl (InvalidStateTransition rid (run_name (ru_state row)) ''running'')
       else if \<not> attributed s a row
       then bindE (if ea_reporter a = None
                   then audit e 0 p SYSTEM_ACTOR ''run.event.unattributed'' (Some ''run'') (Some rid) rq
                          (''run event '' @ ea_event a @ '' with no reporter session; not attributed, run unchanged'') s
                   else audit e 0 p SYSTEM_ACTOR ''run.event.superseded'' (Some ''run'') (Some rid) rq
                          (''run event '' @ ea_event a @ '' from a superseded session; denied effect, run unchanged'') s)
              (\<lambda>s'. Inr (s', RRun row))
       else bindE (audit e 0 p SYSTEM_ACTOR ''run.event'' (Some ''run'') (Some rid) rq
                    (''run event '' @ ea_event a) (event_updates e p rid a st row s)) (\<lambda>s'.
            bindE (run_row_of s' p rid) (\<lambda>r. Inr (s', RRun r))))"

definition event_body_json :: "string \<Rightarrow> event_args \<Rightarrow> json" where
  "event_body_json rid a =
     JObj [(''run_id'', JStr rid), (''event'', JStr (ea_event a)), (''expected_version'', JInt (ea_expected a)),
           (''reporter_session_id'', jopt (ea_reporter a)), (''session_id'', jopt (ea_session a)),
           (''ticket_claim'', jopt (ea_ticket a)), (''reason'', jopt (ea_reason a)),
           (''budget'', case ea_budget a of None \<Rightarrow> JNull | Some kvs \<Rightarrow> JObj kvs)]"

definition record_run_event :: "env \<Rightarrow> string \<Rightarrow> string \<Rightarrow> event_args \<Rightarrow> string option \<Rightarrow> db
    \<Rightarrow> error + db \<times> response" where
  "record_run_event e p rid a rq s =
     (case map_of RUN_EVENT_TARGETS (ea_event a) of
        None \<Rightarrow> Inl (MalformedRequest ''event is not a valid run event.'' [(''event'', JStr (ea_event a))])
      | Some st \<Rightarrow>
          idem e p rq ''record_run_event'' (event_body_json rid a) (record_run_event_act e p rid a st rq) s)"

definition cancel_run_act :: "env \<Rightarrow> string \<Rightarrow> string \<Rightarrow> int \<Rightarrow> string option \<Rightarrow> string option \<Rightarrow> db
    \<Rightarrow> error + db \<times> response" where
  "cancel_run_act e p rid expected reason rq s =
     bindE (run_row_of s p rid) (\<lambda>row.
       if ru_version row \<noteq> expected then Inl (TicketVersionConflict rid expected (ru_version row))
       else if terminal_run (ru_state row)
       then Inl (InvalidStateTransition rid (run_name (ru_state row)) ''canceled'')
       else bindE (audit e 0 p SYSTEM_ACTOR ''run.cancel'' (Some ''run'') (Some rid) rq ''run canceled''
                    (close_wake_job_for_run p (ru_wake row) WCanceled
                      (set_run rid (\<lambda>r. r\<lparr>ru_state := RCanceled, ru_reason := reason,
                         ru_ended := Some (clock e), ru_version := ru_version r + 1\<rparr>) s))) (\<lambda>s'.
            bindE (run_row_of s' p rid) (\<lambda>r. Inr (s', RRun r))))"

definition cancel_run :: "env \<Rightarrow> string \<Rightarrow> string \<Rightarrow> int \<Rightarrow> string option \<Rightarrow> string option \<Rightarrow> db
    \<Rightarrow> error + db \<times> response" where
  "cancel_run e p rid expected reason rq s =
     idem e p rq ''cancel_run''
       (JObj [(''run_id'', JStr rid), (''expected_version'', JInt expected), (''reason'', jopt reason)])
       (cancel_run_act e p rid expected reason rq) s"

end
