(* ===== verification/Runner_Lease.thy ===== *)
theory Runner_Lease
  imports Run_Store
begin

text \<open>
  The runner leases of \<open>storage/messaging.py\<close> (acquire, heartbeat, expire), and all
  operations of the messaging store as one datatype with its interpreter \<open>wbody\<close>.
\<close>

section \<open>Runner leases\<close>

definition POLICIES :: "string list" where
  "POLICIES = [''prompt'', ''allowlist'', ''deny_all'']"

record lease_args =
  la_runner :: string
  la_agent :: string
  la_expires :: stamp
  la_worktree :: string
  la_profile :: string
  la_policy :: string
  la_expected :: "int option"
  la_budget :: "(string \<times> json) list option"
  la_at :: "stamp option"
  la_source :: "string option"

definition get_runner_lease :: "string \<Rightarrow> string \<Rightarrow> db \<Rightarrow> error + response" where
  "get_runner_lease p aid s =
     (case find_runner s aid of
        None \<Rightarrow> Inl (NotFound ''No such runner lease.'' [(''agent_id'', JStr aid)])
      | Some l \<Rightarrow> if rl_project l \<noteq> p then Inl (ForbiddenScope p (Some aid)) else Inr (RRunner l))"

definition set_runner :: "string \<Rightarrow> (runner_row \<Rightarrow> runner_row) \<Rightarrow> db \<Rightarrow> db" where
  "set_runner aid f s = s\<lparr>db_runners := update_where (\<lambda>l. rl_agent l = aid) f (db_runners s)\<rparr>"

definition new_lease :: "string \<Rightarrow> lease_args \<Rightarrow> stamp \<Rightarrow> runner_row" where
  "new_lease p a now =
     \<lparr>rl_agent = la_agent a, rl_project = p, rl_runner = la_runner a, rl_epoch = 1, rl_acquired_at = now,
      rl_expires_at = la_expires a, rl_worktree = la_worktree a, rl_profile = la_profile a,
      rl_policy = la_policy a, rl_budget = budget (la_budget a)\<rparr>"

definition take_over :: "lease_args \<Rightarrow> stamp \<Rightarrow> runner_row \<Rightarrow> runner_row" where
  "take_over a now l =
     l\<lparr>rl_runner := la_runner a, rl_epoch := rl_epoch l + 1, rl_acquired_at := now,
       rl_expires_at := la_expires a, rl_worktree := la_worktree a, rl_profile := la_profile a,
       rl_policy := la_policy a, rl_budget := budget (la_budget a)\<rparr>"

definition renew :: "lease_args \<Rightarrow> runner_row \<Rightarrow> runner_row" where
  "renew a l =
     l\<lparr>rl_expires_at := la_expires a, rl_worktree := la_worktree a, rl_profile := la_profile a,
       rl_policy := la_policy a, rl_budget := budget (la_budget a)\<rparr>"

text \<open>The three ways to a lease: none yet, one that ran out, one's own at its epoch.\<close>

definition grant :: "string \<Rightarrow> lease_args \<Rightarrow> stamp \<Rightarrow> db \<Rightarrow> error + db" where
  "grant p a now s =
     (let aid = la_agent a in
      case find_runner s aid of
        None \<Rightarrow>
          if la_expected a \<noteq> None \<and> la_expected a \<noteq> Some 0 then Inl (RunAlreadyActive aid None (Some 0))
          else Inr (s\<lparr>db_runners := db_runners s @ [new_lease p a now]\<rparr>)
      | Some l \<Rightarrow>
          if rl_expires_at l \<le> now then Inr (set_runner aid (take_over a now) s)
          else if rl_runner l = la_runner a \<and> la_expected a = Some (rl_epoch l)
          then Inr (set_runner aid (renew a) s)
          else Inl (RunAlreadyActive aid (Some (rl_runner l)) (Some (rl_epoch l))))"

definition acquire_runner_lease_act :: "env \<Rightarrow> string \<Rightarrow> lease_args \<Rightarrow> string option \<Rightarrow> db
    \<Rightarrow> error + db \<times> response" where
  "acquire_runner_lease_act e p a rq s =
     (let now = (case la_at a of None \<Rightarrow> clock e | Some w \<Rightarrow> w) in
      bindE (agent_of s p (la_agent a)) (\<lambda>_.
      bindE (grant p a now s) (\<lambda>s1.
      bindE (audit e 0 p SYSTEM_ACTOR ''runner_lease.acquire'' (Some ''run'') (Some (la_agent a)) rq
               (''runner lease acquired'' @ (case la_source a of None \<Rightarrow> []
                  | Some src \<Rightarrow> '' (worktree '' @ src @ ''-supplied)'')) s1) (\<lambda>s2.
      case find_runner s2 (la_agent a) of
        None \<Rightarrow> Inl AttributeError
      | Some l \<Rightarrow> Inr (s2, RRunner l)))))"

definition acquire_runner_lease :: "env \<Rightarrow> string \<Rightarrow> lease_args \<Rightarrow> string option \<Rightarrow> db
    \<Rightarrow> error + db \<times> response" where
  "acquire_runner_lease e p a rq s =
     bindE (assert_member (la_policy a) POLICIES ''permission_policy'') (\<lambda>_.
       idem e p rq ''acquire_runner_lease''
         (JObj [(''runner_id'', JStr (la_runner a)), (''agent_id'', JStr (la_agent a)),
                (''expires_at'', JInt (la_expires a)), (''allowlisted_worktree'', JStr (la_worktree a)),
                (''runtime_profile'', JStr (la_profile a)), (''permission_policy'', JStr (la_policy a)),
                (''expected_epoch'', jnat (la_expected a)), (''budget'', budget (la_budget a))])
         (acquire_runner_lease_act e p a rq) s)"

definition held_lease :: "db \<Rightarrow> string \<Rightarrow> string \<Rightarrow> string \<Rightarrow> int \<Rightarrow> error + runner_row" where
  "held_lease s p runner aid epoch =
     (case find_runner s aid of
        None \<Rightarrow> Inl (RunAlreadyActive aid None None)
      | Some l \<Rightarrow>
          if rl_project l \<noteq> p then Inl (RunAlreadyActive aid None None)
          else if rl_runner l \<noteq> runner \<or> rl_epoch l \<noteq> epoch
          then Inl (RunAlreadyActive aid (Some (rl_runner l)) (Some (rl_epoch l)))
          else Inr l)"

definition touch_lease :: "env \<Rightarrow> string \<Rightarrow> string \<Rightarrow> stamp \<Rightarrow> string \<Rightarrow> string \<Rightarrow> string option \<Rightarrow> db
    \<Rightarrow> error + db \<times> response" where
  "touch_lease e p aid expires_at action summary rq s =
     bindE (audit e 0 p SYSTEM_ACTOR action (Some ''run'') (Some aid) rq summary
              (set_runner aid (\<lambda>l. l\<lparr>rl_expires_at := expires_at\<rparr>) s)) (\<lambda>s'.
       case find_runner s' aid of None \<Rightarrow> Inl AttributeError | Some l \<Rightarrow> Inr (s', RRunner l))"

definition heartbeat_runner_lease_act :: "env \<Rightarrow> string \<Rightarrow> string \<Rightarrow> string \<Rightarrow> stamp \<Rightarrow> int \<Rightarrow> stamp option
    \<Rightarrow> string option \<Rightarrow> db \<Rightarrow> error + db \<times> response" where
  "heartbeat_runner_lease_act e p runner aid expires_at epoch at rq s =
     (let now = (case at of None \<Rightarrow> clock e | Some w \<Rightarrow> w) in
      bindE (assert_runner_lease s p aid runner epoch now) (\<lambda>_.
        touch_lease e p aid expires_at ''runner_lease.heartbeat'' ''runner lease heartbeat'' rq s))"

definition heartbeat_runner_lease :: "env \<Rightarrow> string \<Rightarrow> string \<Rightarrow> string \<Rightarrow> stamp \<Rightarrow> int \<Rightarrow> stamp option
    \<Rightarrow> string option \<Rightarrow> db \<Rightarrow> error + db \<times> response" where
  "heartbeat_runner_lease e p runner aid expires_at epoch at rq s =
     idem e p rq ''heartbeat_runner_lease''
       (JObj [(''runner_id'', JStr runner), (''agent_id'', JStr aid), (''expires_at'', JInt expires_at),
              (''expected_epoch'', JInt epoch)])
       (heartbeat_runner_lease_act e p runner aid expires_at epoch at rq) s"

definition expire_runner_lease :: "env \<Rightarrow> string \<Rightarrow> string \<Rightarrow> string \<Rightarrow> int \<Rightarrow> stamp option
    \<Rightarrow> string option \<Rightarrow> db \<Rightarrow> error + db \<times> response" where
  "expire_runner_lease e p runner aid epoch at rq s =
     (let now = (case at of None \<Rightarrow> clock e | Some w \<Rightarrow> w) in
      idem e p rq ''expire_runner_lease''
        (JObj [(''runner_id'', JStr runner), (''agent_id'', JStr aid), (''expected_epoch'', JInt epoch),
               (''expires_at'', JInt now)])
        (\<lambda>s. bindE (held_lease s p runner aid epoch) (\<lambda>_.
           touch_lease e p aid now ''runner_lease.expire'' ''runner lease expired'' rq s)) s)"

section \<open>The operations of the messaging store\<close>

datatype wop =
    WCreateMember string string string string "string option" string "string option" "string option" "json option"
  | WRevokeMember string string int "string option" "json option"
  | WInvite string string stamp "json option" "string option" "string option" "string option"
  | WCreateChannel string string string string "string option" "string option" "string option"
      "string option" "json option"
  | WAddChannelMember string string string bool "string option" "json option"
  | WSend string message_args "string option"
  | WThread string string string "string option" "string option"
  | WDeliver string string delivery_args "string option" "json option"
  | WCreateJob string string string string "string option" "string option" "string option" "json option"
  | WLeaseJobs string string string int "int option" "stamp option"
  | WCompleteJob string string string "string option" "string option"
  | WCreateRun string run_args "string option" "string option"
  | WRunEvent string string event_args "string option"
  | WCancelRun string string int "string option" "string option"
  | WAcquire string lease_args "string option"
  | WHeartbeat string string string stamp int "stamp option" "string option"
  | WExpire string string string int "stamp option" "string option"

fun wbody :: "env \<Rightarrow> wop \<Rightarrow> db \<Rightarrow> error + db \<times> response" where
  "wbody e (WCreateMember p k n ro aid av mid rq ac) s = create_member e p k n ro aid av mid rq ac s"
| "wbody e (WRevokeMember p m v rq ac) s = revoke_member e p m v rq ac s"
| "wbody e (WInvite p ro x cb iid code rq) s = create_invitation e p ro x cb iid code rq s"
| "wbody e (WCreateChannel p n vis k t m cid rq ac) s = create_channel e p n vis k t m cid rq ac s"
| "wbody e (WAddChannelMember p c m b rq ac) s = add_channel_member e p c m b rq ac s"
| "wbody e (WSend p a rq) s = send_message e p a rq s"
| "wbody e (WThread p c r tk tid) s = create_thread e p c r tk tid s"
| "wbody e (WDeliver p d a rq ac) s = transition_delivery e p d a rq ac s"
| "wbody e (WCreateJob p m aid d tk wid rq ac) s = create_wake_job e p m aid d tk wid rq ac s"
| "wbody e (WLeaseJobs p aid ru n secs at) s = lease_wake_jobs e p aid ru n secs at s"
| "wbody e (WCompleteJob p w st aid rq) s = complete_wake_job e p w st aid rq s"
| "wbody e (WCreateRun p a rid rq) s = create_run e p a rid rq s"
| "wbody e (WRunEvent p r a rq) s = record_run_event e p r a rq s"
| "wbody e (WCancelRun p r v re rq) s = cancel_run e p r v re rq s"
| "wbody e (WAcquire p a rq) s = acquire_runner_lease e p a rq s"
| "wbody e (WHeartbeat p ru aid x n at rq) s = heartbeat_runner_lease e p ru aid x n at rq s"
| "wbody e (WExpire p ru aid n at rq) s = expire_runner_lease e p ru aid n at rq s"

definition wexec :: "env \<Rightarrow> wop \<Rightarrow> db \<Rightarrow> (error + response) \<times> db" where
  "wexec e w s = write_txn (wbody e w) s"

end
