(* ===== verification/Run_Queue.thy ===== *)
theory Run_Queue
  imports Runner_Lease Board_Frame
begin

text \<open>
  The wake queue and the runs as one abstract machine: what a call of the messaging store
  can do to them is a sequence of the atomic moves of \<open>queue_step\<close>. The flag \<open>srv\<close>
  restricts the moves to those the server's own calls make: job ids are minted, and runs
  come into being only when a job is handed out.
\<close>

type_synonym queue = "wake_row list \<times> run_row list"

definition queue_of :: "db \<Rightarrow> queue" where "queue_of s = (wakes s, runs s)"

definition run_in :: "run_row list \<Rightarrow> string \<Rightarrow> run_row option" where
  "run_in rs wid = List.find (\<lambda>r. ru_wake r = Some wid) rs"

definition live_run :: "run_state \<Rightarrow> bool" where
  "live_run st \<longleftrightarrow> st = RStarting \<or> st = RRunning \<or> st = RPaused"

definition busy :: "queue \<Rightarrow> string \<Rightarrow> string \<Rightarrow> bool" where
  "busy q p aid \<longleftrightarrow>
     (\<exists>r \<in> set (snd q). ru_project r = p \<and> ru_agent r = aid \<and> live_run (ru_state r))
     \<or> (\<exists>w \<in> set (fst q). wk_project w = p \<and> wk_agent w = aid \<and> wk_state w = WLeased)"

definition set_w :: "string \<Rightarrow> (wake_row \<Rightarrow> wake_row) \<Rightarrow> wake_row list \<Rightarrow> wake_row list" where
  "set_w wid = update_where (\<lambda>w. wk_id w = wid)"

definition set_r :: "string \<Rightarrow> (run_row \<Rightarrow> run_row) \<Rightarrow> run_row list \<Rightarrow> run_row list" where
  "set_r rid = update_where (\<lambda>r. ru_id r = rid)"

definition put_state :: "wake_state \<Rightarrow> wake_row \<Rightarrow> wake_row" where
  "put_state st w = w\<lparr>wk_state := st, wk_lease := None\<rparr>"

definition lease_to :: "stamp \<Rightarrow> wake_row \<Rightarrow> wake_row" where
  "lease_to x w = w\<lparr>wk_state := WLeased, wk_attempts := wk_attempts w + 1, wk_lease := Some x\<rparr>"

text \<open>A run as it is minted for a job, and a write that keeps what identifies a run.\<close>

definition minted_for :: "wake_row \<Rightarrow> run_row \<Rightarrow> bool" where
  "minted_for w r \<longleftrightarrow> ru_id r = run_id_for_wake_job (wk_id w) \<and> ru_project r = wk_project w
     \<and> ru_agent r = wk_agent w \<and> ru_wake r = Some (wk_id w) \<and> ru_state r = RPending
     \<and> ru_session r = None \<and> ru_started r = None \<and> ru_ended r = None \<and> ru_version r = 1"

definition keeps_key :: "run_row \<Rightarrow> run_row \<Rightarrow> bool" where
  "keeps_key r r' \<longleftrightarrow> ru_id r' = ru_id r \<and> ru_project r' = ru_project r \<and> ru_agent r' = ru_agent r
     \<and> ru_wake r' = ru_wake r"

definition keeps_run :: "run_row \<Rightarrow> run_row \<Rightarrow> bool" where
  "keeps_run r r' \<longleftrightarrow> ru_version r' = ru_version r + 1
     \<and> (\<forall>x. ru_session r = Some x \<longrightarrow> ru_session r' = Some x)
     \<and> (\<forall>x. ru_started r = Some x \<longrightarrow> ru_started r' = Some x)"

inductive queue_step :: "bool \<Rightarrow> queue \<Rightarrow> queue \<Rightarrow> bool" for srv where
  enqueue: "wk_id w \<notin> set (map wk_id ws)
     \<Longrightarrow> (wk_project w, wk_dedupe w) \<notin> set (map (\<lambda>w. (wk_project w, wk_dedupe w)) ws) \<Longrightarrow> wk_state w = WPending \<Longrightarrow> wk_attempts w = 0
     \<Longrightarrow> (srv \<longrightarrow> (\<exists>x. wk_id w = ''wjb_'' @ x)) \<Longrightarrow> queue_step srv (ws, rs) (ws @ [w], rs)"
| requeue: "w \<in> set ws \<Longrightarrow> wk_state w = WLeased
     \<Longrightarrow> (\<And>r. run_in rs (wk_id w) = Some r \<Longrightarrow> ru_state r = RPending)
     \<Longrightarrow> queue_step srv (ws, rs) (set_w (wk_id w) (put_state WPending) ws, rs)"
| orphan: "w \<in> set ws \<Longrightarrow> wk_state w = WLeased \<Longrightarrow> run_in rs (wk_id w) = Some r
     \<Longrightarrow> ru_state r \<noteq> RPending \<Longrightarrow> ru_state r \<noteq> RPaused
     \<Longrightarrow> rs' = (if terminal_run (ru_state r) then rs else set_r (ru_id r) (orphan_run now) rs)
     \<Longrightarrow> queue_step srv (ws, rs) (set_w (wk_id w) (put_state WFailed) ws, rs')"
| retire: "w \<in> set ws \<Longrightarrow> wk_state w = WPending
     \<Longrightarrow> queue_step srv (ws, rs) (set_w (wk_id w) (\<lambda>w. w\<lparr>wk_state := WFailed\<rparr>) ws, rs)"
| hand: "w \<in> set ws \<Longrightarrow> wk_state w = WPending \<Longrightarrow> wk_attempts w < WAKE_MAX_ATTEMPTS
     \<Longrightarrow> \<not> busy (ws, rs) (wk_project w) (wk_agent w) \<Longrightarrow> minted_for w r
     \<Longrightarrow> rs' = (if ru_id r \<in> set (map ru_id rs) then rs else rs @ [r])
     \<Longrightarrow> queue_step srv (ws, rs) (set_w (wk_id w) (lease_to x) ws, rs')"
| finish: "st \<in> {WCompleted, WFailed, WCanceled}
     \<Longrightarrow> queue_step srv (ws, rs) (set_w wid (put_state st) ws, rs)"
| event: "r \<in> set rs \<Longrightarrow> \<not> terminal_run (ru_state r) \<Longrightarrow> live_run (ru_state (f r))
     \<Longrightarrow> (\<And>r. keeps_key r (f r)) \<Longrightarrow> keeps_run r (f r)
     \<Longrightarrow> queue_step srv (ws, rs) (ws, set_r (ru_id r) f rs)"
| close: "r \<in> set rs \<Longrightarrow> \<not> terminal_run (ru_state r) \<Longrightarrow> terminal_run (ru_state (f r))
     \<Longrightarrow> (\<And>r. keeps_key r (f r)) \<Longrightarrow> keeps_run r (f r) \<Longrightarrow> st \<in> {WCompleted, WFailed, WCanceled}
     \<Longrightarrow> ws' = update_where (\<lambda>w. truthy_str (ru_wake r) \<and> wk_id w = the (ru_wake r)
           \<and> wk_project w = ru_project r \<and> (wk_state w = WPending \<or> wk_state w = WLeased)) (put_state st) ws
     \<Longrightarrow> queue_step srv (ws, rs) (ws', set_r (ru_id r) f rs)"
| spawn: "\<not> srv \<Longrightarrow> ru_id r \<notin> set (map ru_id rs) \<Longrightarrow> ru_version r = 1
     \<Longrightarrow> queue_step srv (ws, rs) (ws, rs @ [r])"

inductive_cases queue_stepE: "queue_step srv q q'"

definition queue_steps :: "bool \<Rightarrow> db \<Rightarrow> db \<Rightarrow> bool" where
  "queue_steps srv s s' \<longleftrightarrow> (queue_step srv)\<^sup>*\<^sup>* (queue_of s) (queue_of s')"

lemma queue_steps_refl [simp]: "queue_steps srv s s"
  by (simp add: queue_steps_def)

lemma queue_steps_same: "queue_of s' = queue_of s \<Longrightarrow> queue_steps srv s s'"
  by (simp add: queue_steps_def)

lemma queue_steps_one: "queue_step srv (queue_of s) (queue_of s') \<Longrightarrow> queue_steps srv s s'"
  by (simp add: queue_steps_def)

lemma queue_steps_trans: "queue_steps srv s s' \<Longrightarrow> queue_steps srv s' s'' \<Longrightarrow> queue_steps srv s s''"
  unfolding queue_steps_def by (rule rtranclp_trans)

section \<open>What the writes do to the queue\<close>

lemma queue_frame [simp]:
  "wakes (set_wake wid f s) = set_w wid f (wakes s)" "runs (set_wake wid f s) = runs s"
  "wakes (set_run rid h s) = wakes s" "runs (set_run rid h s) = set_r rid h (runs s)"
  "wakes (s\<lparr>db_requests := q\<rparr>) = wakes s" "runs (s\<lparr>db_requests := q\<rparr>) = runs s"
  "wakes (s\<lparr>db_runners := l\<rparr>) = wakes s" "runs (s\<lparr>db_runners := l\<rparr>) = runs s"
  by (simp_all add: table_defs set_wake_def set_run_def set_w_def set_r_def)

lemma audit_tables:
  assumes "audit e k p actor action st sid rq summary s = Inr s'"
  shows "db_msg s' = db_msg s" "db_runners s' = db_runners s" "db_agents s' = db_agents s"
    "db_sessions s' = db_sessions s"
  using messaging.audit_blind [OF assms] audit_effect [OF assms] by auto

lemma audit_queue:
  assumes "audit e k p actor action st sid rq summary s = Inr s'"
  shows "wakes s' = wakes s" "runs s' = runs s" "queue_of s' = queue_of s"
  using audit_tables [OF assms] by (simp_all add: table_defs queue_of_def)

lemma audit_queueD:
  "audit e k p actor action st sid rq summary s = Inr s' \<Longrightarrow> wakes s' = wakes s \<and> runs s' = runs s"
  by (simp add: audit_queue)

lemma set_w_set: "w' \<in> set (set_w wid f ws) \<longleftrightarrow> (\<exists>w \<in> set ws. w' = (if wk_id w = wid then f w else w))"
  unfolding set_w_def set_update_where image_iff by (rule refl)

lemma set_r_set: "r' \<in> set (set_r rid f rs) \<longleftrightarrow> (\<exists>r \<in> set rs. r' = (if ru_id r = rid then f r else r))"
  unfolding set_r_def set_update_where image_iff by (rule refl)

lemma put_state_simps [simp]:
  "wk_id (put_state st w) = wk_id w" "wk_state (put_state st w) = st" "wk_project (put_state st w) = wk_project w"
  "wk_agent (put_state st w) = wk_agent w" "wk_attempts (put_state st w) = wk_attempts w"
  "wk_dedupe (put_state st w) = wk_dedupe w"
  by (simp_all add: put_state_def)

lemma lease_to_simps [simp]:
  "wk_id (lease_to x w) = wk_id w" "wk_state (lease_to x w) = WLeased" "wk_project (lease_to x w) = wk_project w"
  "wk_agent (lease_to x w) = wk_agent w" "wk_attempts (lease_to x w) = wk_attempts w + 1"
  "wk_dedupe (lease_to x w) = wk_dedupe w"
  by (simp_all add: lease_to_def)

lemma put_state_eq: "(\<lambda>w. w\<lparr>wk_state := st, wk_lease := None\<rparr>) = put_state st"
  by (simp add: fun_eq_iff put_state_def)

section \<open>The loops of a lease call\<close>

definition job_in :: "wake_state \<Rightarrow> db \<Rightarrow> wake_row \<Rightarrow> bool" where
  "job_in st s job \<longleftrightarrow> (\<exists>w \<in> set (wakes s). wk_id w = wk_id job \<and> wk_state w = st)"

lemma job_in_other:
  assumes "wk_id job \<noteq> wid" "wakes s' = set_w wid f (wakes s)" "job_in st s job" "\<And>w. wk_id (f w) = wk_id w"
  shows "job_in st s' job"
proof -
  obtain w where w: "w \<in> set (wakes s)" "wk_id w = wk_id job" "wk_state w = st"
    using assms(3) unfolding job_in_def by blast
  then have "w \<in> set (wakes s')" using assms(1,2) by (auto simp: set_w_set intro!: bexI [of _ w])
  then show ?thesis using w unfolding job_in_def by blast
qed

text \<open>One turn of each loop: its moves, and that it touches no other job.\<close>

lemma reclaim_one_moves:
  assumes run: "reclaim_one e p now job (k, s) = Inr (k', s')" and inq: "job_in WLeased s job"
  shows "queue_steps srv s s' \<and> (\<forall>j. wk_id j \<noteq> wk_id job \<longrightarrow> job_in st s j \<longrightarrow> job_in st s' j)"
proof -
  obtain w where w: "w \<in> set (wakes s)" "wk_id w = wk_id job" "wk_state w = WLeased"
    using inq unfolding job_in_def by blast
  have requeue: "queue_steps srv s s'" if "queue_of s' = (set_w (wk_id job) (put_state WPending) (wakes s), runs s)"
    "\<And>r. run_of_wake s (wk_id job) = Some r \<Longrightarrow> ru_state r = RPending"
    using queue_step.requeue [OF w(1,3), of "runs s" srv] that w(2)
    by (intro queue_steps_one) (simp add: queue_of_def run_in_def run_of_wake_def)
  have keep: "\<forall>j. wk_id j \<noteq> wk_id job \<longrightarrow> job_in st s j \<longrightarrow> job_in st s' j"
    if "wakes s' = set_w (wk_id job) (put_state x) (wakes s)" for x
    using job_in_other [OF _ that] by simp
  show ?thesis
  proof (cases "run_of_wake s (wk_id job)")
    case None
    then have "queue_of s' = (set_w (wk_id job) (put_state WPending) (wakes s), runs s)"
      using run by (auto simp: reclaim_one_def result_simps put_state_eq queue_of_def dest!: audit_queueD)
    then show ?thesis using requeue keep None by (simp add: queue_of_def)
  next
    case (Some r)
    consider (paused) "ru_state r = RPaused" | (waiting) "ru_state r = RPending"
      | (over) "ru_state r \<noteq> RPaused" "ru_state r \<noteq> RPending" by blast
    then show ?thesis
    proof cases
      case paused
      then show ?thesis using run Some by (auto simp: reclaim_one_def)
    next
      case waiting
      then have "queue_of s' = (set_w (wk_id job) (put_state WPending) (wakes s), runs s)"
        using run Some
        by (auto simp: reclaim_one_def result_simps put_state_eq queue_of_def dest!: audit_queueD)
      then show ?thesis using requeue keep Some waiting by (simp add: queue_of_def)
    next
      case over
      then have eq: "queue_of s' = (set_w (wk_id job) (put_state WFailed) (wakes s),
          if terminal_run (ru_state r) then runs s else set_r (ru_id r) (orphan_run now) (runs s))"
        using run Some
        by (auto simp: reclaim_one_def result_simps put_state_eq queue_of_def dest!: audit_queueD
            split: if_splits)
      have "queue_step srv (queue_of s) (queue_of s')"
        using queue_step.orphan [OF w(1,3), of "runs s" r _ now srv] over Some w(2) eq
        by (simp add: queue_of_def run_in_def run_of_wake_def)
      then show ?thesis using eq keep by (simp add: queue_of_def queue_steps_one)
    qed
  qed
qed

lemma retire_one_moves:
  assumes run: "retire_one e p job (k, s) = Inr (k', s')" and inq: "job_in WPending s job"
  shows "queue_steps srv s s' \<and> (\<forall>j. wk_id j \<noteq> wk_id job \<longrightarrow> job_in st s j \<longrightarrow> job_in st s' j)"
proof -
  obtain w where w: "w \<in> set (wakes s)" "wk_id w = wk_id job" "wk_state w = WPending"
    using inq unfolding job_in_def by blast
  have eq: "queue_of s' = (set_w (wk_id job) (\<lambda>w. w\<lparr>wk_state := WFailed\<rparr>) (wakes s), runs s)"
    using run by (auto simp: retire_one_def result_simps queue_of_def dest!: audit_queueD)
  have "queue_step srv (queue_of s) (queue_of s')"
    using queue_step.retire [OF w(1,3), of srv "runs s"] w(2) eq by (simp add: queue_of_def)
  then show ?thesis
    using job_in_other [of _ "wk_id job" s' "\<lambda>w. w\<lparr>wk_state := WFailed\<rparr>" s st] eq
    by (simp add: queue_of_def queue_steps_one)
qed

lemma loop_moves:
  assumes "foldE f jobs (k, s) = Inr (k', s')" and "distinct (map wk_id jobs)"
    and "\<And>j. j \<in> set jobs \<Longrightarrow> job_in st s j"
    and "\<And>j k s k' s'. f j (k, s) = Inr (k', s') \<Longrightarrow> job_in st s j \<Longrightarrow>
       queue_steps srv s s' \<and> (\<forall>i. wk_id i \<noteq> wk_id j \<longrightarrow> job_in st s i \<longrightarrow> job_in st s' i)"
  shows "queue_steps srv s s'"
  using assms(1-3)
proof (induction jobs arbitrary: k s)
  case Nil
  then show ?case by simp
next
  case (Cons j jobs)
  obtain k1 s1 where 1: "f j (k, s) = Inr (k1, s1)" and 2: "foldE f jobs (k1, s1) = Inr (k', s')"
    using Cons.prems(1) by (auto simp: result_simps)
  have "queue_steps srv s s1" and keep: "\<And>i. wk_id i \<noteq> wk_id j \<Longrightarrow> job_in st s i \<Longrightarrow> job_in st s1 i"
    using assms(4) [OF 1] Cons.prems(3) by auto
  moreover have "queue_steps srv s1 s'"
  proof (rule Cons.IH [OF 2])
    show "distinct (map wk_id jobs)" using Cons.prems(2) by simp
    show "job_in st s1 i" if "i \<in> set jobs" for i
    proof (rule keep)
      show "wk_id i \<noteq> wk_id j" using that Cons.prems(2) by (auto simp: image_iff)
      show "job_in st s i" using that Cons.prems(3) by simp
    qed
  qed
  ultimately show ?case using queue_steps_trans by blast
qed

lemma wake_ids_step: "queue_step srv q q' \<Longrightarrow> distinct (map wk_id (fst q)) \<Longrightarrow> distinct (map wk_id (fst q'))"
  by (erule queue_stepE) (simp_all add: set_w_def map_update_where)

lemma wake_ids_steps:
  assumes "queue_steps srv s s'" and "distinct (map wk_id (wakes s))"
  shows "distinct (map wk_id (wakes s'))"
proof -
  have "(queue_step srv)\<^sup>*\<^sup>* q q' \<Longrightarrow> distinct (map wk_id (fst q)) \<Longrightarrow> distinct (map wk_id (fst q'))" for q q'
    by (induction rule: rtranclp_induct) (auto dest: wake_ids_step)
  from this [OF assms(1) [unfolded queue_steps_def]] show ?thesis
    using assms(2) by (simp add: queue_of_def)
qed

lemma reclaim_expired_moves:
  assumes "reclaim_expired e k p aid now s = Inr (k', s')" and "distinct (map wk_id (wakes s))"
  shows "queue_steps srv s s'"
proof (rule loop_moves [where st = WLeased, OF assms(1) [unfolded reclaim_expired_def]])
  show "distinct (map wk_id (expired_jobs p aid now s))"
    using assms(2) by (simp add: expired_jobs_def distinct_map_filter)
  show "job_in WLeased s j" if "j \<in> set (expired_jobs p aid now s)" for j
    using that by (auto simp: expired_jobs_def job_in_def)
qed (rule reclaim_one_moves)

definition exhausted :: "string \<Rightarrow> string \<Rightarrow> wake_row \<Rightarrow> bool" where
  "exhausted p aid w \<longleftrightarrow> wk_project w = p \<and> wk_agent w = aid \<and> wk_state w = WPending
     \<and> wk_attempts w \<ge> WAKE_MAX_ATTEMPTS"

lemma retire_exhausted_filter:
  "retire_exhausted e k p aid s = foldE (retire_one e p) (filter (exhausted p aid) (wakes s)) (k, s)"
  by (simp add: retire_exhausted_def exhausted_def [abs_def] conj_assoc)

lemma retire_exhausted_moves:
  assumes "retire_exhausted e k p aid s = Inr (k', s')" and "distinct (map wk_id (wakes s))"
  shows "queue_steps srv s s'"
proof (rule loop_moves [where st = WPending, OF assms(1) [unfolded retire_exhausted_filter]])
  show "distinct (map wk_id (filter (exhausted p aid) (wakes s)))"
    using assms(2) by (simp add: distinct_map_filter)
  show "job_in WPending s j" if "j \<in> set (filter (exhausted p aid) (wakes s))" for j
    using that by (auto simp: exhausted_def job_in_def)
qed (rule retire_one_moves)

lemma retire_loop_queue:
  assumes "foldE (retire_one e p) jobs (k, s) = Inr (k', s')"
  shows "wakes s' = map (\<lambda>w. if wk_id w \<in> wk_id ` set jobs then w\<lparr>wk_state := WFailed\<rparr> else w) (wakes s)"
    and "runs s' = runs s"
proof -
  have "wakes s' = map (\<lambda>w. if wk_id w \<in> wk_id ` set jobs then w\<lparr>wk_state := WFailed\<rparr> else w) (wakes s) \<and> runs s' = runs s"
    using assms
  proof (induction jobs arbitrary: k s)
    case Nil
    then show ?case by simp
  next
    case (Cons j jobs)
    obtain k1 s1 where 1: "retire_one e p j (k, s) = Inr (k1, s1)"
      and 2: "foldE (retire_one e p) jobs (k1, s1) = Inr (k', s')"
      using Cons.prems by (auto simp: result_simps)
    have "wakes s1 = set_w (wk_id j) (\<lambda>w. w\<lparr>wk_state := WFailed\<rparr>) (wakes s) \<and> runs s1 = runs s"
      using 1 by (auto simp: retire_one_def result_simps dest!: audit_queueD)
    then show ?case using Cons.IH [OF 2] by (auto simp: set_w_def update_where_def)
  qed
  then show "wakes s' = map (\<lambda>w. if wk_id w \<in> wk_id ` set jobs then w\<lparr>wk_state := WFailed\<rparr> else w) (wakes s)"
    "runs s' = runs s" by blast+
qed

lemma retire_exhausted_bound:
  assumes "retire_exhausted e k p aid s = Inr (k', s')" and "w \<in> set (wakes s')"
  shows "\<not> exhausted p aid w"
proof -
  obtain v where v: "v \<in> set (wakes s)"
    "w = (if wk_id v \<in> wk_id ` set (filter (exhausted p aid) (wakes s)) then v\<lparr>wk_state := WFailed\<rparr> else v)"
    using retire_loop_queue(1) [OF assms(1) [unfolded retire_exhausted_filter]] assms(2) by auto
  show ?thesis
  proof (cases "wk_id v \<in> wk_id ` set (filter (exhausted p aid) (wakes s))")
    case True
    then show ?thesis using v by (simp add: exhausted_def)
  next
    case False
    then show ?thesis using v by force
  qed
qed

lemma next_job_Some:
  assumes "next_job s p aid = Some w"
  shows "w \<in> set (wakes s) \<and> wk_project w = p \<and> wk_agent w = aid \<and> wk_state w = WPending"
proof -
  let ?ws = "sort_key wk_created_at
    (filter (\<lambda>w. wk_project w = p \<and> wk_agent w = aid \<and> wk_state w = WPending) (wakes s))"
  obtain xs where "?ws = w # xs" using assms by (auto simp: next_job_def split: list.splits)
  then have "w \<in> set ?ws" by (metis list.set_intros(1))
  then show ?thesis by simp
qed

lemma agent_is_busy_iff: "agent_is_busy s p aid \<longleftrightarrow> busy (queue_of s) p aid"
  by (auto simp: agent_is_busy_def busy_def queue_of_def live_run_def list_ex_iff)

lemma lease_to_eq:
  "(\<lambda>w. w\<lparr>wk_state := WLeased, wk_attempts := wk_attempts w + 1, wk_lease := Some x\<rparr>) = lease_to x"
  by (simp add: fun_eq_iff lease_to_def)

lemma hand_out_queue:
  assumes "hand_out_job e k p aid runner secs now job s = Inr (s', r)"
  shows "queue_of s' = (set_w (wk_id job) (lease_to (now + secs)) (wakes s),
      if run_id_for_wake_job (wk_id job) \<in> set (map ru_id (runs s)) then runs s
      else runs s @ [minted_run e p aid job now s])"
    and "\<exists>w. r = RWakes [w] 0 \<and> wk_id w = wk_id job \<and> w \<in> set (wakes s')"
proof -
  let ?s0 = "set_wake (wk_id job) (lease_to (now + secs)) s"
  have budget: "minted_run e p aid job now ?s0 = minted_run e p aid job now s"
    by (simp add: minted_run_def lease_budget_def find_runner_def set_wake_def)
  obtain k1 s1 s2 w where mint: "mint_run_for e k p aid job now ?s0 = Inr (k1, s1)"
    and au: "audit e k1 p SYSTEM_ACTOR ''wake_job.leased'' (Some ''run'') (Some (wk_id job)) None
        (''wake job leased to runner '' @ runner) s1 = Inr s2"
    and w: "wake_row_of s2 p (wk_id job) = Inr w" "s' = s2" "r = RWakes [w] 0"
    using assms by (auto simp: hand_out_job_def result_simps lease_to_eq)
  have "wakes s1 = wakes ?s0 \<and> runs s1 = (if run_id_for_wake_job (wk_id job) \<in> set (map ru_id (runs s))
      then runs s else runs s @ [minted_run e p aid job now s])"
    using mint by (auto simp: mint_run_for_def result_simps list_ex_iff image_iff budget table_defs
        dest!: audit_queueD [unfolded table_defs] split: if_splits)
      (metis | simp add: set_wake_def)+
  then show "queue_of s' = (set_w (wk_id job) (lease_to (now + secs)) (wakes s),
      if run_id_for_wake_job (wk_id job) \<in> set (map ru_id (runs s)) then runs s
      else runs s @ [minted_run e p aid job now s])"
    using audit_queueD [OF au] w(2) by (simp add: queue_of_def)
  show "\<exists>w. r = RWakes [w] 0 \<and> wk_id w = wk_id job \<and> w \<in> set (wakes s')"
    using w by (auto simp: wake_row_of_def split: option.splits if_splits dest: find_SomeD)
qed

lemma lease_wake_jobs_cases:
  assumes "lease_wake_jobs e p aid runner n secs at s = Inr (s', r)" and "distinct (map wk_id (wakes s))"
  obtains (none) "r = RWakes [] 1" "queue_steps srv s s'"
  | (job) s2 job x y where "queue_steps srv s s2" "job \<in> set (wakes s2)" "wk_project job = p" "wk_agent job = aid"
      "wk_state job = WPending" "wk_attempts job < WAKE_MAX_ATTEMPTS" "\<not> busy (queue_of s2) p aid"
      "minted_for job y" "queue_of s' = (set_w (wk_id job) (lease_to x) (wakes s2),
        if ru_id y \<in> set (map ru_id (runs s2)) then runs s2 else runs s2 @ [y])"
      "\<exists>w. r = RWakes [w] 0 \<and> wk_id w = wk_id job \<and> w \<in> set (wakes s')"
proof -
  define now where "now = (case at of None \<Rightarrow> clock e | Some w \<Rightarrow> w)"
  define len where "len = (case secs of None \<Rightarrow> WAKE_LEASE_SECONDS | Some n \<Rightarrow> n)"
  obtain k1 s1 k2 s2 where 1: "reclaim_expired e 0 p aid now s = Inr (k1, s1)"
    and 2: "retire_exhausted e k1 p aid s1 = Inr (k2, s2)"
    and 3: "(if agent_is_busy s2 p aid then Inr (s2, RWakes [] 1)
         else case next_job s2 p aid of None \<Rightarrow> Inr (s2, RWakes [] 1)
              | Some job \<Rightarrow> hand_out_job e k2 p aid runner len now job s2) = Inr (s', r)"
    using assms(1) by (auto simp: lease_wake_jobs_def Let_def result_simps now_def [symmetric] len_def [symmetric])
  note m1 = reclaim_expired_moves [OF 1 assms(2), of srv]
  note m2 = queue_steps_trans [OF m1 retire_exhausted_moves [OF 2 wake_ids_steps [OF m1 assms(2)], of srv]]
  show thesis
  proof (cases "agent_is_busy s2 p aid \<or> next_job s2 p aid = None")
    case True
    then show ?thesis using 3 m2 none by (auto split: if_splits)
  next
    case False
    then obtain job where j: "next_job s2 p aid = Some job" and free: "\<not> agent_is_busy s2 p aid" by auto
    have out: "hand_out_job e k2 p aid runner len now job s2 = Inr (s', r)" using 3 j free by simp
    note row = next_job_Some [OF j]
    have "wk_attempts job < WAKE_MAX_ATTEMPTS"
      using retire_exhausted_bound [OF 2, of job] row by (simp add: exhausted_def)
    moreover have "minted_for job (minted_run e p aid job now s2)"
      using row by (simp add: minted_for_def minted_run_def)
    ultimately show ?thesis
      using job [of s2 job "minted_run e p aid job now s2" "now + len"] m2 row free hand_out_queue [OF out]
      by (simp add: agent_is_busy_iff minted_run_def)
  qed
qed

lemma lease_wake_jobs_moves:
  assumes "lease_wake_jobs e p aid runner n secs at s = Inr (s', r)" and "distinct (map wk_id (wakes s))"
  shows "queue_steps srv s s'"
  using assms
proof (cases rule: lease_wake_jobs_cases [where srv = srv])
  case (job s2 job x y)
  have "queue_step srv (wakes s2, runs s2) (queue_of s')" unfolding job(9)
    using job(2-8) by (intro queue_step.hand) (simp_all add: queue_of_def)
  then show ?thesis using queue_steps_trans [OF job(1) queue_steps_one] by (simp add: queue_of_def)
qed

end
