(* ===== verification/Run_Moves.thy ===== *)
theory Run_Moves
  imports Run_Queue
begin

text \<open>
  Every call of the messaging store as moves of the wake queue, and the whole server (board,
  master and messaging calls) as one transition system.
\<close>

section \<open>What each operation does to the messaging tables\<close>

named_theorems msg_tables_of \<open>the messaging tables after a committed operation\<close>

lemma upd_msg_queue [simp]:
  "wakes (upd_msg f s) = mt_wakes (f (db_msg s))" "runs (upd_msg f s) = mt_runs (f (db_msg s))"
  by (simp_all add: table_defs)

lemma create_member_act_msg [msg_tables_of]:
  "create_member_act e p kind name role aid avail mid rq actor s = Inr (s1, r) \<Longrightarrow>
     \<exists>m. db_msg s1 = (db_msg s)\<lparr>mt_members := mt_members (db_msg s) @ [m]\<rparr>"
  by (auto simp: create_member_act_def result_simps table_defs dest!: audit_tables(1) split: if_splits)

lemma revoke_member_act_msg [msg_tables_of]:
  "revoke_member_act e p mid v rq actor s = Inr (s1, r) \<Longrightarrow> db_msg s1 = db_msg (revoke_updates e p mid s)"
  by (auto simp: revoke_member_act_def result_simps dest!: audit_tables(1) split: if_splits)

lemma create_invitation_act_msg [msg_tables_of]:
  "create_invitation_act e p role x cb iid code rq s = Inr (s1, r) \<Longrightarrow>
     \<exists>i. db_msg s1 = (db_msg s)\<lparr>mt_invitations := mt_invitations (db_msg s) @ [i]\<rparr>"
  by (auto simp: create_invitation_act_def Let_def result_simps dest!: audit_tables(1) split: if_splits)

lemma create_channel_act_msg [msg_tables_of]:
  "create_channel_act e p name vis kind topic master cid rq actor s = Inr (s1, r) \<Longrightarrow>
     \<exists>c. db_msg s1 = (db_msg s)\<lparr>mt_channels := mt_channels (db_msg s) @ [c]\<rparr>"
  by (auto simp: create_channel_act_def result_simps table_defs dest!: audit_tables(1) split: if_splits)

lemma add_channel_member_act_msg [msg_tables_of]:
  "add_channel_member_act e p cid mid sub rq actor s = Inr (s1, r) \<Longrightarrow>
     db_msg s1 = (db_msg s)\<lparr>mt_channel_members := upsert_channel_member
       \<lparr>cm_project = p, cm_channel = cid, cm_member = mid, cm_subscribed = sub, cm_joined_at = clock e\<rparr>
       (mt_channel_members (db_msg s))\<rparr>"
  by (auto simp: add_channel_member_act_def Let_def result_simps dest!: audit_tables(1)
      split: if_splits option.splits)

text \<open>The outbox rows of a message: one for each recipient, in order, each new.\<close>

lemma insert_deliveries_Inr:
  "insert_deliveries e k p mid state rcpts s = Inr (s', ds) \<Longrightarrow>
     db_msg s' = (db_msg s)\<lparr>mt_deliveries := mt_deliveries (db_msg s) @ ds\<rparr> \<and> db_runners s' = db_runners s
     \<and> db_audits s' = db_audits s \<and> db_requests s' = db_requests s \<and> db_agents s' = db_agents s
     \<and> map dl_agent ds = rcpts
     \<and> (\<forall>d \<in> set ds. \<exists>st k'. parse_delivery_state state = Some st \<and> d = new_delivery e k' p mid (dl_agent d) st)
     \<and> (distinct (map dl_id (deliveries s)) \<longrightarrow> distinct (map dl_id (deliveries s')))
     \<and> (distinct (map (\<lambda>d. (dl_message d, dl_agent d)) (deliveries s))
        \<longrightarrow> distinct (map (\<lambda>d. (dl_message d, dl_agent d)) (deliveries s')))"
proof (induction rcpts arbitrary: k s ds)
  case Nil
  then show ?case by simp
next
  case (Cons aid rcpts)
  obtain st where st: "parse_delivery_state state = Some st"
    using Cons.prems by (auto split: option.splits)
  let ?d = "new_delivery e k p mid aid st"
  let ?s = "upd_msg (\<lambda>m. m\<lparr>mt_deliveries := deliveries s @ [?d]\<rparr>) s"
  obtain rest where rest: "insert_deliveries e (Suc k) p mid state rcpts ?s = Inr (s', rest)"
    and ds: "ds = ?d # rest"
    and new: "(mid, aid) \<notin> set (map (\<lambda>d. (dl_message d, dl_agent d)) (deliveries s))"
      "dl_id ?d \<notin> set (map dl_id (deliveries s))"
    using Cons.prems st by (auto simp: Let_def result_simps split: if_splits)
  have d: "deliveries ?s = deliveries s @ [?d]" "mt_deliveries (db_msg s) = deliveries s"
    by (simp_all add: table_defs)
  have sel: "dl_message ?d = mid" "dl_agent ?d = aid" by (simp_all add: new_delivery_def)
  show ?case using Cons.IH [OF rest] new ds st d sel by auto
qed

lemma bump_thread_msg:
  "\<exists>ts. db_msg (bump_thread e p t s) = (db_msg s)\<lparr>mt_threads := ts\<rparr>"
  by (cases t) (auto simp: bump_thread_def intro: exI [of _ "mt_threads (db_msg s)"])

lemma send_message_act_msg [msg_tables_of]:
  assumes "send_message_act e p a rq s = Inr (s1, r)"
  shows "\<exists>ds ts. db_msg s1 = (db_msg s)\<lparr>mt_messages := mt_messages (db_msg s) @ [new_message e p a],
     mt_deliveries := mt_deliveries (db_msg s) @ ds, mt_threads := ts\<rparr>"
proof -
  obtain rcpts s2 ds s3 where ms: "ms_id (new_message e p a) \<notin> set (map ms_id (messages s))"
    and ins: "insert_deliveries e 1 p (ms_id (new_message e p a)) (ma_delivery_state a) rcpts
        (upd_msg (\<lambda>m. m\<lparr>mt_messages := messages s @ [new_message e p a]\<rparr>) s) = Inr (s2, ds)"
    and au: "audit e (Suc (length rcpts)) p (ma_author a) ''message.create'' (Some ''message'')
        (Some (ms_id (new_message e p a))) rq ''message created'' (bump_thread e p (ma_thread a) s2) = Inr s3"
    and s1: "s1 = s3"
    using assms by (auto simp: send_message_act_def result_simps)
  obtain ts where "db_msg (bump_thread e p (ma_thread a) s2) = (db_msg s2)\<lparr>mt_threads := ts\<rparr>"
    using bump_thread_msg by blast
  then show ?thesis
    using insert_deliveries_Inr [OF ins] audit_tables(1) [OF au] s1 by (auto simp: table_defs)
qed

lemma create_thread_msg [msg_tables_of]:
  "create_thread e p cid root tk tid s = Inr (s1, r) \<Longrightarrow>
     \<exists>t. db_msg s1 = (db_msg s)\<lparr>mt_threads := mt_threads (db_msg s) @ [t],
        mt_messages := update_where (\<lambda>r. ms_project r = p \<and> ms_id r = root)
          (\<lambda>r. r\<lparr>ms_thread := Some (id_or_mint tid ''thr'' (rnd e 0))\<rparr>) (mt_messages (db_msg s))\<rparr>"
  by (auto simp: create_thread_def Let_def result_simps table_defs dest!: audit_tables(1) split: if_splits)

lemma transition_delivery_act_Inr:
  assumes "transition_delivery_act e p did st a rq actor s = Inr (s1, r)"
  shows "\<exists>d. List.find (\<lambda>d. dl_id d = did) (deliveries s) = Some d \<and> dl_project d = p
     \<and> dl_version d = da_expected a \<and> st \<in> set (DELIVERY_TRANSITIONS (dl_state d))
     \<and> db_msg s1 = (db_msg s)\<lparr>mt_deliveries :=
          update_where (\<lambda>d. dl_id d = did) (delivery_write e st a) (mt_deliveries (db_msg s))\<rparr>"
  using assms
  by (auto simp: transition_delivery_act_def delivery_row_of_def result_simps dest!: audit_tables(1)
      split: if_splits option.splits)

lemma create_wake_job_act_Inr:
  assumes "create_wake_job_act e p mid aid did tid wid rq actor s = Inr ((s1, r), b)"
  shows "(\<not> b \<and> s1 = s) \<or> (wid \<notin> set (map wk_id (wakes s))
     \<and> (p, dedupe_key mid aid) \<notin> set (map (\<lambda>w. (wk_project w, wk_dedupe w)) (wakes s))
     \<and> db_msg s1 = (db_msg s)\<lparr>mt_wakes := mt_wakes (db_msg s) @ [new_wake e p mid aid did tid wid]\<rparr>)"
proof (cases "List.find (\<lambda>w. wk_project w = p \<and> wk_dedupe w = dedupe_key mid aid) (wakes s)")
  case None
  have new: "wk_id (new_wake e p mid aid did tid wid) = wid" by (simp add: new_wake_def)
  from assms None have "wid \<notin> set (map wk_id (wakes s))"
    and "db_msg s1 = (db_msg s)\<lparr>mt_wakes := wakes s @ [new_wake e p mid aid did tid wid]\<rparr>"
    by (auto simp: create_wake_job_act_def result_simps new dest!: audit_tables(1) split: if_splits)
  moreover have "(p, dedupe_key mid aid) \<notin> set (map (\<lambda>w. (wk_project w, wk_dedupe w)) (wakes s))"
    using None by (auto simp: find_None_set)
  ultimately show ?thesis by (simp add: wakes_def)
next
  case (Some w)
  then show ?thesis using assms by (auto simp: create_wake_job_act_def result_simps)
qed

lemma run_row_of_Inr: "run_row_of s p rid = Inr r \<longleftrightarrow>
    List.find (\<lambda>r. ru_id r = rid) (runs s) = Some r \<and> ru_project r = p"
  by (auto simp: run_row_of_def split: option.splits)

lemma complete_wake_job_act_msg [msg_tables_of]:
  "complete_wake_job_act e p wid state st aid rq s = Inr (s1, r) \<Longrightarrow>
     db_msg s1 = (db_msg s)\<lparr>mt_wakes := set_w wid (put_state st) (mt_wakes (db_msg s))\<rparr>"
  by (auto simp: complete_wake_job_act_def result_simps set_wake_def set_w_def put_state_eq
      dest!: audit_tables(1) split: if_splits)

lemma create_run_act_Inr:
  "create_run_act e p a st rid rq s = Inr (s1, r) \<Longrightarrow>
     rid \<notin> set (map ru_id (runs s))
       \<and> db_msg s1 = (db_msg s)\<lparr>mt_runs := mt_runs (db_msg s) @ [new_run e p a st rid]\<rparr>"
  by (auto simp: create_run_act_def result_simps table_defs new_run_def [of e p a st rid, THEN arg_cong [of _ _ ru_id]]
      dest!: audit_tables(1))

definition closed_wakes :: "string \<Rightarrow> string option \<Rightarrow> wake_state \<Rightarrow> wake_row list \<Rightarrow> wake_row list" where
  "closed_wakes p wid st = update_where (\<lambda>w. truthy_str wid \<and> wk_id w = the wid \<and> wk_project w = p
     \<and> (wk_state w = WPending \<or> wk_state w = WLeased)) (put_state st)"

lemma close_wake_job_for_run_msg:
  "db_msg (close_wake_job_for_run p wid st s) =
     (db_msg s)\<lparr>mt_wakes := closed_wakes p wid st (mt_wakes (db_msg s))\<rparr>"
  by (auto simp: close_wake_job_for_run_def closed_wakes_def put_state_eq update_where_def)

lemma set_run_msg: "db_msg (set_run rid f s) = (db_msg s)\<lparr>mt_runs := set_r rid f (mt_runs (db_msg s))\<rparr>"
  by (simp add: set_run_def set_r_def)

lemma event_updates_msg:
  "db_msg (event_updates e p rid a st row s) = (db_msg s)\<lparr>
     mt_runs := set_r rid (event_write e a st) (mt_runs (db_msg s)),
     mt_wakes := (if st = RResponded then closed_wakes p (ru_wake row) WCompleted (mt_wakes (db_msg s))
                  else if st = RFailed then closed_wakes p (ru_wake row) WFailed (mt_wakes (db_msg s))
                  else mt_wakes (db_msg s))\<rparr>"
  by (simp add: event_updates_def Let_def close_wake_job_for_run_msg set_run_msg)

lemma record_run_event_act_Inr:
  assumes "record_run_event_act e p rid a st rq s = Inr (s1, r)"
  shows "\<exists>row. List.find (\<lambda>r. ru_id r = rid) (runs s) = Some row \<and> ru_project row = p
     \<and> ru_version row = ea_expected a \<and> \<not> terminal_run (ru_state row)
     \<and> (if attributed s a row then db_msg s1 = db_msg (event_updates e p rid a st row s)
        else db_msg s1 = db_msg s \<and> r = RRun row)"
  using assms
  by (auto simp: record_run_event_act_def run_row_of_Inr result_simps dest!: audit_tables(1) split: if_splits)

lemma cancel_run_act_Inr:
  assumes "cancel_run_act e p rid v reason rq s = Inr (s1, r)"
  shows "\<exists>row f. List.find (\<lambda>r. ru_id r = rid) (runs s) = Some row \<and> ru_project row = p
     \<and> ru_version row = v \<and> \<not> terminal_run (ru_state row)
     \<and> f = (\<lambda>r. r\<lparr>ru_state := RCanceled, ru_reason := reason, ru_ended := Some (clock e),
               ru_version := ru_version r + 1\<rparr>)
     \<and> db_msg s1 = (db_msg s)\<lparr>mt_runs := set_r rid f (mt_runs (db_msg s)),
          mt_wakes := closed_wakes p (ru_wake row) WCanceled (mt_wakes (db_msg s))\<rparr>"
  using assms
  by (auto simp: cancel_run_act_def run_row_of_Inr result_simps close_wake_job_for_run_msg set_run_msg
      dest!: audit_tables(1) split: if_splits)

lemma lease_call_msg:
  "acquire_runner_lease_act e p a rq s = Inr (s1, r) \<Longrightarrow> db_msg s1 = db_msg s"
  "touch_lease e p aid x action summary rq s = Inr (s1, r) \<Longrightarrow> db_msg s1 = db_msg s"
  by (auto simp: acquire_runner_lease_act_def grant_def touch_lease_def set_runner_def Let_def result_simps
      dest!: audit_tables(1) split: if_splits option.splits)

section \<open>Every call as moves of the queue\<close>

fun server_call :: "wop \<Rightarrow> bool" where
  "server_call (WCreateJob p mid aid did tk wid rq ac) = (wid = None)"
| "server_call (WCreateRun p a rid rq) = False"
| "server_call x = True"

lemma queue_of_msg: "db_msg s' = db_msg s \<Longrightarrow> queue_of s' = queue_of s"
  by (simp add: queue_of_def table_defs)

lemma idem_moves:
  assumes "idem e p rq opn body act s = Inr (s', r)"
    and "\<And>s1. act s = Inr (s1, r) \<Longrightarrow> queue_steps srv s s1"
  shows "queue_steps srv s s'"
  by (rule idem_frame [OF assms(1), where R = "queue_steps srv"])
    (use assms(2) in \<open>simp_all add: queue_steps_def queue_of_def\<close>)

text \<open>The operations on the other messaging tables leave the queue alone.\<close>

lemma act_queue_same:
  "create_member_act e p kind name role ag avail mid rq actor s = Inr (s1, r) \<Longrightarrow> queue_steps srv s s1"
  "revoke_member_act e p mid v rq actor s = Inr (s1, r) \<Longrightarrow> queue_steps srv s s1"
  "create_invitation_act e p role x cb iid code rq s = Inr (s1, r) \<Longrightarrow> queue_steps srv s s1"
  "create_channel_act e p name vis kind topic master cid rq actor s = Inr (s1, r) \<Longrightarrow> queue_steps srv s s1"
  "add_channel_member_act e p cid mid sub rq actor s = Inr (s1, r) \<Longrightarrow> queue_steps srv s s1"
  "send_message_act e p ma rq s = Inr (s1, r) \<Longrightarrow> queue_steps srv s s1"
  "create_thread e p cid root tk tid s = Inr (s1, r) \<Longrightarrow> queue_steps srv s s1"
  "transition_delivery_act e p did st da rq actor s = Inr (s1, r) \<Longrightarrow> queue_steps srv s s1"
  "acquire_runner_lease_act e p la rq s = Inr (s1, r) \<Longrightarrow> queue_steps srv s s1"
  "touch_lease e p aid x action summary rq s = Inr (s1, r) \<Longrightarrow> queue_steps srv s s1"
  by (drule msg_tables_of transition_delivery_act_Inr lease_call_msg;
    force intro!: queue_steps_same simp: queue_of_def table_defs revoke_updates_def)+

lemma remember_msg: "remember e p rq opn body r s = Inr s' \<Longrightarrow> db_msg s' = db_msg s"
  by (cases rq) (auto simp: remember_def result_simps)

lemma create_wake_job_moves:
  assumes "create_wake_job e p mid aid did tk wid rq actor s = Inr (s', r)" and "srv \<longrightarrow> wid = None"
  shows "queue_steps srv s s'"
proof -
  let ?wid = "id_or_mint wid ''wjb'' (rnd e 0)"
  have same: "queue_steps srv s s2"
    if "create_wake_job_act e p mid aid did tk ?wid rq actor s = Inr ((s1, r1), b)"
      "db_msg s2 = db_msg s1" for s1 r1 b s2
  proof -
    let ?w = "new_wake e p mid aid did tk ?wid"
    have w: "wk_id ?w = ?wid" "wk_project ?w = p" "wk_dedupe ?w = dedupe_key mid aid"
      "wk_state ?w = WPending" "wk_attempts ?w = 0" by (simp_all add: new_wake_def)
    note run = that(1) and eq = that(2)
    consider "s1 = s" | "?wid \<notin> set (map wk_id (wakes s))"
      "(p, dedupe_key mid aid) \<notin> set (map (\<lambda>w. (wk_project w, wk_dedupe w)) (wakes s))"
      "db_msg s1 = (db_msg s)\<lparr>mt_wakes := mt_wakes (db_msg s) @ [?w]\<rparr>"
      using create_wake_job_act_Inr [OF run] by blast
    then show ?thesis
    proof cases
      case 1
      then show ?thesis using eq by (intro queue_steps_same queue_of_msg) simp
    next
      case 2
      have "srv \<longrightarrow> (\<exists>x. wk_id ?w = ''wjb_'' @ x)"
        using assms(2) w(1) by (auto simp: id_or_mint_def mint_def)
      then have "queue_step srv (wakes s, runs s) (wakes s @ [?w], runs s)"
        using 2(1,2) w by (intro queue_step.enqueue) auto
      then show ?thesis
        using 2(3) eq by (intro queue_steps_one) (simp add: queue_of_def table_defs)
    qed
  qed
  show ?thesis
  proof -
    obtain stored where st: "replay e p rq ''create_wake_job'' (JObj [(''message_id'', JStr mid),
        (''recipient_agent_id'', JStr aid), (''delivery_id'', JStr did), (''ticket_id'', jopt tk)]) s = Inr stored"
      using assms(1) by (auto simp: create_wake_job_def Let_def result_simps)
    show ?thesis
    proof (cases stored)
      case (Some x)
      then show ?thesis using assms(1) st by (auto simp: create_wake_job_def)
    next
      case None
      then obtain s1 r1 b where act: "create_wake_job_act e p mid aid did tk ?wid rq actor s = Inr ((s1, r1), b)"
        and rest: "(if b then bindE (remember e p rq ''create_wake_job'' (JObj [(''message_id'', JStr mid),
            (''recipient_agent_id'', JStr aid), (''delivery_id'', JStr did), (''ticket_id'', jopt tk)]) r1 s1)
            (\<lambda>s''. Inr (s'', r1)) else Inr (s1, r1)) = Inr (s', r)"
        using assms(1) st by (auto simp: create_wake_job_def Let_def result_simps)
      have "db_msg s' = db_msg s1"
        using rest by (auto simp: result_simps split: if_splits dest!: remember_msg)
      then show ?thesis using same [OF act] by blast
    qed
  qed
qed

lemma event_state:
  "map_of RUN_EVENT_TARGETS ev = Some st \<Longrightarrow>
     st = RStarting \<or> st = RRunning \<or> st = RPaused \<or> st = RResponded \<or> st = RFailed"
  by (auto simp: RUN_EVENT_TARGETS_def split: if_splits)

lemma event_write_keeps:
  "keeps_key r (event_write e a st r)" "ru_state (event_write e a st r) = st"
  "attributed s a r \<Longrightarrow> keeps_run r (event_write e a st r)"
  by (auto simp: keeps_key_def keeps_run_def event_write_def attributed_def coalesce_def split: option.splits)

lemma record_run_event_act_moves:
  assumes "record_run_event_act e p rid a st rq s = Inr (s1, r)" and "map_of RUN_EVENT_TARGETS ev = Some st"
  shows "queue_steps srv s s1"
proof -
  obtain row where row: "List.find (\<lambda>r. ru_id r = rid) (runs s) = Some row" "ru_project row = p"
    "\<not> terminal_run (ru_state row)"
    and new: "if attributed s a row then db_msg s1 = db_msg (event_updates e p rid a st row s)
       else db_msg s1 = db_msg s"
    using record_run_event_act_Inr [OF assms(1)] by (auto split: if_splits)
  have mem: "row \<in> set (runs s)" "ru_id row = rid" using find_SomeD [OF row(1)] by auto
  show ?thesis
  proof (cases "attributed s a row")
    case False
    then show ?thesis using new by (intro queue_steps_same queue_of_msg) simp
  next
    case True
    note keeps = event_write_keeps(1) event_write_keeps(3) [OF True]
    have eq: "db_msg s1 = db_msg (event_updates e p rid a st row s)" using new True by simp
    consider (live) "live_run st" "st \<noteq> RResponded" "st \<noteq> RFailed"
      | (ends) "terminal_run st" "st = RResponded \<or> st = RFailed"
      using event_state [OF assms(2)] by (auto simp: live_run_def terminal_run_def)
    then show ?thesis
    proof cases
      case live
      have "queue_step srv (wakes s, runs s) (wakes s, set_r (ru_id row) (event_write e a st) (runs s))"
        using mem row live keeps by (intro queue_step.event) (auto simp: event_write_keeps)
      then show ?thesis using eq live mem
        by (intro queue_steps_one) (simp add: queue_of_def table_defs event_updates_msg)
    next
      case ends
      define wst where "wst = (if st = RResponded then WCompleted else WFailed)"
      have "queue_step srv (wakes s, runs s) (closed_wakes p (ru_wake row) wst (wakes s),
          set_r (ru_id row) (event_write e a st) (runs s))"
        using mem row ends keeps
        by (intro queue_step.close) (auto simp: event_write_keeps wst_def closed_wakes_def)
      then show ?thesis using eq ends mem
        by (intro queue_steps_one) (auto simp: queue_of_def table_defs event_updates_msg wst_def)
    qed
  qed
qed

lemma cancel_run_act_moves:
  assumes "cancel_run_act e p rid v reason rq s = Inr (s1, r)"
  shows "queue_steps srv s s1"
proof -
  let ?f = "\<lambda>r. r\<lparr>ru_state := RCanceled, ru_reason := reason, ru_ended := Some (clock e),
      ru_version := ru_version r + 1\<rparr>"
  obtain row where row: "List.find (\<lambda>r. ru_id r = rid) (runs s) = Some row" "ru_project row = p"
    "\<not> terminal_run (ru_state row)"
    and eq: "db_msg s1 = (db_msg s)\<lparr>mt_runs := set_r rid ?f (mt_runs (db_msg s)),
          mt_wakes := closed_wakes p (ru_wake row) WCanceled (mt_wakes (db_msg s))\<rparr>"
    using cancel_run_act_Inr [OF assms] by auto
  have mem: "row \<in> set (runs s)" "ru_id row = rid" using find_SomeD [OF row(1)] by auto
  have "queue_step srv (wakes s, runs s) (closed_wakes p (ru_wake row) WCanceled (wakes s),
      set_r (ru_id row) ?f (runs s))"
    using mem row
    by (intro queue_step.close) (auto simp: closed_wakes_def terminal_run_def keeps_key_def keeps_run_def)
  then show ?thesis using eq mem by (intro queue_steps_one) (simp add: queue_of_def table_defs)
qed

lemma complete_wake_job_act_moves:
  assumes "complete_wake_job_act e p wid state st aid rq s = Inr (s1, r)" and "parse_wake_end w = Some st"
  shows "queue_steps srv s s1"
proof -
  have "st \<in> {WCompleted, WFailed, WCanceled}"
    using assms(2) by (auto simp: parse_wake_end_def split: if_splits)
  then show ?thesis
    using complete_wake_job_act_msg [OF assms(1)]
    by (intro queue_steps_one) (simp add: queue_of_def table_defs queue_step.finish)
qed

lemma create_run_act_moves:
  assumes "create_run_act e p a st rid rq s = Inr (s1, r)"
  shows "queue_steps False s s1"
proof -
  have "queue_step False (wakes s, runs s) (wakes s, runs s @ [new_run e p a st rid])"
    using create_run_act_Inr [OF assms] by (intro queue_step.spawn) (auto simp: new_run_def)
  then show ?thesis
    using create_run_act_Inr [OF assms] by (intro queue_steps_one) (simp add: queue_of_def table_defs)
qed

lemma wbody_moves:
  assumes "wbody e x s = Inr (s', r)" and "distinct (map wk_id (wakes s))" and "srv \<longrightarrow> server_call x"
  shows "queue_steps srv s s'"
proof (cases x)
  case (WCreateJob p mid aid did tk wid rq ac)
  then show ?thesis using create_wake_job_moves assms by fastforce
next
  case (WLeaseJobs p aid ru n secs at)
  then show ?thesis using lease_wake_jobs_moves assms by fastforce
next
  case (WCreateRun p a rid rq)
  then have "\<not> srv" using assms(3) by simp
  then show ?thesis using assms(1) WCreateRun
    by (auto simp: create_run_def split: option.splits elim!: idem_moves intro: create_run_act_moves)
next
  case (WRunEvent p rid a rq)
  then show ?thesis using assms(1)
    by (auto simp: record_run_event_def split: option.splits elim!: idem_moves
        intro: record_run_event_act_moves)
next
  case (WCompleteJob p w st aid rq)
  then show ?thesis using assms(1)
    by (auto simp: complete_wake_job_def split: option.splits elim!: idem_moves
        intro: complete_wake_job_act_moves)
qed (use assms(1) in \<open>auto simp: create_member_def revoke_member_def create_invitation_def create_channel_def
    add_channel_member_def send_message_def transition_delivery_def cancel_run_def acquire_runner_lease_def
    heartbeat_runner_lease_def heartbeat_runner_lease_act_def expire_runner_lease_def Let_def result_simps
    split: option.splits if_splits elim!: idem_moves intro: act_queue_same cancel_run_act_moves\<close>)

end
