(* ===== verification/Run_Reach.thy ===== *)
theory Run_Reach
  imports Run_Moves Master_Fence
begin

text \<open>
  The whole server (board, master and messaging calls) as one transition system, and the
  invariants of the wake queue along it.
\<close>

section \<open>All calls of the server\<close>

datatype sop = SMaster mop | SMsg wop

fun sbody :: "env \<Rightarrow> sop \<Rightarrow> db \<Rightarrow> error + db \<times> response" where
  "sbody e (SMaster m) s = mbody e m s"
| "sbody e (SMsg x) s = wbody e x s"

definition sexec :: "env \<Rightarrow> sop \<Rightarrow> db \<Rightarrow> (error + response) \<times> db" where
  "sexec e x s = write_txn (sbody e x) s"

fun by_server :: "sop \<Rightarrow> bool" where
  "by_server (SMaster m) = True"
| "by_server (SMsg x) = server_call x"

text \<open>With \<open>srv\<close> only the calls the server itself makes, without it any call of the store.\<close>

definition sstep :: "bool \<Rightarrow> db \<Rightarrow> db \<Rightarrow> bool" where
  "sstep srv s s' \<longleftrightarrow> (\<exists>e x. (srv \<longrightarrow> by_server x) \<and> s' = snd (sexec e x s))"

definition sreach :: "bool \<Rightarrow> db \<Rightarrow> bool" where
  "sreach srv s \<longleftrightarrow> (sstep srv)\<^sup>*\<^sup>* empty_db s"

lemma sstep_exec: "srv \<longrightarrow> by_server x \<Longrightarrow> sstep srv s (snd (sexec e x s))"
  by (auto simp: sstep_def)

lemma sreach_steps: "sreach srv s \<Longrightarrow> (sstep srv)\<^sup>*\<^sup>* s s' \<Longrightarrow> sreach srv s'"
  unfolding sreach_def by (rule rtranclp_trans)

lemma sexec_cases:
  assumes "\<And>s' r. sbody e x s = Inr (s', r) \<Longrightarrow> P s'" and "P s"
  shows "P (snd (sexec e x s))"
  using assms by (auto simp: sexec_def write_txn_def split: sum.splits)

text \<open>Board and master calls leave the messaging tables and the runner leases alone.\<close>

lemma audit_messaging:
  "audit e k p actor action st sid rq summary s = Inr s' \<Longrightarrow> db_msg s' = db_msg s \<and> db_runners s' = db_runners s"
  using messaging.audit_blind by simp

lemma expire_loop_messaging:
  "expire_loop e p a i rs s = Inr s' \<Longrightarrow> (db_msg s', db_runners s') = (db_msg s, db_runners s)"
proof (induction rs arbitrary: i s)
  case Nil
  then show ?case by simp
next
  case (Cons r rs)
  then show ?case by (fastforce simp: result_simps dest: audit_messaging)
qed

lemma master_act_messaging:
  "take_lease_act e p h n ttl rq s = Inr (s1, r) \<Longrightarrow> (db_msg s1, db_runners s1) = (db_msg s, db_runners s)"
  "set_paused_act e p a n b rq s = Inr (s1, r) \<Longrightarrow> (db_msg s1, db_runners s1) = (db_msg s, db_runners s)"
  "create_assignment_act e p a t ag re n v ttl rq s = Inr (s1, r)
     \<Longrightarrow> (db_msg s1, db_runners s1) = (db_msg s, db_runners s)"
    apply (auto simp: take_lease_act_def Let_def result_simps dest!: audit_messaging
      split: if_splits option.splits)[1]
   apply (auto simp: set_paused_act_def result_simps dest!: audit_messaging split: if_splits)[1]
  apply (auto simp: create_assignment_act_def Let_def result_simps dest!: audit_messaging
      split: if_splits option.splits)
  done

lemma messaging_idem:
  assumes "idem e p rq opn body act s = Inr (s', r)"
    and "\<And>s1. act s = Inr (s1, r) \<Longrightarrow> (db_msg s1, db_runners s1) = (db_msg s, db_runners s)"
  shows "(db_msg s', db_runners s') = (db_msg s, db_runners s)"
  by (rule messaging.idem_blind [OF assms(1)]) (rule assms(2))

lemma mbody_messaging:
  "mbody e m s = Inr (s', r) \<Longrightarrow> (db_msg s', db_runners s') = (db_msg s, db_runners s)"
proof (cases m)
  case (MBoard x)
  then show "mbody e m s = Inr (s', r) \<Longrightarrow> ?thesis" using messaging.body_blind by fastforce
next
  case (MExpire p a n)
  then show "mbody e m s = Inr (s', r) \<Longrightarrow> ?thesis"
    by (auto simp: expire_reservations_def Let_def result_simps dest!: expire_loop_messaging split: if_splits)
next
  case (MTake p h n ttl rq)
  then show "mbody e m s = Inr (s', r) \<Longrightarrow> ?thesis"
    unfolding MTake mbody.simps take_lease_def by (elim messaging_idem master_act_messaging)
next
  case (MPause p a n b rq)
  then show "mbody e m s = Inr (s', r) \<Longrightarrow> ?thesis"
    unfolding MPause mbody.simps set_paused_def by (elim messaging_idem master_act_messaging)
next
  case (MAssign p a t ag re n v ttl rq)
  then show "mbody e m s = Inr (s', r) \<Longrightarrow> ?thesis"
    unfolding MAssign mbody.simps create_assignment_def by (elim messaging_idem master_act_messaging)
qed (auto simp: expire_assignments_def sweep_log_def checkpoint_def Let_def split: if_splits option.splits)

lemma sexec_moves:
  assumes "distinct (map wk_id (wakes s))" and "srv \<longrightarrow> by_server x"
  shows "queue_steps srv s (snd (sexec e x s))"
proof (rule sexec_cases)
  fix s' r
  assume run: "sbody e x s = Inr (s', r)"
  show "queue_steps srv s s'"
  proof (cases x)
    case (SMaster m)
    then show ?thesis using run mbody_messaging [of e m s s' r]
      by (intro queue_steps_same queue_of_msg) simp
  next
    case (SMsg y)
    then show ?thesis using run assms wbody_moves by simp
  qed
qed simp

section \<open>Invariants of the queue\<close>

definition one_lease :: "wake_row list \<Rightarrow> bool" where
  "one_lease ws \<longleftrightarrow> (\<forall>v \<in> set ws. \<forall>w \<in> set ws. wk_state v = WLeased \<longrightarrow> wk_state w = WLeased
     \<longrightarrow> wk_project v = wk_project w \<longrightarrow> wk_agent v = wk_agent w \<longrightarrow> wk_id v = wk_id w)"

definition few_attempts :: "wake_row list \<Rightarrow> bool" where
  "few_attempts ws \<longleftrightarrow> (\<forall>w \<in> set ws. 0 \<le> wk_attempts w \<and> wk_attempts w \<le> WAKE_MAX_ATTEMPTS)"

definition queue_ok :: "queue \<Rightarrow> bool" where
  "queue_ok q \<longleftrightarrow> distinct (map wk_id (fst q)) \<and> distinct (map ru_id (snd q))
     \<and> distinct (map (\<lambda>w. (wk_project w, wk_dedupe w)) (fst q)) \<and> few_attempts (fst q) \<and> one_lease (fst q)"

lemma few_attemptsD: "few_attempts ws \<Longrightarrow> w \<in> set ws \<Longrightarrow> 0 \<le> wk_attempts w \<and> wk_attempts w \<le> WAKE_MAX_ATTEMPTS"
  by (simp add: few_attempts_def)

lemma one_leaseD:
  "one_lease ws \<Longrightarrow> v \<in> set ws \<Longrightarrow> w \<in> set ws \<Longrightarrow> wk_state v = WLeased \<Longrightarrow> wk_state w = WLeased
     \<Longrightarrow> wk_project v = wk_project w \<Longrightarrow> wk_agent v = wk_agent w \<Longrightarrow> wk_id v = wk_id w"
  unfolding one_lease_def by blast

lemma ids_update:
  "map wk_id (set_w wid (put_state st) ws) = map wk_id ws"
  "map wk_id (set_w wid (lease_to x) ws) = map wk_id ws"
  "map wk_id (set_w wid (\<lambda>w. w\<lparr>wk_state := WFailed\<rparr>) ws) = map wk_id ws"
  "map (\<lambda>w. (wk_project w, wk_dedupe w)) (set_w wid (put_state st) ws) = map (\<lambda>w. (wk_project w, wk_dedupe w)) ws"
  "map (\<lambda>w. (wk_project w, wk_dedupe w)) (set_w wid (lease_to x) ws) = map (\<lambda>w. (wk_project w, wk_dedupe w)) ws"
  "map (\<lambda>w. (wk_project w, wk_dedupe w)) (set_w wid (\<lambda>w. w\<lparr>wk_state := WFailed\<rparr>) ws)
     = map (\<lambda>w. (wk_project w, wk_dedupe w)) ws"
  "map wk_id (update_where P (put_state st) ws) = map wk_id ws"
  "map (\<lambda>w. (wk_project w, wk_dedupe w)) (update_where P (put_state st) ws)
     = map (\<lambda>w. (wk_project w, wk_dedupe w)) ws"
  by (simp_all add: set_w_def map_update_where)

lemma run_ids_update:
  "map ru_id (set_r rid (orphan_run now) rs) = map ru_id rs"
  "(\<And>r. keeps_key r (f r)) \<Longrightarrow> map ru_id (set_r rid f rs) = map ru_id rs"
  by (simp_all add: set_r_def map_update_where orphan_run_def keeps_key_def)

text \<open>A write of the queue that leases nothing and keeps what identifies the jobs.\<close>

definition tame :: "wake_row \<Rightarrow> wake_row \<Rightarrow> bool" where
  "tame u v \<longleftrightarrow> wk_id v = wk_id u \<and> wk_project v = wk_project u \<and> wk_agent v = wk_agent u
     \<and> wk_dedupe v = wk_dedupe u \<and> wk_attempts v = wk_attempts u
     \<and> (wk_state v = WLeased \<longrightarrow> wk_state u = WLeased)"

lemma tame_simps [simp]:
  "tame w w" "st \<noteq> WLeased \<Longrightarrow> tame w (put_state st w)" "tame w (w\<lparr>wk_state := WFailed\<rparr>)"
  by (simp_all add: tame_def put_state_def)

lemma set_w_tame: "(\<And>w. tame w (f w)) \<Longrightarrow> list_all2 tame ws (set_w wid f ws)"
  by (induction ws) (auto simp: set_w_def)

lemma update_where_tame: "(\<And>w. tame w (f w)) \<Longrightarrow> list_all2 tame ws (update_where P f ws)"
  by (induction ws) auto

lemma tame_keys:
  assumes "list_all2 tame ws ws'"
  shows "map wk_id ws' = map wk_id ws"
    "map (\<lambda>w. (wk_project w, wk_dedupe w)) ws' = map (\<lambda>w. (wk_project w, wk_dedupe w)) ws"
    "v \<in> set ws' \<Longrightarrow> \<exists>u \<in> set ws. tame u v"
  using assms by (induction rule: list_all2_induct) (auto simp: tame_def)

lemma queue_ok_tame:
  assumes ok: "queue_ok (ws, rs)" and "list_all2 tame ws ws'" and "map ru_id rs' = map ru_id rs"
  shows "queue_ok (ws', rs')"
proof -
  note keys = tame_keys [OF assms(2)]
  have few: "few_attempts ws" and one: "one_lease ws" using ok by (simp_all add: queue_ok_def)
  have "few_attempts ws'" unfolding few_attempts_def
  proof
    fix v assume "v \<in> set ws'"
    then obtain u where "u \<in> set ws" "tame u v" using keys(3) by blast
    then show "0 \<le> wk_attempts v \<and> wk_attempts v \<le> WAKE_MAX_ATTEMPTS"
      using few_attemptsD [OF few] by (simp add: tame_def)
  qed
  moreover have "one_lease ws'" unfolding one_lease_def
  proof (intro ballI impI)
    fix u v
    assume uv: "u \<in> set ws'" "v \<in> set ws'" "wk_state u = WLeased" "wk_state v = WLeased"
      "wk_project u = wk_project v" "wk_agent u = wk_agent v"
    obtain a b where "a \<in> set ws" "tame a u" "b \<in> set ws" "tame b v" using keys(3) uv(1,2) by blast
    then show "wk_id u = wk_id v" using one_leaseD [OF one, of a b] uv(3-6) by (simp add: tame_def)
  qed
  ultimately show ?thesis using ok assms(3) keys(1,2) by (simp add: queue_ok_def)
qed

lemma hand_ok:
  assumes ok: "queue_ok (ws, rs)" and w: "w \<in> set ws" "wk_attempts w < WAKE_MAX_ATTEMPTS"
    and idle: "\<not> busy (ws, rs) (wk_project w) (wk_agent w)" and rs': "distinct (map ru_id rs')"
  shows "queue_ok (set_w (wk_id w) (lease_to x) ws, rs')"
proof -
  let ?ws = "set_w (wk_id w) (lease_to x) ws"
  have few: "few_attempts ws" and one: "one_lease ws" and ids: "distinct (map wk_id ws)"
    using ok by (simp_all add: queue_ok_def)
  have pre: "\<exists>u \<in> set ws. v = (if u = w then lease_to x u else u)" if v: "v \<in> set ?ws" for v
  proof -
    obtain u where u: "u \<in> set ws" "v = (if wk_id u = wk_id w then lease_to x u else u)"
      using v unfolding set_w_set by blast
    have "wk_id u = wk_id w \<longleftrightarrow> u = w" using u(1) w(1) unique_key [OF ids, of u w] by blast
    then show ?thesis using u by auto
  qed
  have "few_attempts ?ws" unfolding few_attempts_def
  proof
    fix v assume "v \<in> set ?ws"
    then obtain u where "u \<in> set ws" "v = (if u = w then lease_to x u else u)" using pre by blast
    then show "0 \<le> wk_attempts v \<and> wk_attempts v \<le> WAKE_MAX_ATTEMPTS"
      using few_attemptsD [OF few, of u] w(2) by (simp split: if_splits)
  qed
  moreover have "one_lease ?ws" unfolding one_lease_def
  proof (intro ballI impI)
    fix u v
    assume uv: "u \<in> set ?ws" "v \<in> set ?ws" "wk_state u = WLeased" "wk_state v = WLeased"
      "wk_project u = wk_project v" "wk_agent u = wk_agent v"
    obtain a b where a: "a \<in> set ws" "u = (if a = w then lease_to x a else a)"
      and b: "b \<in> set ws" "v = (if b = w then lease_to x b else b)"
      using pre uv(1,2) by blast
    have free: "\<not> (wk_state y = WLeased \<and> wk_project y = wk_project w \<and> wk_agent y = wk_agent w)"
      if "y \<in> set ws" for y
      using idle that by (auto simp: busy_def)
    consider "a = w" "b = w" | "a = w" "b \<noteq> w" | "a \<noteq> w" "b = w" | "a \<noteq> w" "b \<noteq> w" by blast
    then show "wk_id u = wk_id v"
    proof cases
      case 4
      then show ?thesis using one_leaseD [OF one a(1) b(1)] a b uv(3-6) by simp
    qed (use a b uv(3-6) free [OF a(1)] free [OF b(1)] in simp_all)
  qed
  ultimately show ?thesis using ok rs' by (simp add: queue_ok_def ids_update)
qed

lemma enqueue_ok:
  assumes "queue_ok (ws, rs)" and "wk_id w \<notin> set (map wk_id ws)"
    and "(wk_project w, wk_dedupe w) \<notin> set (map (\<lambda>w. (wk_project w, wk_dedupe w)) ws)"
    and "wk_state w = WPending" "wk_attempts w = 0"
  shows "queue_ok (ws @ [w], rs)"
proof -
  have one: "one_lease ws" using assms(1) by (simp add: queue_ok_def)
  have "one_lease (ws @ [w])" unfolding one_lease_def
  proof (intro ballI impI)
    fix u v
    assume uv: "u \<in> set (ws @ [w])" "v \<in> set (ws @ [w])" "wk_state u = WLeased" "wk_state v = WLeased"
      "wk_project u = wk_project v" "wk_agent u = wk_agent v"
    then have "u \<in> set ws" "v \<in> set ws" using assms(4) by auto
    then show "wk_id u = wk_id v" using one_leaseD [OF one] uv(3-6) by blast
  qed
  moreover have "few_attempts (ws @ [w])"
    using assms(1,5) by (auto simp: queue_ok_def few_attempts_def WAKE_MAX_ATTEMPTS_def)
  ultimately show ?thesis using assms by (simp add: queue_ok_def)
qed

lemma queue_ok_step: "queue_step srv q q' \<Longrightarrow> queue_ok q \<Longrightarrow> queue_ok q'"
proof (induction rule: queue_step.induct)
  case (enqueue w ws rs)
  then show ?case using enqueue_ok by blast
next
  case (requeue w ws rs)
  show ?case by (rule queue_ok_tame [OF requeue(4) set_w_tame]) simp_all
next
  case (orphan w ws rs r rs' now)
  show ?case by (rule queue_ok_tame [OF orphan(7) set_w_tame]) (simp_all add: orphan(6) run_ids_update)
next
  case (retire w ws rs)
  show ?case by (rule queue_ok_tame [OF retire(3) set_w_tame]) simp_all
next
  case (hand w ws rs r rs' x)
  have "distinct (map ru_id rs)" using hand(7) by (simp add: queue_ok_def)
  then have "distinct (map ru_id rs')" using hand(6) by simp
  then show ?case by (rule hand_ok [OF hand(7,1,3,4)])
next
  case (finish st ws rs wid)
  show ?case by (rule queue_ok_tame [OF finish(2) set_w_tame]) (use finish(1) in auto)
next
  case (event r rs f ws)
  then show ?case by (simp add: queue_ok_def run_ids_update)
next
  case (close r rs f st ws' ws)
  have "list_all2 tame ws ws'" unfolding close(7) by (intro update_where_tame) (use close(6) in auto)
  then show ?case by (rule queue_ok_tame [OF close(8)]) (simp add: run_ids_update close(4))
next
  case (spawn r rs ws)
  then show ?case by (simp add: queue_ok_def)
qed

lemma queue_ok_steps: "queue_steps srv s s' \<Longrightarrow> queue_ok (queue_of s) \<Longrightarrow> queue_ok (queue_of s')"
  unfolding queue_steps_def by (induction rule: rtranclp_induct) (auto dest: queue_ok_step)

lemma queue_ok_ids: "queue_ok (queue_of s) \<Longrightarrow> distinct (map wk_id (wakes s))"
  by (simp add: queue_ok_def queue_of_def)

lemma empty_queue [simp]: "queue_of empty_db = ([], [])"
  by (simp add: queue_of_def table_defs empty_db_def empty_msg_def)

lemma sstep_moves:
  assumes "sstep srv s s'" and "queue_ok (queue_of s)"
  shows "queue_steps srv s s' \<and> queue_ok (queue_of s')"
proof -
  have "queue_steps srv s s'"
    using assms sexec_moves queue_ok_ids by (auto simp: sstep_def)
  then show ?thesis using queue_ok_steps assms(2) by blast
qed

lemma ssteps_moves:
  assumes "(sstep srv)\<^sup>*\<^sup>* s s'" and "queue_ok (queue_of s)"
  shows "queue_steps srv s s' \<and> queue_ok (queue_of s')"
  using assms
proof (induction rule: rtranclp_induct)
  case base
  then show ?case by simp
next
  case (step s' s'')
  then show ?case using sstep_moves queue_steps_trans by blast
qed

lemma sreach_queue_ok: "sreach srv s \<Longrightarrow> queue_ok (queue_of s)"
proof -
  assume "sreach srv s"
  moreover have "queue_ok (queue_of empty_db)" by (simp add: queue_ok_def few_attempts_def one_lease_def)
  ultimately show "queue_ok (queue_of s)" unfolding sreach_def using ssteps_moves by blast
qed

end
