(* ===== verification/Run_Life.thy ===== *)
theory Run_Life
  imports Run_Reach
begin

text \<open>
  The life of a wake job and its run when only the server writes: the invariants that tie
  a run to its job, and the refinement of the queue to the five phases of a job.
\<close>

section \<open>A run serves the job it was minted for\<close>

definition open_job :: "wake_row \<Rightarrow> bool" where
  "open_job w \<longleftrightarrow> wk_state w = WPending \<or> wk_state w = WLeased"

definition fresh_run :: "run_row \<Rightarrow> bool" where
  "fresh_run r \<longleftrightarrow> ru_state r = RPending \<and> ru_version r = 1 \<and> ru_session r = None \<and> ru_started r = None"

definition serves :: "wake_row \<Rightarrow> run_row \<Rightarrow> bool" where
  "serves w r \<longleftrightarrow> ru_wake r = Some (wk_id w) \<and> ru_id r = run_id_for_wake_job (wk_id w)
     \<and> ru_project r = wk_project w \<and> ru_agent r = wk_agent w
     \<and> (terminal_run (ru_state r) \<longrightarrow> \<not> open_job w) \<and> (ru_state r = RPending \<longrightarrow> fresh_run r)"

definition served :: "queue \<Rightarrow> bool" where
  "served q \<longleftrightarrow> (\<forall>w \<in> set (fst q). \<exists>x. wk_id w = ''wjb_'' @ x)
     \<and> (\<forall>r \<in> set (snd q). \<exists>w \<in> set (fst q). serves w r)
     \<and> (\<forall>w \<in> set (fst q). wk_state w = WLeased \<longrightarrow> run_id_for_wake_job (wk_id w) \<in> ru_id ` set (snd q))"

lemma servedD:
  assumes "served (ws, rs)"
  shows "w \<in> set ws \<Longrightarrow> \<exists>x. wk_id w = ''wjb_'' @ x" "r \<in> set rs \<Longrightarrow> \<exists>w \<in> set ws. serves w r"
    "w \<in> set ws \<Longrightarrow> wk_state w = WLeased \<Longrightarrow> run_id_for_wake_job (wk_id w) \<in> ru_id ` set rs"
  using assms by (simp_all add: served_def)

lemma servedI:
  assumes "\<And>w. w \<in> set ws \<Longrightarrow> \<exists>x. wk_id w = ''wjb_'' @ x"
    and "\<And>r. r \<in> set rs \<Longrightarrow> \<exists>w \<in> set ws. serves w r"
    and "\<And>w. w \<in> set ws \<Longrightarrow> wk_state w = WLeased \<Longrightarrow> run_id_for_wake_job (wk_id w) \<in> ru_id ` set rs"
  shows "served (ws, rs)"
  using assms by (simp add: served_def)

lemma run_id_same:
  assumes "served (ws, rs)" "v \<in> set ws" "w \<in> set ws"
    and "run_id_for_wake_job (wk_id v) = run_id_for_wake_job (wk_id w)"
  shows "wk_id v = wk_id w"
  using servedD(1) [OF assms(1,2)] servedD(1) [OF assms(1,3)] assms(4)
  by (auto simp: run_id_for_wake_job_def)

text \<open>The row of a job after a write that reopens nothing; such a write keeps what is served.\<close>

definition eased :: "wake_row \<Rightarrow> wake_row \<Rightarrow> bool" where
  "eased u v \<longleftrightarrow> wk_id v = wk_id u \<and> wk_project v = wk_project u \<and> wk_agent v = wk_agent u
     \<and> (open_job v \<longrightarrow> open_job u)"

lemma eased_serves: "eased u v \<Longrightarrow> serves u r \<Longrightarrow> serves v r"
  by (auto simp: eased_def serves_def)

lemma eased_simps [simp]:
  "eased w w" "st \<in> {WCompleted, WFailed, WCanceled} \<Longrightarrow> eased w (put_state st w)"
  "open_job w \<Longrightarrow> eased w (put_state st w)" "eased w (w\<lparr>wk_state := WFailed\<rparr>)"
  "open_job w \<Longrightarrow> eased w (lease_to x w)"
  by (auto simp: eased_def open_job_def)

lemma set_w_mem: "w \<in> set ws \<Longrightarrow> (if wk_id w = wid then f w else w) \<in> set (set_w wid f ws)"
  by (auto simp: set_w_set)

lemma set_update_unique:
  assumes "distinct (map k xs)" and "x \<in> set xs"
  shows "set (update_where (\<lambda>y. k y = k x) f xs) = insert (f x) {y \<in> set xs. k y \<noteq> k x}"
proof -
  have eq: "k y = k x \<longleftrightarrow> y = x" if "y \<in> set xs" for y
    using unique_key [OF assms(1) that assms(2)] by blast
  have "set (update_where (\<lambda>y. k y = k x) f xs) = (\<lambda>y. if y = x then f y else y) ` set xs"
    unfolding set_update_where using eq by (intro image_cong) simp_all
  also have "\<dots> = insert (f x) {y \<in> set xs. y \<noteq> x}" using assms(2) by auto
  finally show ?thesis using eq by auto
qed

lemma set_w_row:
  assumes "distinct (map wk_id ws)" "w \<in> set ws"
  shows "v \<in> set (set_w (wk_id w) f ws) \<longleftrightarrow> v = f w \<or> v \<in> set ws \<and> wk_id v \<noteq> wk_id w"
  by (simp add: set_w_def set_update_unique [OF assms])

lemma set_r_row:
  assumes "distinct (map ru_id rs)" "r \<in> set rs"
  shows "x \<in> set (set_r (ru_id r) f rs) \<longleftrightarrow> x = f r \<or> x \<in> set rs \<and> ru_id x \<noteq> ru_id r"
  by (simp add: set_r_def set_update_unique [OF assms])

lemma served_jobs:
  assumes "served (ws, rs)" and "\<And>v. v \<in> set ws' \<Longrightarrow> \<exists>u \<in> set ws. eased u v"
    and "\<And>u. u \<in> set ws \<Longrightarrow> \<exists>v \<in> set ws'. eased u v"
    and "\<And>v. v \<in> set ws' \<Longrightarrow> wk_state v = WLeased \<Longrightarrow> run_id_for_wake_job (wk_id v) \<in> ru_id ` set rs"
  shows "served (ws', rs)"
proof (rule servedI)
  show "\<exists>x. wk_id v = ''wjb_'' @ x" if v: "v \<in> set ws'" for v
  proof -
    obtain u where "u \<in> set ws" "eased u v" using assms(2) [OF v] by blast
    then show ?thesis using servedD(1) [OF assms(1)] by (simp add: eased_def)
  qed
  show "\<exists>w \<in> set ws'. serves w r" if r: "r \<in> set rs" for r
  proof -
    obtain u where "u \<in> set ws" "serves u r" using servedD(2) [OF assms(1) r] by blast
    then show ?thesis using assms(3) eased_serves by blast
  qed
qed (rule assms(4))

lemma served_runs:
  assumes "served (ws, rs)" and "\<And>r. r \<in> set rs' \<Longrightarrow> \<exists>w \<in> set ws. serves w r"
    and "ru_id ` set rs \<subseteq> ru_id ` set rs'"
  shows "served (ws, rs')"
proof (rule servedI)
  show "run_id_for_wake_job (wk_id w) \<in> ru_id ` set rs'" if "w \<in> set ws" "wk_state w = WLeased" for w
    using servedD(3) [OF assms(1) that] assms(3) by blast
qed (use servedD(1) [OF assms(1)] assms(2) in blast)+


text \<open>The two shapes of write: one job's row, or one run's row.\<close>

lemma served_set_w:
  assumes ok: "served (ws, rs)" and ids: "distinct (map wk_id ws)" and w: "w \<in> set ws" "eased w (f w)"
    and "wk_state (f w) = WLeased \<Longrightarrow> run_id_for_wake_job (wk_id w) \<in> ru_id ` set rs"
  shows "served (set_w (wk_id w) f ws, rs)"
proof (rule served_jobs [OF ok])
  note row = set_w_row [OF ids w(1), of _ f]
  show "\<exists>u \<in> set ws. eased u v" if "v \<in> set (set_w (wk_id w) f ws)" for v
    using that w eased_simps(1) unfolding row by blast
  show "\<exists>v \<in> set (set_w (wk_id w) f ws). eased u v" if "u \<in> set ws" for u
  proof (cases "wk_id u = wk_id w")
    case True
    then show ?thesis using unique_key [OF ids that w(1)] w(2) row by auto
  next
    case False
    then show ?thesis using that row eased_simps(1) by blast
  qed
  show "run_id_for_wake_job (wk_id v) \<in> ru_id ` set rs"
    if "v \<in> set (set_w (wk_id w) f ws)" "wk_state v = WLeased" for v
    using that w(2) assms(5) servedD(3) [OF ok] unfolding row by (auto simp: eased_def)
qed

lemma served_set_r:
  assumes ok: "served (ws, rs)" and ids: "distinct (map ru_id rs)" and r: "r \<in> set rs" "ru_id (f r) = ru_id r"
    and "\<exists>w \<in> set ws. serves w (f r)"
  shows "served (ws, set_r (ru_id r) f rs)"
proof (rule served_runs [OF ok])
  note row = set_r_row [OF ids r(1), of _ f]
  show "\<exists>w \<in> set ws. serves w x" if "x \<in> set (set_r (ru_id r) f rs)" for x
    using that assms(5) servedD(2) [OF ok] unfolding row by auto
  show "ru_id ` set rs \<subseteq> ru_id ` set (set_r (ru_id r) f rs)"
  proof
    fix i assume "i \<in> ru_id ` set rs"
    then obtain x where x: "x \<in> set rs" "i = ru_id x" by blast
    have "f r \<in> set (set_r (ru_id r) f rs)" using row by simp
    moreover have "x \<in> set (set_r (ru_id r) f rs)" if "ru_id x \<noteq> ru_id r" using row x(1) that by simp
    ultimately show "i \<in> ru_id ` set (set_r (ru_id r) f rs)" using x r(2) by (metis imageI)
  qed
qed

lemma served_update_where:
  assumes ok: "served (ws, rs)" and "\<And>w. eased w (g w)" and "\<And>w. wk_state (g w) \<noteq> WLeased"
  shows "served (update_where P g ws, rs)"
proof (rule served_jobs [OF ok])
  have mem: "v \<in> set (update_where P g ws) \<longleftrightarrow> (\<exists>u \<in> set ws. v = (if P u then g u else u))" for v
    unfolding set_update_where image_iff by (rule refl)
  show "\<exists>u \<in> set ws. eased u v" if "v \<in> set (update_where P g ws)" for v
    using that assms(2) eased_simps(1) unfolding mem by metis
  show "\<exists>v \<in> set (update_where P g ws). eased u v" if "u \<in> set ws" for u
  proof -
    have "(if P u then g u else u) \<in> set (update_where P g ws)" using that unfolding mem by blast
    moreover have "eased u (if P u then g u else u)" using assms(2) by simp
    ultimately show ?thesis by blast
  qed
  show "run_id_for_wake_job (wk_id v) \<in> ru_id ` set rs"
    if "v \<in> set (update_where P g ws)" "wk_state v = WLeased" for v
    using that assms(3) servedD(3) [OF ok] unfolding mem by (auto split: if_splits)
qed

lemma serves_unique:
  assumes "distinct (map wk_id ws)" "u \<in> set ws" "w \<in> set ws" "serves u r" "ru_wake r = Some (wk_id w)"
  shows "u = w"
  using assms(4,5) unique_key [OF assms(1-3)] by (simp add: serves_def)

lemma served_orphan:
  assumes ok: "served (ws, rs)" and q: "queue_ok (ws, rs)" and w: "w \<in> set ws" and r: "run_in rs (wk_id w) = Some r"
  shows "served (set_w (wk_id w) (put_state WFailed) ws,
    if terminal_run (ru_state r) then rs else set_r (ru_id r) (orphan_run now) rs)"
proof -
  have ids: "distinct (map wk_id ws)" "distinct (map ru_id rs)" using q by (simp_all add: queue_ok_def)
  have mem: "r \<in> set rs" "ru_wake r = Some (wk_id w)" using r by (auto simp: run_in_def dest: find_SomeD)
  have jobs: "served (set_w (wk_id w) (put_state WFailed) ws, rs)"
    by (rule served_set_w [OF ok ids(1) w]) simp_all
  obtain u where "u \<in> set ws" "serves u r" using servedD(2) [OF ok mem(1)] by blast
  then have "serves w r" using serves_unique [OF ids(1) _ w] mem(2) by blast
  then have "serves (put_state WFailed w) (orphan_run now r)"
    by (simp add: serves_def open_job_def orphan_run_def)
  moreover have "put_state WFailed w \<in> set (set_w (wk_id w) (put_state WFailed) ws)"
    using set_w_row [OF ids(1) w] by blast
  ultimately show ?thesis
    using jobs served_set_r [OF jobs ids(2) mem(1), of "orphan_run now"] by (auto simp: orphan_run_def)
qed

lemma served_hand:
  assumes ok: "served (ws, rs)" and q: "queue_ok (ws, rs)" and w: "w \<in> set ws" "wk_state w = WPending"
    and r: "minted_for w r"
  shows "served (set_w (wk_id w) (lease_to x) ws, if ru_id r \<in> set (map ru_id rs) then rs else rs @ [r])"
proof -
  let ?rs = "if ru_id r \<in> set (map ru_id rs) then rs else rs @ [r]"
  have ids: "distinct (map wk_id ws)" using q by (simp add: queue_ok_def)
  have "serves w r" using r w(2) by (simp add: serves_def minted_for_def fresh_run_def terminal_run_def)
  then have runs: "served (ws, ?rs)"
    using w(1) servedD(2) [OF ok] by (intro served_runs [OF ok]) (auto split: if_splits)
  have "run_id_for_wake_job (wk_id w) \<in> ru_id ` set ?rs" using r by (auto simp: minted_for_def)
  then show ?thesis
    using w by (intro served_set_w [OF runs ids]) (simp_all add: open_job_def)
qed

lemma served_step: "queue_step srv q q' \<Longrightarrow> srv \<Longrightarrow> queue_ok q \<Longrightarrow> served q \<Longrightarrow> served q'"
proof (induction rule: queue_step.induct)
  case (enqueue w ws rs)
  note ok = servedD [OF enqueue(8)]
  show ?case
  proof (rule servedI)
    show "\<exists>x. wk_id v = ''wjb_'' @ x" if "v \<in> set (ws @ [w])" for v
      using that ok(1) enqueue(5,6) by auto
    show "\<exists>v \<in> set (ws @ [w]). serves v r" if "r \<in> set rs" for r using ok(2) [OF that] by auto
    show "run_id_for_wake_job (wk_id v) \<in> ru_id ` set rs" if "v \<in> set (ws @ [w])" "wk_state v = WLeased" for v
      using that ok(3) enqueue(3) by auto
  qed
next
  case (requeue w ws rs)
  have "distinct (map wk_id ws)" using requeue(5) by (simp add: queue_ok_def)
  then show ?case using requeue(2) by (intro served_set_w [OF requeue(6) _ requeue(1)]) (simp_all add: open_job_def)
next
  case (orphan w ws rs r rs' now)
  show ?case unfolding orphan(6) by (rule served_orphan [OF orphan(9,8,1,3)])
next
  case (retire w ws rs)
  have "distinct (map wk_id ws)" using retire(4) by (simp add: queue_ok_def)
  then show ?case by (intro served_set_w [OF retire(5) _ retire(1)]) simp_all
next
  case (hand w ws rs r rs' x)
  show ?case unfolding hand(6) by (rule served_hand [OF hand(9,8,1,2,5)])
next
  case (finish st ws rs wid)
  show ?case unfolding set_w_def by (rule served_update_where [OF finish(4)]) (use finish(1) in auto)
next
  case (event r rs f ws)
  have ids: "distinct (map ru_id rs)" using event(7) by (simp add: queue_ok_def)
  obtain w where w: "w \<in> set ws" "serves w r" using servedD(2) [OF event(8,1)] by blast
  then have "serves w (f r)" using event(3) event(4) [of r]
    by (auto simp: serves_def keeps_key_def live_run_def terminal_run_def)
  then show ?case using w(1) event(4) by (intro served_set_r [OF event(8) ids event(1)]) (auto simp: keeps_key_def)
next
  case (close r rs f st ws' ws)
  have ids: "distinct (map ru_id rs)" using close(9) by (simp add: queue_ok_def)
  have jobs: "served (ws', rs)" unfolding close(7)
    by (rule served_update_where [OF close(10)]) (use close(6) in auto)
  obtain w where w: "w \<in> set ws'" "serves w r" using servedD(2) [OF jobs close(1)] by blast
  obtain u where u: "u \<in> set ws" "w = (if truthy_str (ru_wake r) \<and> wk_id u = the (ru_wake r)
      \<and> wk_project u = ru_project r \<and> (wk_state u = WPending \<or> wk_state u = WLeased) then put_state st u else u)"
    using w(1) unfolding close(7) set_update_where image_iff by blast
  obtain x where "wk_id w = ''wjb_'' @ x" using servedD(1) [OF jobs w(1)] by blast
  then have "truthy_str (ru_wake r)" "wk_id w = the (ru_wake r)" "wk_project w = ru_project r"
    using w(2) by (simp_all add: serves_def truthy_str_def)
  then have "\<not> open_job w" using u(2) close(6) by (auto simp: open_job_def split: if_splits)
  then have "serves w (f r)" using w(2) close(3) close(4) [of r]
    by (auto simp: serves_def keeps_key_def terminal_run_def)
  then show ?case using w(1) close(4)
    by (intro served_set_r [OF jobs ids close(1)]) (auto simp: keeps_key_def)
qed simp

section \<open>The five phases of a job\<close>

text \<open>
  The abstract machine. A job waits, is offered to a runner, and may come back from an offer
  that ran out; it may be dropped (closed before its run began). Once its run has begun it
  can only end.
\<close>

datatype phase = JWaiting | JOffered | JDropped | JWorking | JOver

inductive phase_move :: "phase \<Rightarrow> phase \<Rightarrow> bool" where
  offer: "phase_move JWaiting JOffered"
| take_back: "phase_move JOffered JWaiting"
| drop: "ph \<in> {JWaiting, JOffered} \<Longrightarrow> phase_move ph JDropped"
| begin_work: "ph \<in> {JWaiting, JOffered, JDropped} \<Longrightarrow> phase_move ph JWorking"
| end_run: "phase_move ph JOver"

inductive_simps phase_move_from [simp]: "phase_move JWorking ph" "phase_move JOver ph"

definition job_phase :: "wake_state \<Rightarrow> phase" where
  "job_phase st = (case st of WPending \<Rightarrow> JWaiting | WLeased \<Rightarrow> JOffered | _ \<Rightarrow> JDropped)"

definition phase_of :: "wake_row \<Rightarrow> run_row option \<Rightarrow> phase" where
  "phase_of w r =
     (case r of
        None \<Rightarrow> job_phase (wk_state w)
      | Some r \<Rightarrow> if terminal_run (ru_state r) then JOver else if live_run (ru_state r) then JWorking
                  else job_phase (wk_state w))"

definition job_row :: "wake_row list \<Rightarrow> string \<Rightarrow> wake_row option" where
  "job_row ws wid = List.find (\<lambda>w. wk_id w = wid) ws"

definition queue_phase :: "queue \<Rightarrow> string \<Rightarrow> phase option" where
  "queue_phase q wid = map_option (\<lambda>w. phase_of w (run_in (snd q) wid)) (job_row (fst q) wid)"

definition phase_moves :: "phase option \<Rightarrow> phase option \<Rightarrow> bool" where
  "phase_moves a b \<longleftrightarrow> a = None \<or> (\<exists>x y. a = Some x \<and> b = Some y \<and> phase_move\<^sup>*\<^sup>* x y)"

lemma phase_moves_refl [simp]: "phase_moves a a"
  by (cases a) (auto simp: phase_moves_def)

lemma phase_moves_trans: "phase_moves a b \<Longrightarrow> phase_moves b c \<Longrightarrow> phase_moves a c"
  by (auto simp: phase_moves_def)

lemma phase_moves_one: "phase_move x y \<Longrightarrow> phase_moves (Some x) (Some y)"
  by (auto simp: phase_moves_def)

lemma working_ends: "phase_move\<^sup>*\<^sup>* x y \<Longrightarrow> x = JWorking \<or> x = JOver \<Longrightarrow> y = JWorking \<or> y = JOver"
  by (induction rule: rtranclp_induct) auto

lemma over_stays: "phase_move\<^sup>*\<^sup>* x y \<Longrightarrow> x = JOver \<Longrightarrow> y = JOver"
  by (induction rule: rtranclp_induct) auto

lemma job_row_set_w:
  assumes "\<And>w. wk_id (f w) = wk_id w"
  shows "job_row (set_w wid f ws) v = map_option (\<lambda>w. if v = wid then f w else w) (job_row ws v)"
  using assms by (induction ws) (auto simp: job_row_def set_w_def)

lemma job_row_Some:
  assumes "distinct (map wk_id ws)" "w \<in> set ws"
  shows "job_row ws (wk_id w) = Some w"
  using assms by (induction ws) (auto simp: job_row_def)

lemma job_row_update:
  assumes "\<And>w. wk_id (g w) = wk_id w"
  shows "job_row (update_where P g ws) v = map_option (\<lambda>w. if P w then g w else w) (job_row ws v)"
  using assms by (induction ws) (auto simp: job_row_def)

lemma job_row_append: "job_row ws v = Some w \<Longrightarrow> job_row (ws @ [x]) v = Some w"
  by (induction ws) (auto simp: job_row_def split: if_splits)

lemma run_in_set_r:
  assumes "\<And>r. keeps_key r (f r)"
  shows "run_in (set_r rid f rs) v = map_option (\<lambda>r. if ru_id r = rid then f r else r) (run_in rs v)"
  using assms by (induction rs) (auto simp: run_in_def set_r_def keeps_key_def)

lemma run_in_append:
  "run_in (rs @ [r]) v = (case run_in rs v of Some x \<Rightarrow> Some x | None \<Rightarrow> if ru_wake r = Some v then Some r else None)"
  by (induction rs) (auto simp: run_in_def)

lemma run_in_unique:
  assumes ok: "served (ws, rs)" and q: "queue_ok (ws, rs)" and r: "r \<in> set rs" "ru_wake r = Some v"
  shows "run_in rs v = Some r"
proof -
  have ids: "distinct (map wk_id ws)" "distinct (map ru_id rs)" using q by (simp_all add: queue_ok_def)
  obtain x where x: "run_in rs v = Some x" using r by (cases "run_in rs v") (auto simp: run_in_def find_None_set)
  then have "x \<in> set rs" "ru_wake x = Some v" by (auto simp: run_in_def dest: find_SomeD)
  moreover obtain u where "u \<in> set ws" "serves u r" using servedD(2) [OF ok r(1)] by blast
  moreover obtain w where "w \<in> set ws" "serves w x" using servedD(2) [OF ok \<open>x \<in> set rs\<close>] by blast
  ultimately have "ru_id x = ru_id r" using r(2) by (simp add: serves_def)
  then show ?thesis using x unique_key [OF ids(2) \<open>x \<in> set rs\<close> r(1)] by blast
qed

lemma run_states: "terminal_run st \<or> live_run st \<or> st = RPending"
  by (cases st) (auto simp: terminal_run_def live_run_def)

lemma run_classes [simp]:
  "\<not> terminal_run RPending" "\<not> live_run RPending" "terminal_run RFailed"
  "live_run st \<Longrightarrow> \<not> terminal_run st"
  by (auto simp: terminal_run_def live_run_def)

text \<open>What one write of a job's row or of its run does to the phase.\<close>

lemma phase_drop:
  assumes "wk_state w' \<in> {WCompleted, WFailed, WCanceled}"
  shows "phase_moves (Some (phase_of w r)) (Some (phase_of w' r))"
proof -
  have "job_phase (wk_state w') = JDropped" using assms by (auto simp: job_phase_def)
  moreover have "phase_moves (Some (job_phase (wk_state w))) (Some JDropped)"
    by (cases "wk_state w") (auto simp: job_phase_def intro!: phase_moves_one phase_move.drop)
  ultimately show ?thesis by (auto simp: phase_of_def split: option.splits)
qed

lemma phase_start:
  assumes "\<not> terminal_run (ru_state r)" "live_run (ru_state r')"
  shows "phase_moves (Some (phase_of w (Some r))) (Some (phase_of w (Some r')))"
proof -
  have "phase_of w (Some r') = JWorking" using assms(2) by (simp add: phase_of_def)
  moreover have "phase_moves (Some (phase_of w (Some r))) (Some JWorking)"
    using assms(1) by (cases "wk_state w") (auto simp: phase_of_def job_phase_def
      intro!: phase_moves_one phase_move.begin_work)
  ultimately show ?thesis by simp
qed

lemma phase_end:
  assumes "terminal_run (ru_state r')"
  shows "phase_moves (Some ph) (Some (phase_of w (Some r')))"
  using assms by (simp add: phase_of_def phase_moves_one end_run)

lemma queue_phase_case:
  assumes "\<And>w. w \<in> set ws \<Longrightarrow> wk_id w = v \<Longrightarrow> job_row ws v = Some w \<Longrightarrow>
    phase_moves (Some (phase_of w (run_in rs v))) (queue_phase q' v)"
  shows "phase_moves (queue_phase (ws, rs) v) (queue_phase q' v)"
proof (cases "job_row ws v")
  case None
  then show ?thesis by (simp add: queue_phase_def phase_moves_def)
next
  case (Some w)
  then have "w \<in> set ws" "wk_id w = v" by (auto simp: job_row_def dest: find_SomeD)
  then show ?thesis using assms Some by (simp add: queue_phase_def)
qed

lemma queue_phase_same:
  assumes "job_row ws' v = job_row ws v" and "run_in rs' v = run_in rs v"
  shows "phase_moves (queue_phase (ws, rs) v) (queue_phase (ws', rs') v)"
  using assms by (simp add: queue_phase_def)

lemma queue_phase_set_w:
  assumes "\<And>w. wk_id (f w) = wk_id w"
    and "\<And>w. w \<in> set ws \<Longrightarrow> wk_id w = wid \<Longrightarrow> phase_moves (Some (phase_of w (run_in rs wid))) (Some (phase_of (f w) (run_in rs' wid)))"
    and "v \<noteq> wid \<Longrightarrow> run_in rs' v = run_in rs v"
  shows "phase_moves (queue_phase (ws, rs) v) (queue_phase (set_w wid f ws, rs') v)"
proof (rule queue_phase_case)
  fix w assume "w \<in> set ws" "wk_id w = v" "job_row ws v = Some w"
  then show "phase_moves (Some (phase_of w (run_in rs v))) (queue_phase (set_w wid f ws, rs') v)"
    using assms by (simp add: queue_phase_def job_row_set_w)
qed

lemma queue_phase_set_r:
  assumes ok: "served (ws, rs)" and q: "queue_ok (ws, rs)" and r: "r \<in> set rs" "\<And>r. keeps_key r (f r)"
    and "\<And>w. phase_moves (Some (phase_of w (Some r))) (Some (phase_of w (Some (f r))))"
  shows "phase_moves (queue_phase (ws, rs) v) (queue_phase (ws, set_r (ru_id r) f rs) v)"
proof (rule queue_phase_case)
  fix w assume w: "w \<in> set ws" "wk_id w = v" "job_row ws v = Some w"
  have ids: "distinct (map ru_id rs)" using q by (simp add: queue_ok_def)
  have "x = r" if "run_in rs v = Some x" "ru_id x = ru_id r" for x
    using that unique_key [OF ids _ r(1), of x] by (auto simp: run_in_def dest: find_SomeD)
  then show "phase_moves (Some (phase_of w (run_in rs v))) (queue_phase (ws, set_r (ru_id r) f rs) v)"
    using w(3) assms(5) by (cases "run_in rs v") (auto simp: queue_phase_def run_in_set_r [of f, OF r(2)])
qed

lemma orphan_keeps: "keeps_key r (orphan_run now r)" "terminal_run (ru_state (orphan_run now r))"
  by (simp_all add: keeps_key_def orphan_run_def)

lemma hand_phase:
  assumes ok: "served (ws, rs)" and q: "queue_ok (ws, rs)" and w: "w \<in> set ws" "wk_state w = WPending"
    and idle: "\<not> busy (ws, rs) (wk_project w) (wk_agent w)" and r: "minted_for w r"
    and rs': "rs' = (if ru_id r \<in> set (map ru_id rs) then rs else rs @ [r])"
  shows "phase_moves (Some (phase_of w (run_in rs (wk_id w)))) (Some (phase_of (lease_to x w) (run_in rs' (wk_id w))))"
    and "v \<noteq> wk_id w \<Longrightarrow> run_in rs' v = run_in rs v"
    and "run_in rs' (wk_id w) = Some y \<Longrightarrow> fresh_run y"
proof -
  have ids: "distinct (map wk_id ws)" using q by (simp add: queue_ok_def)
  have fresh: "fresh_run y" if y: "run_in rs (wk_id w) = Some y" for y
  proof -
    have mem: "y \<in> set rs" "ru_wake y = Some (wk_id w)" using y by (auto simp: run_in_def dest: find_SomeD)
    obtain u where "u \<in> set ws" "serves u y" using servedD(2) [OF ok mem(1)] by blast
    then have s: "serves w y" using serves_unique [OF ids _ w(1)] mem(2) by blast
    then have "\<not> terminal_run (ru_state y)" using w(2) by (auto simp: serves_def open_job_def)
    moreover have "\<not> live_run (ru_state y)" using idle mem(1) s by (auto simp: busy_def serves_def)
    ultimately show ?thesis using s run_states by (auto simp: serves_def)
  qed
  have rw: "ru_wake r = Some (wk_id w)" "ru_state r = RPending" "fresh_run r"
    using r by (simp_all add: minted_for_def fresh_run_def)
  have cases: "run_in rs' (wk_id w) = run_in rs (wk_id w) \<or> run_in rs' (wk_id w) = Some r"
    using rs' rw(1) by (auto simp: run_in_append split: option.splits)
  show "run_in rs' v = run_in rs v" if "v \<noteq> wk_id w"
    using that rs' rw(1) by (auto simp: run_in_append split: option.splits)
  show "fresh_run y" if "run_in rs' (wk_id w) = Some y" using that cases fresh rw(3) by auto
  have "phase_of w (run_in rs (wk_id w)) = JWaiting"
    using fresh w(2) by (auto simp: phase_of_def job_phase_def fresh_run_def split: option.splits)
  moreover have "phase_of (lease_to x w) (run_in rs' (wk_id w)) = JOffered"
    using cases fresh rw(2) by (auto simp: phase_of_def job_phase_def fresh_run_def split: option.splits)
  ultimately show "phase_moves (Some (phase_of w (run_in rs (wk_id w))))
      (Some (phase_of (lease_to x w) (run_in rs' (wk_id w))))"
    by (simp add: phase_moves_one offer)
qed

lemma phase_step:
  "queue_step srv q q' \<Longrightarrow> srv \<Longrightarrow> queue_ok q \<Longrightarrow> served q \<Longrightarrow> phase_moves (queue_phase q v) (queue_phase q' v)"
proof (induction rule: queue_step.induct)
  case (enqueue w ws rs)
  show ?case by (rule queue_phase_case) (simp add: queue_phase_def job_row_append)
next
  case (requeue w ws rs)
  have ids: "distinct (map wk_id ws)" using requeue(5) by (simp add: queue_ok_def)
  show ?case
  proof (rule queue_phase_set_w)
    fix u assume "u \<in> set ws" "wk_id u = wk_id w"
    then have "u = w" using unique_key [OF ids _ requeue(1)] by blast
    moreover have "phase_of w (run_in rs (wk_id w)) = JOffered"
      "phase_of (put_state WPending w) (run_in rs (wk_id w)) = JWaiting"
      using requeue(2,3) by (auto simp: phase_of_def job_phase_def split: option.splits)
    ultimately show "phase_moves (Some (phase_of u (run_in rs (wk_id w))))
        (Some (phase_of (put_state WPending u) (run_in rs (wk_id w))))"
      by (simp add: phase_moves_one take_back)
  qed simp_all
next
  case (orphan w ws rs r rs' now)
  have jobs: "phase_moves (queue_phase (ws, rs) v) (queue_phase (set_w (wk_id w) (put_state WFailed) ws, rs) v)"
    by (rule queue_phase_set_w) (simp_all add: phase_drop)
  have ids: "distinct (map wk_id ws)" using orphan(8) by (simp add: queue_ok_def)
  have ok: "served (set_w (wk_id w) (put_state WFailed) ws, rs)"
    by (rule served_set_w [OF orphan(9) ids orphan(1)]) simp_all
  have q: "queue_ok (set_w (wk_id w) (put_state WFailed) ws, rs)"
    by (rule queue_ok_tame [OF orphan(8) set_w_tame]) simp_all
  have "r \<in> set rs" using orphan(3) by (auto simp: run_in_def dest: find_SomeD)
  then have "phase_moves (queue_phase (set_w (wk_id w) (put_state WFailed) ws, rs) v)
      (queue_phase (set_w (wk_id w) (put_state WFailed) ws, rs') v)"
    unfolding orphan(6)
    using queue_phase_set_r [OF ok q _ orphan_keeps(1) phase_end [OF orphan_keeps(2)], of r v] by simp
  then show ?case using jobs phase_moves_trans by blast
next
  case (retire w ws rs)
  show ?case by (rule queue_phase_set_w) (simp_all add: phase_drop)
next
  case (hand w ws rs r rs' x)
  have ids: "distinct (map wk_id ws)" using hand(8) by (simp add: queue_ok_def)
  note h = hand_phase [OF hand(9,8,1,2,4,5,6)]
  show ?case
  proof (rule queue_phase_set_w)
    fix u assume "u \<in> set ws" "wk_id u = wk_id w"
    then have "u = w" using unique_key [OF ids _ hand(1)] by blast
    then show "phase_moves (Some (phase_of u (run_in rs (wk_id w)))) (Some (phase_of (lease_to x u) (run_in rs' (wk_id w))))"
      using h(1) by simp
  qed (simp_all add: h(2))
next
  case (finish st ws rs wid)
  show ?case by (rule queue_phase_set_w) (use finish(1) in \<open>auto intro!: phase_drop\<close>)
next
  case (event r rs f ws)
  show ?case by (rule queue_phase_set_r [OF event(8,7,1,4) phase_start [OF event(2,3)]])
next
  case (close r rs f st ws' ws)
  have ids: "distinct (map wk_id ws)" using close(9) by (simp add: queue_ok_def)
  have jobs: "phase_moves (queue_phase (ws, rs) v) (queue_phase (ws', rs) v)"
  proof (rule queue_phase_case)
    fix w assume "w \<in> set ws" "wk_id w = v" "job_row ws v = Some w"
    then show "phase_moves (Some (phase_of w (run_in rs v))) (queue_phase (ws', rs) v)"
      using close(6) unfolding close(7) by (auto simp: queue_phase_def job_row_update intro!: phase_drop)
  qed
  have ok: "served (ws', rs)" unfolding close(7)
    by (rule served_update_where [OF close(10)]) (use close(6) in auto)
  have q: "queue_ok (ws', rs)" unfolding close(7)
    by (rule queue_ok_tame [OF close(9) update_where_tame]) (use close(6) in auto)
  show ?case
    using jobs queue_phase_set_r [OF ok q close(1,4) phase_end [OF close(3)]] phase_moves_trans by blast
qed simp

section \<open>Along the calls of the server\<close>

definition life_ok :: "db \<Rightarrow> bool" where
  "life_ok s \<longleftrightarrow> queue_ok (queue_of s) \<and> served (queue_of s)"

lemma life_steps:
  assumes "queue_steps True s s'" and "life_ok s"
  shows "life_ok s' \<and> phase_moves (queue_phase (queue_of s) v) (queue_phase (queue_of s') v)"
proof -
  have "queue_ok q' \<and> served q' \<and> phase_moves (queue_phase q v) (queue_phase q' v)"
    if "(queue_step True)\<^sup>*\<^sup>* q q'" "queue_ok q" "served q" for q q'
    using that
  proof (induction rule: rtranclp_induct)
    case base
    then show ?case by simp
  next
    case (step y z)
    then have ok: "queue_ok y" "served y" and m: "phase_moves (queue_phase q v) (queue_phase y v)" by auto
    show ?case
      using phase_moves_trans [OF m phase_step [OF step(2) TrueI ok]] queue_ok_step [OF step(2) ok(1)]
        served_step [OF step(2) TrueI ok] by blast
  qed
  then show ?thesis using assms unfolding queue_steps_def life_ok_def by blast
qed

lemma life_calls:
  assumes "(sstep True)\<^sup>*\<^sup>* s s'" and "life_ok s"
  shows "life_ok s' \<and> phase_moves (queue_phase (queue_of s) v) (queue_phase (queue_of s') v)"
proof (rule life_steps [OF _ assms(2)])
  have "queue_ok (queue_of s)" using assms(2) by (simp add: life_ok_def)
  then show "queue_steps True s s'" using ssteps_moves [OF assms(1)] by blast
qed

lemma empty_life: "life_ok empty_db"
  by (simp add: life_ok_def queue_ok_def few_attempts_def one_lease_def served_def)

lemma sreach_life: "sreach True s \<Longrightarrow> life_ok s"
  unfolding sreach_def using life_calls empty_life by blast

text \<open>A job that a lease call hands out: its run is the fresh one minted for it.\<close>

lemma handed_out_fresh:
  assumes "life_ok s" and "lease_wake_jobs e p aid runner n secs at s = Inr (s', RWakes ws k)" and "w \<in> set ws"
  shows "\<exists>r. run_in (runs s') (wk_id w) = Some r \<and> fresh_run r \<and> wk_state w = WLeased \<and> w \<in> set (wakes s')
     \<and> queue_phase (queue_of s') (wk_id w) = Some JOffered"
proof -
  have ids: "distinct (map wk_id (wakes s))" using assms(1) by (simp add: life_ok_def queue_ok_def queue_of_def)
  from assms(2) ids show ?thesis
  proof (cases rule: lease_wake_jobs_cases [where srv = True])
    case none
    then show ?thesis using assms(3) by simp
  next
    case (job s2 job x y)
    have "life_ok s2" using life_steps [OF job(1) assms(1)] by simp
    then have q: "queue_ok (wakes s2, runs s2)" and ok: "served (wakes s2, runs s2)"
      by (simp_all add: life_ok_def queue_of_def)
    have w: "wk_id w = wk_id job" "w \<in> set (wakes s')" using job(10) assms(3) by auto
    have ws': "wakes s' = set_w (wk_id job) (lease_to x) (wakes s2)"
      and rs': "runs s' = (if ru_id y \<in> set (map ru_id (runs s2)) then runs s2 else runs s2 @ [y])"
      using job(9) by (simp_all add: queue_of_def)
    have idle: "\<not> busy (wakes s2, runs s2) (wk_project job) (wk_agent job)"
      using job(3,4,7) by (simp add: queue_of_def)
    note h = hand_phase [OF ok q job(2,5) idle job(8) rs']
    have ids2: "distinct (map wk_id (wakes s2))" using q by (simp add: queue_ok_def)
    have "w \<in> set (set_w (wk_id job) (lease_to x) (wakes s2))" using w(2) ws' by simp
    then have eq: "w = lease_to x job" using w(1) set_w_row [OF ids2 job(2)] by blast
    have "life_ok s'" using life_steps [OF lease_wake_jobs_moves [OF assms(2) ids] assms(1)] by simp
    then have srv: "served (wakes s', runs s')" and q': "queue_ok (wakes s', runs s')"
      by (simp_all add: life_ok_def queue_of_def)
    obtain r where r: "r \<in> set (runs s')" "ru_id r = run_id_for_wake_job (wk_id w)"
      using servedD(3) [OF srv w(2)] eq by auto
    obtain u where u: "u \<in> set (wakes s')" "serves u r" using servedD(2) [OF srv r(1)] by blast
    then have "run_id_for_wake_job (wk_id u) = run_id_for_wake_job (wk_id w)" using r(2) unfolding serves_def by metis
    then have "wk_id u = wk_id w" by (rule run_id_same [OF srv u(1) w(2)])
    then have "ru_wake r = Some (wk_id w)" using u(2) by (simp add: serves_def)
    then have run: "run_in (runs s') (wk_id w) = Some r" by (rule run_in_unique [OF srv q' r(1)])
    then have fresh: "fresh_run r" using h(3) w(1) by simp
    have "job_row (wakes s') (wk_id w) = Some w"
      using q' w(2) by (intro job_row_Some) (simp_all add: queue_ok_def)
    then have "queue_phase (queue_of s') (wk_id w) = Some JOffered"
      using run fresh eq by (simp add: queue_phase_def queue_of_def phase_of_def fresh_run_def job_phase_def)
    then show ?thesis using run fresh eq w(2) by auto
  qed
qed

end
