(* ===== verification/Run_Frame.thy ===== *)
theory Run_Frame
  imports Run_Reach
begin

text \<open>
  What the calls on wake jobs and runs leave alone. A part of the database is
  \<open>queue_blind\<close> when neither the board's tables nor the wake jobs nor the runs are in it.
\<close>

locale queue_blind = board_blind g for g :: "db \<Rightarrow> 'a" +
  assumes wakes_blind [simp]: "g (upd_msg (\<lambda>m. m\<lparr>mt_wakes := h m\<rparr>) s) = g s"
    and runs_blind [simp]: "g (upd_msg (\<lambda>m. m\<lparr>mt_runs := k m\<rparr>) s) = g s"
begin

lemma set_blind [simp]:
  "g (set_wake wid f s) = g s" "g (set_run rid f' s) = g s" "g (close_wake_job_for_run p w st s) = g s"
  "g (event_updates e p rid a rst row s) = g s"
  by (simp_all add: set_wake_def set_run_def close_wake_job_for_run_def event_updates_def Let_def)

lemma remember_blind: "remember e p rq opn body r s = Inr s' \<Longrightarrow> g s' = g s"
  by (cases rq) (auto simp: remember_def result_simps)

lemma queue_act_blind:
  "complete_wake_job_act e p wid state ws aid rq s = Inr (s1, r) \<Longrightarrow> g s1 = g s"
  "create_run_act e p ra rs rid rq s = Inr (s1, r) \<Longrightarrow> g s1 = g s"
  "record_run_event_act e p rid ea rs rq s = Inr (s1, r) \<Longrightarrow> g s1 = g s"
  "cancel_run_act e p rid v reason rq s = Inr (s1, r) \<Longrightarrow> g s1 = g s"
     apply (auto simp: complete_wake_job_act_def result_simps dest!: audit_blind split: if_splits)[1]
    apply (auto simp: create_run_act_def result_simps dest!: audit_blind)[1]
   apply (auto simp: record_run_event_act_def result_simps dest!: audit_blind split: if_splits)[1]
  apply (auto simp: cancel_run_act_def result_simps dest!: audit_blind split: if_splits)
  done

lemma wake_loops_blind:
  "reclaim_one e p now job ks = Inr ks' \<Longrightarrow> g (snd ks') = g (snd ks)"
  "retire_one e p job ks = Inr ks' \<Longrightarrow> g (snd ks') = g (snd ks)"
  by (auto simp: reclaim_one_def retire_one_def Let_def result_simps dest!: audit_blind
      split: option.splits if_splits)

lemma foldE_blind:
  assumes "foldE f js (k, s) = Inr (k', s')" and "\<And>j ks ks'. f j ks = Inr ks' \<Longrightarrow> g (snd ks') = g (snd ks)"
  shows "g s' = g s"
  using foldE_invariant [OF assms(1), of "\<lambda>ks. g (snd ks) = g s"] assms(2) by force

lemma hand_out_blind: "hand_out_job e k p aid ru n now job s = Inr (s', r) \<Longrightarrow> g s' = g s"
  by (auto simp: hand_out_job_def mint_run_for_def set_wake_def result_simps dest!: audit_blind split: if_splits)

lemma lease_wake_jobs_blind:
  assumes "lease_wake_jobs e p aid ru n secs at s = Inr (s', r)"
  shows "g s' = g s"
proof -
  obtain now k1 s1 k2 s2 len where 1: "foldE (reclaim_one e p now) (expired_jobs p aid now s) (0, s) = Inr (k1, s1)"
    and 2: "foldE (retire_one e p) (filter (exhausted p aid) (wakes s1)) (k1, s1) = Inr (k2, s2)"
    and 3: "(if agent_is_busy s2 p aid then Inr (s2, RWakes [] 1)
         else case next_job s2 p aid of None \<Rightarrow> Inr (s2, RWakes [] 1)
              | Some job \<Rightarrow> hand_out_job e k2 p aid ru len now job s2) = Inr (s', r)"
    using assms
    by (auto simp: lease_wake_jobs_def reclaim_expired_def retire_exhausted_filter Let_def result_simps)
  have "g s1 = g s" by (rule foldE_blind [OF 1]) (rule wake_loops_blind(1))
  moreover have "g s2 = g s1" by (rule foldE_blind [OF 2]) (rule wake_loops_blind(2))
  moreover have "g s' = g s2"
    using 3 by (auto dest: hand_out_blind split: if_splits option.splits)
  ultimately show ?thesis by simp
qed

lemma create_wake_job_blind: "create_wake_job e p m aid d tk wid rq ac s = Inr (s', r) \<Longrightarrow> g s' = g s"
  by (auto simp: create_wake_job_def create_wake_job_act_def Let_def result_simps
      dest!: audit_blind remember_blind split: option.splits if_splits)

lemma queue_call_blind:
  "complete_wake_job e p wid state aid rq s = Inr (s', r) \<Longrightarrow> g s' = g s"
  "create_run e p ra rid' rq s = Inr (s', r) \<Longrightarrow> g s' = g s"
  "record_run_event e p rid ea rq s = Inr (s', r) \<Longrightarrow> g s' = g s"
  "cancel_run e p rid v reason rq s = Inr (s', r) \<Longrightarrow> g s' = g s"
  by (auto simp: complete_wake_job_def create_run_def record_run_event_def cancel_run_def
      elim!: idem_blind intro: queue_act_blind split: option.splits)

end

text \<open>Two such parts: the runner leases, and the messaging tables without the queue.\<close>

definition talk :: "db \<Rightarrow> msg_tables" where
  "talk s = (db_msg s)\<lparr>mt_wakes := [], mt_runs := []\<rparr>"

interpretation leased: queue_blind db_runners
  by unfold_locales (simp_all add: upd_msg_def)

interpretation talking: queue_blind talk
  by unfold_locales (simp_all add: talk_def upd_msg_def)

lemma talk_tables:
  "members s = mt_members (talk s)" "channels s = mt_channels (talk s)" "messages s = mt_messages (talk s)"
  "channel_members s = mt_channel_members (talk s)" "deliveries s = mt_deliveries (talk s)"
  "threads s = mt_threads (talk s)"
  by (simp_all add: talk_def table_defs)

end
