(* ===== verification/Runner_Fence.thy ===== *)
theory Runner_Fence
  imports Run_Frame
begin

text \<open>
  The runner leases along the calls of the server: epochs never fall, a take-over raises
  them, and a call that names an epoch commits only under that epoch. The contract \<open>fenced\<close>
  of the master's lease holds for each agent's runner lease as well.
\<close>

definition repoch :: "runner_row list \<Rightarrow> string \<Rightarrow> int" where
  "repoch ls aid = (case List.find (\<lambda>l. rl_agent l = aid) ls of None \<Rightarrow> 0 | Some l \<Rightarrow> rl_epoch l)"

definition runner_epoch :: "string \<Rightarrow> db \<Rightarrow> int" where
  "runner_epoch aid s = repoch (db_runners s) aid"

lemma runner_epoch_find: "find_runner s aid = Some l \<Longrightarrow> runner_epoch aid s = rl_epoch l"
  by (simp add: runner_epoch_def repoch_def find_runner_def)

section \<open>The calls that leave the leases alone\<close>

lemma runner_frame [simp]:
  "db_runners (upd_msg f s) = db_runners s" "db_runners (revoke_updates e p mid s) = db_runners s"
  by (simp_all add: upd_msg_def revoke_updates_def)

lemma bump_thread_runners [simp]: "db_runners (bump_thread e p t s) = db_runners s"
  by (cases t) (simp_all add: bump_thread_def)

lemma act_runners_same:
  "create_member_act e p kind name role ag avail mid rq actor s = Inr (s1, r) \<Longrightarrow> db_runners s1 = db_runners s"
  "revoke_member_act e p mid v rq actor s = Inr (s1, r) \<Longrightarrow> db_runners s1 = db_runners s"
  "create_invitation_act e p role x cb iid code rq s = Inr (s1, r) \<Longrightarrow> db_runners s1 = db_runners s"
  "create_channel_act e p name vis kind topic master cid rq actor s = Inr (s1, r) \<Longrightarrow> db_runners s1 = db_runners s"
  "add_channel_member_act e p cid mid sub rq actor s = Inr (s1, r) \<Longrightarrow> db_runners s1 = db_runners s"
  "create_thread e p cid root tk tid s = Inr (s1, r) \<Longrightarrow> db_runners s1 = db_runners s"
  "transition_delivery_act e p did st da rq actor s = Inr (s1, r) \<Longrightarrow> db_runners s1 = db_runners s"
  "send_message_act e p ma rq s = Inr (s1, r) \<Longrightarrow> db_runners s1 = db_runners s"
         apply (auto simp: create_member_act_def result_simps dest!: leased.audit_blind split: if_splits)[1]
        apply (auto simp: revoke_member_act_def result_simps dest!: leased.audit_blind split: if_splits)[1]
       apply (auto simp: create_invitation_act_def Let_def result_simps dest!: leased.audit_blind split: if_splits)[1]
      apply (auto simp: create_channel_act_def result_simps dest!: leased.audit_blind split: if_splits)[1]
     apply (auto simp: add_channel_member_act_def Let_def result_simps dest!: leased.audit_blind
       split: if_splits option.splits)[1]
    apply (auto simp: create_thread_def Let_def result_simps dest!: leased.audit_blind split: if_splits)[1]
   apply (auto simp: transition_delivery_act_def result_simps dest!: leased.audit_blind split: if_splits)[1]
  apply (auto simp: send_message_act_def result_simps dest!: leased.audit_blind insert_deliveries_Inr)
  done

section \<open>The epoch of an agent's lease never falls\<close>

lemma repoch_update:
  assumes "\<And>l. rl_agent (f l) = rl_agent l" and "\<And>l. rl_epoch l \<le> rl_epoch (f l)"
  shows "repoch ls x \<le> repoch (update_where (\<lambda>l. rl_agent l = aid) f ls) x"
  by (induction ls) (use assms in \<open>auto simp: repoch_def\<close>)

lemma repoch_append:
  assumes "List.find (\<lambda>l. rl_agent l = rl_agent n) ls = None" and "0 \<le> rl_epoch n"
  shows "repoch ls x \<le> repoch (ls @ [n]) x"
  using assms by (induction ls) (auto simp: repoch_def split: if_splits)

lemma take_over_simps [simp]:
  "rl_agent (take_over a now l) = rl_agent l" "rl_epoch (take_over a now l) = rl_epoch l + 1"
  "rl_runner (take_over a now l) = la_runner a"
  "rl_agent (renew a l) = rl_agent l" "rl_epoch (renew a l) = rl_epoch l" "rl_runner (renew a l) = rl_runner l"
  "rl_agent (new_lease p a now) = la_agent a" "rl_epoch (new_lease p a now) = 1"
  by (simp_all add: take_over_def renew_def new_lease_def)

lemma grant_epoch: "grant p a now s = Inr s1 \<Longrightarrow> runner_epoch x s \<le> runner_epoch x s1"
  by (auto simp: grant_def Let_def runner_epoch_def set_runner_def find_runner_def
      intro!: repoch_update repoch_append split: option.splits if_splits)

lemma acquire_epoch: "acquire_runner_lease_act e p a rq s = Inr (s1, r) \<Longrightarrow> runner_epoch x s \<le> runner_epoch x s1"
  by (auto simp: acquire_runner_lease_act_def Let_def result_simps runner_epoch_def
      dest!: leased.audit_blind grant_epoch [of _ _ _ _ _ x] split: option.splits)

lemma touch_epoch: "touch_lease e p aid t action summary rq s = Inr (s1, r) \<Longrightarrow> runner_epoch x s \<le> runner_epoch x s1"
  by (auto simp: touch_lease_def result_simps runner_epoch_def set_runner_def
      dest!: leased.audit_blind intro!: repoch_update split: option.splits)

lemma idem_epoch:
  assumes "idem e p rq opn body act s = Inr (s', r)"
    and "\<And>s1. act s = Inr (s1, r) \<Longrightarrow> runner_epoch x s \<le> runner_epoch x s1"
  shows "runner_epoch x s \<le> runner_epoch x s'"
  by (rule idem_frame [OF assms(1), where R = "\<lambda>s s'. runner_epoch x s \<le> runner_epoch x s'"])
    (use assms(2) in \<open>simp_all add: runner_epoch_def\<close>)

lemma same_epoch: "db_runners s' = db_runners s \<Longrightarrow> runner_epoch x s \<le> runner_epoch x s'"
  by (simp add: runner_epoch_def)

lemma wbody_epoch: "wbody e w s = Inr (s', r) \<Longrightarrow> runner_epoch x s \<le> runner_epoch x s'"
  by (cases w)
    (auto simp: create_member_def revoke_member_def create_invitation_def create_channel_def
      add_channel_member_def send_message_def transition_delivery_def acquire_runner_lease_def
      heartbeat_runner_lease_def heartbeat_runner_lease_act_def expire_runner_lease_def Let_def result_simps
      split: option.splits if_splits elim!: idem_epoch
      intro: same_epoch act_runners_same acquire_epoch touch_epoch leased.queue_call_blind
        leased.lease_wake_jobs_blind leased.create_wake_job_blind)

lemma sbody_epoch: "sbody e x s = Inr (s', r) \<Longrightarrow> runner_epoch a s \<le> runner_epoch a s'"
proof (cases x)
  case (SMaster m)
  then show "sbody e x s = Inr (s', r) \<Longrightarrow> ?thesis" using mbody_messaging by (intro same_epoch) auto
next
  case (SMsg w)
  then show "sbody e x s = Inr (s', r) \<Longrightarrow> ?thesis" using wbody_epoch by auto
qed

lemma sstep_epoch: "sstep srv s s' \<Longrightarrow> runner_epoch a s \<le> runner_epoch a s'"
proof -
  assume "sstep srv s s'"
  then obtain e x where s': "s' = snd (sexec e x s)" by (auto simp: sstep_def)
  show ?thesis unfolding s' by (rule sexec_cases) (auto dest: sbody_epoch)
qed

section \<open>A call under an epoch\<close>

text \<open>The calls by which a runner acts on its agent's queue, with the epoch they name.\<close>

fun runner_call :: "wop \<Rightarrow> (string \<times> int) option" where
  "runner_call (WLeaseJobs p aid ru n secs at) = Some (aid, n)"
| "runner_call (WHeartbeat p ru aid t n at rq) = Some (aid, n)"
| "runner_call (WExpire p ru aid n at rq) = Some (aid, n)"
| "runner_call _ = None"

fun wrequest :: "wop \<Rightarrow> (string \<times> string) option" where
  "wrequest (WHeartbeat p ru aid t n at rq) = map_option (Pair p) rq"
| "wrequest (WExpire p ru aid n at rq) = map_option (Pair p) rq"
| "wrequest (WAcquire p a rq) = map_option (Pair p) rq"
| "wrequest (WRunEvent p r a rq) = map_option (Pair p) rq"
| "wrequest (WCancelRun p r v re rq) = map_option (Pair p) rq"
| "wrequest (WDeliver p d a rq ac) = map_option (Pair p) rq"
| "wrequest (WRevokeMember p m v rq ac) = map_option (Pair p) rq"
| "wrequest (WSend p a rq) = map_option (Pair p) rq"
| "wrequest (WCreateMember p k n ro aid av mid rq ac) = map_option (Pair p) rq"
| "wrequest (WInvite p ro t cb iid code rq) = map_option (Pair p) rq"
| "wrequest (WCreateChannel p n vis k t m cid rq ac) = map_option (Pair p) rq"
| "wrequest (WAddChannelMember p c m b rq ac) = map_option (Pair p) rq"
| "wrequest (WCreateJob p m aid d tk wid rq ac) = map_option (Pair p) rq"
| "wrequest (WCompleteJob p w st aid rq) = map_option (Pair p) rq"
| "wrequest (WCreateRun p a rid rq) = map_option (Pair p) rq"
| "wrequest (WThread p c r tk tid) = None"
| "wrequest (WLeaseJobs p aid ru n secs at) = None"

definition wlogged :: "wop \<Rightarrow> db \<Rightarrow> bool" where
  "wlogged w s \<longleftrightarrow> (\<exists>k. wrequest w = Some k \<and> k \<in> set (map rq_key (db_requests s)))"

definition wcommits :: "env \<times> wop \<Rightarrow> db \<Rightarrow> db option" where
  "wcommits x s =
     (if wlogged (snd x) s then None
      else case wbody (fst x) (snd x) s of Inl _ \<Rightarrow> None | Inr (s', _) \<Rightarrow> Some s')"

lemma wexec_refused: "wcommits (e, w) s = None \<Longrightarrow> \<not> wlogged w s \<Longrightarrow> \<exists>err. wexec e w s = (Inl err, s)"
  by (auto simp: wcommits_def wexec_def write_txn_def split: sum.splits)

lemma fresh_act:
  assumes "idem e p rq opn body act s = Inr (s', r)" and "\<not> wlogged w s" and "wrequest w = map_option (Pair p) rq"
  obtains s1 where "act s = Inr (s1, r)" "s' = s1\<lparr>db_requests := db_requests s'\<rparr>"
proof -
  have "\<forall>rid. rq = Some rid \<longrightarrow> (p, rid) \<notin> set (map rq_key (db_requests s))"
    using assms(2,3) by (auto simp: wlogged_def)
  then show ?thesis using idem_fresh [OF assms(1)] that by metis
qed

lemma assert_runner_lease_epoch: "assert_runner_lease s p aid ru n now = Inr l \<Longrightarrow> runner_epoch aid s = n"
  by (auto simp: assert_runner_lease_def runner_epoch_find split: option.splits if_splits)

lemma held_lease_epoch: "held_lease s p ru aid n = Inr l \<Longrightarrow> runner_epoch aid s = n"
  by (auto simp: held_lease_def runner_epoch_find split: option.splits if_splits)

lemma runner_commit_current:
  assumes "wcommits (e, w) s = Some s'" and "runner_call w = Some (aid, n)"
  shows "runner_epoch aid s = n"
proof -
  have fresh: "\<not> wlogged w s" and run: "\<exists>r. wbody e w s = Inr (s', r)"
    using assms(1) by (auto simp: wcommits_def split: if_splits sum.splits)
  show ?thesis
  proof (cases w)
    case (WLeaseJobs p aid' ru n' secs at)
    then show ?thesis using run assms(2)
      by (auto simp: lease_wake_jobs_def Let_def result_simps dest: assert_runner_lease_epoch)
  next
    case (WHeartbeat p ru aid' t n' at rq)
    then show ?thesis using run assms(2) fresh
      by (auto simp: heartbeat_runner_lease_def heartbeat_runner_lease_act_def Let_def result_simps
          elim!: fresh_act dest: assert_runner_lease_epoch)
  next
    case (WExpire p ru aid' n' at rq)
    then show ?thesis using run assms(2) fresh
      by (auto simp: expire_runner_lease_def Let_def result_simps elim!: fresh_act dest: held_lease_epoch)
  qed (use assms(2) in simp_all)
qed

definition runner_write :: "string \<Rightarrow> env \<times> wop \<Rightarrow> int \<Rightarrow> db \<Rightarrow> db option" where
  "runner_write aid x n s = (if runner_call (snd x) = Some (aid, n) then wcommits x s else None)"

interpretation runner_fence: fenced "sstep srv" "runner_epoch aid" "runner_write aid" for srv aid
proof unfold_locales
  show "runner_epoch aid s \<le> runner_epoch aid s'" if "sstep srv s s'" for s s'
    using that by (rule sstep_epoch)
next
  show "runner_epoch aid s = n" if "runner_write aid x n s = Some s'" for x n s s'
    using that runner_commit_current by (cases x) (auto simp: runner_write_def split: if_splits)
qed

end
