(* ===== verification/Serve_Demo.thy ===== *)
theory Serve_Demo
  imports Run_Reach Board_Safety
begin

text \<open>
  The server the witnesses of the messaging properties run on: the a project with one
  agent and its session, a public channel, one message queued for an agent, its wake job, and
  a runner that holds the agent's lease.
\<close>

fun srun :: "int \<Rightarrow> sop list \<Rightarrow> db \<Rightarrow> db" where
  "srun n [] s = s"
| "srun n (x # xs) s = srun (n + 1) xs (snd (sexec (demo_env n) x s))"

lemma srun_steps: "list_all (\<lambda>x. srv \<longrightarrow> by_server x) xs \<Longrightarrow> (sstep srv)\<^sup>*\<^sup>* s (srun n xs s)"
proof (induction xs arbitrary: n s)
  case Nil
  then show ?case by simp
next
  case (Cons x xs)
  have "sstep srv s (snd (sexec (demo_env n) x s))" using Cons.prems by (intro sstep_exec) simp
  then show ?case using Cons.IH Cons.prems by (auto intro: converse_rtranclp_into_rtranclp)
qed

definition system_author :: json where
  "system_author = JObj [(''type'', JStr ''system''), (''id'', JStr ''s'')]"

definition demo_message :: message_args where
  "demo_message = \<lparr>ma_channel = ''c'', ma_author = system_author, ma_body = ''hello'', ma_intent = ''task'',
     ma_thread = None, ma_mentions = [], ma_ticket = None, ma_causation = None, ma_conversation = None,
     ma_supersedes = None, ma_recipients = [''a''], ma_message_id = Some ''m'', ma_delivery_state = ''queued''\<rparr>"

definition demo_lease :: lease_args where
  "demo_lease = \<lparr>la_runner = ''r1'', la_agent = ''a'', la_expires = 1000, la_worktree = ''/w'',
     la_profile = ''default'', la_policy = ''prompt'', la_expected = None, la_budget = None, la_at = None,
     la_source = None\<rparr>"

definition wake_ops :: "sop list" where
  "wake_ops =
     [SMaster (MBoard (OCreateProject ''demo'' ''native'' (Some ''p''))),
      SMaster (MBoard (OCreateAgent ''p'' ''ann'' None [] ''managed'' 1 (JObj []) (Some ''a''))),
      SMaster (MBoard (OOpenSession ''a'' 900 (Some ''ses1'') None)),
      SMsg (WCreateChannel ''p'' ''general'' ''public'' ''channel'' None None (Some ''c'') None None),
      SMsg (WSend ''p'' demo_message None),
      SMsg (WAcquire ''p'' demo_lease None)]"

definition wdemo0 :: db where "wdemo0 = srun 1 wake_ops empty_db"

definition create_demo_job :: sop where
  "create_demo_job = SMsg (WCreateJob ''p'' ''m'' ''a'' ''dlv_5-1'' None None None None)"

definition lease_demo_job :: sop where
  "lease_demo_job = SMsg (WLeaseJobs ''p'' ''a'' ''r1'' 1 None None)"

text \<open>The state these calls leave, written out so that it is computed once.\<close>

definition wdemo :: db where
  "wdemo =
     \<lparr>db_projects = [\<lparr>pr_id = ''p'', pr_name = ''demo'', pr_version = 1, pr_created_at = 1,
     pr_source = ''native'', pr_paused = False\<rparr>], db_agents = [\<lparr>ag_id = ''a'', ag_project = ''p'',
     ag_name = ''ann'', ag_role = None, ag_capabilities = [], ag_state = Idle, ag_mode = ''managed'', ag_runtime
     = JObj [], ag_max_active = 1, ag_current_ticket = None, ag_worktree = None, ag_hook_health = JObj
     [(''config_installed'', JBool False), (''server_received'', JBool False), (''response_delivered'', JBool
     False), (''session_adopted'', JBool False)], ag_last_heartbeat_at = None, ag_last_progress_at = None,
     ag_version = 1, ag_created_at = 2\<rparr>], db_sessions = [\<lparr>se_id = ''ses1'', se_agent = ''a'',
     se_acquired_at = 3, se_expires_at = 900, se_version = 1, se_revoked_at = None, se_note = None\<rparr>],
     db_tickets = [], db_deps = [], db_updates = [], db_reviews = [], db_assignments = [], db_leases = [],
     db_decisions = [], db_audits = [\<lparr>au_id = ''aud_1-1'', au_seq = 1, au_event_id =
     ''evt_000000000001_1-2'', au_project = ''p'', au_actor = SYSTEM_ACTOR, au_action = ''project.create'', au_subject_type = Some
     ''project'', au_subject_id = Some ''p'', au_request_id = None, au_occurred_at = 1, au_summary =
     ''created project demo''\<rparr>, \<lparr>au_id = ''aud_2-1'', au_seq = 2, au_event_id =
     ''evt_000000000002_2-2'', au_project = ''p'', au_actor = SYSTEM_ACTOR, au_action = ''agent.create'', au_subject_type = Some
     ''agent'', au_subject_id = Some ''a'', au_request_id = None, au_occurred_at = 2, au_summary =
     ''registered agent ann''\<rparr>, \<lparr>au_id = ''aud_3-1'', au_seq = 3, au_event_id =
     ''evt_000000000003_3-2'', au_project = ''p'', au_actor = SYSTEM_ACTOR, au_action = ''session.open'', au_subject_type = Some
     ''agent'', au_subject_id = Some ''a'', au_request_id = None, au_occurred_at = 3, au_summary =
     ''session ses1 opened''\<rparr>, \<lparr>au_id = ''aud_4-1'', au_seq = 4, au_event_id =
     ''evt_000000000004_4-2'', au_project = ''p'', au_actor = SYSTEM_ACTOR, au_action = ''channel.create'', au_subject_type = Some
     ''channel'', au_subject_id = Some ''c'', au_request_id = None, au_occurred_at = 4, au_summary =
     ''created channel general''\<rparr>, \<lparr>au_id = ''aud_5-2'', au_seq = 5, au_event_id =
     ''evt_000000000005_5-3'', au_project = ''p'', au_actor = JObj [(''type'', JStr ''system''), (''id'', JStr
     ''s'')], au_action = ''message.create'', au_subject_type = Some ''message'', au_subject_id = Some ''m'',
     au_request_id = None, au_occurred_at = 5, au_summary = ''message created''\<rparr>, \<lparr>au_id =
     ''aud_6-0'', au_seq = 6, au_event_id = ''evt_000000000006_6-1'', au_project = ''p'', au_actor = SYSTEM_ACTOR, au_action =
     ''runner_lease.acquire'', au_subject_type = Some ''run'', au_subject_id = Some ''a'', au_request_id = None,
     au_occurred_at = 6, au_summary = ''runner lease acquired''\<rparr>, \<lparr>au_id = ''aud_7-1'', au_seq =
     7, au_event_id = ''evt_000000000007_7-2'', au_project = ''p'', au_actor = SYSTEM_ACTOR, au_action =
     ''wake_job.create'', au_subject_type = Some ''run'', au_subject_id = Some ''wjb_7-0'', au_request_id =
     None, au_occurred_at = 7, au_summary = ''wake job created''\<rparr>], db_requests = [], db_presets = [],
     db_runners = [\<lparr>rl_agent = ''a'', rl_project = ''p'', rl_runner = ''r1'', rl_epoch = 1,
     rl_acquired_at = 6, rl_expires_at = 1000, rl_worktree = ''/w'', rl_profile = ''default'', rl_policy =
     ''prompt'', rl_budget = JObj [(''max_hops'', JInt 3), (''max_turns'', JInt 10), (''max_seconds'', JInt
     900), (''hops_used'', JInt 0), (''turns_used'', JInt 0), (''seconds_used'', JInt 0)]\<rparr>], db_msg =
     \<lparr>mt_members = [], mt_invitations = [], mt_channels = [\<lparr>ch_id = ''c'', ch_project = ''p'',
     ch_name = ''general'', ch_kind = ''channel'', ch_visibility = ''public'', ch_topic = None, ch_master =
     None, ch_version = 1, ch_created_at = 4\<rparr>], mt_channel_members = [], mt_messages = [\<lparr>ms_id =
     ''m'', ms_project = ''p'', ms_channel = ''c'', ms_thread = None, ms_author = JObj [(''type'', JStr
     ''system''), (''id'', JStr ''s'')], ms_body = ''hello'', ms_intent = ''task'', ms_ticket = None,
     ms_mentions = [], ms_causation = None, ms_conversation = None, ms_supersedes = None, ms_version = 1,
     ms_created_at = 5\<rparr>], mt_threads = [], mt_deliveries = [\<lparr>dl_id = ''dlv_5-1'', dl_project =
     ''p'', dl_message = ''m'', dl_agent = ''a'', dl_state = DQueued, dl_reason = None, dl_detail = None, dl_run
     = None, dl_blocking = None, dl_attempts = 1, dl_next_attempt = None, dl_created_at = 5, dl_updated_at = 5,
     dl_version = 1\<rparr>], mt_wakes = [\<lparr>wk_id = ''wjb_7-0'', wk_project = ''p'', wk_message = ''m'',
     wk_agent = ''a'', wk_delivery = ''dlv_5-1'', wk_ticket = None, wk_state = WPending, wk_dedupe = ''m:a'',
     wk_attempts = 0, wk_lease = None, wk_created_at = 7\<rparr>], mt_runs = []\<rparr>\<rparr>"

lemma wdemo_run: "srun 7 [create_demo_job] wdemo0 = wdemo"
  by code_simp

definition leased_job :: wake_row where
  "leased_job = \<lparr>wk_id = ''wjb_7-0'', wk_project = ''p'', wk_message = ''m'', wk_agent = ''a'',
     wk_delivery = ''dlv_5-1'', wk_ticket = None, wk_state = WLeased, wk_dedupe = ''m:a'', wk_attempts = 1,
     wk_lease = Some 128, wk_created_at = 7\<rparr>"

definition demo_run :: run_row where
  "demo_run = \<lparr>ru_id = ''run_7-0'', ru_project = ''p'', ru_agent = ''a'', ru_session = None,
     ru_wake = Some ''wjb_7-0'', ru_ticket = None, ru_state = RPending, ru_reason = None,
     ru_budget = JObj DEFAULT_BUDGET, ru_approval = False, ru_started = None, ru_ended = None,
     ru_created_at = 8, ru_version = 1\<rparr>"

definition wdemo_leased :: db where
  "wdemo_leased = wdemo\<lparr>
     db_audits := db_audits wdemo @
       [\<lparr>au_id = ''aud_8-0'', au_seq = 8, au_event_id = ''evt_000000000008_8-1'', au_project = ''p'',
         au_actor = SYSTEM_ACTOR, au_action = ''run.create'', au_subject_type = Some ''run'',
         au_subject_id = Some ''run_7-0'', au_request_id = None, au_occurred_at = 8,
         au_summary = ''run minted for wake job wjb_7-0''\<rparr>,
        \<lparr>au_id = ''aud_8-2'', au_seq = 9, au_event_id = ''evt_000000000009_8-3'', au_project = ''p'',
         au_actor = SYSTEM_ACTOR, au_action = ''wake_job.leased'', au_subject_type = Some ''run'',
         au_subject_id = Some ''wjb_7-0'', au_request_id = None, au_occurred_at = 8,
         au_summary = ''wake job leased to runner r1''\<rparr>],
     db_msg := (db_msg wdemo)\<lparr>mt_wakes := [leased_job], mt_runs := [demo_run]\<rparr>\<rparr>"

lemma wdemo_lease_run: "sexec (demo_env 8) lease_demo_job wdemo = (Inr (RWakes [leased_job] 0), wdemo_leased)"
  by code_simp

lemma wdemo_reach: "sreach True wdemo" "sreach True wdemo_leased"
proof -
  have "sreach True wdemo0"
    unfolding sreach_def wdemo0_def by (rule srun_steps) (simp add: wake_ops_def)
  then show "sreach True wdemo"
    unfolding wdemo_run [symmetric] by (rule sreach_steps) (rule srun_steps, simp add: create_demo_job_def)
  then show "sreach True wdemo_leased"
    using sreach_steps [OF _ r_into_rtranclp, of True wdemo wdemo_leased]
      sstep_exec [of True lease_demo_job wdemo "demo_env 8"] wdemo_lease_run by (simp add: lease_demo_job_def)
qed

lemma sstep_any: "sstep True s s' \<Longrightarrow> sstep False s s'"
  by (auto simp: sstep_def)

lemma sreach_any: "sreach True s \<Longrightarrow> sreach False s"
  unfolding sreach_def by (erule mono_rtranclp [rule_format, rotated]) (rule sstep_any)

text \<open>The run begun by the agent's session.\<close>

definition start_event :: event_args where
  "start_event = \<lparr>ea_event = ''started'', ea_expected = 1, ea_reporter = Some ''ses1'', ea_session = Some ''ses1'',
     ea_ticket = None, ea_reason = None, ea_budget = None\<rparr>"

definition wdemo_running :: db where
  "wdemo_running = wdemo_leased\<lparr>
     db_audits := db_audits wdemo_leased @
       [\<lparr>au_id = ''aud_9-0'', au_seq = 10, au_event_id = ''evt_000000000010_9-1'', au_project = ''p'',
         au_actor = SYSTEM_ACTOR, au_action = ''run.event'', au_subject_type = Some ''run'',
         au_subject_id = Some ''run_7-0'', au_request_id = None, au_occurred_at = 9,
         au_summary = ''run event started''\<rparr>],
     db_msg := (db_msg wdemo_leased)\<lparr>mt_runs := [demo_run\<lparr>ru_session := Some ''ses1'', ru_state := RRunning,
        ru_started := Some 9, ru_version := 2\<rparr>]\<rparr>\<rparr>"

lemma wdemo_running_run: "snd (sexec (demo_env 9) (SMsg (WRunEvent ''p'' ''run_7-0'' start_event None)) wdemo_leased) = wdemo_running"
  by code_simp

lemma wdemo_running_reach: "sreach True wdemo_running"
  using sreach_steps [OF wdemo_reach(2) r_into_rtranclp]
    sstep_exec [of True "SMsg (WRunEvent ''p'' ''run_7-0'' start_event None)" wdemo_leased "demo_env 9"]
    wdemo_running_run by simp

end
