(* ===== verification/Run_Guarantees.thy ===== *)
theory Run_Guarantees
  imports Run_Life Runner_Fence Serve_Demo
begin

text \<open>
  The guarantees of the wake queue, the runs and the runner leases, each a few steps over
  \<open>Run_Life\<close> (what the server's calls keep) and \<open>Runner_Fence\<close> (epochs).
\<close>

section \<open>The wake queue\<close>

text \<open>
  C22: Whatever calls of the board, the master and the messaging store led to a state, an
  agent has at most one leased wake job in it: no two runners work for one agent at once.
\<close>
theorem one_leased_job_per_agent:
  assumes "sreach False s" and "v \<in> set (wakes s)" "w \<in> set (wakes s)"
    and "wk_state v = WLeased" "wk_state w = WLeased" "wk_project v = wk_project w" "wk_agent v = wk_agent w"
  shows "v = w"
proof -
  have ok: "queue_ok (wakes s, runs s)" using sreach_queue_ok [OF assms(1)] by (simp add: queue_of_def)
  then have "one_lease (wakes s)" by (simp add: queue_ok_def)
  then have "wk_id v = wk_id w" by (rule one_leaseD [OF _ assms(2-7)])
  then show ?thesis using unique_key assms(2,3) ok by (auto simp: queue_ok_def)
qed

theorem one_leased_job_per_agent_witness:
  "wk_state (hd (wakes wdemo_leased)) = WLeased
   \<and> {v \<in> set (wakes wdemo_leased). wk_state v = WLeased \<and> wk_project v = ''p'' \<and> wk_agent v = ''a''}
        = {hd (wakes wdemo_leased)}"
proof -
  have "map (\<lambda>w. (wk_project w, wk_agent w, wk_state w)) (wakes wdemo_leased) = [(''p'', ''a'', WLeased)]" by code_simp
  then have c: "wakes wdemo_leased \<noteq> []" "wk_state (hd (wakes wdemo_leased)) = WLeased"
    "wk_project (hd (wakes wdemo_leased)) = ''p''" "wk_agent (hd (wakes wdemo_leased)) = ''a''"
    by auto
  have h: "hd (wakes wdemo_leased) \<in> set (wakes wdemo_leased)" using c(1) by simp
  note one = one_leased_job_per_agent [OF sreach_any [OF wdemo_reach(2)] _ h]
  show ?thesis using c h by (auto intro!: one)
qed

text \<open>
  C25: No job is tried more than three times: the attempts of every job of a reachable state
  lie between 0 and \<open>WAKE_MAX_ATTEMPTS\<close>.
\<close>
theorem attempts_are_bounded:
  assumes "sreach False s" and "w \<in> set (wakes s)"
  shows "0 \<le> wk_attempts w \<and> wk_attempts w \<le> WAKE_MAX_ATTEMPTS"
proof (rule few_attemptsD [OF _ assms(2)])
  show "few_attempts (wakes s)" using sreach_queue_ok [OF assms(1)] by (simp add: queue_ok_def queue_of_def)
qed

theorem attempts_are_bounded_witness:
  "0 \<le> wk_attempts (hd (wakes wdemo_leased)) \<and> wk_attempts (hd (wakes wdemo_leased)) \<le> WAKE_MAX_ATTEMPTS"
proof (rule attempts_are_bounded [OF sreach_any [OF wdemo_reach(2)]])
  have "wakes wdemo_leased \<noteq> []" by code_simp
  then show "hd (wakes wdemo_leased) \<in> set (wakes wdemo_leased)" by simp
qed

text \<open>
  C20: The queue refines the five phases of a job. Whatever the server's calls do between two
  states, every job of the first is still there in the second, and its phase there is
  reached by moves of the abstract machine.
\<close>
theorem queue_refines_phases:
  assumes "sreach True s" and "(sstep True)\<^sup>*\<^sup>* s s'" and "queue_phase (queue_of s) wid = Some x"
  shows "\<exists>y. queue_phase (queue_of s') wid = Some y \<and> phase_move\<^sup>*\<^sup>* x y"
  using life_calls [OF assms(2) sreach_life [OF assms(1)], of wid] assms(3)
  by (auto simp: phase_moves_def)

theorem queue_refines_phases_witness:
  "\<exists>y. queue_phase (queue_of wdemo_leased) ''wjb_7-0'' = Some y \<and> phase_move\<^sup>*\<^sup>* JWaiting y"
proof (rule queue_refines_phases [OF wdemo_reach(1)])
  show "(sstep True)\<^sup>*\<^sup>* wdemo wdemo_leased"
    using sstep_exec [of True lease_demo_job wdemo "demo_env 8"] wdemo_lease_run
    by (simp add: lease_demo_job_def r_into_rtranclp)
  show "queue_phase (queue_of wdemo) ''wjb_7-0'' = Some JWaiting" by code_simp
qed

text \<open>
  A job handed to a runner is unstarted work: the run that belongs to it exists, is
  still pending at version 1, and no session has touched it.
\<close>
theorem handed_out_run_is_fresh:
  assumes "sreach True s" and "lease_wake_jobs e p aid runner n secs at s = Inr (s', RWakes ws k)" and "w \<in> set ws"
  shows "\<exists>r. run_of_wake s' (wk_id w) = Some r \<and> ru_state r = RPending \<and> ru_version r = 1
    \<and> ru_session r = None \<and> ru_started r = None"
  using handed_out_fresh [OF sreach_life [OF assms(1)] assms(2,3)]
  by (auto simp: fresh_run_def run_in_def run_of_wake_def)

lemma demo_hand_out:
  "lease_wake_jobs (demo_env 8) ''p'' ''a'' ''r1'' 1 None None wdemo = Inr (wdemo_leased, RWakes [leased_job] 0)"
  using wdemo_lease_run by (auto simp: sexec_def write_txn_def lease_demo_job_def split: sum.splits)

theorem handed_out_run_is_fresh_witness:
  "\<exists>s' r. run_of_wake s' ''wjb_7-0'' = Some r \<and> ru_state r = RPending \<and> ru_version r = 1
    \<and> ru_session r = None \<and> ru_started r = None"
  using handed_out_run_is_fresh [OF wdemo_reach(1) demo_hand_out, of leased_job]
  by (auto simp: leased_job_def)

text \<open>
  C21: No work is begun twice. Once the run of a job has left its pending state, no lease
  call, at any later time, hands that job out again, whatever the server does in between
  and however often the leases of the agent run out.
\<close>
theorem started_work_is_not_handed_out_again:
  assumes "sreach True s" and "r \<in> set (runs s)" "ru_wake r = Some wid" "ru_state r \<noteq> RPending"
    and "(sstep True)\<^sup>*\<^sup>* s s2" and "lease_wake_jobs e p aid runner n secs at s2 = Inr (s3, RWakes ws k)"
  shows "wid \<notin> wk_id ` set ws"
proof
  assume "wid \<in> wk_id ` set ws"
  then obtain w where w: "w \<in> set ws" "wk_id w = wid" by blast
  have life: "life_ok s" by (rule sreach_life [OF assms(1)])
  have ok: "served (wakes s, runs s)" "queue_ok (wakes s, runs s)"
    using life by (simp_all add: life_ok_def queue_of_def)
  obtain u where u: "u \<in> set (wakes s)" "serves u r" using servedD(2) [OF ok(1) assms(2)] by blast
  have "job_row (wakes s) wid = Some u"
    using u assms(3) ok(2) job_row_Some [of "wakes s" u] by (simp add: serves_def queue_ok_def)
  moreover have "run_in (runs s) wid = Some r" by (rule run_in_unique [OF ok assms(2,3)])
  ultimately obtain x where x: "queue_phase (queue_of s) wid = Some x" "x = JWorking \<or> x = JOver"
    using assms(4) run_states [of "ru_state r"] by (auto simp: queue_phase_def queue_of_def phase_of_def)
  note s2 = life_calls [OF assms(5) life]
  have "queue_steps True s2 s3"
    using assms(6) s2 by (intro lease_wake_jobs_moves) (auto simp: life_ok_def queue_ok_def queue_of_def)
  then have "phase_moves (queue_phase (queue_of s) wid) (queue_phase (queue_of s3) wid)"
    using s2 life_steps phase_moves_trans by blast
  moreover have "queue_phase (queue_of s3) wid = Some JOffered"
    using handed_out_fresh [of s2, OF _ assms(6) w(1)] s2 w(2) by auto
  ultimately show False using x working_ends by (auto simp: phase_moves_def)
qed

theorem started_work_is_not_handed_out_again_witness:
  "\<exists>s3 ws k. lease_wake_jobs (demo_env 500) ''p'' ''a'' ''r1'' 1 None None wdemo_running = Inr (s3, RWakes ws k)
     \<and> ''wjb_7-0'' \<notin> wk_id ` set ws"
proof -
  let ?r = "lease_wake_jobs (demo_env 500) ''p'' ''a'' ''r1'' 1 None None wdemo_running"
  let ?run = "hd (runs wdemo_running)"
  have "(case ?r of Inr (_, RWakes ws k) \<Rightarrow> True | _ \<Rightarrow> False)" by code_simp
  then obtain s3 ws k where r: "?r = Inr (s3, RWakes ws k)"
    by (auto split: sum.splits prod.splits response.splits)
  have "map (\<lambda>r. (ru_wake r, ru_state r)) (runs wdemo_running) = [(Some ''wjb_7-0'', RRunning)]" by code_simp
  then have c: "runs wdemo_running \<noteq> []" "ru_wake ?run = Some ''wjb_7-0''" "ru_state ?run \<noteq> RPending" by auto
  have "?run \<in> set (runs wdemo_running)" using c(1) by simp
  then show ?thesis
    using started_work_is_not_handed_out_again [OF wdemo_running_reach _ c(2,3) rtranclp.rtrancl_refl r] r by blast
qed

section \<open>A runner that lost its lease\<close>

lemma grant_takes_over:
  assumes "grant p a now s = Inr s1" and "find_runner s (la_agent a) = Some old"
    and "find_runner s1 (la_agent a) = Some l" and "rl_runner l \<noteq> rl_runner old"
  shows "rl_epoch l = rl_epoch old + 1"
proof -
  have upd: "find_runner (set_runner (la_agent a) f s) (la_agent a) = Some (f old)"
    if "\<And>l. rl_agent (f l) = rl_agent l" for f
    using assms(2) find_update_where [where q = "\<lambda>l. rl_agent l = la_agent a" and f = f] that find_SomeD [of _ "db_runners s" old]
    by (auto simp: find_runner_def set_runner_def)
  show ?thesis using assms upd [of "take_over a now"] upd [of "renew a"]
    by (auto simp: grant_def Let_def split: if_splits)
qed

lemma acquire_takes_over:
  assumes "fst (wexec e (WAcquire p a rq) s) = Inr (RRunner l)" and "\<not> wlogged (WAcquire p a rq) s"
    and "find_runner s (la_agent a) = Some old" and "rl_runner l \<noteq> rl_runner old"
  shows "runner_epoch (la_agent a) (snd (wexec e (WAcquire p a rq) s)) = rl_epoch old + 1"
proof -
  let ?s = "snd (wexec e (WAcquire p a rq) s)"
  have "acquire_runner_lease e p a rq s = Inr (?s, RRunner l)"
    using assms(1) by (auto simp: wexec_def write_txn_def split: sum.splits)
  then obtain s1 where act: "acquire_runner_lease_act e p a rq s = Inr (s1, RRunner l)"
    and eq: "?s = s1\<lparr>db_requests := db_requests ?s\<rparr>"
    using assms(2) by (auto simp: acquire_runner_lease_def result_simps elim!: fresh_act)
  obtain now s2 where "grant p a now s = Inr s2" and run: "db_runners s1 = db_runners s2"
    and l: "find_runner s1 (la_agent a) = Some l"
    using act by (auto simp: acquire_runner_lease_act_def Let_def result_simps dest!: leased.audit_blind split: option.splits)
  then have "rl_epoch l = rl_epoch old + 1"
    using grant_takes_over [OF _ assms(3) _ assms(4), of p now s2] by (simp add: find_runner_def)
  moreover have "runner_epoch (la_agent a) ?s = runner_epoch (la_agent a) s1"
    using arg_cong [OF eq, of db_runners] by (simp add: runner_epoch_def)
  ultimately show ?thesis using runner_epoch_find [OF l] by simp
qed

text \<open>
  C24: A runner that was superseded gets nothing more. Once another runner has taken over the
  lease of an agent, every call the former holder makes under its epoch (leasing jobs,
  heartbeat, expiry), at any later time, is refused and changes nothing.
\<close>
theorem superseded_runner_gets_nothing:
  assumes "fst (wexec e (WAcquire p a rq) s) = Inr (RRunner l)" and "\<not> wlogged (WAcquire p a rq) s"
    and "find_runner s (la_agent a) = Some old" and "rl_runner l \<noteq> rl_runner old"
    and "(sstep False)\<^sup>*\<^sup>* (snd (wexec e (WAcquire p a rq) s)) s2"
    and "runner_call w = Some (la_agent a, rl_epoch old)" and "\<not> wlogged w s2"
  shows "\<exists>err. wexec e' w s2 = (Inl err, s2)"
proof -
  have "runner_write (la_agent a) (e', w) (rl_epoch old) s2 = None"
    by (rule runner_fence.superseded_never_writes [OF _ assms(5)]) (simp add: acquire_takes_over [OF assms(1-4)])
  then show ?thesis using assms(6,7) wexec_refused by (simp add: runner_write_def)
qed

definition second_runner :: lease_args where
  "second_runner = demo_lease\<lparr>la_runner := ''r2'', la_expires := 3000\<rparr>"

theorem superseded_runner_gets_nothing_witness:
  "\<exists>err. wexec (demo_env 1501) (WLeaseJobs ''p'' ''a'' ''r1'' 1 None None)
       (snd (wexec (demo_env 1500) (WAcquire ''p'' second_runner None) wdemo))
     = (Inl err, snd (wexec (demo_env 1500) (WAcquire ''p'' second_runner None) wdemo))"
proof -
  let ?r = "fst (wexec (demo_env 1500) (WAcquire ''p'' second_runner None) wdemo)"
  have "(case ?r of Inr (RRunner l) \<Rightarrow> rl_runner l = ''r2'' | _ \<Rightarrow> False)" by code_simp
  then obtain l where l: "?r = Inr (RRunner l)" "rl_runner l = ''r2''"
    by (auto split: sum.splits response.splits)
  have "(case find_runner wdemo ''a'' of Some o' \<Rightarrow> rl_runner o' = ''r1'' \<and> rl_epoch o' = 1 | None \<Rightarrow> False)" by code_simp
  then obtain old where old: "find_runner wdemo ''a'' = Some old" "rl_runner old = ''r1''" "rl_epoch old = 1"
    by (auto split: option.splits)
  have agent: "la_agent second_runner = ''a''" by (simp add: second_runner_def demo_lease_def)
  have held: "find_runner wdemo (la_agent second_runner) = Some old" using old(1) agent by simp
  show ?thesis
    by (rule superseded_runner_gets_nothing [OF l(1) _ held _ rtranclp.rtrancl_refl])
      (simp_all add: wlogged_def agent old l(2))
qed

section \<open>A job that waits is handed out\<close>

lemma foldE_fails:
  assumes "foldE f xs s = Inl err" and "\<And>x s err. f x s = Inl err \<Longrightarrow> err = E"
  shows "err = E"
  using assms by (induction xs arbitrary: s) (auto simp: result_simps)

lemma reclaim_idle: "\<not> agent_is_busy s p aid \<Longrightarrow> reclaim_expired e k p aid now s = Inr (k, s)"
proof -
  assume "\<not> agent_is_busy s p aid"
  then have "expired_jobs p aid now s = []" by (auto simp: agent_is_busy_def expired_jobs_def list_ex_iff filter_empty_conv)
  then show ?thesis by (simp add: reclaim_expired_def)
qed

definition eligible_job :: "string \<Rightarrow> string \<Rightarrow> wake_row \<Rightarrow> bool" where
  "eligible_job p aid w \<longleftrightarrow> wk_project w = p \<and> wk_agent w = aid \<and> wk_state w = WPending
     \<and> wk_attempts w < WAKE_MAX_ATTEMPTS"

lemma hand_out_result:
  assumes "w \<in> set (wakes s)" "wk_project w = p" "distinct (map wk_id (wakes s))"
  shows "hand_out_job e k p aid runner secs now w s = Inl IntegrityError
     \<or> (\<exists>s' v. hand_out_job e k p aid runner secs now w s = Inr (s', RWakes [v] 0) \<and> wk_id v = wk_id w)"
proof (cases "hand_out_job e k p aid runner secs now w s")
  case (Inr x)
  then show ?thesis using hand_out_queue(2) [of e k p aid runner secs now w s "fst x" "snd x"] by (cases x) auto
next
  case (Inl err)
  have "err = IntegrityError"
  proof (rule ccontr)
    assume bad: "err \<noteq> IntegrityError"
    let ?s0 = "set_wake (wk_id w) (lease_to (now + secs)) s"
    obtain k1 s1 s2 where mint: "mint_run_for e k p aid w now ?s0 = Inr (k1, s1)"
      and au: "audit e k1 p SYSTEM_ACTOR ''wake_job.leased'' (Some ''run'') (Some (wk_id w)) None
        (''wake job leased to runner '' @ runner) s1 = Inr s2"
      and row: "wake_row_of s2 p (wk_id w) = Inl err"
      using Inl bad by (auto simp: hand_out_job_def mint_run_for_def result_simps lease_to_eq
          dest!: audit_fails split: if_splits)
    have "wakes s2 = set_w (wk_id w) (lease_to (now + secs)) (wakes s)"
      using mint audit_queueD [OF au] by (auto simp: mint_run_for_def result_simps table_defs
          dest!: audit_queueD [unfolded table_defs] split: if_splits) (simp_all add: set_wake_def set_w_def)
    then have "List.find (\<lambda>v. wk_id v = wk_id w) (wakes s2) = Some (lease_to (now + secs) w)"
      using job_row_Some [OF assms(3,1)] job_row_set_w [of "lease_to (now + secs)" "wk_id w" "wakes s" "wk_id w"]
      by (simp add: job_row_def)
    then show False using row assms(2) by (simp add: wake_row_of_def)
  qed
  then show ?thesis using Inl by simp
qed

lemma next_job_is_oldest:
  assumes "w \<in> set (wakes s)" "wk_project w = p" "wk_agent w = aid" "wk_state w = WPending"
  shows "\<exists>job. next_job s p aid = Some job \<and> (\<forall>v \<in> set (wakes s). wk_project v = p \<longrightarrow> wk_agent v = aid
     \<longrightarrow> wk_state v = WPending \<longrightarrow> wk_created_at job \<le> wk_created_at v)"
proof -
  let ?pend = "filter (\<lambda>w. wk_project w = p \<and> wk_agent w = aid \<and> wk_state w = WPending) (wakes s)"
  have "w \<in> set (sort_key wk_created_at ?pend)" using assms by simp
  then obtain job rest where eq: "sort_key wk_created_at ?pend = job # rest"
    by (cases "sort_key wk_created_at ?pend") auto
  have "sorted (map wk_created_at (job # rest))" using sorted_sort_key [of wk_created_at ?pend] eq by simp
  then have "\<forall>v \<in> set (job # rest). wk_created_at job \<le> wk_created_at v" by auto
  moreover have "set (job # rest) = set ?pend" using eq by (metis set_sort)
  ultimately show ?thesis using eq by (auto simp: next_job_def)
qed

lemma retire_rest:
  assumes "retire_exhausted e k p aid s = Inr (k', s')" and ids: "distinct (map wk_id (wakes s))"
  shows "runs s' = runs s" and "set (filter (\<lambda>w. wk_project w = p \<and> wk_agent w = aid \<and> wk_state w = WPending) (wakes s'))
    = set (filter (eligible_job p aid) (wakes s))"
    and "\<not> agent_is_busy s p aid \<Longrightarrow> \<not> agent_is_busy s' p aid"
proof -
  let ?ids = "wk_id ` set (filter (exhausted p aid) (wakes s))"
  note q = retire_loop_queue [OF assms(1) [unfolded retire_exhausted_filter]]
  show "runs s' = runs s" by (rule q(2))
  show "\<not> agent_is_busy s' p aid" if "\<not> agent_is_busy s p aid"
    using that q by (auto simp: agent_is_busy_def list_ex_iff split: if_splits)
  show "set (filter (\<lambda>w. wk_project w = p \<and> wk_agent w = aid \<and> wk_state w = WPending) (wakes s'))
      = set (filter (eligible_job p aid) (wakes s))"
  proof -
    have eq: "wk_id w \<in> ?ids \<longleftrightarrow> exhausted p aid w" if w: "w \<in> set (wakes s)" for w
    proof
      assume "wk_id w \<in> ?ids"
      then obtain v where "v \<in> set (wakes s)" "exhausted p aid v" "wk_id v = wk_id w" by auto
      then show "exhausted p aid w" using unique_key [OF ids _ w, of v] by simp
    next
      assume "exhausted p aid w"
      then show "wk_id w \<in> ?ids" using w by simp
    qed
    let ?f = "\<lambda>w. if exhausted p aid w then w\<lparr>wk_state := WFailed\<rparr> else w"
    have "wakes s' = map ?f (wakes s)" unfolding q(1) by (rule map_cong [OF refl]) (simp only: eq)
    then have mem: "u \<in> set (wakes s') \<longleftrightarrow> u \<in> ?f ` set (wakes s)" for u by simp
    have kept: "?f v = v \<and> eligible_job p aid v"
      if "wk_project (?f v) = p" "wk_agent (?f v) = aid" "wk_state (?f v) = WPending" for v
      using that by (simp add: exhausted_def eligible_job_def split: if_splits)
    have same: "?f v = v" if "eligible_job p aid v" for v using that by (simp add: exhausted_def eligible_job_def)
    show ?thesis
    proof (intro set_eqI iffI)
      fix u assume u: "u \<in> set (filter (\<lambda>w. wk_project w = p \<and> wk_agent w = aid \<and> wk_state w = WPending) (wakes s'))"
      then obtain v where "v \<in> set (wakes s)" "u = ?f v" using mem [of u] by (simp only: set_filter mem_Collect_eq) blast
      then show "u \<in> set (filter (eligible_job p aid) (wakes s))" using kept [of v] u by simp
    next
      fix u assume u: "u \<in> set (filter (eligible_job p aid) (wakes s))"
      then have "u \<in> ?f ` set (wakes s)" using same [of u] by (intro image_eqI [of _ _ u]) simp_all
      then show "u \<in> set (filter (\<lambda>w. wk_project w = p \<and> wk_agent w = aid \<and> wk_state w = WPending) (wakes s'))"
        using mem [of u] u by (simp add: eligible_job_def)
    qed
  qed
qed


definition idle_with_job :: "db \<Rightarrow> bool" where
  "idle_with_job s \<longleftrightarrow> wakes s \<noteq> [] \<and> eligible_job ''p'' ''a'' (hd (wakes s)) \<and> \<not> agent_is_busy s ''p'' ''a''
     \<and> \<not> isl (assert_runner_lease s ''p'' ''a'' ''r1'' 1 8)"


section \<open>Events of a run\<close>

text \<open>
  An event reported without a current session, or from another session than the run's,
  is denied its effect: it is answered and audited as unattributed or superseded, and no
  messaging table and no agent changes.
\<close>
theorem denied_event_changes_nothing:
  assumes "record_run_event e p rid a rq s = Inr (s', r)" and "\<not> wlogged (WRunEvent p rid a rq) s"
    and "List.find (\<lambda>r. ru_id r = rid) (runs s) = Some row" and "\<not> attributed s a row"
  shows "db_msg s' = db_msg s \<and> db_agents s' = db_agents s \<and> r = RRun row
    \<and> (\<exists>n. db_audits s' = db_audits s @ [n] \<and> au_action n
         = (if ea_reporter a = None then ''run.event.unattributed'' else ''run.event.superseded''))"
proof -
  obtain s1 st where act: "record_run_event_act e p rid a st rq s = Inr (s1, r)"
    and eq: "s' = s1\<lparr>db_requests := db_requests s'\<rparr>"
    using assms(1,2) by (auto simp: record_run_event_def split: option.splits elim!: fresh_act)
  have "db_msg s1 = db_msg s \<and> db_agents s1 = db_agents s \<and> r = RRun row
    \<and> (\<exists>n. db_audits s1 = db_audits s @ [n] \<and> au_action n
         = (if ea_reporter a = None then ''run.event.unattributed'' else ''run.event.superseded''))"
    using act assms(3,4) by (auto simp: record_run_event_act_def run_row_of_Inr result_simps
        audit_def insert_row_def Let_def split: if_splits)
  then show ?thesis using arg_cong [OF eq, of db_msg] arg_cong [OF eq, of db_agents] arg_cong [OF eq, of db_audits]
    by simp
qed

definition foreign_event :: event_args where
  "foreign_event = start_event\<lparr>ea_event := ''failed'', ea_expected := 2, ea_reporter := Some ''gone''\<rparr>"

definition denied_ready :: "db \<Rightarrow> bool" where
  "denied_ready s \<longleftrightarrow> \<not> isl (record_run_event (demo_env 20) ''p'' ''run_7-0'' foreign_event None s)
     \<and> \<not> Option.is_none (List.find (\<lambda>r. ru_id r = ''run_7-0'') (runs s)) \<and> \<not> session_is_current s (Some ''gone'')"

theorem denied_event_changes_nothing_witness:
  "\<exists>s' r. record_run_event (demo_env 20) ''p'' ''run_7-0'' foreign_event None wdemo_running = Inr (s', r)
     \<and> db_msg s' = db_msg wdemo_running"
proof -
  let ?r = "record_run_event (demo_env 20) ''p'' ''run_7-0'' foreign_event None wdemo_running"
  have "denied_ready wdemo_running" by code_simp
  then have c: "\<not> isl ?r" "\<not> Option.is_none (List.find (\<lambda>r. ru_id r = ''run_7-0'') (runs wdemo_running))"
    "\<not> session_is_current wdemo_running (Some ''gone'')" by (simp_all add: denied_ready_def)
  obtain s' r where r: "?r = Inr (s', r)" using c(1) by (cases ?r) auto
  obtain row where row: "List.find (\<lambda>r. ru_id r = ''run_7-0'') (runs wdemo_running) = Some row"
    using c(2) by (cases "List.find (\<lambda>r. ru_id r = ''run_7-0'') (runs wdemo_running)") auto
  have "\<not> attributed wdemo_running foreign_event row" using c(3) by (simp add: attributed_def foreign_event_def)
  from denied_event_changes_nothing [OF r _ row this] show ?thesis using r by (simp add: wlogged_def)
qed

text \<open>
  A paused run needs nobody to go on: the next event of the very session that asked for
  approval (a completed turn, a start) sets the run running again, and the flag that
  approval is needed stays up as it was.
\<close>
theorem paused_run_resumes_itself:
  assumes "record_run_event e p rid a rq s = Inr (s', r)" and "\<not> wlogged (WRunEvent p rid a rq) s"
    and "List.find (\<lambda>r. ru_id r = rid) (runs s) = Some row" and "ru_state row = RPaused" "attributed s a row"
    and "ea_event a = ''turn_completed''"
  shows "\<exists>row'. List.find (\<lambda>r. ru_id r = rid) (runs s') = Some row' \<and> ru_state row' = RRunning
    \<and> ru_approval row' = ru_approval row \<and> ru_reason row' = ru_reason row"
proof -
  obtain s1 where act: "record_run_event_act e p rid a RRunning rq s = Inr (s1, r)"
    and eq: "s' = s1\<lparr>db_requests := db_requests s'\<rparr>"
    using assms(1,2,6) by (auto simp: record_run_event_def RUN_EVENT_TARGETS_def elim!: fresh_act)
  have "db_msg s1 = db_msg (event_updates e p rid a RRunning row s)"
    using record_run_event_act_Inr [OF act] assms(3,5) by auto
  then have "runs s' = set_r rid (event_write e a RRunning) (runs s)"
    using arg_cong [OF eq, of db_msg] by (simp add: table_defs event_updates_msg)
  moreover have "List.find (\<lambda>r. ru_id r = rid) (set_r rid (event_write e a RRunning) (runs s))
      = Some (event_write e a RRunning row)"
    using assms(3) find_SomeD [OF assms(3)] unfolding set_r_def
    by (simp add: find_update_where event_write_def)
  ultimately show ?thesis using assms(6) by (simp add: event_write_def)
qed

definition approval_event :: event_args where
  "approval_event = start_event\<lparr>ea_event := ''needs_approval'', ea_expected := 2\<rparr>"

definition turn_event :: event_args where
  "turn_event = start_event\<lparr>ea_event := ''turn_completed'', ea_expected := 3\<rparr>"

definition wdemo_paused :: db where
  "wdemo_paused = srun 10 [SMsg (WRunEvent ''p'' ''run_7-0'' approval_event None)] wdemo_running"

definition resume_ready :: "db \<Rightarrow> bool" where
  "resume_ready s \<longleftrightarrow> \<not> isl (record_run_event (demo_env 20) ''p'' ''run_7-0'' turn_event None s)
     \<and> (case List.find (\<lambda>r. ru_id r = ''run_7-0'') (runs s) of
          Some row \<Rightarrow> ru_state row = RPaused \<and> attributed s turn_event row \<and> ru_approval row | None \<Rightarrow> False)"

theorem paused_run_resumes_itself_witness:
  "\<exists>s' r row'. record_run_event (demo_env 20) ''p'' ''run_7-0'' turn_event None wdemo_paused = Inr (s', r)
     \<and> List.find (\<lambda>r. ru_id r = ''run_7-0'') (runs s') = Some row' \<and> ru_state row' = RRunning \<and> ru_approval row'"
proof -
  let ?r = "record_run_event (demo_env 20) ''p'' ''run_7-0'' turn_event None wdemo_paused"
  have "resume_ready wdemo_paused" by code_simp
  then have c: "\<not> isl ?r" "(case List.find (\<lambda>r. ru_id r = ''run_7-0'') (runs wdemo_paused) of
      Some row \<Rightarrow> ru_state row = RPaused \<and> attributed wdemo_paused turn_event row \<and> ru_approval row | None \<Rightarrow> False)"
    by (simp_all add: resume_ready_def)
  obtain s' r where r: "?r = Inr (s', r)" using c(1) by (cases ?r) auto
  obtain row where row: "List.find (\<lambda>r. ru_id r = ''run_7-0'') (runs wdemo_paused) = Some row"
    "ru_state row = RPaused" "attributed wdemo_paused turn_event row" "ru_approval row"
    using c(2) by (auto split: option.splits)
  have "ea_event turn_event = ''turn_completed''" by (simp add: turn_event_def)
  from paused_run_resumes_itself [OF r _ row(1-3) this] show ?thesis using r row(4) by (auto simp: wlogged_def)
qed

definition two_runs :: db where
  "two_runs = srun 1
     [SMaster (MBoard (OCreateProject ''demo'' ''native'' (Some ''p''))),
      SMaster (MBoard (OCreateAgent ''p'' ''ann'' None [] ''managed'' 1 (JObj []) (Some ''a''))),
      SMaster (MBoard (OOpenSession ''a'' 900 (Some ''ses1'') None)),
      SMsg (WCreateChannel ''p'' ''general'' ''public'' ''channel'' None None (Some ''c'') None None),
      SMsg (WSend ''p'' demo_message None),
      SMsg (WSend ''p'' (demo_message\<lparr>ma_message_id := Some ''m2''\<rparr>) None),
      SMsg (WCreateJob ''p'' ''m'' ''a'' ''dlv_5-1'' None None None None),
      SMsg (WCreateJob ''p'' ''m2'' ''a'' ''dlv_6-1'' None None None None),
      SMsg (WAcquire ''p'' demo_lease None),
      SMsg (WLeaseJobs ''p'' ''a'' ''r1'' 1 (Some 1) None), SMsg (WLeaseJobs ''p'' ''a'' ''r1'' 1 (Some 1) None),
      SMsg (WLeaseJobs ''p'' ''a'' ''r1'' 1 (Some 1) None), SMsg (WLeaseJobs ''p'' ''a'' ''r1'' 1 None None),
      SMsg (WRunEvent ''p'' ''run_8-0'' start_event None),
      SMsg (WRunEvent ''p'' ''run_7-0'' start_event None)] empty_db"

definition queue_view :: "db \<Rightarrow> (string \<times> wake_state) list \<times> (string \<times> run_state) list" where
  "queue_view s = (map (\<lambda>w. (wk_id w, wk_state w)) (wakes s), map (\<lambda>r. (ru_agent r, ru_state r)) (runs s))"

text \<open>
  A job that was given up can still start, beside its successor: a run event looks at the
  run only. After three leases that ran out the first job has failed and the second is
  leased; then the events of both runs are accepted, and the agent has two live runs.
\<close>
theorem failed_job_still_starts:
  "queue_view two_runs
     = ([(''wjb_7-0'', WFailed), (''wjb_8-0'', WLeased)], [(''a'', RRunning), (''a'', RRunning)])"
  by code_simp

end
