(* ===== verification/Talk_Life.thy ===== *)
theory Talk_Life
  imports Run_Frame
begin

text \<open>
  The conversation tables (members, channels, messages, threads, deliveries) as a transition
  system: what any call of the server does to them is at most one \<open>talk_step\<close>. From
  the steps: references between the tables hold, messages keep what was said, deliveries
  follow the transition table.
\<close>

section \<open>The steps\<close>

definition blockable :: "delivery_row \<Rightarrow> bool" where
  "blockable d \<longleftrightarrow> dl_state d = Sent \<or> dl_state d = DQueued"

inductive talk_step :: "msg_tables \<Rightarrow> msg_tables \<Rightarrow> bool" where
  join: "talk_step t (t\<lparr>mt_members := mt_members t @ [m]\<rparr>)"
| quit: "(\<And>d. P d \<Longrightarrow> blockable d) \<Longrightarrow> (\<And>m. me_id (f m) = me_id m) \<Longrightarrow> (\<And>m. me_project (f m) = me_project m) \<Longrightarrow>
     talk_step t (t\<lparr>mt_members := update_where Q f (mt_members t),
       mt_deliveries := update_where P (block_write e) (mt_deliveries t)\<rparr>)"
| invite: "talk_step t (t\<lparr>mt_invitations := is\<rparr>)"
| open_channel: "ch_id c \<notin> set (map ch_id (mt_channels t)) \<Longrightarrow>
     talk_step t (t\<lparr>mt_channels := mt_channels t @ [c]\<rparr>)"
| enrol: "c \<in> set (mt_channels t) \<Longrightarrow> m \<in> set (mt_members t) \<Longrightarrow> cm_channel r = ch_id c \<Longrightarrow> cm_project r = ch_project c
     \<Longrightarrow> cm_member r = me_id m \<Longrightarrow> me_project m = cm_project r \<Longrightarrow>
     talk_step t (t\<lparr>mt_channel_members := upsert_channel_member r (mt_channel_members t)\<rparr>)"
| post: "c \<in> set (mt_channels t) \<Longrightarrow> ch_id c = ms_channel m \<Longrightarrow> ch_project c = ms_project m
     \<Longrightarrow> ms_id m \<notin> set (map ms_id (mt_messages t))
     \<Longrightarrow> (\<And>d. d \<in> set ds \<Longrightarrow> dl_message d = ms_id m \<and> dl_project d = ms_project m \<and> dl_version d = 1)
     \<Longrightarrow> (distinct (map dl_id (mt_deliveries t)) \<longrightarrow> distinct (map dl_id (mt_deliveries t @ ds)))
     \<Longrightarrow> (distinct (map (\<lambda>d. (dl_message d, dl_agent d)) (mt_deliveries t)) \<longrightarrow>
          distinct (map (\<lambda>d. (dl_message d, dl_agent d)) (mt_deliveries t @ ds)))
     \<Longrightarrow> (\<And>x. th_channel (f x) = th_channel x \<and> th_project (f x) = th_project x \<and> th_root (f x) = th_root x)
     \<Longrightarrow> talk_step t (t\<lparr>mt_messages := mt_messages t @ [m], mt_deliveries := mt_deliveries t @ ds,
           mt_threads := map f (mt_threads t)\<rparr>)"
| open_thread: "r \<in> set (mt_messages t) \<Longrightarrow> ms_id r = th_root th \<Longrightarrow> ms_project r = th_project th
     \<Longrightarrow> ms_channel r = th_channel th \<Longrightarrow>
     talk_step t (t\<lparr>mt_threads := mt_threads t @ [th],
       mt_messages := update_where P (\<lambda>r. r\<lparr>ms_thread := Some tid\<rparr>) (mt_messages t)\<rparr>)"
| deliver: "d \<in> set (mt_deliveries t) \<Longrightarrow> st \<in> set (DELIVERY_TRANSITIONS (dl_state d))
     \<Longrightarrow> talk_step t (t\<lparr>mt_deliveries := update_where (\<lambda>x. dl_id x = dl_id d) (delivery_write e st a) (mt_deliveries t)\<rparr>)"

inductive_cases talk_stepE: "talk_step t t'"

definition talks :: "db \<Rightarrow> db \<Rightarrow> bool" where
  "talks s s' \<longleftrightarrow> talk s' = talk s \<or> talk_step (talk s) (talk s')"

lemma talks_same: "talk s' = talk s \<Longrightarrow> talks s s'"
  by (simp add: talks_def)

lemma talks_idem:
  assumes "idem e p rq opn body act s = Inr (s', r)" and "\<And>s1. act s = Inr (s1, r) \<Longrightarrow> talks s s1"
  shows "talks s s'"
  by (rule idem_frame [OF assms(1), where R = talks]) (use assms(2) in \<open>simp_all add: talks_def talk_def\<close>)

lemma talk_simps [simp]:
  "mt_members (talk s) = mt_members (db_msg s)" "mt_channels (talk s) = mt_channels (db_msg s)"
  "mt_messages (talk s) = mt_messages (db_msg s)" "mt_deliveries (talk s) = mt_deliveries (db_msg s)"
  "mt_threads (talk s) = mt_threads (db_msg s)" "mt_channel_members (talk s) = mt_channel_members (db_msg s)"
  by (simp_all add: talk_def)

section \<open>Every operation is a step\<close>

lemma create_member_talks: "create_member_act e p kind name role ag avail mid rq actor s = Inr (s1, r) \<Longrightarrow> talks s s1"
proof (drule create_member_act_msg, elim exE)
  fix m assume "db_msg s1 = (db_msg s)\<lparr>mt_members := mt_members (db_msg s) @ [m]\<rparr>"
  then show ?thesis using talk_step.join [of "talk s" m] by (cases "db_msg s") (simp add: talks_def talk_def)
qed

lemma revoke_member_talks: "revoke_member_act e p mid v rq actor s = Inr (s1, r) \<Longrightarrow> talks s s1"
proof -
  assume "revoke_member_act e p mid v rq actor s = Inr (s1, r)"
  then have "db_msg s1 = db_msg (revoke_updates e p mid s)" by (rule revoke_member_act_msg)
  then show ?thesis
    using talk_step.quit [where P = "\<lambda>d. dl_project d = p \<and> (dl_state d = Sent \<or> dl_state d = DQueued)
        \<and> list_ex (\<lambda>r. me_id r = mid \<and> me_agent r = Some (dl_agent d)) (mt_members (db_msg s))"
        and f = "\<lambda>r. r\<lparr>me_state := MRevoked, me_version := me_version r + 1\<rparr>"
        and t = "talk s" and Q = "\<lambda>r. me_id r = mid" and e = e]
    by (cases "db_msg s") (simp add: talks_def talk_def revoke_updates_def blockable_def)
qed

lemma create_invitation_talks: "create_invitation_act e p role x cb iid code rq s = Inr (s1, r) \<Longrightarrow> talks s s1"
proof (drule create_invitation_act_msg, elim exE)
  fix i assume "db_msg s1 = (db_msg s)\<lparr>mt_invitations := mt_invitations (db_msg s) @ [i]\<rparr>"
  then show ?thesis
    using talk_step.invite [of "talk s" "mt_invitations (db_msg s) @ [i]"] by (cases "db_msg s") (simp add: talks_def talk_def)
qed

lemma create_channel_talks:
  assumes "create_channel_act e p name vis kind topic master cid rq actor s = Inr (s1, r)"
  shows "talks s s1"
proof -
  let ?c = "\<lparr>ch_id = cid, ch_project = p, ch_name = name, ch_kind = kind, ch_visibility = vis,
    ch_topic = topic, ch_master = master, ch_version = 1, ch_created_at = clock e\<rparr>"
  have "cid \<notin> set (map ch_id (channels s))" "db_msg s1 = (db_msg s)\<lparr>mt_channels := mt_channels (db_msg s) @ [?c]\<rparr>"
    using assms by (auto simp: create_channel_act_def result_simps table_defs dest!: audit_tables(1) split: if_splits)
  then show ?thesis using talk_step.open_channel [of ?c "talk s"] by (cases "db_msg s") (simp add: talks_def talk_def table_defs)
qed

lemma row_of_mem:
  "channel_row_of s p cid = Inr c \<Longrightarrow> c \<in> set (channels s) \<and> ch_id c = cid \<and> ch_project c = p"
  "member_row_of s p mid = Inr m \<Longrightarrow> m \<in> set (members s) \<and> me_id m = mid \<and> me_project m = p"
  "message_row_of s p wid = Inr w \<Longrightarrow> w \<in> set (messages s) \<and> ms_id w = wid \<and> ms_project w = p"
  by (auto simp: channel_row_of_def member_row_of_def message_row_of_def split: option.splits if_splits
      dest: find_SomeD)

lemma add_channel_member_talks:
  assumes "add_channel_member_act e p cid mid sub rq actor s = Inr (s1, r)"
  shows "talks s s1"
proof -
  let ?r = "\<lparr>cm_project = p, cm_channel = cid, cm_member = mid, cm_subscribed = sub, cm_joined_at = clock e\<rparr>"
  obtain c m where "channel_row_of s p cid = Inr c" "member_row_of s p mid = Inr m"
    using assms by (auto simp: add_channel_member_act_def result_simps)
  then have "talk_step (talk s) ((talk s)\<lparr>mt_channel_members := upsert_channel_member ?r (mt_channel_members (talk s))\<rparr>)"
    by (intro talk_step.enrol [of c _ m]) (auto dest!: row_of_mem simp: table_defs)
  then show ?thesis using add_channel_member_act_msg [OF assms] by (cases "db_msg s") (simp add: talks_def talk_def)
qed

lemma create_thread_talks:
  assumes "create_thread e p cid root tk tid s = Inr (s1, r)"
  shows "talks s s1"
proof -
  obtain c m where c: "channel_row_of s p cid = Inr c" and m: "message_row_of s p root = Inr m" "ms_channel m = ch_id c"
    using assms by (auto simp: create_thread_def Let_def result_simps split: if_splits)
  obtain th where th: "db_msg s1 = (db_msg s)\<lparr>mt_threads := mt_threads (db_msg s) @ [th],
        mt_messages := update_where (\<lambda>r. ms_project r = p \<and> ms_id r = root)
          (\<lambda>r. r\<lparr>ms_thread := Some (id_or_mint tid ''thr'' (rnd e 0))\<rparr>) (mt_messages (db_msg s))\<rparr>"
    "th_root th = root" "th_project th = p" "th_channel th = cid"
    using assms by (auto simp: create_thread_def Let_def result_simps table_defs dest!: audit_tables(1) split: if_splits)
  have "talk_step (talk s) ((talk s)\<lparr>mt_threads := mt_threads (talk s) @ [th],
      mt_messages := update_where (\<lambda>r. ms_project r = p \<and> ms_id r = root)
        (\<lambda>r. r\<lparr>ms_thread := Some (id_or_mint tid ''thr'' (rnd e 0))\<rparr>) (mt_messages (talk s))\<rparr>)"
    using row_of_mem(1) [OF c] row_of_mem(3) [OF m(1)] m(2) th(2-4)
    by (intro talk_step.open_thread [of m]) (simp_all add: table_defs)
  then show ?thesis using th(1) by (cases "db_msg s") (simp add: talks_def talk_def)
qed

lemma transition_delivery_talks:
  assumes "transition_delivery_act e p did st a rq actor s = Inr (s1, r)"
  shows "talks s s1"
proof -
  obtain d where d: "List.find (\<lambda>d. dl_id d = did) (deliveries s) = Some d" "st \<in> set (DELIVERY_TRANSITIONS (dl_state d))"
    "db_msg s1 = (db_msg s)\<lparr>mt_deliveries :=
          update_where (\<lambda>d. dl_id d = did) (delivery_write e st a) (mt_deliveries (db_msg s))\<rparr>"
    using transition_delivery_act_Inr [OF assms] by blast
  have "d \<in> set (mt_deliveries (talk s))" "dl_id d = did" using find_SomeD [OF d(1)] by (auto simp: table_defs)
  then show ?thesis
    using talk_step.deliver [of d "talk s" st e a] d(2,3) by (cases "db_msg s") (simp add: talks_def talk_def)
qed

lemma channel_visible_row: "channel_visible s p cid m sys = Inr c \<Longrightarrow> channel_row_of s p cid = Inr c"
  by (auto simp: channel_visible_def result_simps split: if_splits option.splits)

lemma bump_thread_map:
  "\<exists>f. db_msg (bump_thread e p t s) = (db_msg s)\<lparr>mt_threads := map f (mt_threads (db_msg s))\<rparr>
     \<and> (\<forall>x. th_channel (f x) = th_channel x \<and> th_project (f x) = th_project x \<and> th_root (f x) = th_root x)"
proof (cases t)
  case None
  then show ?thesis by (intro exI [of _ id]) (simp add: bump_thread_def)
next
  case (Some tid)
  then show ?thesis
    by (intro exI [of _ "\<lambda>t. if th_project t = p \<and> th_id t = tid
        then t\<lparr>th_replies := th_replies t + 1, th_updated_at := clock e\<rparr> else t"])
      (simp add: bump_thread_def update_where_def)
qed

lemma new_message_simps [simp]: "ms_project (new_message e p a) = p" "ms_channel (new_message e p a) = ma_channel a"
  by (simp_all add: new_message_def)

lemma new_delivery_simps [simp]:
  "dl_message (new_delivery e k p mid aid st) = mid" "dl_project (new_delivery e k p mid aid st) = p"
  "dl_version (new_delivery e k p mid aid st) = 1" "dl_agent (new_delivery e k p mid aid st) = aid"
  by (simp_all add: new_delivery_def)

lemma send_message_talks:
  assumes "send_message_act e p a rq s = Inr (s1, r)"
  shows "talks s s1"
proof -
  let ?m = "new_message e p a"
  obtain author rcpts s2 ds s3 c where vis: "channel_visible s p (ma_channel a) author False = Inr c"
    and new: "ms_id ?m \<notin> set (map ms_id (messages s))"
    and ins: "insert_deliveries e 1 p (ms_id ?m) (ma_delivery_state a) rcpts
        (upd_msg (\<lambda>m. m\<lparr>mt_messages := messages s @ [?m]\<rparr>) s) = Inr (s2, ds)"
    and au: "audit e (Suc (length rcpts)) p (ma_author a) ''message.create'' (Some ''message'')
        (Some (ms_id ?m)) rq ''message created'' (bump_thread e p (ma_thread a) s2) = Inr s3"
    and s1: "s1 = s3"
    using assms by (auto simp: send_message_act_def result_simps)
  obtain f where f: "db_msg (bump_thread e p (ma_thread a) s2) = (db_msg s2)\<lparr>mt_threads := map f (mt_threads (db_msg s2))\<rparr>"
    "\<And>x. th_channel (f x) = th_channel x \<and> th_project (f x) = th_project x \<and> th_root (f x) = th_root x"
    using bump_thread_map by blast
  note d = insert_deliveries_Inr [OF ins]
  have msg: "db_msg s1 = (db_msg s)\<lparr>mt_messages := mt_messages (db_msg s) @ [?m],
      mt_deliveries := mt_deliveries (db_msg s) @ ds, mt_threads := map f (mt_threads (db_msg s))\<rparr>"
    using d f(1) audit_tables(1) [OF au] s1 by (simp add: table_defs)
  have eq: "deliveries (upd_msg (\<lambda>m. m\<lparr>mt_messages := messages s @ [?m]\<rparr>) s) = mt_deliveries (db_msg s)"
    "deliveries s2 = mt_deliveries (db_msg s) @ ds"
    using d by (simp_all add: table_defs)
  have "talk_step (talk s) ((talk s)\<lparr>mt_messages := mt_messages (talk s) @ [?m],
      mt_deliveries := mt_deliveries (talk s) @ ds, mt_threads := map f (mt_threads (talk s))\<rparr>)"
  proof (rule talk_step.post)
    show "c \<in> set (mt_channels (talk s))" "ch_id c = ms_channel ?m" "ch_project c = ms_project ?m"
      using row_of_mem(1) [OF channel_visible_row [OF vis]] by (simp_all add: table_defs)
    show "ms_id ?m \<notin> set (map ms_id (mt_messages (talk s)))" using new by (simp add: table_defs)
    show "dl_message x = ms_id ?m \<and> dl_project x = ms_project ?m \<and> dl_version x = 1" if x: "x \<in> set ds" for x
    proof -
      obtain st k where "x = new_delivery e k p (ms_id ?m) (dl_agent x) st" using d x by blast
      then show ?thesis by (metis new_delivery_simps(1-3) new_message_simps(1))
    qed
    show "distinct (map dl_id (mt_deliveries (talk s))) \<longrightarrow> distinct (map dl_id (mt_deliveries (talk s) @ ds))"
      using d eq by simp
    show "distinct (map (\<lambda>d. (dl_message d, dl_agent d)) (mt_deliveries (talk s))) \<longrightarrow>
        distinct (map (\<lambda>d. (dl_message d, dl_agent d)) (mt_deliveries (talk s) @ ds))"
      using d eq by simp
  qed (rule f(2))
  then show ?thesis using msg by (cases "db_msg s") (simp add: talks_def talk_def)
qed

lemma lease_call_talks:
  "acquire_runner_lease_act e p a rq s = Inr (s1, r) \<Longrightarrow> talks s s1"
  "touch_lease e p aid x action summary rq s = Inr (s1, r) \<Longrightarrow> talks s s1"
  by (drule lease_call_msg, simp add: talks_def talk_def)+

lemma wbody_talks: "wbody e w s = Inr (s', r) \<Longrightarrow> talks s s'"
  by (cases w)
    (auto simp: create_member_def revoke_member_def create_invitation_def create_channel_def
      add_channel_member_def send_message_def transition_delivery_def acquire_runner_lease_def
      heartbeat_runner_lease_def heartbeat_runner_lease_act_def expire_runner_lease_def Let_def result_simps
      split: option.splits if_splits elim!: talks_idem
      intro: create_member_talks revoke_member_talks create_invitation_talks create_channel_talks
        add_channel_member_talks create_thread_talks transition_delivery_talks send_message_talks lease_call_talks
        talks_same talking.queue_call_blind talking.lease_wake_jobs_blind talking.create_wake_job_blind)

lemma sstep_talks: "sstep srv s s' \<Longrightarrow> talks s s'"
proof -
  assume "sstep srv s s'"
  then obtain e x where s': "s' = snd (sexec e x s)" by (auto simp: sstep_def)
  show ?thesis unfolding s'
  proof (rule sexec_cases)
    fix s2 r assume run: "sbody e x s = Inr (s2, r)"
    show "talks s s2"
    proof (cases x)
      case (SMaster m)
      then show ?thesis using run mbody_messaging [of e m s s2 r] by (simp add: talks_def talk_def)
    next
      case (SMsg w)
      then show ?thesis using run wbody_talks by simp
    qed
  qed (simp add: talks_same)
qed

lemma talk_invariant:
  assumes "\<And>t t'. I t \<Longrightarrow> talk_step t t' \<Longrightarrow> I t'" and "(sstep srv)\<^sup>*\<^sup>* s s'" and "I (talk s)"
  shows "I (talk s')"
  using assms(2,3)
proof (induction rule: rtranclp_induct)
  case base
  then show ?case .
next
  case (step s1 s2)
  then have "I (talk s1)" by blast
  then show ?case using sstep_talks [OF step(2)] assms(1) unfolding talks_def by metis
qed

section \<open>References between the tables\<close>

definition refs_ok :: "msg_tables \<Rightarrow> bool" where
  "refs_ok t \<longleftrightarrow>
     set (map (\<lambda>m. (ms_project m, ms_channel m)) (mt_messages t)) \<subseteq> set (map (\<lambda>c. (ch_project c, ch_id c)) (mt_channels t))
     \<and> set (map (\<lambda>d. (dl_project d, dl_message d)) (mt_deliveries t)) \<subseteq> set (map (\<lambda>m. (ms_project m, ms_id m)) (mt_messages t))
     \<and> set (map (\<lambda>x. (th_project x, th_channel x, th_root x)) (mt_threads t))
         \<subseteq> set (map (\<lambda>m. (ms_project m, ms_channel m, ms_id m)) (mt_messages t))
     \<and> set (map (\<lambda>r. (cm_project r, cm_channel r)) (mt_channel_members t)) \<subseteq> set (map (\<lambda>c. (ch_project c, ch_id c)) (mt_channels t))
     \<and> set (map (\<lambda>r. (cm_project r, cm_member r)) (mt_channel_members t)) \<subseteq> set (map (\<lambda>m. (me_project m, me_id m)) (mt_members t))"

definition keys_ok :: "msg_tables \<Rightarrow> bool" where
  "keys_ok t \<longleftrightarrow> distinct (map ch_id (mt_channels t)) \<and> distinct (map ms_id (mt_messages t))
     \<and> distinct (map dl_id (mt_deliveries t)) \<and> distinct (map (\<lambda>d. (dl_message d, dl_agent d)) (mt_deliveries t))"

lemma write_keys [simp]:
  "dl_id (delivery_write e st a d) = dl_id d" "dl_message (delivery_write e st a d) = dl_message d"
  "dl_project (delivery_write e st a d) = dl_project d" "dl_agent (delivery_write e st a d) = dl_agent d"
  "dl_id (block_write e d) = dl_id d" "dl_message (block_write e d) = dl_message d"
  "dl_project (block_write e d) = dl_project d" "dl_agent (block_write e d) = dl_agent d"
  "dl_state (delivery_write e st a d) = st" "dl_state (block_write e d) = DBlocked"
  "dl_version (delivery_write e st a d) = dl_version d + 1" "dl_version (block_write e d) = dl_version d + 1"
  by (simp_all add: delivery_write_def block_write_def)

lemma keys_ok_step: "talk_step t t' \<Longrightarrow> keys_ok t \<Longrightarrow> keys_ok t'"
  by (erule talk_stepE) (auto simp: keys_ok_def map_update_where)

lemma upsert_keys:
  assumes "\<And>x. k (x\<lparr>cm_subscribed := cm_subscribed r\<rparr>) = k x"
  shows "set (map k (upsert_channel_member r rs)) \<subseteq> insert (k r) (set (map k rs))"
proof -
  have "map k (update_where P (\<lambda>x. x\<lparr>cm_subscribed := cm_subscribed r\<rparr>) rs) = map k rs" for P
    using assms by (intro map_update_where)
  then have "set (map k (update_where P (\<lambda>x. x\<lparr>cm_subscribed := cm_subscribed r\<rparr>) rs)) = set (map k rs)" for P
    by simp
  then show ?thesis unfolding upsert_channel_member_def Let_def by (auto split: if_splits)
qed

lemma block_keys:
  "map (\<lambda>d. (dl_project d, dl_message d)) (update_where P (block_write e) ds) = map (\<lambda>d. (dl_project d, dl_message d)) ds"
  "map (\<lambda>d. (dl_project d, dl_message d)) (update_where P (delivery_write e st a) ds) = map (\<lambda>d. (dl_project d, dl_message d)) ds"
  "map (\<lambda>m. (ms_project m, ms_channel m)) (update_where Q (\<lambda>r. r\<lparr>ms_thread := Some tid\<rparr>) ms)
     = map (\<lambda>m. (ms_project m, ms_channel m)) ms"
  "map (\<lambda>m. (ms_project m, ms_id m)) (update_where Q (\<lambda>r. r\<lparr>ms_thread := Some tid\<rparr>) ms) = map (\<lambda>m. (ms_project m, ms_id m)) ms"
  "map (\<lambda>m. (ms_project m, ms_channel m, ms_id m)) (update_where Q (\<lambda>r. r\<lparr>ms_thread := Some tid\<rparr>) ms)
     = map (\<lambda>m. (ms_project m, ms_channel m, ms_id m)) ms"
  by (rule map_update_where; simp)+

lemma refs_ok_step: "talk_step t t' \<Longrightarrow> refs_ok t \<Longrightarrow> refs_ok t'"
proof (induction rule: talk_step.induct)
  case (quit P f t e Q)
  have "map (\<lambda>m. (me_project m, me_id m)) (update_where Q f xs) = map (\<lambda>m. (me_project m, me_id m)) xs" for xs
    using quit(2,3) by (intro map_update_where) simp
  then show ?case using quit(4) by (cases t) (simp only: refs_ok_def msg_tables.simps block_keys)
next
  case (enrol c t m r)
  have "set (map (\<lambda>r. (cm_project r, cm_channel r)) (upsert_channel_member r (mt_channel_members t)))
      \<subseteq> insert (cm_project r, cm_channel r) (set (map (\<lambda>r. (cm_project r, cm_channel r)) (mt_channel_members t)))"
    "set (map (\<lambda>r. (cm_project r, cm_member r)) (upsert_channel_member r (mt_channel_members t)))
      \<subseteq> insert (cm_project r, cm_member r) (set (map (\<lambda>r. (cm_project r, cm_member r)) (mt_channel_members t)))"
    by (rule upsert_keys, simp)+
  moreover have "(cm_project r, cm_channel r) \<in> set (map (\<lambda>c. (ch_project c, ch_id c)) (mt_channels t))"
    using enrol(1,3,4) by force
  moreover have "(cm_project r, cm_member r) \<in> set (map (\<lambda>m. (me_project m, me_id m)) (mt_members t))"
    using enrol(2,5,6) by force
  ultimately show ?case using enrol(7) by (cases t) (simp only: refs_ok_def msg_tables.simps, blast)
next
  case (post c t m ds f)
  have "(\<lambda>x. (th_project x, th_channel x, th_root x)) \<circ> f = (\<lambda>x. (th_project x, th_channel x, th_root x))"
    using post(8) by (simp add: fun_eq_iff)
  then have "map (\<lambda>x. (th_project x, th_channel x, th_root x)) (map f (mt_threads t))
      = map (\<lambda>x. (th_project x, th_channel x, th_root x)) (mt_threads t)" by simp
  moreover have "(ms_project m, ms_channel m) \<in> set (map (\<lambda>c. (ch_project c, ch_id c)) (mt_channels t))"
    using post(1-3) by force
  moreover have "set (map (\<lambda>d. (dl_project d, dl_message d)) ds) \<subseteq> {(ms_project m, ms_id m)}" using post(5) by auto
  ultimately show ?case using post(9) by (cases t) (simp only: refs_ok_def msg_tables.simps map_append set_append, auto)
next
  case (open_thread r t th P tid)
  have "(th_project th, th_channel th, th_root th) \<in> set (map (\<lambda>m. (ms_project m, ms_channel m, ms_id m)) (mt_messages t))"
    using open_thread(1-4) by force
  then show ?case using open_thread(5)
    by (cases t) (simp only: refs_ok_def msg_tables.simps block_keys map_append set_append, auto)
next
  case (deliver d t st e a)
  then show ?case by (cases t) (simp only: refs_ok_def msg_tables.simps block_keys)
qed (auto simp: refs_ok_def)

section \<open>What was said stays said\<close>

text \<open>A table that only grows, its old rows developing by \<open>R\<close> in their places.\<close>

definition grows :: "('a \<Rightarrow> 'a \<Rightarrow> bool) \<Rightarrow> 'a list \<Rightarrow> 'a list \<Rightarrow> bool" where
  "grows R xs ys \<longleftrightarrow> (\<exists>us vs. ys = us @ vs \<and> list_all2 R xs us)"

lemma grows_refl: "reflp R \<Longrightarrow> grows R xs xs"
  unfolding grows_def by (intro exI [of _ xs] exI [of _ "[]"]) (simp add: list.rel_reflp reflpD)

lemma grows_trans: "transp R \<Longrightarrow> grows R xs ys \<Longrightarrow> grows R ys zs \<Longrightarrow> grows R xs zs"
proof -
  assume R: "transp R" and "grows R xs ys" "grows R ys zs"
  then obtain us vs us' vs' where 1: "ys = us @ vs" "list_all2 R xs us" and 2: "zs = us' @ vs'" "list_all2 R ys us'"
    by (auto simp: grows_def)
  obtain a b where ab: "us' = a @ b" "list_all2 R us a" using 1(1) 2(2) by (auto simp: list_all2_append1)
  then have "list_all2 R xs a" using list_all2_trans [of R R R xs us a] 1(2) R by (auto dest: transpD)
  then show ?thesis using 2(1) ab(1) by (auto simp: grows_def)
qed

lemma grows_update: "(\<And>x. x \<in> set xs \<Longrightarrow> P x \<Longrightarrow> R x (f x)) \<Longrightarrow> reflp R \<Longrightarrow> grows R xs (update_where P f xs)"
  unfolding grows_def
  by (intro exI [of _ "update_where P f xs"] exI [of _ "[]"])
    (auto simp: update_where_def list_all2_map2 reflpD intro: list_all2_same [THEN iffD2])

lemma grows_append: "reflp R \<Longrightarrow> grows R xs (xs @ ys)"
  unfolding grows_def by (intro exI [of _ xs] exI [of _ ys]) (simp add: list.rel_reflp reflpD)

lemma grows_mem: "grows R xs ys \<Longrightarrow> x \<in> set xs \<Longrightarrow> \<exists>y \<in> set ys. R x y"
proof -
  assume "grows R xs ys" "x \<in> set xs"
  then obtain us vs where ys: "ys = us @ vs" and "list_all2 R xs us" by (auto simp: grows_def)
  from this(2) \<open>x \<in> set xs\<close> have "\<exists>y \<in> set us. R x y" by (induction rule: list_all2_induct) auto
  then show ?thesis using ys by auto
qed

text \<open>A message keeps every column but the thread it is filed under.\<close>

definition said :: "message_row \<Rightarrow> message_row \<Rightarrow> bool" where
  "said m m' \<longleftrightarrow> (\<exists>t. m' = m\<lparr>ms_thread := t\<rparr>)"

lemma said_order: "reflp said" "transp said"
proof -
  have "m = m\<lparr>ms_thread := ms_thread m\<rparr>" for m :: message_row by simp
  then show "reflp said" unfolding reflp_def said_def by blast
  show "transp said" by (auto simp: transp_def said_def)
qed

lemma said_step: "talk_step t t' \<Longrightarrow> grows said (mt_messages t) (mt_messages t')"
proof (induction rule: talk_step.induct)
  case (open_thread r t th P tid)
  have "said r (r\<lparr>ms_thread := Some tid\<rparr>)" for r by (auto simp: said_def)
  then show ?case by (simp add: grows_update said_order)
qed (simp_all add: grows_refl grows_append said_order)

definition dl_moves :: "delivery_state \<Rightarrow> delivery_state \<Rightarrow> bool" where
  "dl_moves a b \<longleftrightarrow> b \<in> set (DELIVERY_TRANSITIONS a)"

definition evolves :: "delivery_row \<Rightarrow> delivery_row \<Rightarrow> bool" where
  "evolves d d' \<longleftrightarrow> dl_id d' = dl_id d \<and> dl_project d' = dl_project d \<and> dl_message d' = dl_message d
     \<and> dl_agent d' = dl_agent d
     \<and> (d' = d \<or> dl_version d < dl_version d' \<and> dl_moves\<^sup>+\<^sup>+ (dl_state d) (dl_state d'))"

lemma evolves_order: "reflp evolves" "transp evolves"
proof -
  show "reflp evolves" by (simp add: reflp_def evolves_def)
  show "transp evolves"
  proof (rule transpI)
    fix a b c assume "evolves a b" "evolves b c"
    then have keys: "dl_id c = dl_id a" "dl_project c = dl_project a" "dl_message c = dl_message a" "dl_agent c = dl_agent a"
      by (simp_all add: evolves_def)
    consider "b = a" | "c = b" | "dl_version a < dl_version b" "dl_version b < dl_version c"
      "dl_moves\<^sup>+\<^sup>+ (dl_state a) (dl_state b)" "dl_moves\<^sup>+\<^sup>+ (dl_state b) (dl_state c)"
      using \<open>evolves a b\<close> \<open>evolves b c\<close> unfolding evolves_def by blast
    then show "evolves a c"
    proof cases
      case 3
      then have "dl_moves\<^sup>+\<^sup>+ (dl_state a) (dl_state c)" "dl_version a < dl_version c" by (auto intro: tranclp_trans)
      then show ?thesis using keys by (simp add: evolves_def)
    qed (use \<open>evolves a b\<close> \<open>evolves b c\<close> in simp_all)
  qed
qed

lemma final_moves_nowhere: "DELIVERY_TRANSITIONS a = [] \<Longrightarrow> \<not> dl_moves\<^sup>+\<^sup>+ a b"
proof
  assume "DELIVERY_TRANSITIONS a = []" "dl_moves\<^sup>+\<^sup>+ a b"
  then show False by (auto dest!: tranclpD simp: dl_moves_def)
qed

lemma evolves_step:
  assumes "talk_step t t'" and "distinct (map dl_id (mt_deliveries t))"
  shows "grows evolves (mt_deliveries t) (mt_deliveries t')"
  using assms
proof (induction rule: talk_step.induct)
  case (quit P f t e Q)
  have "evolves d (block_write e d)" if "P d" for d
  proof -
    have "dl_moves (dl_state d) DBlocked" using quit(1) [OF that] by (auto simp: dl_moves_def blockable_def)
    then show ?thesis by (simp add: evolves_def tranclp.r_into_trancl)
  qed
  then show ?case by (simp add: grows_update evolves_order)
next
  case (deliver d t st e a)
  have "x = d" if "x \<in> set (mt_deliveries t)" "dl_id x = dl_id d" for x
    by (rule unique_key [OF deliver(3) that(1) deliver(1) that(2)])
  moreover have "evolves d (delivery_write e st a d)"
    using deliver(2) by (simp add: evolves_def dl_moves_def tranclp.r_into_trancl)
  ultimately have "evolves x (delivery_write e st a x)" if "x \<in> set (mt_deliveries t)" "dl_id x = dl_id d" for x
    using that by blast
  then show ?case by (simp add: grows_update evolves_order)
qed (simp_all add: grows_refl grows_append evolves_order)

section \<open>Along the calls of the server\<close>

lemma empty_talk: "refs_ok (talk empty_db)" "keys_ok (talk empty_db)"
  by (simp_all add: refs_ok_def keys_ok_def talk_def empty_db_def empty_msg_def)

lemma sreach_talk: "sreach srv s \<Longrightarrow> refs_ok (talk s) \<and> keys_ok (talk s)"
  unfolding sreach_def
  using talk_invariant [where I = refs_ok] talk_invariant [where I = keys_ok] refs_ok_step keys_ok_step
    empty_talk by blast

lemma grows_steps:
  assumes "(sstep srv)\<^sup>*\<^sup>* s s'" and "keys_ok (talk s)"
  shows "keys_ok (talk s') \<and> grows said (messages s) (messages s') \<and> grows evolves (deliveries s) (deliveries s')"
  using assms
proof (induction rule: rtranclp_induct)
  case base
  then show ?case by (simp add: grows_refl said_order evolves_order)
next
  case (step s1 s2)
  then have IH: "keys_ok (talk s1)" "grows said (messages s) (messages s1)" "grows evolves (deliveries s) (deliveries s1)"
    by auto
  consider "talk s2 = talk s1" | "talk_step (talk s1) (talk s2)"
    using sstep_talks [OF step(2)] by (auto simp: talks_def)
  then show ?case
  proof cases
    case 1
    then show ?thesis using IH by (simp only: talk_tables)
  next
    case 2
    have ids: "distinct (map dl_id (mt_deliveries (talk s1)))" using IH(1) by (simp add: keys_ok_def)
    have "grows said (messages s1) (messages s2)" using said_step [OF 2] by (simp only: talk_tables)
    moreover have "grows evolves (deliveries s1) (deliveries s2)"
      using evolves_step [OF 2 ids] by (simp only: talk_tables)
    ultimately show ?thesis
      using IH keys_ok_step [OF 2] grows_trans [OF said_order(2)] grows_trans [OF evolves_order(2)] by blast
  qed
qed

end
