(* ===== verification/Msg_Versions.thy ===== *)
theory Msg_Versions
  imports Talk_Life Runner_Fence
begin

text \<open>
  Optimistic concurrency of the messaging store: deliveries and runs carry a version, the
  calls on them name the one they expect, and the contract \<open>versioned\<close> of the board's
  tickets holds for them too.
\<close>

datatype vobj = VDelivery string | VRun string

fun version_of :: "vobj \<Rightarrow> db \<Rightarrow> int option" where
  "version_of (VDelivery did) s = map_option dl_version (List.find (\<lambda>d. dl_id d = did) (deliveries s))"
| "version_of (VRun rid) s = map_option ru_version (List.find (\<lambda>r. ru_id r = rid) (runs s))"

text \<open>The object and version a call names; an event that is not attributed is no write.\<close>

fun names_object :: "wop \<Rightarrow> db \<Rightarrow> (vobj \<times> int) option" where
  "names_object (WDeliver p did a rq ac) s = Some (VDelivery did, da_expected a)"
| "names_object (WRunEvent p rid a rq) s =
     (case List.find (\<lambda>r. ru_id r = rid) (runs s) of
        None \<Rightarrow> None
      | Some r \<Rightarrow> if attributed s a r then Some (VRun rid, ea_expected a) else None)"
| "names_object (WCancelRun p rid v re rq) s = Some (VRun rid, v)"
| "names_object _ s = None"

definition sound_step :: "db \<Rightarrow> db \<Rightarrow> bool" where
  "sound_step s s' \<longleftrightarrow> sstep False s s' \<and> queue_ok (queue_of s) \<and> keys_ok (talk s)"

lemma sound_steps:
  assumes "(sstep False)\<^sup>*\<^sup>* s s'" and "queue_ok (queue_of s)" and "keys_ok (talk s)"
  shows "sound_step\<^sup>*\<^sup>* s s' \<and> queue_ok (queue_of s') \<and> keys_ok (talk s')"
  using assms
proof (induction rule: rtranclp_induct)
  case base
  then show ?case by simp
next
  case (step s1 s2)
  then have IH: "sound_step\<^sup>*\<^sup>* s s1" "queue_ok (queue_of s1)" "keys_ok (talk s1)" by blast+
  then have "sound_step s1 s2" using step(2) by (simp add: sound_step_def)
  moreover have "queue_ok (queue_of s2)" using sstep_moves [OF step(2) IH(2)] by simp
  moreover have "keys_ok (talk s2)" using grows_steps [OF r_into_rtranclp [of "sstep False", OF step(2)] IH(3)] by simp
  ultimately show ?case using IH(1) by (auto intro: rtranclp.rtrancl_into_rtrancl)
qed

lemma grows_find:
  assumes "grows R xs ys" and "\<And>x y. R x y \<Longrightarrow> k y = k x" and "List.find (\<lambda>x. k x = i) xs = Some x"
  shows "\<exists>y. List.find (\<lambda>x. k x = i) ys = Some y \<and> R x y"
proof -
  obtain us vs where ys: "ys = us @ vs" and "list_all2 R xs us" using assms(1) by (auto simp: grows_def)
  from this(2) assms(3) have "\<exists>y. List.find (\<lambda>x. k x = i) (us @ vs) = Some y \<and> R x y"
    by (induction rule: list_all2_induct) (auto simp: assms(2) split: if_splits)
  then show ?thesis using ys by simp
qed

lemma find_run_set_r:
  assumes "\<And>r. ru_id (f r) = ru_id r"
  shows "List.find (\<lambda>r. ru_id r = rid) (set_r x f rs)
    = map_option (\<lambda>r. if ru_id r = x then f r else r) (List.find (\<lambda>r. ru_id r = rid) rs)"
  unfolding set_r_def by (rule find_update_where) (simp add: assms)

lemma run_version_set_r:
  assumes "\<And>r. ru_id (f r) = ru_id r" and "\<And>y. y \<in> set rs \<Longrightarrow> ru_id y = x \<Longrightarrow> ru_version y \<le> ru_version (f y)"
    and "List.find (\<lambda>r. ru_id r = rid) rs = Some r"
  shows "\<exists>r'. List.find (\<lambda>r. ru_id r = rid) (set_r x f rs) = Some r' \<and> ru_version r \<le> ru_version r'"
  using assms(2) [of r] find_SomeD [OF assms(3)] assms(3) find_run_set_r [of f, OF assms(1)] by auto

lemma run_version_write:
  assumes "queue_ok (ws, rs)" and "x \<in> set rs" and "\<And>r. keeps_key r (f r)" and "keeps_run x (f x)"
    and "List.find (\<lambda>r. ru_id r = rid) rs = Some r"
  shows "\<exists>r'. List.find (\<lambda>r. ru_id r = rid) (set_r (ru_id x) f rs) = Some r' \<and> ru_version r \<le> ru_version r'"
proof (rule run_version_set_r [OF _ _ assms(5)])
  show "ru_id (f r) = ru_id r" for r using assms(3) by (simp add: keeps_key_def)
  have ids: "distinct (map ru_id rs)" using assms(1) by (simp add: queue_ok_def)
  show "ru_version y \<le> ru_version (f y)" if "y \<in> set rs" "ru_id y = ru_id x" for y
    using unique_key [OF ids that(1) assms(2) that(2)] assms(4) by (simp add: keeps_run_def)
qed

lemma run_version_step:
  "queue_step srv q q' \<Longrightarrow> queue_ok q \<Longrightarrow> List.find (\<lambda>r. ru_id r = rid) (snd q) = Some r
     \<Longrightarrow> \<exists>r'. List.find (\<lambda>r. ru_id r = rid) (snd q') = Some r' \<and> ru_version r \<le> ru_version r'"
proof (induction rule: queue_step.induct)
  case (orphan w ws rs x rs' now)
  have "\<exists>r'. List.find (\<lambda>r. ru_id r = rid) (set_r (ru_id x) (orphan_run now) rs) = Some r' \<and> ru_version r \<le> ru_version r'"
    using orphan(8) by (intro run_version_set_r) (simp_all add: orphan_run_def)
  then show ?case using orphan(6,8) by simp
next
  case (event x rs f ws)
  show ?case using run_version_write [OF event(6,1,4,5)] event(7) by simp
next
  case (close x rs f st ws' ws)
  show ?case using run_version_write [OF close(8,1,4,5)] close(9) by simp
qed (auto simp: find_append)

lemma run_version_steps:
  assumes "queue_steps srv s s'" and "queue_ok (queue_of s)" and "version_of (VRun rid) s = Some v"
  shows "\<exists>v' \<ge> v. version_of (VRun rid) s' = Some v'"
proof -
  have "queue_ok q' \<and> (\<exists>r'. List.find (\<lambda>r. ru_id r = rid) (snd q') = Some r' \<and> ru_version r \<le> ru_version r')"
    if "(queue_step srv)\<^sup>*\<^sup>* q q'" "queue_ok q" "List.find (\<lambda>r. ru_id r = rid) (snd q) = Some r" for q q' r
    using that
  proof (induction rule: rtranclp_induct)
    case base
    then show ?case by simp
  next
    case (step y z)
    then have "queue_ok y \<and> (\<exists>r'. List.find (\<lambda>r. ru_id r = rid) (snd y) = Some r' \<and> ru_version r \<le> ru_version r')"
      by blast
    then show ?case using run_version_step [OF step(2)] queue_ok_step [OF step(2)] by (meson order.trans)
  qed
  from this [OF assms(1) [unfolded queue_steps_def] assms(2)] show ?thesis
    using assms(3) by (fastforce simp: queue_of_def)
qed

lemma sound_step_mono:
  assumes "sound_step s s'" and "version_of k s = Some v"
  shows "\<exists>v' \<ge> v. version_of k s' = Some v'"
proof (cases k)
  case (VDelivery did)
  obtain d where d: "List.find (\<lambda>d. dl_id d = did) (deliveries s) = Some d" "v = dl_version d"
    using assms(2) VDelivery by auto
  have "grows evolves (deliveries s) (deliveries s')"
    using grows_steps [of False s s'] assms(1) by (auto simp: sound_step_def)
  then obtain d' where "List.find (\<lambda>d. dl_id d = did) (deliveries s') = Some d'" "evolves d d'"
    using grows_find [of evolves _ _ dl_id, OF _ _ d(1)] by (auto simp: evolves_def)
  then show ?thesis using d(2) VDelivery by (auto simp: evolves_def)
next
  case (VRun rid)
  have "queue_steps False s s'" using sstep_moves [of False s s'] assms(1) by (simp add: sound_step_def)
  then show ?thesis using run_version_steps assms VRun by (simp add: sound_step_def)
qed

section \<open>A call that names a version\<close>

definition bumps :: "vobj \<Rightarrow> int \<Rightarrow> db \<Rightarrow> db \<Rightarrow> bool" where
  "bumps k v s s' \<longleftrightarrow> version_of k s = Some v \<and> version_of k s' = Some (v + 1)"

lemma bumps_requests: "bumps k v s (s'\<lparr>db_requests := q\<rparr>) \<longleftrightarrow> bumps k v s s'"
  by (cases k) (simp_all add: bumps_def table_defs)

lemma transition_bumps:
  assumes "transition_delivery_act e p did st a rq actor s = Inr (s1, r)"
  shows "bumps (VDelivery did) (da_expected a) s s1"
proof -
  obtain d where d: "List.find (\<lambda>d. dl_id d = did) (deliveries s) = Some d" "dl_version d = da_expected a"
    "db_msg s1 = (db_msg s)\<lparr>mt_deliveries :=
          update_where (\<lambda>d. dl_id d = did) (delivery_write e st a) (mt_deliveries (db_msg s))\<rparr>"
    using transition_delivery_act_Inr [OF assms] by blast
  have "List.find (\<lambda>d. dl_id d = did) (deliveries s1)
      = map_option (\<lambda>d. if dl_id d = did then delivery_write e st a d else d) (List.find (\<lambda>d. dl_id d = did) (deliveries s))"
    using d(3) by (simp add: table_defs find_update_where)
  then show ?thesis using d(1,2) find_SomeD [OF d(1)] by (simp add: bumps_def)
qed

lemma run_event_bumps:
  assumes "record_run_event_act e p rid a st rq s = Inr (s1, r)"
    and "List.find (\<lambda>r. ru_id r = rid) (runs s) = Some row" "attributed s a row"
  shows "bumps (VRun rid) (ea_expected a) s s1"
proof -
  have v: "ru_version row = ea_expected a" and eq: "db_msg s1 = db_msg (event_updates e p rid a st row s)"
    using record_run_event_act_Inr [OF assms(1)] assms(2,3) by auto
  have keep: "ru_id (event_write e a st r) = ru_id r" "ru_version (event_write e a st r) = ru_version r + 1" for r
    by (simp_all add: event_write_def)
  have "runs s1 = set_r rid (event_write e a st) (runs s)" using eq by (simp add: table_defs event_updates_msg)
  then show ?thesis
    using assms(2) v find_SomeD [OF assms(2)] keep find_run_set_r [of "event_write e a st"] by (simp add: bumps_def)
qed

lemma cancel_run_bumps:
  assumes "cancel_run_act e p rid v reason rq s = Inr (s1, r)"
  shows "bumps (VRun rid) v s s1"
proof -
  let ?f = "\<lambda>r. r\<lparr>ru_state := RCanceled, ru_reason := reason, ru_ended := Some (clock e), ru_version := ru_version r + 1\<rparr>"
  obtain row where row: "List.find (\<lambda>r. ru_id r = rid) (runs s) = Some row" "ru_version row = v"
    and eq: "runs s1 = set_r rid ?f (runs s)"
    using cancel_run_act_Inr [OF assms] by (auto simp: table_defs)
  then show ?thesis using find_SomeD [OF row(1)] find_run_set_r [of ?f] by (simp add: bumps_def)
qed

lemma named_commit_bumps:
  assumes "wcommits (e, w) s = Some s'" and "names_object w s = Some (k, v)"
  shows "bumps k v s s'"
proof -
  have fresh: "\<not> wlogged w s" and run: "\<exists>r. wbody e w s = Inr (s', r)"
    using assms(1) by (auto simp: wcommits_def split: if_splits sum.splits)
  show ?thesis
  proof (cases w)
    case (WDeliver p did a rq ac)
    then obtain r s1 st where "transition_delivery_act e p did st a rq ac s = Inr (s1, r)" "s' = s1\<lparr>db_requests := db_requests s'\<rparr>"
      using run fresh by (auto simp: transition_delivery_def result_simps split: option.splits elim!: fresh_act)
    then show ?thesis using transition_bumps bumps_requests assms(2) WDeliver by (metis names_object.simps(1) option.inject prod.inject)
  next
    case (WRunEvent p rid a rq)
    then obtain row where row: "List.find (\<lambda>r. ru_id r = rid) (runs s) = Some row" "attributed s a row"
      "k = VRun rid" "v = ea_expected a"
      using assms(2) by (auto split: option.splits if_splits)
    obtain r s1 st where "record_run_event_act e p rid a st rq s = Inr (s1, r)" "s' = s1\<lparr>db_requests := db_requests s'\<rparr>"
      using WRunEvent run fresh by (auto simp: record_run_event_def split: option.splits elim!: fresh_act)
    then show ?thesis using run_event_bumps [OF _ row(1,2)] bumps_requests row(3,4) by metis
  next
    case (WCancelRun p rid v' re rq)
    then obtain r s1 where "cancel_run_act e p rid v' re rq s = Inr (s1, r)" "s' = s1\<lparr>db_requests := db_requests s'\<rparr>"
      using run fresh by (auto simp: cancel_run_def elim!: fresh_act)
    then show ?thesis using cancel_run_bumps bumps_requests assms(2) WCancelRun by (metis names_object.simps(3) option.inject prod.inject)
  qed (use assms(2) in simp_all)
qed

interpretation msg_versions: versioned sound_step version_of wcommits "\<lambda>x s. names_object (snd x) s"
proof unfold_locales
  show "\<exists>v' \<ge> v. version_of k s' = Some v'" if "sound_step s s'" "version_of k s = Some v" for s s' k v
    by (rule sound_step_mono [OF that])
next
  show "version_of k s = Some v" if "wcommits x s = Some s'" "names_object (snd x) s = Some (k, v)" for x s s' k v
    using named_commit_bumps [of "fst x" "snd x"] that by (simp add: bumps_def)
next
  show "\<exists>v' > v. version_of k s' = Some v'"
    if "wcommits x s = Some s'" "names_object (snd x) s = Some (k, v)" for x s s' k v
    using named_commit_bumps [of "fst x" "snd x"] that by (simp add: bumps_def)
qed

end
