(* ===== verification/Msg_Guarantees.thy ===== *)
theory Msg_Guarantees
  imports Msg_Versions Serve_Demo "HOL-Library.Multiset"
begin

text \<open>
  The guarantees of conversations: references, deliveries, messages, versions, and the
  paging of a channel's listing.
\<close>

section \<open>Paging\<close>

text \<open>
  The client's loop over \<open>list_messages\<close>: it asks for a page and goes on from
  \<open>next_cursor\<close> until there is none. \<open>fuel\<close> bounds the calls.
\<close>

fun read_all :: "nat \<Rightarrow> (place option \<Rightarrow> error + message_page) \<Rightarrow> place option \<Rightarrow> message_row list option" where
  "read_all 0 page c = None"
| "read_all (Suc n) page c =
     (case page c of
        Inl _ \<Rightarrow> None
      | Inr pg \<Rightarrow>
          (case pg_next pg of
             None \<Rightarrow> Some (pg_items pg)
           | Some c' \<Rightarrow> map_option (\<lambda>rest. pg_items pg @ rest) (read_all n page (Some c'))))"

lemma after_place_less: "after_place c k \<longleftrightarrow> (case c of None \<Rightarrow> True | Some c \<Rightarrow> c < k)"
  by (auto simp: after_place_def less_prod_def' split: option.splits)

lemma placed_keys: "map (snd \<circ> fst) (placed ms) = map Suc [0..<length ms]"
proof -
  have "map (snd \<circ> fst) (placed ms) = map (Suc \<circ> fst) (enumerate 0 ms)"
    by (simp add: placed_def comp_def case_prod_beta)
  also have "\<dots> = map Suc (map fst (enumerate 0 ms))" by (simp only: map_map)
  finally show ?thesis by (simp only: map_fst_enumerate) simp
qed

lemma placed_distinct: "distinct (map fst (placed ms))"
proof -
  have "map snd (map fst (placed ms)) = map Suc [0..<length ms]" using placed_keys [of ms] by simp
  then have "distinct (map snd (map fst (placed ms)))" by (simp add: distinct_map)
  then show ?thesis unfolding distinct_map by blast
qed

lemma query_sorted:
  "sorted (map fst (message_query s p cid tid c))" "distinct (map fst (message_query s p cid tid c))"
proof -
  show "sorted (map fst (message_query s p cid tid c))" by (simp add: message_query_def)
  let ?f = "filter (\<lambda>(k, m). ms_project m = p \<and> ms_channel m = cid \<and> (tid = None \<or> ms_thread m = tid) \<and> after_place c k)
    (placed (messages s))"
  have "distinct (map fst ?f)" using placed_distinct distinct_map_filter by blast
  then show "distinct (map fst (message_query s p cid tid c))"
    unfolding message_query_def distinct_map by (simp add: distinct_map)
qed

lemma after_place_none [simp]: "after_place None k"
  by (simp add: after_place_def)

lemma query_after:
  "message_query s p cid tid c = filter (\<lambda>x. after_place c (fst x)) (message_query s p cid tid None)"
proof -
  have eq: "filter (\<lambda>(k, m). ms_project m = p \<and> ms_channel m = cid \<and> (tid = None \<or> ms_thread m = tid) \<and> after_place c k) xs
      = filter (\<lambda>x. after_place c (fst x)) (filter (\<lambda>(k, m). ms_project m = p \<and> ms_channel m = cid
          \<and> (tid = None \<or> ms_thread m = tid) \<and> after_place None k) xs)" for xs
    unfolding filter_filter by (rule filter_cong [OF refl]) auto
  show ?thesis unfolding message_query_def filter_sort eq [of "placed (messages s)"] by (rule refl)
qed

text \<open>In a strictly sorted list, what lies after the last of the first \<open>n\<close> is the rest.\<close>

lemma filter_after_take:
  fixes xs :: "('k::linorder \<times> 'b) list"
  assumes "sorted (map fst xs)" "distinct (map fst xs)" "0 < n" "n < length xs"
  shows "filter (\<lambda>x. fst (last (take n xs)) < fst x) xs = drop n xs"
proof -
  define k where "k = fst (last (take n xs))"
  have ne: "take n xs \<noteq> []" using assms(3,4) by auto
  have split: "map fst xs = map fst (take n xs) @ map fst (drop n xs)" by (simp flip: map_append)
  have "\<not> k < fst x" if x: "x \<in> set (take n xs)" for x
  proof -
    have "sorted (map fst (take n xs))" using assms(1) by (metis sorted_append split assms(1))
    then have "sorted (map fst (butlast (take n xs)) @ [k])"
      unfolding k_def using ne by (metis append_butlast_last_id list.simps(8,9) map_append)
    moreover have "x \<in> set (butlast (take n xs)) \<or> fst x = k" using x ne unfolding k_def
      by (metis UnE append_butlast_last_id empty_iff empty_set set_ConsD set_append)
    ultimately show ?thesis by (auto simp: sorted_append)
  qed
  moreover have "k < fst x" if x: "x \<in> set (drop n xs)" for x
  proof -
    have "k \<in> fst ` set (take n xs)" unfolding k_def using ne by simp
    moreover have "sorted (map fst (take n xs) @ map fst (drop n xs))" "distinct (map fst (take n xs) @ map fst (drop n xs))"
      using assms(1,2) split by simp_all
    ultimately show ?thesis using x by (force simp: sorted_append order.strict_iff_order)
  qed
  ultimately have "filter (\<lambda>x. k < fst x) (take n xs) = []" "filter (\<lambda>x. k < fst x) (drop n xs) = drop n xs"
    by (auto simp: filter_empty_conv)
  then have "filter (\<lambda>x. k < fst x) (take n xs @ drop n xs) = drop n xs" by (simp only: filter_append) simp
  then show ?thesis by (simp add: k_def)
qed

lemma query_next:
  assumes "0 < n" "n < length (message_query s p cid tid c)"
  shows "message_query s p cid tid (Some (fst (last (take n (message_query s p cid tid c)))))
    = drop n (message_query s p cid tid c)"
proof -
  let ?q = "message_query s p cid tid c" and ?all = "message_query s p cid tid None"
  let ?k = "fst (last (take n ?q))"
  have ne: "take n ?q \<noteq> []" using assms by auto
  have "last (take n ?q) \<in> set ?q" using last_in_set [OF ne] by (meson in_set_takeD)
  then have k: "after_place c ?k" using query_after [of s p cid tid c] by auto
  have "message_query s p cid tid (Some ?k) = filter (\<lambda>x. ?k < fst x) ?all"
    by (subst query_after) (simp add: after_place_less)
  also have "\<dots> = filter (\<lambda>x. ?k < fst x) (filter (\<lambda>x. after_place c (fst x)) ?all)"
    using k by (cases c) (auto simp: after_place_less intro!: filter_cong dest: less_trans)
  also have "\<dots> = filter (\<lambda>x. ?k < fst x) ?q" by (simp only: query_after [of s p cid tid c, symmetric])
  also have "\<dots> = drop n ?q" by (rule filter_after_take [OF query_sorted assms])
  finally show ?thesis .
qed

lemma sorted_firsts: "sorted (ks :: ('a::linorder \<times> 'b::linorder) list) \<Longrightarrow> sorted (map fst ks)"
  by (induction ks) (auto simp: less_eq_prod_def)

lemma list_messages_page:
  assumes "channel_visible s p cid mem False = Inr ch"
  shows "\<exists>pg. list_messages p cid mem tid n c s = Inr pg
    \<and> pg_items pg = map snd (take n (message_query s p cid tid c))
    \<and> pg_next pg = (if n < length (message_query s p cid tid c) \<and> 0 < n
        then Some (fst (last (take n (message_query s p cid tid c)))) else None)"
proof -
  let ?q = "message_query s p cid tid c"
  have "take n (take (n + 1) ?q) = take n ?q" by (simp add: min_def)
  moreover have "take n ?q \<noteq> [] \<longleftrightarrow> 0 < n \<and> ?q \<noteq> []" by auto
  ultimately show ?thesis using assms by (auto simp: list_messages_def Let_def min_def)
qed

lemma read_all_query:
  assumes "channel_visible s p cid mem False = Inr ch" and "0 < n"
    and "length (message_query s p cid tid c) < fuel"
  shows "read_all fuel (\<lambda>c. list_messages p cid mem tid n c s) c = Some (map snd (message_query s p cid tid c))"
  using assms(3)
proof (induction fuel arbitrary: c)
  case 0
  then show ?case by simp
next
  case (Suc fuel)
  let ?q = "message_query s p cid tid c"
  obtain pg where pg: "list_messages p cid mem tid n c s = Inr pg" "pg_items pg = map snd (take n ?q)"
    "pg_next pg = (if n < length ?q \<and> 0 < n then Some (fst (last (take n ?q))) else None)"
    using list_messages_page [OF assms(1)] by blast
  show ?case
  proof (cases "n < length ?q")
    case False
    then show ?thesis using pg by simp
  next
    case True
    let ?c = "Some (fst (last (take n ?q)))"
    have next_q: "message_query s p cid tid ?c = drop n ?q" by (rule query_next [OF assms(2) True])
    then have "length (message_query s p cid tid ?c) < fuel" using Suc.prems True assms(2) by simp
    then have "read_all fuel (\<lambda>c. list_messages p cid mem tid n c s) ?c = Some (map snd (drop n ?q))"
      using Suc.IH [of ?c] next_q by simp
    then show ?thesis using pg True assms(2) by (simp flip: map_append)
  qed
qed



section \<open>References\<close>



section \<open>Messages and deliveries\<close>

text \<open>
  What was said stays said. Whatever the server's calls do, the messages of a state are the
  first messages of every later state, in the same order and with every column but the
  thread they are filed under unchanged.
\<close>
theorem messages_are_kept:
  assumes "sreach False s" and "(sstep False)\<^sup>*\<^sup>* s s'"
  shows "\<exists>old new. messages s' = old @ new \<and> list_all2 (\<lambda>m m'. \<exists>t. m' = m\<lparr>ms_thread := t\<rparr>) (messages s) old"
  using grows_steps [OF assms(2)] sreach_talk [OF assms(1)] by (auto simp: grows_def said_def [abs_def])

theorem messages_are_kept_witness:
  "\<exists>old new. messages wdemo_running = old @ new
     \<and> list_all2 (\<lambda>m m'. \<exists>t. m' = m\<lparr>ms_thread := t\<rparr>) (messages wdemo) old"
proof (rule messages_are_kept [OF sreach_any [OF wdemo_reach(1)]])
  have "sstep False wdemo wdemo_leased"
    using sstep_exec [of False lease_demo_job wdemo "demo_env 8"] wdemo_lease_run by simp
  moreover have "sstep False wdemo_leased wdemo_running"
    using sstep_exec [of False "SMsg (WRunEvent ''p'' ''run_7-0'' start_event None)" wdemo_leased "demo_env 9"]
      wdemo_running_run by simp
  ultimately show "(sstep False)\<^sup>*\<^sup>* wdemo wdemo_running" by simp
qed


definition delivered_args :: delivery_args where
  "delivered_args = \<lparr>da_state = ''delivered'', da_expected = 1, da_reason = None, da_detail = None, da_run = None,
     da_blocking = None, da_next = None\<rparr>"

definition deliver_demo :: wop where
  "deliver_demo = WDeliver ''p'' ''dlv_5-1'' delivered_args None None"


section \<open>Versions\<close>

text \<open>
  Of all calls that name one version of a delivery or of a run (a delivery transition, an
  attributed run event, a cancellation) at most one commits: once one has, every later
  one that names the same version is refused and changes nothing.
\<close>
theorem named_version_commits_once:
  assumes "sreach False s" and "fst (wexec e w s) = Inr r" and "\<not> wlogged w s"
    and "names_object w s = Some (k, v)" and "(sstep False)\<^sup>*\<^sup>* (snd (wexec e w s)) s2"
    and "names_object w' s2 = Some (k, v)" and "\<not> wlogged w' s2"
  shows "\<exists>err. wexec e' w' s2 = (Inl err, s2)"
proof -
  let ?s1 = "snd (wexec e w s)"
  have commit: "wcommits (e, w) s = Some ?s1"
    using assms(2,3) by (auto simp: wcommits_def wexec_def write_txn_def split: sum.splits)
  have "sbody e (SMsg w) = wbody e w" by (simp add: fun_eq_iff)
  then have "sstep False s ?s1" using sstep_exec [of False "SMsg w" s e] by (simp add: sexec_def wexec_def)
  then have "sreach False ?s1" using sreach_steps [OF assms(1)] by blast
  then have "queue_ok (queue_of ?s1)" "keys_ok (talk ?s1)" using sreach_queue_ok sreach_talk by blast+
  then have "sound_step\<^sup>*\<^sup>* ?s1 s2" using sound_steps [OF assms(5)] by blast
  then have "wcommits (e', w') s2 = None"
    using msg_versions.commits_once [OF commit, of k v s2 "(e', w')"] assms(4,6) by simp
  then show ?thesis by (rule wexec_refused [OF _ assms(7)])
qed

theorem named_version_commits_once_witness:
  "\<exists>err. wexec (demo_env 9) deliver_demo (snd (wexec (demo_env 8) deliver_demo wdemo))
     = (Inl err, snd (wexec (demo_env 8) deliver_demo wdemo))"
proof -
  have "\<not> isl (fst (wexec (demo_env 8) deliver_demo wdemo))" by code_simp
  then obtain r where r: "fst (wexec (demo_env 8) deliver_demo wdemo) = Inr r"
    by (cases "fst (wexec (demo_env 8) deliver_demo wdemo)") auto
  show ?thesis
    by (rule named_version_commits_once [OF sreach_any [OF wdemo_reach(1)] r _ _ rtranclp.rtrancl_refl])
      (simp_all add: deliver_demo_def wlogged_def)
qed

section \<open>Private channels\<close>

text \<open>
  C31: A private channel is read and written by its members only. Whoever lists its messages, or
  posts in it, is a member of the project who has not been revoked and whom a call of
  \<open>add_channel_member\<close> has entered in the channel.
\<close>
theorem private_channel_needs_membership:
  assumes "channel_row_of s p cid = Inr ch" and "ch_visibility ch \<noteq> ''public''"
    and "list_messages p cid mem tid n c s = Inr pg
      \<or> (send_message_act e p a rq s = Inr (s', r) \<and> ma_channel a = cid \<and> member_id_for_actor s p (ma_author a) = Inr mem)"
  shows "\<exists>mid m. mem = Some mid \<and> member_row_of s p mid = Inr m \<and> me_state m \<noteq> MRevoked
    \<and> (\<exists>x \<in> set (channel_members s). cm_project x = p \<and> cm_channel x = cid \<and> cm_member x = mid)"
proof -
  obtain ch' where "channel_visible s p cid mem False = Inr ch'"
    using assms(3) by (auto simp: list_messages_def send_message_act_def result_simps)
  then show ?thesis
    using assms(1,2) by (auto simp: channel_visible_def result_simps list_ex_iff split: option.splits if_splits)
qed

definition private_demo :: db where
  "private_demo = srun 1
     [SMaster (MBoard (OCreateProject ''demo'' ''native'' (Some ''p''))),
      SMsg (WCreateMember ''p'' ''human'' ''Ann'' ''member'' None ''available'' (Some ''mem1'') None None),
      SMsg (WCreateChannel ''p'' ''secret'' ''private'' ''channel'' None None (Some ''c2'') None None),
      SMsg (WAddChannelMember ''p'' ''c2'' ''mem1'' True None None)] empty_db"

definition private_ready :: "db \<Rightarrow> bool" where
  "private_ready s \<longleftrightarrow> \<not> isl (list_messages ''p'' ''c2'' (Some ''mem1'') None 10 None s)
     \<and> (case channel_row_of s ''p'' ''c2'' of Inr ch \<Rightarrow> ch_visibility ch = ''private'' | Inl _ \<Rightarrow> False)"

theorem private_channel_needs_membership_witness:
  "\<exists>m. member_row_of private_demo ''p'' ''mem1'' = Inr m \<and> me_state m \<noteq> MRevoked"
proof -
  have "private_ready private_demo" by code_simp
  then obtain pg ch where "list_messages ''p'' ''c2'' (Some ''mem1'') None 10 None private_demo = Inr pg"
    "channel_row_of private_demo ''p'' ''c2'' = Inr ch" "ch_visibility ch \<noteq> ''public''"
    by (cases "list_messages ''p'' ''c2'' (Some ''mem1'') None 10 None private_demo")
      (auto simp: private_ready_def split: sum.splits)
  from private_channel_needs_membership [OF this(2,3) disjI1 [OF this(1)]] show ?thesis by auto
qed

end
