(* ===== verification/Ownership.thy ===== *)
theory Ownership
  imports Work_View Py_Number
begin

text \<open>
  Who may write a ticket of the file board: the ownership generation and its lease
  (\<open>ticket_coordination.py\<close>), and the publication of a ticket file behind the dependency gate
  and the generation check (\<open>save\<close> in \<open>cli.py\<close>). The board is its ticket files, a list of
  names with the loaded objects; a file that does not parse is not in it. Refusals
  (\<open>sys.exit\<close> with a text) are values of \<open>refusal\<close>, exceptions of \<open>error\<close>; the clock, the
  \<open>TICKET_OWNER_GENERATION\<close> of the environment and the harness are arguments. Names are
  compared as JSON values.
\<close>

section \<open>Generations\<close>

definition or_empty :: "json \<Rightarrow> json" where
  "or_empty t = py_or t (JObj [])"

definition owner_generation :: "json \<Rightarrow> error + int" where
  "owner_generation t =
     bindE (py_get (or_empty t) ''owner_generation'') (\<lambda>v.
       Inr (case py_int_of (py_or v (JInt 0)) of Inr n \<Rightarrow> n | Inl _ \<Rightarrow> 0))"

definition add_name :: "json list \<Rightarrow> json \<Rightarrow> json list" where
  "add_name names name = (if truthy name \<and> name \<notin> set names then names @ [name] else names)"

definition lease_of :: "json \<Rightarrow> error + json" where
  "lease_of t = bindE (py_get (or_empty t) ''owner_lease'') (\<lambda>l. Inr (if is_dict l then l else JObj []))"

definition revoked_owners :: "json \<Rightarrow> error + json list" where
  "revoked_owners t =
     bindE (lease_of t) (\<lambda>lease.
     bindE (bindE (py_get (or_empty t) ''revoked_owners'') py_items) (\<lambda>a.
     bindE (bindE (py_get lease ''revoked_owners'') py_items) (\<lambda>b.
     bindE (py_get lease ''previous_owner'') (\<lambda>p.
       Inr (foldl add_name [] (a @ b @ [py_or p (JStr [])]))))))"

definition accumulate_revoked :: "json \<Rightarrow> string \<Rightarrow> json \<Rightarrow> error + json list" where
  "accumulate_revoked t owner previous =
     bindE (revoked_owners t) (\<lambda>names.
       Inr (if truthy previous \<and> previous \<noteq> JStr owner \<and> previous \<notin> set names
            then names @ [previous] else names))"

text \<open>The caller passes \<open>t["owner"] or ""\<close> as the previous owner.\<close>

definition issue_owner_lease ::
  "json \<Rightarrow> string \<Rightarrow> string \<Rightarrow> string \<Rightarrow> json \<Rightarrow> string \<Rightarrow> error + json" where
  "issue_owner_lease t owner harness reason previous at =
     bindE (owner_generation t) (\<lambda>g.
     bindE (accumulate_revoked t owner previous) (\<lambda>revoked.
     if \<not> is_dict t then Inl AttributeError else
       let lease = JObj [(''generation'', JInt (g + 1)), (''owner'', JStr owner),
             (''harness'', JStr harness), (''issued_at'', JStr at), (''reason'', JStr reason),
             (''previous_owner'', previous), (''previous_generation'', JInt g),
             (''revoked_owners'', JArr revoked)]
       in Inr (py_set ''owner_lease'' lease
            (py_set ''revoked_owners'' (JArr revoked)
              (py_set ''owner_generation'' (JInt (g + 1)) t)))))"

section \<open>Refusals\<close>

datatype refusal =
    StaleWrite json int int
  | StaleExpected json json int
  | StalePresented json int int
  | NotYours json json int string string
  | DepUnreleased json json
  | NoSuchTicket string
  | TooDeep

datatype stop = Raised error | Refused refusal

definition lift :: "error + 'a \<Rightarrow> stop + 'a" where
  "lift m = (case m of Inl e \<Rightarrow> Inl (Raised e) | Inr x \<Rightarrow> Inr x)"

text \<open>\<open>if err: sys.exit(err)\<close>.\<close>

definition exit_on :: "error + refusal option \<Rightarrow> stop + unit" where
  "exit_on m = bindE (lift m) (\<lambda>r. case r of None \<Rightarrow> Inr () | Some e \<Rightarrow> Inl (Refused e))"

definition some_id :: "json \<Rightarrow> json \<Rightarrow> error + json" where
  "some_id incoming current =
     bindE (py_get incoming ''id'') (\<lambda>i. if truthy i then Inr i else py_get current ''id'')"

definition stale_write_error :: "json \<Rightarrow> json \<Rightarrow> error + refusal option" where
  "stale_write_error current incoming =
     bindE (owner_generation current) (\<lambda>cg.
     bindE (owner_generation incoming) (\<lambda>ig.
       if cg \<noteq> 0 \<and> ig < cg
       then bindE (some_id incoming current) (\<lambda>i. Inr (Some (StaleWrite i ig cg)))
       else Inr None))"

text \<open>\<open>expected\<close> is the generation field of the ticket as loaded, JSON null when not given.\<close>

definition generation_publish_error :: "json \<Rightarrow> json \<Rightarrow> json \<Rightarrow> error + refusal option" where
  "generation_publish_error current incoming expected =
     bindE (stale_write_error current incoming) (\<lambda>e. case e of
       Some r \<Rightarrow> Inr (Some r)
     | None \<Rightarrow>
         if expected = JNull then Inr None
         else bindE (owner_generation current) (\<lambda>cg. bindE (py_int_of expected) (\<lambda>n.
           if cg \<noteq> n then bindE (some_id incoming current) (\<lambda>i. Inr (Some (StaleExpected i expected cg)))
           else Inr None)))"

text \<open>The generation the caller presents in the environment; a text that is no number counts as none.\<close>

definition presented_generation :: "string \<Rightarrow> int option" where
  "presented_generation presented =
     (if py_strip presented = [] then None
      else case py_int (py_strip presented) of Inr n \<Rightarrow> Some n | Inl _ \<Rightarrow> None)"

definition stale_accept_error :: "json \<Rightarrow> string \<Rightarrow> string \<Rightarrow> string \<Rightarrow> error + refusal option" where
  "stale_accept_error t actor presented kind =
     bindE (py_get (or_empty t) ''owner'') (\<lambda>ow. let owner = py_or ow (JStr []) in
     bindE (owner_generation t) (\<lambda>g.
     bindE (py_get (or_empty t) ''owner_lease'') (\<lambda>l.
     bindE (py_get (or_empty l) ''previous_owner'') (\<lambda>p. let previous = py_or p (JStr []) in
     bindE (revoked_owners t) (\<lambda>revoked.
     bindE (py_get (or_empty t) ''id'') (\<lambda>i.
     bindE (py_get (or_empty t) ''status'') (\<lambda>st. Inr
       (if (case presented_generation presented of None \<Rightarrow> False | Some n \<Rightarrow> n \<noteq> g)
        then Some (StalePresented i (the (presented_generation presented)) g)
        else if kind = ''done'' \<and> st = JStr ''review'' then None
        else if kind = ''done'' \<and> truthy owner \<and> actor \<noteq> [] \<and> owner \<noteq> JStr actor
        then Some (NotYours i owner g actor kind)
        else if kind = ''review'' \<and> actor \<noteq> [] \<and> owner \<noteq> JStr actor
          \<and> (JStr actor = previous \<or> JStr actor \<in> set revoked)
        then Some (NotYours i owner g actor kind) else None))))))))"

end
