(* ===== verification/Verdicts.thy ===== *)
theory Verdicts
  imports Work_View
begin

text \<open>
  The review verdicts of the file board (\<open>review_verdict.py\<close>): the commit a ticket was
  submitted with, the refusals of \<open>atm accept\<close> and \<open>atm reject\<close>, the event they append
  to the ticket and the ticket's way back to its author. A ticket is the JSON object of its
  file; a function that mutates it returns the ticket as it leaves it. Arguments that may be
  \<open>None\<close> where the code writes \<open>x or ""\<close> are the empty string. A refusal keeps the
  values its text is made of; the clock is an argument.
\<close>

section \<open>The submitted commit\<close>

definition pin_sha :: "string \<Rightarrow> bool" where
  "pin_sha h \<longleftrightarrow> 7 \<le> length h \<and> length h \<le> 40 \<and> list_all is_hex h"

lemma hex_text: "list_all is_hex s \<Longrightarrow> py_strip s = s \<and> py_lower s = s"
  by (auto simp: py_lower_def list_all_iff is_hex_lower is_hex_not_space
      intro!: map_idI py_strip_no_space)

definition normalize_sha :: "string \<Rightarrow> string" where
  "normalize_sha raw = py_lower (py_strip raw)"

text \<open>\<open>text.rsplit("@", 1)\<close>: what follows the last separator, all of a text without one, and what precedes it.\<close>

definition after_last :: "char \<Rightarrow> string \<Rightarrow> string" where
  "after_last c s = rev (takeWhile (\<lambda>x. x \<noteq> c) (rev s))"

definition before_last :: "char \<Rightarrow> string \<Rightarrow> string" where
  "before_last c s = rev (drop 1 (dropWhile (\<lambda>x. x \<noteq> c) (rev s)))"

definition submitted_sha :: "json \<Rightarrow> error + string" where
  "submitted_sha t =
     bindE (py_get_text t ''review_head'') (\<lambda>h.
       if pin_sha (normalize_sha h) then Inr (normalize_sha h)
       else bindE (py_get_text t ''commit'') (\<lambda>c.
         let commit = py_strip (py_lower (after_last (CHR ''@'') (py_strip c))) in
         Inr (if pin_sha commit then commit else [])))"

definition displayed_review_head :: "json \<Rightarrow> error + string" where
  "displayed_review_head t =
     bindE (py_get_text t ''review_head'') (\<lambda>h.
       if full_sha (normalize_sha h) then Inr (normalize_sha h)
       else bindE (submitted_sha t) (\<lambda>head. Inr (if full_sha head then head else [])))"

definition review_queue_pin :: "json \<Rightarrow> error + string" where
  "review_queue_pin t =
     bindE (displayed_review_head t) (\<lambda>head.
     bindE (py_get_text t ''commit'') (\<lambda>c.
       let commit = py_strip c; left = py_strip (before_last (CHR ''@'') commit) in
       if head = [] then Inr (or_default commit ''?'')
       else if CHR ''@'' \<in> set commit \<and> left \<noteq> [] then Inr (left @ ''@'' @ head)
       else bindE (py_get_text t ''branch'') (\<lambda>b.
         Inr (if py_strip b = [] then head else py_strip b @ ''@'' @ head))))"

definition sha_match :: "string \<Rightarrow> string \<Rightarrow> bool" where
  "sha_match a b =
     (let a = py_lower a; b = py_lower b; n = min (min (length a) (length b)) 40 in
      a \<noteq> [] \<and> b \<noteq> [] \<and> 7 \<le> n \<and> take n a = take n b)"

section \<open>Reading the recorded verdicts\<close>

definition is_verdict :: "json \<Rightarrow> error + bool" where
  "is_verdict ev =
     (if \<not> is_dict ev then Inr False
      else bindE (py_get_text ev ''kind'') (\<lambda>k. Inr (normalize_sha k \<in> {''accept'', ''reject''})))"

text \<open>A comprehension whose test may raise.\<close>

fun filterE :: "('a \<Rightarrow> 'e + bool) \<Rightarrow> 'a list \<Rightarrow> 'e + 'a list" where
  "filterE p [] = Inr []"
| "filterE p (x # xs) = bindE (p x) (\<lambda>hit. bindE (filterE p xs) (\<lambda>r. Inr (if hit then x # r else r)))"

definition iter_structured :: "json \<Rightarrow> error + json list" where
  "iter_structured t = bindE (bindE (py_get t ''review_events'') py_items) (filterE is_verdict)"

section \<open>Recording a verdict\<close>

datatype verdict_kind = Accept | Reject

fun kind_word :: "verdict_kind \<Rightarrow> string" where
  "kind_word Accept = ''accept''"
| "kind_word Reject = ''reject''"

datatype verdict_refusal =
    NotInReview json json verdict_kind
  | ReviewerRequired
  | OwnWork json string verdict_kind
  | FullShaRequired json string
  | NotAnObjectName json
  | NoSubmittedHead json
  | NotTheHead json string string
  | NotesRequired
  | ReasonRequired

text \<open>\<open>STATUS_LABEL.get(st, st or "?")\<close>: a list or an object has no hash.\<close>

fun status_label :: "json \<Rightarrow> error + json" where
  "status_label (JArr _) = Inl AttributeError"
| "status_label (JObj _) = Inl AttributeError"
| "status_label st = Inr
     (if st = JStr ''open'' then JStr ''TO DO''
      else if st = JStr ''claimed'' then JStr ''IN PROGRESS''
      else if st = JStr ''review'' then JStr ''IN REVIEW''
      else if st = JStr ''blocked'' then JStr ''BLOCKED''
      else if st = JStr ''done'' then JStr ''DONE''
      else py_or st (JStr ''?''))"

definition refuse ::
  "json \<Rightarrow> string \<Rightarrow> string \<Rightarrow> verdict_kind \<Rightarrow> bool \<Rightarrow> string \<Rightarrow> string \<Rightarrow> error + verdict_refusal option" where
  "refuse t reviewer sha kind require_full notes' reason =
     bindE (py_get t ''id'') (\<lambda>i. let tid = py_or i (JStr ''?'') in
     bindE (py_get t ''status'') (\<lambda>st.
       if st \<notin> {JStr ''review'', JStr ''done''}
       then bindE (status_label st) (\<lambda>l. Inr (Some (NotInReview tid l kind)))
       else bindE (py_get_text t ''owner'') (\<lambda>ow.
         let author = py_strip ow; reviewer = py_strip reviewer; sha = normalize_sha sha in
         if reviewer = [] then Inr (Some ReviewerRequired)
         else if author \<noteq> [] \<and> reviewer = author then Inr (Some (OwnWork tid author kind))
         else if require_full \<and> \<not> full_sha sha
         then bindE (displayed_review_head t) (\<lambda>head. Inr (Some (FullShaRequired tid head)))
         else if \<not> pin_sha sha then Inr (Some (NotAnObjectName tid))
         else bindE (submitted_sha t) (\<lambda>head.
           if head = [] then Inr (Some (NoSubmittedHead tid))
           else if \<not> sha_match sha head then Inr (Some (NotTheHead tid sha head))
           else if kind = Accept \<and> py_strip notes' = [] then Inr (Some NotesRequired)
           else if kind = Reject \<and> py_strip reason = [] then Inr (Some ReasonRequired)
           else Inr None))))"

definition make_event :: "verdict_kind \<Rightarrow> string \<Rightarrow> string \<Rightarrow> string \<Rightarrow> string \<Rightarrow> string \<Rightarrow> json" where
  "make_event kind reviewer sha notes' reason at =
     JObj [(''kind'', JStr (kind_word kind)), (''by'', JStr reviewer), (''at'', JStr at),
           (''sha'', JStr (normalize_sha sha)),
           (case kind of Accept \<Rightarrow> (''notes'', JStr (py_strip notes'))
            | Reject \<Rightarrow> (''reason'', JStr (py_strip reason)))]"

definition append_event :: "json \<Rightarrow> json \<Rightarrow> error + json" where
  "append_event t ev =
     bindE (bindE (py_get t ''review_events'') py_items) (\<lambda>evs.
       Inr (py_set ''review_events'' (JArr (filter is_dict evs @ [ev])) t))"

text \<open>The event and the ticket that holds it, or the refusal; \<open>at\<close> is the clock.\<close>

definition apply_verdict ::
  "json \<Rightarrow> string \<Rightarrow> string \<Rightarrow> verdict_kind \<Rightarrow> string \<Rightarrow> string \<Rightarrow> string \<Rightarrow> bool
    \<Rightarrow> error + (verdict_refusal + json \<times> json)" where
  "apply_verdict t reviewer sha kind notes' reason at require_full =
     bindE (refuse t reviewer sha kind require_full notes' reason) (\<lambda>r. case r of
       Some e \<Rightarrow> Inr (Inl e)
     | None \<Rightarrow> let ev = make_event kind reviewer sha notes' reason at in
         bindE (append_event t ev) (\<lambda>t'. Inr (Inr (ev, t'))))"

section \<open>Back to the author, and the verified head\<close>

text \<open>\<open>t.setdefault("notes", []).append(note)\<close>.\<close>

definition add_note :: "json \<Rightarrow> json \<Rightarrow> error + json" where
  "add_note note' t =
     (if \<not> is_dict t then Inl AttributeError
      else if \<not> has_key t ''notes'' then Inr (py_set ''notes'' (JArr [note']) t)
      else bindE (py_get t ''notes'') (\<lambda>v. case v of
             JArr ns \<Rightarrow> Inr (py_set ''notes'' (JArr (ns @ [note'])) t)
           | _ \<Rightarrow> Inl AttributeError))"

definition note_json :: "string \<Rightarrow> string \<Rightarrow> string \<Rightarrow> json" where
  "note_json by' at text' = JObj [(''by'', JStr by'), (''at'', JStr at), (''text'', JStr text')]"

definition return_to_author_for_revision ::
  "json \<Rightarrow> string \<Rightarrow> string \<Rightarrow> string \<Rightarrow> string \<Rightarrow> string \<Rightarrow> error + string \<times> json" where
  "return_to_author_for_revision t actor reason sha kind at =
     bindE (py_get_text t ''owner'') (\<lambda>ow.
       let author = py_strip ow; who = or_default author ''author'';
           words = (if kind = ''reject''
                    then ''REJECT '' @ take 12 (or_default sha ''?'') @ '' -- returned to '' @ who
                           @ '' for revision: '' @ py_strip reason
                    else ''REVISION: returned to '' @ who @ '' as claimed -- '' @ py_strip reason)
       in bindE (add_note (note_json (or_default (py_strip (or_default actor ''?'')) ''?'') at words)
                   (py_set ''status'' (JStr ''claimed'') t)) (\<lambda>t'. Inr (author, t')))"

text \<open>\<open>dict.pop(key, None)\<close>.\<close>

fun py_pop :: "string \<Rightarrow> json \<Rightarrow> json" where
  "py_pop k (JObj kvs) = JObj (filter (\<lambda>p. fst p \<noteq> k) kvs)"
| "py_pop k v = v"

definition record_verified_head :: "json \<Rightarrow> string \<Rightarrow> string \<Rightarrow> json" where
  "record_verified_head t sha_full' pr =
     (let s = normalize_sha sha_full';
          t1 = (if pin_sha s then py_set ''review_head'' (JStr s) t else t)
      in if pr = [] then t1 else py_set ''pr'' (JStr pr) t1)"

end
