(* ===== verification/File_Board.thy ===== *)
theory File_Board
  imports Ownership Verdicts "HOL-Library.AList" "HOL-Library.Sublist"
begin

text \<open>
  The file board of \<open>cli.py\<close>: ticket files and claim locks, the publication of a ticket
  behind the dependency gate and the generation check (\<open>save\<close>), claiming
  (\<open>try_claim\<close>, \<open>try_claim_one_active\<close>), and the reconciliation of the tickets that wait
  on a finished one. A command is a function of the board that answers a value or stops
  (an exception or \<open>sys.exit\<close>) and leaves the board as its writes so far made it. Every
  writer of a ticket holds its lock file, so the reads of one publication see one board.
  The trajectory log, the presence files of the agents and what is printed are not part of
  the board; the agent name, the clock and the harness are arguments. A recursion deeper
  than the interpreter allows stops the command, with the depth as fuel.
\<close>

section \<open>Boards and commands\<close>

record fboard =
  fb_files :: "(string \<times> json) list"
  fb_locks :: "(string \<times> string) list"

type_synonym 'a command = "fboard \<Rightarrow> (stop + 'a) \<times> fboard"

definition retC :: "'a \<Rightarrow> 'a command" where
  "retC x b = (Inr x, b)"

definition bindC :: "'a command \<Rightarrow> ('a \<Rightarrow> 'b command) \<Rightarrow> 'b command" where
  "bindC m f b = (case m b of (Inl e, b') \<Rightarrow> (Inl e, b') | (Inr x, b') \<Rightarrow> f x b')"

text \<open>A computation that only reads the values it is given.\<close>

definition pureC :: "stop + 'a \<Rightarrow> 'a command" where
  "pureC m b = (m, b)"

definition tryC :: "error + 'a \<Rightarrow> 'a command" where
  "tryC m = pureC (lift m)"

lemma bindC_Inr [result_simps]:
  "bindC m f b = (Inr y, c) \<longleftrightarrow> (\<exists>x b'. m b = (Inr x, b') \<and> f x b' = (Inr y, c))"
  by (auto simp: bindC_def split: prod.splits sum.splits)

lemma command_simps [simp]:
  "bindC (retC x) f b = f x b" "bindC (pureC (Inr x)) f b = f x b"
  "bindC (pureC (Inl e)) f b = (Inl e, b)"
  by (simp_all add: bindC_def retC_def pureC_def)

lemma retC_Inr [result_simps]: "retC x b = (Inr y, c) \<longleftrightarrow> x = y \<and> b = c"
  by (auto simp: retC_def)

lemma pureC_Inr [result_simps]: "pureC m b = (Inr y, c) \<longleftrightarrow> m = Inr y \<and> b = c"
  by (auto simp: pureC_def)

lemma lift_Inr [result_simps]: "lift m = Inr y \<longleftrightarrow> m = Inr y"
  by (auto simp: lift_def split: sum.splits)

lemma tryC_Inr [result_simps]: "tryC m b = (Inr y, c) \<longleftrightarrow> m = Inr y \<and> b = c"
  by (auto simp: tryC_def pureC_def lift_def split: sum.splits)

lemma exit_on_Inr [result_simps]: "exit_on m = Inr u \<longleftrightarrow> m = Inr None"
  by (cases m) (auto simp: exit_on_def lift_def split: option.splits)

section \<open>Files\<close>

text \<open>\<open>sorted(glob("T-*.json"))\<close>, loaded.\<close>

definition load_all :: "fboard \<Rightarrow> json list" where
  "load_all b = map snd (sort_key (\<lambda>p. fst p @ ''.json'')
     (filter (\<lambda>p. take 2 (fst p) = ''T-'') (fb_files b)))"

definition load_file :: "string \<Rightarrow> json command" where
  "load_file tid b = (case map_of (fb_files b) tid of
     None \<Rightarrow> (Inl (Refused (NoSuchTicket tid)), b) | Some t \<Rightarrow> (Inr t, b))"

definition put_file :: "string \<Rightarrow> json \<Rightarrow> fboard \<Rightarrow> fboard" where
  "put_file tid t b = b\<lparr>fb_files := AList.update tid t (fb_files b)\<rparr>"

definition has_lock :: "string \<Rightarrow> fboard \<Rightarrow> bool" where
  "has_lock tid b \<longleftrightarrow> map_of (fb_locks b) tid \<noteq> None"

definition unlink_lock :: "string \<Rightarrow> fboard \<Rightarrow> fboard" where
  "unlink_lock tid b = b\<lparr>fb_locks := AList.delete tid (fb_locks b)\<rparr>"

text \<open>\<open>board + t["id"] + ".json"\<close>: an id that is no string makes no path.\<close>

definition ticket_name :: "json \<Rightarrow> error + string" where
  "ticket_name t = bindE (py_index t ''id'') (\<lambda>i. case i of JStr s \<Rightarrow> Inr s | _ \<Rightarrow> Inl AttributeError)"

text \<open>\<open>name in value\<close>.\<close>

fun py_in :: "string \<Rightarrow> json \<Rightarrow> error + bool" where
  "py_in x (JArr vs) = Inr (JStr x \<in> set vs)"
| "py_in x (JObj kvs) = Inr (x \<in> fst ` set kvs)"
| "py_in x (JStr s) = Inr (sublist x s)"
| "py_in x _ = Inl AttributeError"

section \<open>Publication\<close>

definition is_automated_cleanup :: "json \<Rightarrow> error + bool" where
  "is_automated_cleanup t =
     bindE (py_get_text t ''kind'') (\<lambda>k.
       if py_strip k \<noteq> ''automated'' then Inr False
       else bindE (py_get t ''automated'') (\<lambda>a.
         bindE (py_get (or_empty a) ''action'') (\<lambda>x. Inr (x = JStr ''cleanup_worktree''))))"

definition refuse_unreleased_deps :: "json \<Rightarrow> json list \<Rightarrow> bool \<Rightarrow> error + refusal option" where
  "refuse_unreleased_deps t ts only_done =
     bindE (unreleased_dep_id t ts only_done) (\<lambda>pred.
       if \<not> truthy pred then Inr None
       else bindE (py_get t ''id'') (\<lambda>i. Inr (Some (DepUnreleased (py_or i (JStr ''?'')) pred))))"

text \<open>Does the write need the dependency gate? \<open>current\<close> is the file's ticket, an empty object without a file.\<close>

definition gate_applies :: "json \<Rightarrow> json \<Rightarrow> error + bool" where
  "gate_applies current t =
     bindE (is_automated_cleanup t) (\<lambda>auto.
       if auto then Inr False
       else bindE (py_get t ''status'') (\<lambda>st.
         if st = JStr ''claimed'' then Inr True
         else bindE (py_get t ''owner'') (\<lambda>ow.
           if \<not> truthy ow then Inr False
           else bindE (py_get current ''owner'') (\<lambda>cur. Inr (ow \<noteq> cur)))))"

text \<open>
  \<open>_publish\<close>: the generation is checked before and after the temporary file is written;
  with the lock held both reads see the same file, and the second check cannot differ.
\<close>

definition publish :: "string \<Rightarrow> json \<Rightarrow> json \<Rightarrow> json command" where
  "publish at t expected b =
     (let t1 = py_set ''updated'' (JStr at) t in
      bindC (tryC (if is_dict t then Inr () else Inl AttributeError)) (\<lambda>_.
      bindC (tryC (ticket_name t1)) (\<lambda>tid.
      bindC (tryC (gate_applies (case map_of (fb_files b) tid of None \<Rightarrow> JObj [] | Some c \<Rightarrow> c) t1)) (\<lambda>gate.
      bindC (pureC (if gate then exit_on (refuse_unreleased_deps t1 (load_all b) False) else Inr ())) (\<lambda>_.
      bindC (pureC (case map_of (fb_files b) tid of
                 Some c \<Rightarrow> if truthy c then exit_on (generation_publish_error c t1 expected) else Inr ()
               | None \<Rightarrow> Inr ())) (\<lambda>_.
      (\<lambda>b'. (Inr t1, put_file tid t1 b'))))))) b)"

section \<open>Notes of the gate\<close>

definition unverified_block_reason :: "string \<Rightarrow> string" where
  "unverified_block_reason pred = pred @ '' marked done without verification; accept it or reopen''"

text \<open>With a predecessor given, as the reconciliation calls it.\<close>

definition is_live_unverified_gate_note :: "string \<Rightarrow> string \<Rightarrow> bool" where
  "is_live_unverified_gate_note text' pred =
     (let s = py_strip text' in
      s \<noteq> [] \<and> take 9 (py_lower s) \<noteq> ''resolved:'' \<and> s = unverified_block_reason pred)"

definition live_note :: "string \<Rightarrow> json \<Rightarrow> error + bool" where
  "live_note pred n = bindE (py_get_text n ''text'') (\<lambda>s. Inr (is_live_unverified_gate_note s pred))"

fun any_note :: "(json \<Rightarrow> error + bool) \<Rightarrow> json list \<Rightarrow> error + bool" where
  "any_note p [] = Inr False"
| "any_note p (n # ns) = bindE (p n) (\<lambda>hit. if hit then Inr True else any_note p ns)"

fun keep_notes :: "string \<Rightarrow> json list \<Rightarrow> error + json list" where
  "keep_notes pred [] = Inr []"
| "keep_notes pred (n # ns) =
     bindE (live_note pred n) (\<lambda>hit. bindE (keep_notes pred ns) (\<lambda>r. Inr (if hit then r else n # r)))"

definition drop_unverified_gate_notes :: "json \<Rightarrow> string \<Rightarrow> error + json" where
  "drop_unverified_gate_notes child pred =
     bindE (bindE (py_get child ''notes'') py_items) (\<lambda>ns.
     bindE (keep_notes pred ns) (\<lambda>r. Inr (py_set ''notes'' (JArr r) child)))"

definition accepted_release_note :: "string \<Rightarrow> string \<Rightarrow> string \<Rightarrow> string" where
  "accepted_release_note pred sha seat =
     (let s = py_strip sha; by' = or_default (py_strip seat) ''?'' in
      if s \<noteq> [] then pred @ '' accepted at '' @ s @ '' by '' @ by' @ '' -- unblocked''
      else pred @ '' accepted by '' @ by' @ '' -- unblocked'')"

section \<open>Reconciling the tickets that wait\<close>

text \<open>Drop the owner and the lock of a start that never happened.\<close>

definition retire_stale_gated_start :: "string \<Rightarrow> json \<Rightarrow> json command" where
  "retire_stale_gated_start at child =
     bindC (tryC (py_get child ''owner'')) (\<lambda>ow. let previous = py_or ow (JStr []) in
     bindC (tryC (if truthy previous
                  then issue_owner_lease child [] [] ''dependency released'' previous at else Inr child)) (\<lambda>c1.
     let c2 = py_pop ''claimed_at'' (py_set ''owner'' (JStr []) c1) in
     bindC (tryC (ticket_name c2)) (\<lambda>tid b. (Inr c2, unlink_lock tid b))))"

text \<open>Is the child held by the gate, and was it never really started?\<close>

definition is_gated :: "string \<Rightarrow> json \<Rightarrow> error + bool" where
  "is_gated pred child =
     bindE (py_get child ''unverified_block'') (\<lambda>u.
       if u = JStr pred then Inr True
       else bindE (py_get_default child ''notes'' (JArr [])) (\<lambda>v. case v of
              JArr ns \<Rightarrow> any_note (live_note pred) ns
            | JStr _ \<Rightarrow> bindE (py_items v) (any_note (live_note pred))
            | JObj _ \<Rightarrow> bindE (py_items v) (any_note (live_note pred))
            | _ \<Rightarrow> Inl AttributeError))"

definition never_started :: "bool \<Rightarrow> json \<Rightarrow> bool" where
  "never_started gated st \<longleftrightarrow>
     st \<in> {JStr ''blocked'', JStr ''open''} \<or> (gated \<and> st = JStr ''claimed'')"

definition ungate :: "bool \<Rightarrow> string \<Rightarrow> json \<Rightarrow> error + json" where
  "ungate gated pred child =
     (if \<not> gated then Inr child
      else bindE (drop_unverified_gate_notes child pred) (\<lambda>c1.
             bindE (py_get c1 ''unverified_block'') (\<lambda>u.
               Inr (if u = JStr pred then py_pop ''unverified_block'' c1 else c1))))"

text \<open>The blocked or opened child; the flag says it was opened.\<close>

definition settle_child :: "string \<Rightarrow> string \<Rightarrow> json \<Rightarrow> json list \<Rightarrow> error + bool \<times> json" where
  "settle_child who at child ts =
     (let c1 = py_set ''status'' (JStr ''open'') child in
      bindE (unreleased_dep_id c1 ts False) (\<lambda>remaining.
        if \<not> truthy remaining then Inr (True, c1)
        else (case remaining of
                JStr r \<Rightarrow> bindE (add_note (note_json who at (unverified_block_reason r))
                   (py_set ''unverified_block'' remaining (py_set ''status'' (JStr ''blocked'') c1)))
                   (\<lambda>c2. Inr (False, c2))
              | _ \<Rightarrow> Inl AttributeError)))"

text \<open>What the note on a released child says; an override names itself.\<close>

definition release_text :: "json \<Rightarrow> string \<Rightarrow> string \<Rightarrow> string \<Rightarrow> error + string" where
  "release_text pred finished sha seat =
     bindE (py_get pred ''release_override'') (\<lambda>ov. let ov = or_empty ov in
       if sha \<noteq> [] then Inr (accepted_release_note finished sha seat)
       else bindE (py_get_text ov ''kind'') (\<lambda>k.
            bindE (py_get_default ov ''by'' (JStr seat)) (\<lambda>by0. bindE (py_text by0) (\<lambda>by'.
            bindE (py_get_text ov ''reason'') (\<lambda>r.
              Inr (finished @ '' released ('' @ k @ '' override) by '' @ by' @ '' -- '' @ r))))))"

definition note_says :: "string \<Rightarrow> json \<Rightarrow> error + bool" where
  "note_says text' n =
     bindE (py_get n ''text'') (\<lambda>x. Inr (py_or x (JStr []) = JStr text'))"

definition add_note_once :: "string \<Rightarrow> string \<Rightarrow> string \<Rightarrow> json \<Rightarrow> error + json" where
  "add_note_once who at text' child =
     bindE (bindE (py_get child ''notes'') py_items) (\<lambda>ns.
     bindE (any_note (note_says text') ns) (\<lambda>hit.
       if hit then Inr child else add_note (note_json who at text') child))"

text \<open>
  One turn of the loop in \<open>_reopen_unverified_successors\<close> for the child of a snapshot:
  the child is loaded again (ids and the fields of an override are strings), and \<open>save_child\<close> publishes it (and reconciles what waits on
  it). The answer is the id of an opened child.
\<close>

definition reopen_child ::
  "(json \<Rightarrow> json command) \<Rightarrow> string \<Rightarrow> string \<Rightarrow> json \<Rightarrow> string \<Rightarrow> string \<Rightarrow> string \<Rightarrow> string \<Rightarrow> (string list) command" where
  "reopen_child save_child who at pred finished sha seat cid =
     bindC (load_file cid) (\<lambda>child.
     bindC (tryC (is_gated finished child)) (\<lambda>gated.
     bindC (tryC (py_get child ''status'')) (\<lambda>st.
     bindC (tryC (py_get child ''owner'')) (\<lambda>ow.
     bindC (tryC (ticket_name child)) (\<lambda>tid.
     bindC (\<lambda>b. (Inr (has_lock tid b), b)) (\<lambda>locked.
       let never = never_started gated st; stale = (never \<and> (truthy ow \<or> locked)) in
       if \<not> gated \<and> \<not> stale then retC []
       else
         bindC (tryC (ungate gated finished child)) (\<lambda>c1.
         bindC (if never
                then bindC (retire_stale_gated_start at c1) (\<lambda>c2 b. tryC (settle_child who at c2 (load_all b)) b)
                else retC (False, c1)) (\<lambda>(opened, c3).
         bindC (tryC (bindE (release_text pred finished sha seat) (\<lambda>x. add_note_once who at x c3))) (\<lambda>c4.
         bindC (save_child c4) (\<lambda>_. retC (if opened then [tid] else [])))))))))))"

definition tickets_with_id :: "string \<Rightarrow> json list \<Rightarrow> error + json option" where
  "tickets_with_id finished ts =
     foldr (\<lambda>x rest. bindE (py_index x ''id'') (\<lambda>i. if i = JStr finished then Inr (Some x) else rest)) ts (Inr None)"

definition is_accept_of :: "string \<Rightarrow> json \<Rightarrow> error + bool" where
  "is_accept_of sha e =
     bindE (py_get e ''kind'') (\<lambda>k.
       if k \<noteq> JStr ''accept'' then Inr False
       else bindE (py_get e ''superseded'') (\<lambda>sup.
         if truthy sup then Inr False
         else bindE (py_get_text e ''sha'') (\<lambda>s. Inr (normalize_sha s = normalize_sha sha))))"

fun last_accept :: "string \<Rightarrow> json list \<Rightarrow> json option \<Rightarrow> error + json option" where
  "last_accept sha [] latest = Inr latest"
| "last_accept sha (e # es) latest =
     bindE (is_accept_of sha e) (\<lambda>hit. last_accept sha es (if hit then Some e else latest))"

text \<open>\<open>seat or accepts[-1]["by"] or whoami()\<close>.\<close>

definition release_seat :: "json \<Rightarrow> string \<Rightarrow> string \<Rightarrow> string \<Rightarrow> error + string" where
  "release_seat pred sha seat who =
     bindE (bindE (py_get_default pred ''review_events'' (JArr [])) (\<lambda>v. case v of
              JArr es \<Rightarrow> Inr es | JStr _ \<Rightarrow> py_items v | JObj _ \<Rightarrow> py_items v | _ \<Rightarrow> Inl AttributeError)) (\<lambda>es.
     bindE (last_accept sha es None) (\<lambda>a.
       if seat \<noteq> [] then Inr seat
       else case a of None \<Rightarrow> Inr who
            | Some e \<Rightarrow> bindE (py_get_text e ''by'') (\<lambda>by'. Inr (or_default by' who))))"

fun reopen_loop ::
  "(json \<Rightarrow> json command) \<Rightarrow> string \<Rightarrow> string \<Rightarrow> json \<Rightarrow> string \<Rightarrow> string \<Rightarrow> string \<Rightarrow> json list \<Rightarrow> (string list) command" where
  "reopen_loop save_child who at pred finished sha seat [] = retC []"
| "reopen_loop save_child who at pred finished sha seat (x # xs) =
     bindC (tryC (bindE (py_get_default x ''deps'' (JArr [])) (py_in finished))) (\<lambda>waits.
     bindC (if waits
            then bindC (tryC (ticket_name x)) (reopen_child save_child who at pred finished sha seat)
            else retC []) (\<lambda>o1.
     bindC (reopen_loop save_child who at pred finished sha seat xs) (\<lambda>o2. retC (o1 @ o2))))"

definition reopen_unverified_successors ::
  "(json \<Rightarrow> json command) \<Rightarrow> string \<Rightarrow> string \<Rightarrow> string \<Rightarrow> string \<Rightarrow> string \<Rightarrow> (string list) command" where
  "reopen_unverified_successors save_child who at finished sha seat b =
     (let ts = load_all b in
      bindC (tryC (tickets_with_id finished ts)) (\<lambda>pred. case pred of
        None \<Rightarrow> retC []
      | Some p \<Rightarrow>
          if \<not> truthy p then retC []
          else bindC (tryC (dep_released p)) (\<lambda>rel.
            if \<not> rel then retC []
            else bindC (tryC (if sha \<noteq> [] then Inr sha else accepted_release_sha p)) (\<lambda>sha'.
                 bindC (tryC (release_seat p sha' seat who)) (\<lambda>seat'.
                   reopen_loop save_child who at p finished sha' seat' ts)))) b)"

text \<open>\<open>save\<close>: publish, and reconcile the successors of a ticket that is now released.\<close>

fun save :: "nat \<Rightarrow> string \<Rightarrow> string \<Rightarrow> json \<Rightarrow> json \<Rightarrow> json command" where
  "save 0 who at t expected = pureC (Inl (Refused TooDeep))"
| "save (Suc d) who at t expected =
     bindC (publish at t expected) (\<lambda>t1.
     bindC (tryC (dep_released t1)) (\<lambda>rel.
       if \<not> rel then retC t1
       else bindC (tryC (ticket_name t1)) (\<lambda>tid.
            bindC (reopen_unverified_successors (\<lambda>c. save d who at c JNull) who at tid [] []) (\<lambda>_.
              retC t1))))"

section \<open>Closing without an accept\<close>

fun all_in :: "string \<Rightarrow> json list \<Rightarrow> json list \<Rightarrow> bool" where
  "all_in finished released [] = True"
| "all_in finished released (d # ds) = ((d = JStr finished \<or> d \<in> set released) \<and> all_in finished released ds)"

definition waits_only_on :: "string \<Rightarrow> json list \<Rightarrow> json \<Rightarrow> error + bool" where
  "waits_only_on finished released x =
     bindE (bindE (py_get x ''deps'') py_items) (\<lambda>ds.
       if JStr finished \<notin> set ds then Inr False
       else bindE (py_get x ''status'') (\<lambda>st.
         if st \<notin> {JStr ''open'', JStr ''blocked''} then Inr False else Inr (all_in finished released ds)))"

definition successors_waiting_on :: "json list \<Rightarrow> string \<Rightarrow> json list \<Rightarrow> error + json list" where
  "successors_waiting_on ts finished released = filterE (waits_only_on finished released) ts"

fun block_loop :: "(json \<Rightarrow> json command) \<Rightarrow> string \<Rightarrow> string \<Rightarrow> string \<Rightarrow> json list \<Rightarrow> (json list) command" where
  "block_loop save_child who at finished [] = retC []"
| "block_loop save_child who at finished (x # xs) =
     bindC (tryC (is_automated_cleanup x)) (\<lambda>auto.
       if auto then block_loop save_child who at finished xs
       else bindC (retire_stale_gated_start at
                     (py_set ''unverified_block'' (JStr finished) (py_set ''status'' (JStr ''blocked'') x))) (\<lambda>c1.
            bindC (tryC (add_note (note_json who at (unverified_block_reason finished)) c1)) (\<lambda>c2.
            bindC (save_child c2) (\<lambda>_.
            bindC (tryC (py_index c2 ''id'')) (\<lambda>i.
            bindC (block_loop save_child who at finished xs) (\<lambda>r. retC (i # r)))))))"

definition block_unverified_successors ::
  "(json \<Rightarrow> json command) \<Rightarrow> string \<Rightarrow> string \<Rightarrow> string \<Rightarrow> (json list) command" where
  "block_unverified_successors save_child who at finished b =
     bindC (tryC (released_ids (load_all b))) (\<lambda>released.
     bindC (tryC (successors_waiting_on (load_all b) finished released)) (block_loop save_child who at finished)) b"

text \<open>
  \<open>_maybe_record_release_override\<close>: does the closed ticket release its successors, if need
  be by an override, of the operator or for documents that never were in review? The role
  is a string.
\<close>

definition maybe_record_release_override ::
  "(json \<Rightarrow> json command) \<Rightarrow> string \<Rightarrow> string \<Rightarrow> bool \<Rightarrow> json \<Rightarrow> bool command" where
  "maybe_record_release_override save_ticket who at release_unverified t =
     bindC (tryC (dep_released t)) (\<lambda>rel.
       if rel then retC True
       else if release_unverified
       then bindC (save_ticket (py_set ''release_override''
              (make_release_override ''operator'' who at ''operator --release-unverified'') t)) (\<lambda>_. retC True)
       else bindC (tryC (is_docs_exempt t)) (\<lambda>exempt.
         if \<not> exempt then retC False
         else bindC (tryC (py_get_text t ''role'')) (\<lambda>role.
              bindC (save_ticket (py_set ''release_override'' (make_release_override ''docs-exempt'' who at
                  (''docs-exempt: role='' @ role @ '' never submitted for review'')) t)) (\<lambda>_. retC True))))"

section \<open>Claiming\<close>

text \<open>\<open>load_all\<close> tickets an agent holds as claimed, other than one.\<close>

definition holds :: "string \<Rightarrow> string \<Rightarrow> json \<Rightarrow> error + bool" where
  "holds owner except t =
     bindE (py_get t ''status'') (\<lambda>st. if st \<noteq> JStr ''claimed'' then Inr False
       else bindE (py_get t ''owner'') (\<lambda>ow. if ow \<noteq> JStr owner then Inr False
       else bindE (py_get t ''id'') (\<lambda>i. Inr (i \<noteq> JStr except))))"

definition held_claimed :: "string \<Rightarrow> string \<Rightarrow> fboard \<Rightarrow> error + json list" where
  "held_claimed owner except b =
     (if owner = [] then Inr [] else filterE (holds owner except) (load_all b))"

definition claim_fields :: "string \<Rightarrow> string \<Rightarrow> json \<Rightarrow> json" where
  "claim_fields owner at t =
     py_set ''done_at'' (JStr []) (py_set ''claimed_at'' (JStr at)
       (py_set ''owner'' (JStr owner) (py_set ''status'' (JStr ''claimed'') t)))"

text \<open>The ticket, or none when somebody else has it; the lock file is the atomic test.\<close>

definition try_claim :: "nat \<Rightarrow> string \<Rightarrow> string \<Rightarrow> string \<Rightarrow> string \<Rightarrow> string \<Rightarrow> (json option) command" where
  "try_claim depth who harness at tid owner b =
     (if has_lock tid b then (Inr None, b)
      else bindC (load_file tid) (\<lambda>t.
           bindC (tryC (py_index t ''status'')) (\<lambda>st.
             if st \<noteq> JStr ''open'' then (\<lambda>b. (Inr None, unlink_lock tid b))
             else bindC (\<lambda>b. (lift (refuse_unreleased_deps t (load_all b) False), b)) (\<lambda>r. case r of
                    Some e \<Rightarrow> (\<lambda>b. (Inl (Refused e), unlink_lock tid b))
                  | None \<Rightarrow>
                      bindC (tryC (py_get t ''owner'')) (\<lambda>ow.
                      bindC (tryC (issue_owner_lease (claim_fields owner at t) owner harness ''claim''
                                    (py_or ow (JStr [])) at)) (\<lambda>t1.
                      bindC (save depth who at t1 JNull) (\<lambda>got. retC (Some got)))))))
             (b\<lparr>fb_locks := AList.update tid owner (fb_locks b)\<rparr>))"

text \<open>The claimed ticket, or the tickets that stand in the way (none when the lock was lost).\<close>

definition try_claim_one_active ::
  "nat \<Rightarrow> string \<Rightarrow> string \<Rightarrow> string \<Rightarrow> string \<Rightarrow> string \<Rightarrow> bool \<Rightarrow> (json option \<times> json list) command" where
  "try_claim_one_active depth who harness at tid owner another =
     bindC (\<lambda>b. (lift (held_claimed owner tid b), b)) (\<lambda>held.
       if held \<noteq> [] \<and> \<not> another then retC (None, held)
       else bindC (try_claim depth who harness at tid owner) (\<lambda>got. retC (got, [])))"

section \<open>Verdicts on the board\<close>

text \<open>
  \<open>cmd_accept\<close> up to the start trigger (which adds a note to the freed tickets and posts
  messages): the answer is the refusal of the verdict, or the event with the opened tickets.
\<close>

definition accept_ticket ::
  "nat \<Rightarrow> string \<Rightarrow> string \<Rightarrow> string \<Rightarrow> string \<Rightarrow> string \<Rightarrow> (verdict_refusal + json \<times> string list) command" where
  "accept_ticket depth who at tid sha notes' =
     bindC (load_file tid) (\<lambda>t.
     bindC (tryC (apply_verdict t who sha Accept notes' [] at True)) (\<lambda>r. case r of
       Inl e \<Rightarrow> retC (Inl e)
     | Inr (ev, t1) \<Rightarrow>
         bindC (save depth who at t1 JNull) (\<lambda>t2.
         bindC (tryC (py_get t2 ''status'')) (\<lambda>st.
           if st \<noteq> JStr ''done'' then retC (Inr (ev, []))
           else bindC (reopen_unverified_successors (\<lambda>c. save depth who at c JNull) who at tid
                         (normalize_sha sha) who) (\<lambda>opened. retC (Inr (ev, opened)))))))"

definition rewrite_claim_lock :: "string \<Rightarrow> string \<Rightarrow> fboard \<Rightarrow> fboard" where
  "rewrite_claim_lock tid owner b =
     (if has_lock tid b then b\<lparr>fb_locks := AList.update tid owner (fb_locks b)\<rparr> else b)"

text \<open>\<open>cmd_reject\<close>, before it binds the author's presence file and tells them.\<close>

definition reject_ticket ::
  "nat \<Rightarrow> string \<Rightarrow> string \<Rightarrow> string \<Rightarrow> string \<Rightarrow> string \<Rightarrow> string \<Rightarrow> (verdict_refusal + json) command" where
  "reject_ticket depth who harness at tid sha reason =
     bindC (load_file tid) (\<lambda>t.
     bindC (tryC (apply_verdict t who sha Reject [] reason at False)) (\<lambda>r. case r of
       Inl e \<Rightarrow> retC (Inl e)
     | Inr (ev, t1) \<Rightarrow>
         bindC (tryC (return_to_author_for_revision t1 who (py_strip reason) (normalize_sha sha) ''reject'' at))
           (\<lambda>(author, t2).
         bindC (if author = [] then retC t2
                else bindC (tryC (issue_owner_lease t2 author harness ''reject-revision'' (JStr author) at)) (\<lambda>t3.
                     bindC (tryC (ticket_name t3)) (\<lambda>i b. (Inr t3, rewrite_claim_lock i author b)))) (\<lambda>t4.
         bindC (save depth who at t4 JNull) (\<lambda>_. retC (Inr ev))))))"

end
