(* ===== verification/Verdict_Life.thy ===== *)
theory Verdict_Life
  imports Verdicts
begin

text \<open>
  What a recorded verdict means for the release gate: the exact condition under which a
  verdict is recorded and what it adds to the ticket, when an accept releases the tickets
  that wait, what a later reject does to it, and the life of a reviewed ticket as a step
  relation with a ghost log of the accepts given since the evidence was last withdrawn.
\<close>

section \<open>Commit ids\<close>

lemma full_is_pin: "full_sha h \<Longrightarrow> pin_sha h"
  by (simp add: full_sha_def pin_sha_def)

lemma pin_text [simp]: "pin_sha h \<Longrightarrow> py_strip h = h" "pin_sha h \<Longrightarrow> py_lower h = h"
  using hex_text by (auto simp: pin_sha_def)

lemma pin_not_empty [simp]: "\<not> pin_sha []" "\<not> full_sha []"
  by (simp_all add: pin_sha_def full_sha_def)

lemma normalize_pin [simp]: "pin_sha h \<Longrightarrow> normalize_sha h = h"
  by (simp add: normalize_sha_def)

lemma sha_match_full: "full_sha a \<Longrightarrow> full_sha b \<Longrightarrow> sha_match a b \<longleftrightarrow> a = b"
  by (auto simp: sha_match_def full_sha_def Let_def py_lower_def hex_text [unfolded py_lower_def])

lemma clean_head_text: "clean_head t = Inr h \<longleftrightarrow> (\<exists>x. py_get_text t ''review_head'' = Inr x \<and> h = normalize_sha x)"
  by (auto simp: clean_head_def normalize_sha_def result_simps)

lemma submitted_full_head:
  "clean_head t = Inr h \<Longrightarrow> pin_sha h \<Longrightarrow> submitted_sha t = Inr h"
  by (auto simp: clean_head_text submitted_sha_def)

section \<open>Recording a verdict\<close>

lemma refuse_None:
  "refuse t reviewer sha kind full notes' reason = Inr None \<longleftrightarrow>
     (\<exists>st ow head. py_get t ''status'' = Inr st \<and> st \<in> {JStr ''review'', JStr ''done''}
       \<and> py_get_text t ''owner'' = Inr ow \<and> py_strip reviewer \<noteq> [] \<and> py_strip reviewer \<noteq> py_strip ow
       \<and> (full \<longrightarrow> full_sha (normalize_sha sha)) \<and> pin_sha (normalize_sha sha)
       \<and> submitted_sha t = Inr head \<and> head \<noteq> [] \<and> sha_match (normalize_sha sha) head
       \<and> (kind = Accept \<longrightarrow> py_strip notes' \<noteq> []) \<and> (kind = Reject \<longrightarrow> py_strip reason \<noteq> []))"
proof (cases t)
  case (JObj kvs)
  have no: "bindE m (\<lambda>l. Inr (Some (f l))) \<noteq> Inr None" for m :: "error + 'a" and f :: "'a \<Rightarrow> verdict_refusal"
    by (cases m) simp_all
  obtain i st where g: "py_get t ''id'' = Inr i" "py_get t ''status'' = Inr st" by (simp add: JObj)
  show ?thesis
  proof (cases "st \<in> {JStr ''review'', JStr ''done''}")
    case True
    then show ?thesis
      by (cases "py_get_text t ''owner''"; cases "submitted_sha t")
        (simp_all add: refuse_def Let_def g no del: insert_iff)
  next
    case False
    then show ?thesis by (simp add: refuse_def Let_def g no del: insert_iff)
  qed
qed (simp_all add: refuse_def)

lemma apply_Inr:
  "apply_verdict t reviewer sha kind notes' reason at full = Inr (Inr (ev, t')) \<longleftrightarrow>
     refuse t reviewer sha kind full notes' reason = Inr None
     \<and> ev = make_event kind reviewer sha notes' reason at
     \<and> (\<exists>evs. bindE (py_get t ''review_events'') py_items = Inr evs
          \<and> t' = py_set ''review_events'' (JArr (filter is_dict evs @ [ev])) t)"
  by (auto simp: apply_verdict_def append_event_def Let_def result_simps split: option.splits)

lemma apply_dict:
  "apply_verdict t reviewer sha kind notes' reason at full = Inr (Inr (ev, t')) \<Longrightarrow> is_dict t"
  unfolding apply_Inr refuse_None using py_get_Inr by blast

lemma apply_get:
  assumes "apply_verdict t reviewer sha kind notes' reason at full = Inr (Inr (ev, t'))"
  shows "k \<noteq> ''review_events'' \<Longrightarrow> py_get t' k = py_get t k"
    and "k \<noteq> ''review_events'' \<Longrightarrow> py_get_text t' k = py_get_text t k"
    and "\<exists>evs. bindE (py_get t ''review_events'') py_items = Inr evs
      \<and> bindE (py_get t' ''review_events'') py_items = Inr (filter is_dict evs @ [ev])"
  using assms apply_dict [OF assms] by (auto simp: apply_Inr py_get_set py_get_text_def)

lemma make_event_get [simp]:
  "py_get_text (make_event kind r s n w at) ''kind'' = Inr (kind_word kind)"
  "py_get_text (make_event kind r s n w at) ''by'' = Inr r"
  "py_get_text (make_event kind r s n w at) ''sha'' = Inr (normalize_sha s)"
  "py_get (make_event kind r s n w at) ''superseded'' = Inr JNull"
  "is_dict (make_event kind r s n w at)"
  by (cases kind; simp add: make_event_def py_get_text_def)+

lemma kind_word_lower [simp]: "py_lower (py_strip (kind_word kind)) = kind_word kind"
  by (cases kind) (simp_all, code_simp+)

lemma accept_event_made:
  "pin_sha (normalize_sha s) \<Longrightarrow>
   accept_event t (make_event kind r s n w at) =
     (if kind = Accept then current_release_head_matches t (JStr (normalize_sha s)) else Inr False)"
  using kind_word_lower [of kind] by (cases kind) (simp_all add: accept_event_def del: kind_word_lower)

lemma accept_event_no_dict: "\<not> is_dict ev \<Longrightarrow> accept_event t ev = Inr False"
  by (simp add: accept_event_def)

lemma accept_event_cong: "clean_head t' = clean_head t \<Longrightarrow> accept_event t' = accept_event t"
  by (simp add: fun_eq_iff accept_event_def current_release_head_matches_def cong: if_cong)

lemma any_accept_append:
  "any_accept t (xs @ ys) = bindE (any_accept t xs) (\<lambda>hit. if hit then Inr True else any_accept t ys)"
proof (induction xs)
  case (Cons x xs)
  then show ?case by (cases "accept_event t x") auto
qed simp

lemma any_accept_filter: "any_accept t (filter is_dict xs) = any_accept t xs"
proof (induction xs)
  case (Cons x xs)
  have "any_accept t (filter is_dict (x # xs)) = bindE (accept_event t x) (\<lambda>hit. if hit then Inr True else any_accept t (filter is_dict xs))"
    by (cases "is_dict x") (simp_all add: accept_event_no_dict)
  then show ?case by (simp only: Cons any_accept.simps)
qed simp

lemma any_accept_cong:
  assumes "clean_head t' = clean_head t"
  shows "any_accept t' evs = any_accept t evs"
  by (induction evs) (simp_all only: any_accept.simps accept_event_cong [OF assms])

lemma structured_accept_iff:
  "structured_accept t = Inr True \<longleftrightarrow>
     (\<exists>h evs. py_get_text t ''review_head'' = Inr h \<and> py_strip h \<noteq> []
        \<and> bindE (py_get t ''review_events'') py_items = Inr evs \<and> any_accept t evs = Inr True)"
  by (auto simp: structured_accept_def result_simps split: if_splits)

text \<open>A recorded verdict leaves the head alone and adds one event at the end.\<close>

lemma apply_accept_scan:
  assumes "apply_verdict t reviewer sha kind notes' reason at full = Inr (Inr (ev, t'))"
    and "bindE (py_get t ''review_events'') py_items = Inr evs"
  shows "any_accept t' (filter is_dict evs @ [ev]) =
    bindE (any_accept t evs) (\<lambda>hit. if hit then Inr True else accept_event t ev)"
proof -
  have h: "clean_head t' = clean_head t"
    by (simp add: clean_head_def apply_get(2) [OF assms(1)])
  show ?thesis
    by (cases "accept_event t ev")
      (simp_all add: any_accept_append any_accept_filter any_accept_cong [OF h] accept_event_cong [OF h]
        cong: if_cong)
qed

lemma clean_head_frame: "py_get t' ''review_head'' = py_get t ''review_head'' \<Longrightarrow> clean_head t' = clean_head t"
  by (simp add: clean_head_def py_get_text_def)

text \<open>The evidence is read from two fields.\<close>

lemma structured_accept_frame:
  assumes "py_get t' ''review_head'' = py_get t ''review_head''"
    and "py_get t' ''review_events'' = py_get t ''review_events''"
  shows "structured_accept t' = structured_accept t"
proof -
  have "any_accept t' = any_accept t"
    by (rule ext) (rule any_accept_cong [OF clean_head_frame [OF assms(1)]])
  then show ?thesis by (simp only: structured_accept_def py_get_text_def assms)
qed

lemma done_releases:
  assumes "is_dict t" "structured_accept t = Inr True"
  shows "dep_released (py_set ''status'' (JStr ''done'') t) = Inr True"
proof -
  have "structured_accept (py_set ''status'' (JStr ''done'') t) = structured_accept t"
    by (rule structured_accept_frame) (simp_all add: py_get_set assms(1))
  then show ?thesis using assms by (simp add: dep_released_def py_get_set orE_def)
qed

section \<open>What a verdict does\<close>

text \<open>
  C13: A verdict is recorded exactly when the ticket is in review or done, the reviewer is named and
  is not the ticket's author, the commit is a git object name (all forty digits for
  \<open>atm accept\<close>) that agrees with the submitted one, and an accept has notes, a reject a
  reason. Recording it appends one event to the recorded ones and changes nothing else of
  the ticket.
\<close>

theorem verdict_recorded_exactly_when_allowed:
  assumes "bindE (py_get t ''review_events'') py_items = Inr evs"
  shows "apply_verdict t reviewer sha kind notes' reason at full = Inr (Inr (ev, t')) \<longleftrightarrow>
     (\<exists>st ow head. py_get t ''status'' = Inr st \<and> st \<in> {JStr ''review'', JStr ''done''}
       \<and> py_get_text t ''owner'' = Inr ow \<and> py_strip reviewer \<noteq> [] \<and> py_strip reviewer \<noteq> py_strip ow
       \<and> (full \<longrightarrow> full_sha (normalize_sha sha)) \<and> pin_sha (normalize_sha sha)
       \<and> submitted_sha t = Inr head \<and> head \<noteq> [] \<and> sha_match (normalize_sha sha) head
       \<and> (kind = Accept \<longrightarrow> py_strip notes' \<noteq> []) \<and> (kind = Reject \<longrightarrow> py_strip reason \<noteq> []))
     \<and> ev = make_event kind reviewer sha notes' reason at
     \<and> t' = py_set ''review_events'' (JArr (filter is_dict evs @ [ev])) t"
  unfolding apply_Inr refuse_None using assms by auto

text \<open>
  An accept releases the tickets that wait on it exactly when the recorded review head is a full
  commit id (which the accepted commit then is): the evidence is there at once, and the
  ticket counts as released once it is done. An accept bound to the abbreviated commit of an
  older submission is recorded, and releases nothing.
\<close>

theorem full_head_accept_releases:
  assumes ok: "apply_verdict t reviewer sha Accept notes' [] at True = Inr (Inr (ev, t'))"
    and before: "structured_accept t = Inr b" and head: "clean_head t = Inr head"
  shows "(structured_accept t' = Inr True \<longleftrightarrow> full_sha head)
    \<and> (full_sha head \<longrightarrow> dep_released (py_set ''status'' (JStr ''done'') t') = Inr True)"
proof -
  obtain evs where evs: "bindE (py_get t ''review_events'') py_items = Inr evs"
    and evs': "bindE (py_get t' ''review_events'') py_items = Inr (filter is_dict evs @ [ev])"
    using apply_get(3) [OF ok] by blast
  have d: "is_dict t'" using evs' by (cases t') auto
  obtain x where x: "py_get_text t ''review_head'' = Inr x" "head = normalize_sha x"
    using head by (auto simp: clean_head_text)
  have h: "clean_head t' = Inr head" using head by (simp add: clean_head_def apply_get(2) [OF ok])
  obtain s' where s': "submitted_sha t = Inr s'" "sha_match (normalize_sha sha) s'"
    and full: "full_sha (normalize_sha sha)" and ev: "ev = make_event Accept reviewer sha notes' [] at"
    using ok by (auto simp: apply_Inr refuse_None)
  have "normalize_sha sha = head" if "full_sha head"
    using s' full submitted_full_head [OF head full_is_pin [OF that]] sha_match_full [OF full that] by auto
  then have hit: "accept_event t ev = Inr (full_sha head)"
    using full head by (auto simp: ev accept_event_made full_is_pin current_release_head_matches_def)
  have scan: "any_accept t' (filter is_dict evs @ [ev]) =
      bindE (any_accept t evs) (\<lambda>hit. if hit then Inr True else Inr (full_sha head))"
    unfolding apply_accept_scan [OF ok evs] hit ..
  have "full_sha head" if "structured_accept t' = Inr True"
    using structured_accept_bound [OF that] h by (auto simp: accept_bound_def)
  moreover have "structured_accept t' = Inr True" if full_head: "full_sha head"
  proof -
    have ne: "py_strip x \<noteq> []" using x full_head by (auto simp: normalize_sha_def py_lower_def)
    have "any_accept t evs \<noteq> Inl e" for e using before ne x evs
      by (auto simp: structured_accept_def)
    then have "any_accept t' (filter is_dict evs @ [ev]) = Inr True"
      using full_head by (cases "any_accept t evs") (auto simp: scan)
    then show ?thesis using ne x evs' by (auto simp: structured_accept_iff apply_get(2) [OF ok])
  qed
  moreover have "dep_released (py_set ''status'' (JStr ''done'') t') = Inr True" if "structured_accept t' = Inr True"
    using done_releases [OF d that] .
  ultimately show ?thesis by blast
qed

section \<open>A reject after an accept\<close>

lemma add_note_shape: "add_note n t = Inr t' \<Longrightarrow> is_dict t \<and> (\<exists>v. t' = py_set ''notes'' v t)"
proof -
  assume ok: "add_note n t = Inr t'"
  show ?thesis
  proof (cases "is_dict t \<and> has_key t ''notes''")
    case True
    then obtain v where "py_get t ''notes'' = Inr v" by (cases t) auto
    then show ?thesis using ok True by (cases v) (auto simp: add_note_def)
  qed (use ok in \<open>auto simp: add_note_def split: if_splits\<close>)
qed

lemma add_note_get:
  "add_note n t = Inr t' \<Longrightarrow> k \<noteq> ''notes'' \<Longrightarrow> py_get t' k = py_get t k"
  "add_note n t = Inr t' \<Longrightarrow> is_dict t'"
  using add_note_shape by (fastforce simp: py_get_set)+

lemma return_get:
  assumes "return_to_author_for_revision t actor reason sha kind at = Inr (a, t')" "is_dict t"
  shows "k \<notin> {''notes'', ''status''} \<Longrightarrow> py_get t' k = py_get t k" and "is_dict t'"
    and "py_get t' ''status'' = Inr (JStr ''claimed'')"
  using assms add_note_get
  by (auto simp: return_to_author_for_revision_def Let_def result_simps py_get_set)

text \<open>
  C40: A reject does not withdraw an accept of the same commit. When an accepted ticket is
  rejected and goes back to its author, the release evidence still stands, so closing the
  ticket as it is releases the tickets that wait on it, whatever the reason of the reject.
\<close>

theorem reject_keeps_the_release:
  assumes accepted: "structured_accept t = Inr True"
    and rejected: "apply_verdict t reviewer sha Reject [] reason at full = Inr (Inr (ev, t1))"
    and returned: "return_to_author_for_revision t1 actor reason' sha' ''reject'' at' = Inr (author, t2)"
  shows "structured_accept t2 = Inr True
    \<and> dep_released (py_set ''status'' (JStr ''done'') t2) = Inr True"
proof -
  obtain evs where evs: "bindE (py_get t ''review_events'') py_items = Inr evs"
    and evs': "bindE (py_get t1 ''review_events'') py_items = Inr (filter is_dict evs @ [ev])"
    using apply_get(3) [OF rejected] by blast
  have d: "is_dict t1" using evs' by (cases t1) auto
  obtain h where h: "py_get_text t ''review_head'' = Inr h" "py_strip h \<noteq> []" "any_accept t evs = Inr True"
    using accepted evs by (auto simp: structured_accept_iff)
  have "structured_accept t1 = Inr True"
    using h evs' apply_accept_scan [OF rejected evs]
    by (auto simp: structured_accept_iff apply_get(2) [OF rejected])
  moreover have "structured_accept t2 = structured_accept t1"
    by (rule structured_accept_frame) (simp_all add: return_get(1) [OF returned d])
  ultimately show ?thesis using done_releases [OF return_get(2) [OF returned d]] by simp
qed

text \<open>
  An override is never withdrawn: superseding the evidence for a new round of work leaves it,
  so the reworked ticket releases its successors as soon as it is done again.
\<close>

lemma override_survives_resubmission:
  assumes "override_recorded t = Inr True" "supersede_release_evidence t = Inr t'"
    and "structured_accept t' = Inr a" "structured_merge t' = Inr m"
  shows "dep_released (py_set ''status'' (JStr ''done'') t') = Inr True"
proof -
  have d: "is_dict t'" using supersede_get(1) [OF assms(2)] py_get_Inr by blast
  let ?t = "py_set ''status'' (JStr ''done'') t'"
  have "structured_accept ?t = structured_accept t'"
    by (rule structured_accept_frame) (simp_all add: py_get_set d)
  moreover have "structured_merge ?t = structured_merge t'"
  proof -
    have "current_release_head_matches ?t = current_release_head_matches t'"
      by (rule ext) (simp add: current_release_head_matches_def clean_head_def py_get_text_def py_get_set d)
    moreover have "py_get ?t ''merge_record'' = py_get t' ''merge_record''" by (simp add: py_get_set d)
    ultimately show ?thesis by (simp only: structured_merge_def)
  qed
  moreover have "override_recorded ?t = Inr True"
    using assms(1) supersede_get(3) [OF assms(2)] by (simp add: override_recorded_def py_get_set d)
  ultimately show ?thesis using assms(3,4) by (cases a; cases m) (simp_all add: dep_released_def py_get_set d orE_def)
qed

section \<open>The life of a reviewed ticket\<close>

text \<open>
  What the commands do to the release evidence of a ticket. The ghost log lists the accepts
  (reviewer, author at that time, commit) since the evidence was last withdrawn, as
  \<open>atm review\<close>, \<open>atm reopen\<close> and \<open>atm reopen --revision\<close> all do before they change the
  ticket. An edit is any change that keeps the verdicts and the review head: notes, status,
  owner, leases, the way back to the author.
\<close>

type_synonym reviewed = "json \<times> (string \<times> string \<times> string) list"

definition same_evidence :: "json \<Rightarrow> json \<Rightarrow> bool" where
  "same_evidence t t' \<longleftrightarrow> py_get t' ''review_head'' = py_get t ''review_head''
     \<and> py_get t' ''review_events'' = py_get t ''review_events''"

inductive verdict_step :: "reviewed \<Rightarrow> reviewed \<Rightarrow> bool" where
  accepts: "apply_verdict t r s Accept n w at full = Inr (Inr (ev, t')) \<Longrightarrow> py_get_text t ''owner'' = Inr ow
    \<Longrightarrow> verdict_step (t, log) (t', (py_strip r, py_strip ow, normalize_sha s) # log)"
| rejects: "apply_verdict t r s Reject n w at full = Inr (Inr (ev, t')) \<Longrightarrow> verdict_step (t, log) (t', log)"
| withdraws: "supersede_release_evidence t = Inr t' \<Longrightarrow> verdict_step (t, log) (t', [])"
| pins: "is_dict t \<Longrightarrow> t' = record_verified_head (py_pop ''review_head'' t) s pr \<Longrightarrow> verdict_step (t, log) (t', log)"
| edits: "same_evidence t t' \<Longrightarrow> verdict_step (t, log) (t', log)"

text \<open>Every live accept of the ticket is in the log, given by somebody who was not the author.\<close>

definition accept_logged :: "(string \<times> string \<times> string) list \<Rightarrow> json \<Rightarrow> bool" where
  "accept_logged log ev \<longleftrightarrow>
     (is_dict ev \<and> py_get_text ev ''kind'' = Inr ''accept'' \<and> py_get ev ''superseded'' = Inr JNull
       \<and> (\<exists>r ow s. (r, ow, s) \<in> set log \<and> r \<noteq> [] \<and> r \<noteq> ow \<and> pin_sha s \<and> py_get_text ev ''sha'' = Inr s))"

definition evidence_logged :: "reviewed \<Rightarrow> bool" where
  "evidence_logged x \<longleftrightarrow>
     (\<forall>evs. bindE (py_get (fst x) ''review_events'') py_items = Inr evs \<longrightarrow>
        (\<forall>ev \<in> set evs. live_accept ev = Inr True \<longrightarrow> accept_logged (snd x) ev))"

lemma py_get_pop: "is_dict t \<Longrightarrow> py_get (py_pop k t) j = (if j = k then Inr JNull else py_get t j)"
proof (cases t)
  case (JObj kvs)
  have "map_of (filter (\<lambda>p. fst p \<noteq> k) kvs) j = (if j = k then None else map_of kvs j)" for j
    by (induction kvs) auto
  then show ?thesis by (simp add: JObj)
qed simp_all

lemma is_dict_pop [simp]: "is_dict (py_pop k t) = is_dict t"
  by (cases t) simp_all

lemma pinned_events:
  "is_dict t \<Longrightarrow> py_get (record_verified_head (py_pop ''review_head'' t) s pr) ''review_events'' = py_get t ''review_events''"
  by (simp add: record_verified_head_def Let_def py_get_set py_get_pop)

lemma live_accept_made: "live_accept (make_event kind r s n w at) = Inr (kind = Accept)"
  using kind_word_lower [of kind] by (cases kind) (simp_all add: live_accept_def del: kind_word_lower)

lemma live_accept_dict: "live_accept ev = Inr True \<Longrightarrow> is_dict ev"
  by (auto simp: live_accept_def split: if_splits)

lemma live_accept_marked: "live_accept (mark_superseded ev) \<noteq> Inr True"
proof
  assume "live_accept (mark_superseded ev) = Inr True"
  then show False using mark_superseded_get [of ev] by (auto simp: live_accept_def result_simps split: if_splits)
qed

lemma accept_event_live: "accept_event t ev = Inr True \<Longrightarrow> live_accept ev = Inr True"
  by (auto simp: accept_event_def live_accept_def result_simps split: if_splits)

lemma accept_logged_mono: "accept_logged log ev \<Longrightarrow> set log \<subseteq> set log' \<Longrightarrow> accept_logged log' ev"
  unfolding accept_logged_def by blast

lemma evidence_append:
  assumes "evidence_logged (t, log)" "bindE (py_get t ''review_events'') py_items = Inr evs"
    and "bindE (py_get t' ''review_events'') py_items = Inr (filter is_dict evs @ [ev])"
    and "live_accept ev = Inr True \<Longrightarrow> accept_logged log' ev" "set log \<subseteq> set log'"
  shows "evidence_logged (t', log')"
  using assms accept_logged_mono [OF _ assms(5)] by (auto simp: evidence_logged_def)

lemma evidence_accept:
  assumes old: "evidence_logged (t, log)" and ow: "py_get_text t ''owner'' = Inr ow"
    and ok: "apply_verdict t r s Accept n w at full = Inr (Inr (ev, t'))"
  shows "evidence_logged (t', (py_strip r, py_strip ow, normalize_sha s) # log)"
proof -
  obtain evs where evs: "bindE (py_get t ''review_events'') py_items = Inr evs"
    "bindE (py_get t' ''review_events'') py_items = Inr (filter is_dict evs @ [ev])"
    using apply_get(3) [OF ok] by blast
  have "accept_logged ((py_strip r, py_strip ow, normalize_sha s) # log) ev"
    using ok ow by (fastforce simp: accept_logged_def apply_Inr refuse_None)
  then show ?thesis by (intro evidence_append [OF old evs]) auto
qed

lemma evidence_reject:
  assumes old: "evidence_logged (t, log)"
    and ok: "apply_verdict t r s Reject n w at full = Inr (Inr (ev, t'))"
  shows "evidence_logged (t', log)"
proof -
  obtain evs where evs: "bindE (py_get t ''review_events'') py_items = Inr evs"
    "bindE (py_get t' ''review_events'') py_items = Inr (filter is_dict evs @ [ev])"
    using apply_get(3) [OF ok] by blast
  have "live_accept ev = Inr False" using ok by (simp add: apply_Inr live_accept_made)
  then show ?thesis by (intro evidence_append [OF old evs]) auto
qed

lemma evidence_withdrawn:
  assumes "supersede_release_evidence t = Inr t'"
  shows "evidence_logged (t', [])"
proof -
  obtain v where v: "py_get t' ''review_events'' = Inr (mark_events v)"
    using supersede_get(1) [OF assms] by blast
  have "live_accept ev \<noteq> Inr True" if items: "py_items (mark_events v) = Inr evs" and ev: "ev \<in> set evs" for evs ev
  proof (cases "\<exists>ys. mark_events v = JArr ys")
    case True
    then obtain xs where "mark_events v = JArr (map mark_superseded xs)" using mark_events_JArr by blast
    then show ?thesis using items ev live_accept_marked by auto
  next
    case False
    then show ?thesis using py_items_not_dict [OF items _ ev] live_accept_dict by blast
  qed
  then show ?thesis using v by (auto simp: evidence_logged_def)
qed

lemma evidence_frame:
  "evidence_logged (t, log) \<Longrightarrow> py_get t' ''review_events'' = py_get t ''review_events'' \<Longrightarrow> evidence_logged (t', log)"
  by (simp add: evidence_logged_def)

lemma step_keeps_evidence: "verdict_step x y \<Longrightarrow> evidence_logged x \<Longrightarrow> evidence_logged y"
proof (induction rule: verdict_step.induct)
  case (accepts t r s n w at full ev t' ow log)
  show ?case by (rule evidence_accept [OF accepts.prems accepts.hyps(2,1)])
next
  case (rejects t r s n w at full ev t' log)
  show ?case by (rule evidence_reject [OF rejects.prems rejects.hyps])
next
  case (withdraws t t' log)
  show ?case by (rule evidence_withdrawn [OF withdraws.hyps])
next
  case (pins t t' s pr log)
  show ?case by (rule evidence_frame [OF pins.prems]) (simp add: pins.hyps pinned_events)
next
  case (edits t t' log)
  show ?case by (rule evidence_frame [OF edits.prems]) (use edits.hyps in \<open>simp add: same_evidence_def\<close>)
qed

lemma steps_keep_evidence: "verdict_step\<^sup>*\<^sup>* x y \<Longrightarrow> evidence_logged x \<Longrightarrow> evidence_logged y"
  by (induction rule: rtranclp_induct) (auto intro: step_keeps_evidence)

lemma logged_accept_releases:
  assumes "evidence_logged (t, log)" "structured_accept t = Inr True"
  shows "\<exists>r ow s. (r, ow, s) \<in> set log \<and> r \<noteq> [] \<and> r \<noteq> ow \<and> full_sha s \<and> clean_head t = Inr s"
proof -
  obtain evs ev where evs: "bindE (py_get t ''review_events'') py_items = Inr evs"
    and ev: "ev \<in> set evs" "accept_event t ev = Inr True"
    using assms(2) any_accept_True by (auto simp: structured_accept_iff) blast
  have "accept_logged log ev" using assms(1) evs ev accept_event_live by (auto simp: evidence_logged_def)
  then obtain r ow s where s: "(r, ow, s) \<in> set log" "r \<noteq> []" "r \<noteq> ow" "pin_sha s" "py_get_text ev ''sha'' = Inr s"
    by (auto simp: accept_logged_def)
  have "current_release_head_matches t (JStr (py_strip s)) = Inr True"
    using accept_event_True [OF ev(2)] s(5) by auto
  then show ?thesis using s by (auto simp: head_matches_True)
qed

text \<open>
  C12: A release by acceptance always rests on an accept given since the evidence was last
  withdrawn: however a ticket without verdicts lives on, when its accepts release the tickets
  that wait on it, somebody who was not its author at that time accepted exactly the full commit that is its review
  head, after the last submission, reopening or request for a revision.
\<close>

theorem release_needs_a_fresh_accept:
  assumes "verdict_step\<^sup>*\<^sup>* (t0, []) (t, log)" "bindE (py_get t0 ''review_events'') py_items = Inr []"
    and "structured_accept t = Inr True"
  shows "\<exists>r ow s. (r, ow, s) \<in> set log \<and> r \<noteq> [] \<and> r \<noteq> ow \<and> full_sha s \<and> clean_head t = Inr s"
proof -
  have "evidence_logged (t0, [])" using assms(2) by (simp add: evidence_logged_def)
  then show ?thesis using steps_keep_evidence [OF assms(1)] logged_accept_releases assms(3) by blast
qed

section \<open>Witnesses\<close>

definition demo_head :: string where
  "demo_head = replicate 40 CHR ''a''"

definition demo_ticket :: json where
  "demo_ticket = JObj [(''id'', JStr ''T-7''), (''status'', JStr ''review''), (''owner'', JStr ''ann''),
     (''review_head'', JStr demo_head)]"

definition demo_accept :: json where
  "demo_accept = make_event Accept ''rob'' demo_head ''read it'' [] ''2025-01-01''"

definition demo_accepted :: json where
  "demo_accepted = py_set ''review_events'' (JArr [demo_accept]) demo_ticket"

definition demo_reject :: json where
  "demo_reject = make_event Reject ''rob'' demo_head [] ''it breaks'' ''2025-01-02''"

definition demo_rejected :: json where
  "demo_rejected = py_set ''review_events'' (JArr [demo_accept, demo_reject]) demo_ticket"

lemma demo_life:
  "apply_verdict demo_ticket ''rob'' demo_head Accept ''read it'' [] ''2025-01-01'' True = Inr (Inr (demo_accept, demo_accepted))"
  "apply_verdict demo_accepted ''rob'' demo_head Reject [] ''it breaks'' ''2025-01-02'' False = Inr (Inr (demo_reject, demo_rejected))"
  "bindE (py_get demo_ticket ''review_events'') py_items = Inr []"
  "py_get_text demo_ticket ''owner'' = Inr ''ann''" "clean_head demo_ticket = Inr demo_head" "full_sha demo_head"
  "structured_accept demo_ticket = Inr False" "structured_accept demo_accepted = Inr True"
  by code_simp+

theorem verdict_recorded_exactly_when_allowed_witness:
  "\<not> (\<exists>r. apply_verdict demo_ticket ''ann'' demo_head Accept ''mine'' [] ''2025-01-01'' True = Inr (Inr r))"
proof
  assume "\<exists>r. apply_verdict demo_ticket ''ann'' demo_head Accept ''mine'' [] ''2025-01-01'' True = Inr (Inr r)"
  then obtain ev t' where "apply_verdict demo_ticket ''ann'' demo_head Accept ''mine'' [] ''2025-01-01'' True = Inr (Inr (ev, t'))"
    by auto
  then show False
    unfolding verdict_recorded_exactly_when_allowed [OF demo_life(3)] using demo_life(4) by auto
qed

theorem full_head_accept_releases_witness:
  "dep_released (py_set ''status'' (JStr ''done'') demo_accepted) = Inr True"
  using full_head_accept_releases [OF demo_life(1,7,5)] demo_life(6) by blast

theorem reject_keeps_the_release_witness:
  "\<exists>author t. return_to_author_for_revision demo_rejected ''rob'' ''it breaks'' demo_head ''reject'' ''2025-01-02'' = Inr (author, t)
     \<and> dep_released (py_set ''status'' (JStr ''done'') t) = Inr True"
proof -
  have "isl (return_to_author_for_revision demo_rejected ''rob'' ''it breaks'' demo_head ''reject'' ''2025-01-02'') = False"
    by code_simp
  then obtain author t where
    "return_to_author_for_revision demo_rejected ''rob'' ''it breaks'' demo_head ''reject'' ''2025-01-02'' = Inr (author, t)"
    by (cases "return_to_author_for_revision demo_rejected ''rob'' ''it breaks'' demo_head ''reject'' ''2025-01-02''") auto
  then show ?thesis using reject_keeps_the_release [OF demo_life(8,2)] by blast
qed

theorem release_needs_a_fresh_accept_witness:
  "\<exists>r ow s. (r, ow, s) \<in> {(''rob'', ''ann'', demo_head)} \<and> r \<noteq> [] \<and> r \<noteq> ow \<and> full_sha s
     \<and> clean_head demo_accepted = Inr s"
proof -
  have texts: "py_strip ''rob'' = ''rob''" "py_strip ''ann'' = ''ann''" "normalize_sha demo_head = demo_head"
    by code_simp+
  have "verdict_step\<^sup>*\<^sup>* (demo_ticket, []) (demo_accepted, [(''rob'', ''ann'', demo_head)])"
    using verdict_step.accepts [OF demo_life(1,4)] by (auto simp: texts)
  from release_needs_a_fresh_accept [OF this demo_life(3,8)] show ?thesis by simp
qed

end
