(* ===== verification/Gate_Guarantees.thy ===== *)
theory Gate_Guarantees
  imports File_Board Verdict_Life
begin

text \<open>
  The guarantees of the file board: a writer whose ownership generation is behind the file
  never overwrites it, a claim waits for the acceptance of everything the ticket depends on
  and leaves its owner with one active ticket, and the reconciliation opens a waiting ticket
  only when nothing unreleased is left before it.
\<close>

section \<open>Files\<close>

lemma put_file_map: "map_of (fb_files (put_file n t b)) = (map_of (fb_files b))(n \<mapsto> t)"
  by (simp add: put_file_def update_conv')

lemma put_file_locks [simp]: "fb_locks (put_file n t b) = fb_locks b"
  by (simp add: put_file_def)

lemma unlink_files [simp]: "fb_files (unlink_lock n b) = fb_files b"
  by (simp add: unlink_lock_def)

lemma has_lock_put [simp]: "has_lock m (put_file n t b) = has_lock m b"
  by (simp add: has_lock_def)

lemma has_lock_unlink: "has_lock m (unlink_lock n b) \<longleftrightarrow> m \<noteq> n \<and> has_lock m b"
  by (simp add: has_lock_def unlink_lock_def delete_conv')

lemma load_all_files: "fb_files b' = fb_files b \<Longrightarrow> load_all b' = load_all b"
  by (simp add: load_all_def)

lemma load_all_put: "set (load_all (put_file n t b)) \<subseteq> insert t (set (load_all b))"
proof -
  have "set (AList.update n t xs) \<subseteq> insert (n, t) (set xs)" for xs :: "(string \<times> json) list"
    by (induction xs) auto
  then show ?thesis by (fastforce simp: load_all_def put_file_def)
qed

section \<open>Publication\<close>

lemma publish_Inr:
  assumes "publish at t expected b = (Inr t1, b')"
  obtains n gate where "is_dict t" "t1 = py_set ''updated'' (JStr at) t" "ticket_name t1 = Inr n"
    "b' = put_file n t1 b"
    "gate_applies (case map_of (fb_files b) n of None \<Rightarrow> JObj [] | Some c \<Rightarrow> c) t1 = Inr gate"
    "gate \<Longrightarrow> refuse_unreleased_deps t1 (load_all b) False = Inr None"
    "\<And>c. map_of (fb_files b) n = Some c \<Longrightarrow> truthy c \<Longrightarrow> generation_publish_error c t1 expected = Inr None"
  using assms
  by (fastforce simp: publish_def Let_def result_simps split: if_splits option.splits)

lemma generation_publish_None:
  "generation_publish_error c t expected = Inr None \<Longrightarrow>
     owner_generation c = Inr g \<Longrightarrow> owner_generation t = Inr k \<Longrightarrow> g = 0 \<or> g \<le> k"
  by (auto simp: generation_publish_error_def stale_write_error_def result_simps split: if_splits option.splits)

lemma or_empty_get: "is_dict t \<Longrightarrow> py_get (or_empty t) k = py_get t k"
  by (cases t) (auto simp: or_empty_def py_or_def)

lemma owner_generation_get:
  "is_dict t \<Longrightarrow> is_dict t' \<Longrightarrow> py_get t' ''owner_generation'' = py_get t ''owner_generation''
    \<Longrightarrow> owner_generation t' = owner_generation t"
  by (simp add: owner_generation_def or_empty_get)

lemma owner_generation_set:
  "is_dict t \<Longrightarrow> k \<noteq> ''owner_generation'' \<Longrightarrow> owner_generation (py_set k v t) = owner_generation t"
  by (rule owner_generation_get) (simp_all add: py_get_set)

lemma py_index_set: "is_dict t \<Longrightarrow> py_index (py_set k v t) j = (if j = k then Inr v else py_index t j)"
proof (cases t)
  case (JObj kvs)
  have "\<exists>xs. py_set k v t = JObj xs \<and> map_of xs = (map_of kvs)(k \<mapsto> v)"
  proof (cases "k \<in> fst ` set kvs")
    case True
    then obtain y where "map_of kvs k = Some y" by (metis map_of_eq_None_iff option.exhaust)
    then show ?thesis using True by (auto simp: JObj map_of_map_snd_if fun_eq_iff)
  next
    case False
    then have "map_of kvs k = None" by (simp add: map_of_eq_None_iff)
    then show ?thesis using False by (auto simp: JObj map_add_def fun_eq_iff split: option.splits)
  qed
  then obtain xs where xs: "py_set k v t = JObj xs" "map_of xs = (map_of kvs)(k \<mapsto> v)" by blast
  show ?thesis unfolding xs(1) by (simp add: xs(2) JObj)
qed simp_all

lemma ticket_name_set: "is_dict t \<Longrightarrow> k \<noteq> ''id'' \<Longrightarrow> ticket_name (py_set k v t) = ticket_name t"
  by (simp add: ticket_name_def py_index_set)

lemma positive_truthy: "owner_generation c = Inr g \<Longrightarrow> 0 < g \<Longrightarrow> truthy c"
  by (rule ccontr) (simp add: owner_generation_def or_empty_def py_or_def)

text \<open>One write of anybody: a publication, or a change of the claim locks.\<close>

inductive board_write :: "fboard \<Rightarrow> fboard \<Rightarrow> bool" where
  published: "publish at t expected b = (Inr t1, b') \<Longrightarrow> board_write b b'"
| locked: "fb_files b' = fb_files b \<Longrightarrow> board_write b b'"

definition at_generation :: "string \<Rightarrow> int \<Rightarrow> fboard \<Rightarrow> bool" where
  "at_generation tid g b \<longleftrightarrow>
     (\<exists>c h. map_of (fb_files b) tid = Some c \<and> owner_generation c = Inr h \<and> g \<le> h)"

lemma owner_generation_Inr: "is_dict t \<Longrightarrow> \<exists>k. owner_generation t = Inr k"
  by (cases t) (auto simp: owner_generation_def or_empty_def py_or_def)

lemma write_keeps_generation:
  assumes "board_write b b'" "at_generation tid g b" "0 < g"
  shows "at_generation tid g b'"
  using assms
proof (induction rule: board_write.induct)
  case (published at t expected b t1 b')
  obtain c h where c: "map_of (fb_files b) tid = Some c" "owner_generation c = Inr h" "g \<le> h"
    using published.prems by (auto simp: at_generation_def)
  show ?case using published.hyps
  proof (rule publish_Inr)
    fix n gate
    assume p: "is_dict t" "t1 = py_set ''updated'' (JStr at) t" "b' = put_file n t1 b"
      and check: "\<And>c. map_of (fb_files b) n = Some c \<Longrightarrow> truthy c \<Longrightarrow> generation_publish_error c t1 expected = Inr None"
    show "at_generation tid g b'"
    proof (cases "n = tid")
      case True
      obtain k where k: "owner_generation t1 = Inr k" using owner_generation_Inr [of t1] p by auto
      have "truthy c" using positive_truthy c published.prems(2) by fastforce
      then have "h = 0 \<or> h \<le> k" using generation_publish_None [OF check c(2) k] True c(1) by simp
      then show ?thesis using True k c published.prems(2) by (auto simp: at_generation_def p put_file_map)
    qed (use c in \<open>auto simp: at_generation_def p put_file_map\<close>)
  qed
next
  case (locked b' b)
  then show ?case by (simp add: at_generation_def)
qed

lemma writes_keep_generation:
  "board_write\<^sup>*\<^sup>* b b' \<Longrightarrow> at_generation tid g b \<Longrightarrow> 0 < g \<Longrightarrow> at_generation tid g b'"
  by (induction rule: rtranclp_induct) (auto intro: write_keeps_generation)

text \<open>
  C16: A worker that was fenced off never overwrites the ticket: once the file of a ticket is at a
  generation, then whatever anybody publishes afterwards, a publication of an object that
  still carries a lower generation is stopped and changes nothing.
\<close>

theorem stale_worker_never_writes:
  assumes "map_of (fb_files b) tid = Some c" "owner_generation c = Inr g" "0 < g"
    and "board_write\<^sup>*\<^sup>* b b'"
    and "is_dict t" "ticket_name t = Inr tid" "owner_generation t = Inr k" "k < g"
  shows "\<exists>e. publish at t expected b' = (Inl e, b')"
proof (rule ccontr)
  assume no: "\<nexists>e. publish at t expected b' = (Inl e, b')"
  have stays: "snd (publish at t expected b') = b'" if "fst (publish at t expected b') = Inl e" for e
    using that by (auto simp: publish_def Let_def bindC_def tryC_def pureC_def split: sum.splits if_splits prod.splits)
  obtain t1 b2 where p: "publish at t expected b' = (Inr t1, b2)"
    using no stays by (cases "publish at t expected b'"; cases "fst (publish at t expected b')") auto
  obtain c' h where c': "map_of (fb_files b') tid = Some c'" "owner_generation c' = Inr h" "g \<le> h"
    using writes_keep_generation [OF assms(4), of tid g] assms(1-3) by (auto simp: at_generation_def)
  have name: "ticket_name (py_set ''updated'' (JStr at) t) = Inr tid"
    using assms(5,6) by (simp add: ticket_name_set)
  from p show False
  proof (rule publish_Inr)
    fix n gate
    assume "t1 = py_set ''updated'' (JStr at) t" "ticket_name t1 = Inr n"
      and check: "\<And>c. map_of (fb_files b') n = Some c \<Longrightarrow> truthy c \<Longrightarrow> generation_publish_error c t1 expected = Inr None"
    moreover have "owner_generation (py_set ''updated'' (JStr at) t) = Inr k"
      using assms(5,7) by (simp add: owner_generation_set)
    moreover have "truthy c'" using positive_truthy c'(2,3) assms(3) by fastforce
    ultimately show False using generation_publish_None [OF check c'(2)] name c'(1,3) assms(3,8) by fastforce
  qed
qed

section \<open>Claims\<close>

lemma first_unreleased_none:
  "first_unreleased ix False (map JStr ds) = Inr pred \<Longrightarrow> \<not> truthy pred \<Longrightarrow> [] \<notin> set ds \<Longrightarrow>
     \<forall>d \<in> set ds. \<exists>p. map_of ix (JStr d) = Some p \<and> dep_released p = Inr True"
  by (induction ds) (auto simp: result_simps split: option.splits if_splits)

text \<open>Everything the ticket depends on is a released ticket of the board.\<close>

definition deps_released :: "json \<Rightarrow> json list \<Rightarrow> bool" where
  "deps_released t ts \<longleftrightarrow>
     (\<exists>ix. index_by_id ts = Inr ix \<and> (\<forall>ds. py_get t ''deps'' = Inr (JArr (map JStr ds)) \<longrightarrow> [] \<notin> set ds \<longrightarrow>
        (\<forall>d \<in> set ds. \<exists>p. map_of ix (JStr d) = Some p \<and> dep_released p = Inr True)))"

lemma unreleased_none:
  assumes "unreleased_dep_id t ts False = Inr pred" "\<not> truthy pred"
  shows "deps_released t ts"
proof -
  obtain ix where ix: "index_by_id ts = Inr ix"
    and first: "bindE (bindE (py_get t ''deps'') py_items) (first_unreleased ix False) = Inr pred"
    using assms(1) by (auto simp: unreleased_dep_id_def result_simps)
  show ?thesis unfolding deps_released_def
  proof (intro exI [of _ ix] conjI allI impI)
    fix ds assume "py_get t ''deps'' = Inr (JArr (map JStr ds))" "[] \<notin> set ds"
    then show "\<forall>d \<in> set ds. \<exists>p. map_of ix (JStr d) = Some p \<and> dep_released p = Inr True"
      using first_unreleased_none [OF _ assms(2)] first by simp
  qed (rule ix)
qed

lemma refuse_unreleased_None:
  "refuse_unreleased_deps t ts only = Inr None \<Longrightarrow> \<exists>pred. unreleased_dep_id t ts only = Inr pred \<and> \<not> truthy pred"
  by (auto simp: refuse_unreleased_deps_def result_simps split: if_splits)

lemma issue_get:
  assumes "issue_owner_lease t owner h reason prev at = Inr t1"
  shows "is_dict t" and "is_dict t1"
    and "k \<notin> {''owner_generation'', ''revoked_owners'', ''owner_lease''} \<Longrightarrow> py_get t1 k = py_get t k"
    and "k \<notin> {''owner_generation'', ''revoked_owners'', ''owner_lease''} \<Longrightarrow> py_index t1 k = py_index t k"
    and "owner_generation t = Inr g \<Longrightarrow> owner_generation t1 = Inr (g + 1)"
proof -
  obtain g0 rev lease where t: "is_dict t" "owner_generation t = Inr g0"
    and t1: "t1 = py_set ''owner_lease'' lease (py_set ''revoked_owners'' rev (py_set ''owner_generation'' (JInt (g0 + 1)) t))"
    using assms by (auto simp: issue_owner_lease_def Let_def result_simps split: if_splits)
  show "is_dict t" "is_dict t1" using t t1 by simp_all
  show "k \<notin> {''owner_generation'', ''revoked_owners'', ''owner_lease''} \<Longrightarrow> py_get t1 k = py_get t k"
    "k \<notin> {''owner_generation'', ''revoked_owners'', ''owner_lease''} \<Longrightarrow> py_index t1 k = py_index t k"
    using t(1) by (simp_all add: t1 py_get_set py_index_set)
  have "owner_generation (py_set ''owner_generation'' (JInt n) t) = Inr n" for n
    using t(1) by (cases "n = 0") (simp_all add: owner_generation_def or_empty_get py_get_set py_or_def)
  then show "owner_generation t = Inr g \<Longrightarrow> owner_generation t1 = Inr (g + 1)"
    using t by (simp add: t1 owner_generation_set)
qed

lemma save_not_done:
  assumes "save d who at t e b = (Inr got, b')" "py_get t ''status'' = Inr st" "st \<noteq> JStr ''done''"
  shows "publish at t e b = (Inr got, b')"
proof (cases d)
  case (Suc n)
  then obtain t1 b1 rel where p: "publish at t e b = (Inr t1, b1)" and rel: "dep_released t1 = Inr rel"
    and rest: "(if \<not> rel then retC t1 else bindC (tryC (ticket_name t1)) (\<lambda>tid.
            bindC (reopen_unverified_successors (\<lambda>c. save n who at c JNull) who at tid [] []) (\<lambda>_.
              retC t1))) b1 = (Inr got, b')"
    using assms(1) by (auto simp: bindC_Inr tryC_Inr)
  have "py_get t1 ''status'' = Inr st"
    using p by (rule publish_Inr) (simp add: py_get_set assms(2))
  then have "\<not> rel" using rel assms(3) by (auto simp: dep_released_def)
  then show ?thesis using p rest by (simp add: retC_Inr)
qed (use assms in \<open>simp add: pureC_def\<close>)

lemma try_claim_Inr:
  assumes "try_claim d who h at tid owner b = (Inr (Some got), b')"
  obtains t ow t1 where "\<not> has_lock tid b" "map_of (fb_files b) tid = Some t"
    "py_index t ''status'' = Inr (JStr ''open'')" "refuse_unreleased_deps t (load_all b) False = Inr None"
    "issue_owner_lease (claim_fields owner at t) owner h ''claim'' ow at = Inr t1"
    "save d who at t1 JNull (b\<lparr>fb_locks := AList.update tid owner (fb_locks b)\<rparr>) = (Inr got, b')"
proof -
  let ?b = "b\<lparr>fb_locks := AList.update tid owner (fb_locks b)\<rparr>"
  have same: "load_all ?b = load_all b" by (rule load_all_files) simp
  have nl: "\<not> has_lock tid b" using assms by (auto simp: try_claim_def)
  then obtain t b1 where t: "load_file tid ?b = (Inr t, b1)" and rest: "bindC (tryC (py_index t ''status'')) (\<lambda>st.
             if st \<noteq> JStr ''open'' then (\<lambda>b. (Inr None, unlink_lock tid b))
             else bindC (\<lambda>b. (lift (refuse_unreleased_deps t (load_all b) False), b)) (\<lambda>r. case r of
                    Some e \<Rightarrow> (\<lambda>b. (Inl (Refused e), unlink_lock tid b))
                  | None \<Rightarrow>
                      bindC (tryC (py_get t ''owner'')) (\<lambda>ow.
                      bindC (tryC (issue_owner_lease (claim_fields owner at t) owner h ''claim''
                                    (py_or ow (JStr [])) at)) (\<lambda>t1.
                      bindC (save d who at t1 JNull) (\<lambda>got. retC (Some got)))))) b1 = (Inr (Some got), b')"
    using assms by (auto simp: try_claim_def bindC_Inr)
  have t': "map_of (fb_files b) tid = Some t" "b1 = ?b"
    using t by (auto simp: load_file_def split: option.splits)
  obtain st where st: "py_index t ''status'' = Inr st" using rest by (auto simp: bindC_Inr tryC_Inr)
  then have "st = JStr ''open''" using rest by (auto simp: bindC_Inr tryC_Inr split: if_splits)
  then show thesis using that nl t'(1) st rest
    by (auto simp: bindC_Inr tryC_Inr retC_Inr lift_Inr t'(2) same split: option.splits)
qed

lemma py_index_get: "py_index t k = Inr v \<Longrightarrow> is_dict t \<and> py_get t k = Inr v"
  by (cases t) (auto split: option.splits)

lemma claim_fields_get:
  assumes "is_dict t"
  shows "py_get (claim_fields owner at t) k = (if k = ''done_at'' then Inr (JStr []) else if k = ''claimed_at'' then Inr (JStr at)
      else if k = ''owner'' then Inr (JStr owner) else if k = ''status'' then Inr (JStr ''claimed'') else py_get t k)"
    and "k \<notin> {''done_at'', ''claimed_at'', ''owner'', ''status''} \<Longrightarrow> py_index (claim_fields owner at t) k = py_index t k"
    and "is_dict (claim_fields owner at t)" and "owner_generation (claim_fields owner at t) = owner_generation t"
  using assms by (simp_all add: claim_fields_def py_get_set py_index_set owner_generation_set)

text \<open>What a successful claim found and left.\<close>

lemma claimed_board:
  assumes ok: "try_claim d who h at tid owner b = (Inr (Some got), b')"
    and named: "\<forall>(n, t) \<in> set (fb_files b). py_index t ''id'' = Inr (JStr n)"
  shows "\<exists>t g. map_of (fb_files b) tid = Some t \<and> py_get t ''status'' = Inr (JStr ''open'')
      \<and> deps_released t (load_all b) \<and> owner_generation t = Inr g \<and> owner_generation got = Inr (g + 1)"
    and "py_get got ''status'' = Inr (JStr ''claimed'')" and "py_get got ''owner'' = Inr (JStr owner)"
    and "py_get got ''id'' = Inr (JStr tid)"
    and "b' = put_file tid got (b\<lparr>fb_locks := AList.update tid owner (fb_locks b)\<rparr>)"
    and "\<not> has_lock tid b"
proof -
  let ?b = "b\<lparr>fb_locks := AList.update tid owner (fb_locks b)\<rparr>"
  obtain t ow t1 where nl: "\<not> has_lock tid b" and t: "map_of (fb_files b) tid = Some t"
    "py_index t ''status'' = Inr (JStr ''open'')" and ref: "refuse_unreleased_deps t (load_all b) False = Inr None"
    and iss: "issue_owner_lease (claim_fields owner at t) owner h ''claim'' ow at = Inr t1"
    and sv: "save d who at t1 JNull ?b = (Inr got, b')"
    using ok by (rule try_claim_Inr)
  have i: "py_index t ''id'' = Inr (JStr tid)" using named map_of_SomeD [OF t(1)] by blast
  have dt: "is_dict t" "py_get t ''status'' = Inr (JStr ''open'')" using py_index_get [OF t(2)] by simp_all
  have t1: "py_get t1 ''status'' = Inr (JStr ''claimed'')" "py_get t1 ''owner'' = Inr (JStr owner)"
    "py_index t1 ''id'' = Inr (JStr tid)" "is_dict t1"
    using issue_get [OF iss] i by (simp_all add: claim_fields_get dt)
  obtain g where g: "owner_generation t = Inr g" using owner_generation_Inr [OF dt(1)] by blast
  have g1: "owner_generation t1 = Inr (g + 1)" using issue_get(5) [OF iss] g by (simp add: claim_fields_get dt)
  have p: "publish at t1 JNull ?b = (Inr got, b')" by (rule save_not_done [OF sv t1(1)]) simp
  obtain n where got: "got = py_set ''updated'' (JStr at) t1" "ticket_name got = Inr n" "b' = put_file n got ?b"
    using p by (rule publish_Inr)
  have n: "n = tid" using got t1(3,4) by (simp add: ticket_name_def py_index_set)
  show "py_get got ''status'' = Inr (JStr ''claimed'')" "py_get got ''owner'' = Inr (JStr owner)"
    "py_get got ''id'' = Inr (JStr tid)"
    using t1 py_index_get [OF t1(3)] by (simp_all add: got(1) py_get_set)
  show "b' = put_file tid got ?b" using got n by simp
  show "\<not> has_lock tid b" by (rule nl)
  have "deps_released t (load_all b)" using refuse_unreleased_None [OF ref] unreleased_none by blast
  moreover have "owner_generation got = Inr (g + 1)" using t1(4) g1 by (simp add: got(1) owner_generation_set)
  ultimately show "\<exists>t g. map_of (fb_files b) tid = Some t \<and> py_get t ''status'' = Inr (JStr ''open'')
      \<and> deps_released t (load_all b) \<and> owner_generation t = Inr g \<and> owner_generation got = Inr (g + 1)"
    using t(1) dt(2) g by blast
qed

text \<open>
  C14: A claim waits for acceptance: a ticket is handed to a seat only when nobody holds its claim
  lock, its file is open, and every ticket it depends on is on the board and released (done
  with an accept or merge of its review head, or an override). The claimed file then names the
  new owner under the next ownership generation and the lock is taken, so every other
  attempt comes away empty.
\<close>

theorem claim_waits_for_acceptance:
  assumes "try_claim d who h at tid owner b = (Inr (Some got), b')"
    and "\<forall>(n, t) \<in> set (fb_files b). py_index t ''id'' = Inr (JStr n)"
  shows "(\<exists>t g. map_of (fb_files b) tid = Some t \<and> py_get t ''status'' = Inr (JStr ''open'')
      \<and> deps_released t (load_all b) \<and> owner_generation t = Inr g \<and> owner_generation got = Inr (g + 1))
    \<and> py_get got ''status'' = Inr (JStr ''claimed'') \<and> py_get got ''owner'' = Inr (JStr owner)
    \<and> map_of (fb_files b') tid = Some got
    \<and> (\<forall>d who h at other. try_claim d who h at tid other b' = (Inr None, b'))"
  using claimed_board [OF assms]
  by (simp add: put_file_map try_claim_def has_lock_def update_conv')

lemma filterE_none:
  "\<forall>x \<in> set xs. p x = Inr False \<Longrightarrow> filterE p xs = Inr []"
  by (induction xs) auto

lemma filterE_Nil: "filterE p xs = Inr [] \<Longrightarrow> x \<in> set xs \<Longrightarrow> p x = Inr False"
  by (induction xs) (auto simp: result_simps split: if_splits)

text \<open>
  C15: A seat works on one ticket at a time: a claim without \<open>--another\<close> that succeeds leaves the
  claimed ticket as the only one the board shows as claimed by that seat, and a seat that
  already holds one is told which and gets nothing.
\<close>

theorem one_active_ticket:
  assumes named: "\<forall>(n, t) \<in> set (fb_files b). py_index t ''id'' = Inr (JStr n)"
    and held: "held_claimed owner tid b = Inr held" and seat: "owner \<noteq> []"
    and res: "try_claim_one_active d who h at tid owner False b = (Inr (got, others), b')"
  shows "(held \<noteq> [] \<longrightarrow> got = None \<and> others = held \<and> b' = b)
    \<and> (got \<noteq> None \<longrightarrow> (\<forall>t \<in> set (load_all b'). holds owner tid t = Inr False))"
proof (cases "held = []")
  case True
  then have others: "holds owner tid t = Inr False" if "t \<in> set (load_all b)" for t
    using held seat that filterE_Nil by (fastforce simp: held_claimed_def)
  have "holds owner tid t = Inr False" if g: "got = Some g" and t: "t \<in> set (load_all b')" for g t
  proof -
    have ok: "try_claim d who h at tid owner b = (Inr (Some g), b')"
      using res True held g by (auto simp: try_claim_one_active_def bindC_Inr retC_Inr lift_Inr)
    note c = claimed_board [OF ok named]
    have "t = g \<or> t \<in> set (load_all (b\<lparr>fb_locks := AList.update tid owner (fb_locks b)\<rparr>))"
      using t load_all_put unfolding c(5) by blast
    then show ?thesis using others c(2-4) by (auto simp: holds_def load_all_def)
  qed
  then show ?thesis using True by auto
next
  case False
  then show ?thesis using res held by (auto simp: try_claim_one_active_def bindC_Inr retC_Inr lift_Inr)
qed

section \<open>Opening the tickets that wait\<close>

lemma ticket_name_iff: "ticket_name t = Inr n \<longleftrightarrow> py_get t ''id'' = Inr (JStr n)"
proof (cases t)
  case (JObj kvs)
  show ?thesis
  proof (cases "map_of kvs ''id''")
    case (Some v)
    then show ?thesis by (cases v) (simp_all add: JObj ticket_name_def)
  qed (simp add: JObj ticket_name_def)
qed (simp_all add: ticket_name_def)

lemma ungate_get:
  assumes "ungate gated pred c = Inr c1" "is_dict c"
  shows "is_dict c1" and "k \<notin> {''notes'', ''unverified_block''} \<Longrightarrow> py_get c1 k = py_get c k"
  using assms
  by (auto simp: ungate_def drop_unverified_gate_notes_def result_simps py_get_set py_get_pop split: if_splits)

lemma retire_get:
  assumes "retire_stale_gated_start at c b = (Inr c2, b2)"
  shows "is_dict c2" and "py_get c2 ''owner'' = Inr (JStr [])"
    and "k \<notin> {''owner'', ''claimed_at'', ''owner_generation'', ''revoked_owners'', ''owner_lease''} \<Longrightarrow> py_get c2 k = py_get c k"
    and "\<exists>n. py_get c ''id'' = Inr (JStr n) \<and> b2 = unlink_lock n b"
proof -
  obtain ow c1 n where ow: "py_get c ''owner'' = Inr ow"
    and c1: "(if truthy (py_or ow (JStr [])) then issue_owner_lease c [] [] ''dependency released'' (py_or ow (JStr [])) at else Inr c) = Inr c1"
    and n: "ticket_name (py_pop ''claimed_at'' (py_set ''owner'' (JStr []) c1)) = Inr n"
    and c2: "c2 = py_pop ''claimed_at'' (py_set ''owner'' (JStr []) c1)" "b2 = unlink_lock n b"
    using assms by (auto simp: retire_stale_gated_start_def Let_def bindC_Inr tryC_Inr)
  have d: "is_dict c" using ow by (cases c) auto
  have c1: "is_dict c1" "k \<notin> {''owner_generation'', ''revoked_owners'', ''owner_lease''} \<Longrightarrow> py_get c1 k = py_get c k" for k
    using c1 d issue_get by (auto split: if_splits)
  show "is_dict c2" "py_get c2 ''owner'' = Inr (JStr [])"
    "k \<notin> {''owner'', ''claimed_at'', ''owner_generation'', ''revoked_owners'', ''owner_lease''} \<Longrightarrow> py_get c2 k = py_get c k"
    using c1 by (simp_all add: c2 py_get_pop py_get_set)
  show "\<exists>n. py_get c ''id'' = Inr (JStr n) \<and> b2 = unlink_lock n b"
    using n c1 by (auto simp: c2 ticket_name_iff py_get_pop py_get_set)
qed

lemma settle_opened:
  assumes "settle_child who at c ts = Inr (True, c3)" "is_dict c"
  shows "c3 = py_set ''status'' (JStr ''open'') c" and "deps_released c3 ts"
  using assms unreleased_none
  by (auto simp: settle_child_def Let_def result_simps split: if_splits json.splits)

lemma settle_get:
  assumes "settle_child who at c ts = Inr (opened, c3)" "is_dict c"
  shows "is_dict c3" and "py_get c3 ''status'' = Inr (JStr (if opened then ''open'' else ''blocked''))"
    and "k \<notin> {''status'', ''unverified_block'', ''notes''} \<Longrightarrow> py_get c3 k = py_get c k"
proof -
  let ?c1 = "py_set ''status'' (JStr ''open'') c"
  have "opened \<and> c3 = ?c1 \<or> (\<exists>n v. \<not> opened \<and>
      add_note n (py_set ''unverified_block'' v (py_set ''status'' (JStr ''blocked'') ?c1)) = Inr c3)"
    using assms(1) by (auto simp: settle_child_def Let_def result_simps split: if_splits json.splits)
  then show "is_dict c3" "py_get c3 ''status'' = Inr (JStr (if opened then ''open'' else ''blocked''))"
    "k \<notin> {''status'', ''unverified_block'', ''notes''} \<Longrightarrow> py_get c3 k = py_get c k"
    using add_note_get assms(2) by (auto simp: py_get_set)
qed

lemma add_note_once_get:
  assumes "add_note_once who at x c = Inr c'" "is_dict c"
  shows "is_dict c'" and "k \<noteq> ''notes'' \<Longrightarrow> py_get c' k = py_get c k"
  using assms add_note_get by (auto simp: add_note_once_def result_simps split: if_splits)

lemma deps_released_frame: "py_get t' ''deps'' = py_get t ''deps'' \<Longrightarrow> deps_released t ts \<Longrightarrow> deps_released t' ts"
  by (simp add: deps_released_def)

text \<open>One turn of the loop on a ticket that never started: what it writes.\<close>

lemma reopen_child_never:
  assumes run: "reopen_child (\<lambda>c. save depth who at c JNull) who at pred finished sha seat cid b = (Inr out, b')"
    and child: "map_of (fb_files b) cid = Some child" "is_gated finished child = Inr gated"
      "py_get child ''status'' = Inr st" "py_get child ''owner'' = Inr ow" "ticket_name child = Inr tid"
    and go: "never_started gated st" "gated \<or> truthy ow \<or> has_lock tid b"
  obtains opened c2 c3 got where "is_dict c2" "settle_child who at c2 (load_all b) = Inr (opened, c3)"
    "py_get got ''status'' = Inr (JStr (if opened then ''open'' else ''blocked''))" "py_get got ''owner'' = Inr (JStr [])"
    "py_get got ''deps'' = py_get c3 ''deps''"
    "b' = put_file tid got (unlink_lock tid b)" "out = (if opened then [tid] else [])"
proof -
  have d: "is_dict child" using child(3) by (cases child) auto
  obtain c1 c2 opened c3 b1 c4 got x where c1: "ungate gated finished child = Inr c1"
    and c2: "retire_stale_gated_start at c1 b = (Inr c2, b1)" and c3: "settle_child who at c2 (load_all b1) = Inr (opened, c3)"
    and c4: "add_note_once who at x c3 = Inr c4" and sv: "save depth who at c4 JNull b1 = (Inr got, b')"
    and out: "out = (if opened then [tid] else [])"
    using run go child
    by (auto simp: reopen_child_def load_file_def Let_def bindC_Inr tryC_Inr retC_Inr result_simps split: prod.splits)
  note u = ungate_get [OF c1 d] and r = retire_get [OF c2]
  have i: "py_get c1 ''id'' = Inr (JStr tid)" using u(2) child(5) by (simp add: ticket_name_iff)
  have b1: "b1 = unlink_lock tid b" using r(4) i by auto
  note s = settle_get [OF c3 r(1)]
  note a = add_note_once_get [OF c4 s(1)]
  have p: "publish at c4 JNull b1 = (Inr got, b')"
    by (rule save_not_done [OF sv, of "JStr (if opened then ''open'' else ''blocked'')"]) (simp_all add: a(2) s(2))
  obtain n where got: "got = py_set ''updated'' (JStr at) c4" "ticket_name got = Inr n" "b' = put_file n got b1"
    using p by (rule publish_Inr)
  have g: "py_get got k = py_get c3 k" if "k \<notin> {''notes'', ''updated''}" for k
    using that a by (simp add: got(1) py_get_set)
  have n: "n = tid" using got(2) g s(3) r(3) i by (simp add: ticket_name_iff)
  have files: "load_all b1 = load_all b" by (rule load_all_files) (simp add: b1)
  show thesis
    by (rule that [of c2 opened c3 got])
      (use r(1,2) c3 g s got(3) out in \<open>simp_all add: b1 n files [unfolded b1]\<close>)
qed

lemma reopen_child_opened:
  assumes "reopen_child save_child who at pred finished sha seat cid b = (Inr (t0 # rest), b')"
  obtains child gated st ow tid where "map_of (fb_files b) cid = Some child" "is_gated finished child = Inr gated"
      "py_get child ''status'' = Inr st" "py_get child ''owner'' = Inr ow" "ticket_name child = Inr tid"
      "never_started gated st" "gated \<or> truthy ow \<or> has_lock tid b"
  using assms
  by (auto simp: reopen_child_def load_file_def Let_def bindC_Inr tryC_Inr retC_Inr result_simps
      split: prod.splits option.splits if_splits)

text \<open>
  C17: The reconciliation opens a waiting ticket only when nothing unreleased is left before it: a
  ticket it answers as opened depends on released tickets alone, and its file is then open,
  without an owner and without a claim lock. No other ticket file is touched on the way.
\<close>

theorem opened_ticket_is_free:
  assumes "reopen_child (\<lambda>c. save depth who at c JNull) who at pred finished sha seat cid b = (Inr (tid # rest), b')"
  shows "rest = [] \<and> \<not> has_lock tid b' \<and>
    (\<exists>c. map_of (fb_files b') tid = Some c \<and> py_get c ''status'' = Inr (JStr ''open'')
       \<and> py_get c ''owner'' = Inr (JStr []) \<and> deps_released c (load_all b)
       \<and> (\<forall>n. n \<noteq> tid \<longrightarrow> map_of (fb_files b') n = map_of (fb_files b) n))"
  using assms
proof (rule reopen_child_opened)
  fix child gated st ow t0
  assume h: "map_of (fb_files b) cid = Some child" "is_gated finished child = Inr gated"
    "py_get child ''status'' = Inr st" "py_get child ''owner'' = Inr ow" "ticket_name child = Inr t0"
    "never_started gated st" "gated \<or> truthy ow \<or> has_lock t0 b"
  obtain opened c2 c3 got where w: "is_dict c2" "settle_child who at c2 (load_all b) = Inr (opened, c3)"
    "py_get got ''status'' = Inr (JStr (if opened then ''open'' else ''blocked''))" "py_get got ''owner'' = Inr (JStr [])"
    "py_get got ''deps'' = py_get c3 ''deps''"
    "b' = put_file t0 got (unlink_lock t0 b)" "tid # rest = (if opened then [t0] else [])"
    by (rule reopen_child_never [OF assms h])
  have o: "opened" "tid = t0" "rest = []" using w(7) by (auto split: if_splits)
  have "deps_released got (load_all b)"
    using deps_released_frame [OF w(5)] settle_opened(2) w(1,2) o(1) by auto
  then show ?thesis using w(3,4,6) o by (auto simp: has_lock_unlink put_file_map)
qed

text \<open>
  C39: The reconciliation takes every blocked ticket with an owner for a start that never
  happened: when a ticket the worker blocked for a reason of their own depends on a released
  one, the next write of that predecessor (a note is enough) takes the ticket from its
  worker, and opens it when nothing else holds it back.
\<close>

theorem own_block_is_lost:
  assumes "reopen_child (\<lambda>c. save depth who at c JNull) who at pred finished sha seat cid b = (Inr out, b')"
    and "map_of (fb_files b) cid = Some child" "is_gated finished child = Inr False"
    and "py_get child ''status'' = Inr (JStr ''blocked'')" "py_get child ''owner'' = Inr (JStr worker)" "worker \<noteq> []"
    and "ticket_name child = Inr tid"
  shows "\<exists>c. map_of (fb_files b') tid = Some c \<and> py_get c ''owner'' = Inr (JStr [])
    \<and> (py_get c ''status'' = Inr (JStr ''open'') \<and> out = [tid]
       \<or> py_get c ''status'' = Inr (JStr ''blocked'') \<and> out = [])"
proof -
  have "never_started False (JStr ''blocked'')" by (simp add: never_started_def)
  moreover have "False \<or> truthy (JStr worker) \<or> has_lock tid b" using assms(6) by simp
  ultimately obtain opened c2 c3 got where
    "py_get got ''status'' = Inr (JStr (if opened then ''open'' else ''blocked''))" "py_get got ''owner'' = Inr (JStr [])"
    "b' = put_file tid got (unlink_lock tid b)" "out = (if opened then [tid] else [])"
    by (rule reopen_child_never [OF assms(1-5,7)])
  then show ?thesis by (cases opened) (simp_all add: put_file_map)
qed

section \<open>Witnesses\<close>

definition demo_parent :: json where
  "demo_parent = py_set ''status'' (JStr ''done'') demo_accepted"

definition demo_child :: json where
  "demo_child = JObj [(''id'', JStr ''T-8''), (''status'', JStr ''open''), (''deps'', JArr [JStr ''T-7''])]"

definition demo_gated :: json where
  "demo_gated = JObj [(''id'', JStr ''T-9''), (''status'', JStr ''blocked''), (''unverified_block'', JStr ''T-7''),
     (''owner'', JStr ''cem''), (''notes'', JArr []), (''deps'', JArr [JStr ''T-7''])]"

definition demo_files :: fboard where
  "demo_files = \<lparr>fb_files = [(''T-7'', demo_parent), (''T-8'', demo_child), (''T-9'', demo_gated)], fb_locks = [(''T-9'', ''cem'')]\<rparr>"

abbreviation demo_try :: "(stop + json option) \<times> fboard" where
  "demo_try \<equiv> try_claim 2 ''bob'' [] ''2025-02-01'' ''T-8'' ''bob'' demo_files"

definition demo_claimed :: json where
  "demo_claimed = (case fst demo_try of Inr (Some t) \<Rightarrow> t | _ \<Rightarrow> JNull)"

lemma demo_named: "\<forall>(n, t) \<in> set (fb_files demo_files). py_index t ''id'' = Inr (JStr n)"
  by code_simp

lemma demo_claims: "demo_try = (Inr (Some demo_claimed), snd demo_try)"
proof -
  have "case fst demo_try of Inr (Some t) \<Rightarrow> True | _ \<Rightarrow> False" by code_simp
  then show ?thesis unfolding demo_claimed_def
    by (cases demo_try) (auto split: sum.splits option.splits)
qed

theorem claim_waits_for_acceptance_witness:
  "py_get demo_claimed ''owner'' = Inr (JStr ''bob'')
     \<and> try_claim 2 ''ann'' [] ''2025-02-01'' ''T-8'' ''ann'' (snd demo_try) = (Inr None, snd demo_try)"
  using claim_waits_for_acceptance [OF demo_claims demo_named] by blast

theorem one_active_ticket_witness:
  "list_all (\<lambda>t. holds ''bob'' ''T-8'' t = Inr False) (load_all (snd demo_try))"
proof -
  have held: "held_claimed ''bob'' ''T-8'' demo_files = Inr []" by code_simp
  have "try_claim_one_active 2 ''bob'' [] ''2025-02-01'' ''T-8'' ''bob'' False demo_files
      = (Inr (Some demo_claimed, []), snd demo_try)"
    unfolding try_claim_one_active_def bindC_def held
    by (simp add: lift_def, subst demo_claims, simp add: retC_def)
  from one_active_ticket [OF demo_named held _ this] show ?thesis by (simp add: list_all_iff)
qed

theorem stale_worker_never_writes_witness:
  "\<exists>e. publish ''2025-02-02'' demo_child JNull (snd demo_try) = (Inl e, snd demo_try)"
proof -
  have f: "map_of (fb_files (snd demo_try)) ''T-8'' = Some demo_claimed" "owner_generation demo_claimed = Inr 1"
    "is_dict demo_child" "ticket_name demo_child = Inr ''T-8''" "owner_generation demo_child = Inr 0"
    by code_simp+
  from stale_worker_never_writes [OF f(1,2) _ rtranclp.rtrancl_refl f(3-5)] show ?thesis by simp
qed

theorem opened_ticket_is_free_witness:
  "\<exists>b c. map_of (fb_files b) ''T-9'' = Some c \<and> py_get c ''status'' = Inr (JStr ''open'')
     \<and> py_get c ''owner'' = Inr (JStr []) \<and> \<not> has_lock ''T-9'' b \<and> deps_released c (load_all demo_files)"
proof -
  let ?run = "reopen_child (\<lambda>c. save 1 ''rob'' ''2025-02-01'' c JNull) ''rob'' ''2025-02-01'' demo_parent ''T-7''
     demo_head ''rob'' ''T-9'' demo_files"
  have "fst ?run = Inr [''T-9'']" by code_simp
  then have "?run = (Inr [''T-9''], snd ?run)" by (metis prod.collapse)
  from opened_ticket_is_free [OF this] show ?thesis by blast
qed

text \<open>A ticket its worker blocked, and a note on the accepted ticket before it.\<close>

definition demo_waiting :: json where
  "demo_waiting = JObj [(''id'', JStr ''T-9''), (''status'', JStr ''blocked''), (''owner'', JStr ''cem''),
     (''notes'', JArr [note_json ''cem'' ''2025-01-30'' ''waiting for the vendor'']), (''deps'', JArr [JStr ''T-7''])]"

definition demo_blocked :: fboard where
  "demo_blocked = \<lparr>fb_files = [(''T-7'', demo_parent), (''T-9'', demo_waiting)], fb_locks = [(''T-9'', ''cem'')]\<rparr>"

theorem own_block_is_lost_witness:
  "\<exists>c. map_of (fb_files (snd (save 2 ''ann'' ''2025-02-01'' demo_parent JNull demo_blocked))) ''T-9'' = Some c
     \<and> py_get c ''owner'' = Inr (JStr []) \<and> py_get c ''status'' = Inr (JStr ''open'')"
proof -
  let ?b = "put_file ''T-7'' (py_set ''updated'' (JStr ''2025-02-01'') demo_parent) demo_blocked"
  let ?run = "reopen_child (\<lambda>c. save 1 ''ann'' ''2025-02-01'' c JNull) ''ann'' ''2025-02-01''
     (py_set ''updated'' (JStr ''2025-02-01'') demo_parent) ''T-7'' demo_head ''rob'' ''T-9'' ?b"
  have r: "fst ?run = Inr [''T-9'']"
    and child: "map_of (fb_files ?b) ''T-9'' = Some demo_waiting" "is_gated ''T-7'' demo_waiting = Inr False"
      "py_get demo_waiting ''status'' = Inr (JStr ''blocked'')" "py_get demo_waiting ''owner'' = Inr (JStr ''cem'')"
      "ticket_name demo_waiting = Inr ''T-9''"
    and same: "map_of (fb_files (snd (save 2 ''ann'' ''2025-02-01'' demo_parent JNull demo_blocked))) ''T-9''
      = map_of (fb_files (snd ?run)) ''T-9''"
    by code_simp+
  have run: "?run = (Inr [''T-9''], snd ?run)" using r by (metis prod.collapse)
  show ?thesis unfolding same using own_block_is_lost [OF run child(1-4) _ child(5)] by auto
qed

end
