(* ===== verification/Submit_Check.thy ===== *)
theory Submit_Check
  imports Verdicts Py_Number "HOL-Library.Sublist"
begin

text \<open>
  \<open>atm review --pr\<close> (\<open>verify_submit\<close> in \<open>review_verdict.py\<close>): a submission is pinned only when
  the commit is on origin, in the pull request's head, and the pull request belongs to the
  same repository. Git is code of its own: a function of the arguments and the state of the
  repositories that answers the output of a command that succeeded (nothing otherwise) and
  the state it leaves. So is \<open>gh pr view\<close>, with the text of its failure. The path of a
  local origin is resolved by a parameter. A refusal keeps the values of its text.
\<close>

type_synonym 'g git = "string list \<Rightarrow> 'g \<Rightarrow> string option \<times> 'g"

section \<open>Repositories\<close>

definition fold_case_prefix :: "string \<Rightarrow> string \<Rightarrow> bool" where
  "fold_case_prefix p s \<longleftrightarrow> py_lower (take (length p) s) = p"

definition begins_with :: "string \<Rightarrow> string \<Rightarrow> bool" where
  "begins_with p s \<longleftrightarrow> take (length p) s = p"

fun drop_slashes :: "string \<Rightarrow> string" where
  "drop_slashes s = rev (dropWhile (\<lambda>c. c = CHR ''/'') (rev s))"

text \<open>The first part of a path and what follows its separator; none without one, or when the part is empty.\<close>

definition path_part :: "string \<Rightarrow> (string \<times> string) option" where
  "path_part s =
     (let p = takeWhile (\<lambda>c. c \<noteq> CHR ''/'') s in
      if p = [] \<or> length p = length s then None else Some (p, drop (length p + 1) s))"

text \<open>The shortest name without a slash or a dot that the end (a newline may follow) or \<open>.git\<close> closes.\<close>

definition repo_name :: "string \<Rightarrow> string option" where
  "repo_name s =
     map_option (\<lambda>n. take n s)
       (List.find (\<lambda>n. list_all (\<lambda>c. c \<noteq> CHR ''/'' \<and> c \<noteq> CHR ''.'') (take n s)
          \<and> (drop n s \<in> {[], [CHR 0x0A]} \<or> (fold_case_prefix ''.git'' (drop n s) \<and> drop (n + 4) s \<in> {[], [CHR 0x0A]})))
        [1..<length s + 1])"

definition github_rest :: "string \<Rightarrow> string option" where
  "github_rest s =
     map_option (\<lambda>p. drop (length p) s)
       (List.find (\<lambda>p. fold_case_prefix p s) [''https://github.com/'', ''git@github.com:'', ''ssh://git@github.com/''])"

definition github_origin :: "string \<Rightarrow> (string \<times> string) option" where
  "github_origin s =
     (case github_rest s of None \<Rightarrow> None
      | Some r \<Rightarrow> (case path_part r of None \<Rightarrow> None
         | Some (owner, r') \<Rightarrow> map_option (\<lambda>n. (owner, n)) (repo_name r')))"

text \<open>A pull request's address at the beginning of a text: owner, repository, number.\<close>

definition pr_url_here :: "string \<Rightarrow> (string \<times> string \<times> string) option" where
  "pr_url_here s =
     (if \<not> fold_case_prefix ''https://github.com/'' s then None
      else case path_part (drop 19 s) of None \<Rightarrow> None
        | Some (owner, r) \<Rightarrow> (case path_part r of None \<Rightarrow> None
           | Some (repo, r') \<Rightarrow>
               let ds = takeWhile is_digit (drop 5 r') in
               if fold_case_prefix ''pull/'' r' \<and> ds \<noteq> [] then Some (owner, repo, ds) else None))"

fun pr_url :: "string \<Rightarrow> (string \<times> string \<times> string) option" where
  "pr_url [] = None"
| "pr_url (c # s) = (case pr_url_here (c # s) of Some x \<Rightarrow> Some x | None \<Rightarrow> pr_url s)"

text \<open>\<open>"://" in text\<close>.\<close>

fun has_scheme :: "string \<Rightarrow> bool" where
  "has_scheme [] = False"
| "has_scheme (c # s) = (begins_with ''://'' (c # s) \<or> has_scheme s)"

text \<open>\<open>realpath\<close>: \<open>os.path.realpath(os.path.expanduser(text))\<close>.\<close>

definition normalize_origin :: "(string \<Rightarrow> string) \<Rightarrow> string \<Rightarrow> string" where
  "normalize_origin realpath url =
     (let s = drop_slashes (py_strip url) in
      if s = [] then []
      else case github_origin s of
        Some (owner, repo) \<Rightarrow> py_lower owner @ ''/'' @ py_lower repo
      | None \<Rightarrow> (case pr_url s of
          Some (owner, repo, _) \<Rightarrow> py_lower owner @ ''/'' @ py_lower repo
        | None \<Rightarrow>
            if CHR ''/'' \<in> set s \<and> \<not> has_scheme s \<and> hd s \<noteq> CHR ''/'' \<and> hd s \<noteq> CHR ''.''
               \<and> length (py_split (CHR ''/'') s) = 2
            then py_lower s
            else if hd s = CHR ''/'' \<or> hd s = CHR ''.'' then py_lower (realpath s) else py_lower s))"

definition origins_match :: "(string \<Rightarrow> string) \<Rightarrow> string \<Rightarrow> string \<Rightarrow> bool" where
  "origins_match realpath a b \<longleftrightarrow>
     normalize_origin realpath a \<noteq> [] \<and> normalize_origin realpath a = normalize_origin realpath b"

definition pr_num :: "string \<Rightarrow> string" where
  "pr_num pr =
     (let s = py_strip pr in
      if s = [] then []
      else case pr_url s of Some (_, _, n) \<Rightarrow> n
        | None \<Rightarrow> if begins_with ''http'' s then last (py_split (CHR ''/'') (drop_slashes s)) else s)"

section \<open>The pull request\<close>

text \<open>\<open>table\<close>: the object of \<open>TICKETS_PR_VIEW\<close>, when it is one. Keys of a loaded object are texts.\<close>

definition injected_pr_view :: "json option \<Rightarrow> string \<Rightarrow> json option" where
  "injected_pr_view table pr =
     (case table of
        Some (JObj kvs) \<Rightarrow>
          let key = pr_num pr;
              keys = [pr, key] @ (if key \<noteq> [] \<and> list_all is_digit key then [dec_int (digits_value key)] else [])
          in (case List.find (\<lambda>k. case map_of kvs k of Some v \<Rightarrow> is_dict v | None \<Rightarrow> False) keys of
                None \<Rightarrow> None | Some k \<Rightarrow> map_of kvs k)
      | _ \<Rightarrow> None)"

datatype submit_refusal =
    NoGitSha
  | OwnBranchOnly string
  | NoPrNumber
  | NoOrigin string
  | NotOnOrigin string string string
  | NoRemoteBranch string string
  | NotGithub string string
  | PrNotLoaded string string string
  | PrWithoutHead string
  | OtherRepository string string string string string
  | NotInPr string string string string

definition load_pr_view ::
  "(string \<Rightarrow> string) \<Rightarrow> json option \<Rightarrow> (string \<Rightarrow> string \<Rightarrow> string + json) \<Rightarrow> string \<Rightarrow> string \<Rightarrow> submit_refusal + json" where
  "load_pr_view realpath table gh pr origin_url =
     (case injected_pr_view table pr of Some v \<Rightarrow> Inr v
      | None \<Rightarrow>
          let num = pr_num pr; repo = normalize_origin realpath origin_url;
              github = length (filter (\<lambda>c. c = CHR ''/'') repo) = 1 \<and> \<not> begins_with ''/'' repo
          in if num = [] then Inl NoPrNumber
             else if \<not> github then Inl (NotGithub pr (or_default origin_url ''?''))
             else case gh num repo of Inl e \<Rightarrow> Inl (PrNotLoaded num repo e) | Inr v \<Rightarrow> Inr v)"

text \<open>\<open>a or b or c\<close> of three members, as text.\<close>

definition first_text :: "json \<Rightarrow> string list \<Rightarrow> error + string" where
  "first_text v ks =
     bindE (foldr (\<lambda>k rest. bindE (py_get v k) (\<lambda>x. if truthy x then Inr x else rest)) ks (Inr JNull)) py_text"

definition pr_view_fields :: "json \<Rightarrow> error + string \<times> string \<times> string" where
  "pr_view_fields v =
     bindE (first_text v [''headRefOid'', ''head_sha'', ''sha'']) (\<lambda>sha.
     bindE (first_text v [''headRefName'', ''head'', ''branch'']) (\<lambda>name.
     bindE (py_get v ''headRepository'') (\<lambda>h1.
     bindE (if truthy h1 then Inr h1 else bindE (py_get v ''repository'') (\<lambda>h2. Inr (py_or h2 (JObj [])))) (\<lambda>hr.
     bindE (if is_dict hr then first_text hr [''nameWithOwner'', ''name''] else Inr []) (\<lambda>r1.
     bindE (if py_strip r1 = [] then first_text v [''repo'', ''url''] else Inr r1) (\<lambda>repo.
       Inr (normalize_sha sha, py_strip name, py_strip repo)))))))"

section \<open>Git\<close>

definition remote_sha_for :: "'g git \<Rightarrow> string \<Rightarrow> string \<Rightarrow> 'g \<Rightarrow> (bool \<times> string) \<times> 'g" where
  "remote_sha_for git sha branch g =
     (let s = normalize_sha sha;
          (listed, g1) = git [''ls-remote'', ''--exit-code'', ''origin'', s] g;
          on_origin = (case listed of None \<Rightarrow> False | Some out \<Rightarrow> out \<noteq> [] \<and> sublist (take 7 s) (py_lower out))
      in if branch = [] then ((on_origin, []), g1)
         else let (refs, g2) = git [''ls-remote'', ''origin'', ''refs/heads/'' @ branch] g1 in
              ((on_origin, case refs of None \<Rightarrow> [] | Some out \<Rightarrow>
                  normalize_sha (takeWhile (\<lambda>c. \<not> is_space c) out)), g2))"

text \<open>The tip of the branch on origin that contains the commit, or the refusal.\<close>

definition origin_contains_sha :: "'g git \<Rightarrow> string \<Rightarrow> string \<Rightarrow> 'g \<Rightarrow> (submit_refusal + string) \<times> 'g" where
  "origin_contains_sha git sha branch g =
     (let s = normalize_sha sha in
      if s = [] then (Inl NoGitSha, g)
      else let (origin, g1) = git [''config'', ''--get'', ''remote.origin.url''] g in
        case origin of
          None \<Rightarrow> (Inl (NoOrigin s), g1)
        | Some url \<Rightarrow>
            if url = [] then (Inl (NoOrigin s), g1)
            else let ((on_origin, tip), g2) = remote_sha_for git s branch g1 in
              if tip \<noteq> [] \<and> sha_match s tip then (Inr tip, g2)
              else if on_origin then (Inr (or_default tip s), g2)
              else if tip \<noteq> []
              then (let (ok, g3) = git [''merge-base'', ''--is-ancestor'', s, tip] g2 in
                    if ok \<noteq> None then (Inr tip, g3) else (Inl (NotOnOrigin s branch tip), g3))
              else (Inl (NoRemoteBranch s branch), g2))"

definition pr_contains_sha :: "'g git \<Rightarrow> string \<Rightarrow> string \<Rightarrow> 'g \<Rightarrow> bool \<times> 'g" where
  "pr_contains_sha git sha pr_sha g =
     (let s = normalize_sha sha; p = normalize_sha pr_sha in
      if s = [] \<or> p = [] then (False, g)
      else if sha_match s p then (True, g)
      else let (have, g1) = git [''cat-file'', ''-e'', p @ ''^{commit}''] g;
               g2 = (if have = None then snd (git [''fetch'', ''origin'', p] g1) else g1);
               (ok, g3) = git [''merge-base'', ''--is-ancestor'', s, p] g2
           in (ok \<noteq> None, g3))"

section \<open>The gate\<close>

definition verify_submit ::
  "(string \<Rightarrow> string) \<Rightarrow> json option \<Rightarrow> (string \<Rightarrow> string \<Rightarrow> string + json) \<Rightarrow> 'g git \<Rightarrow>
    string \<Rightarrow> string \<Rightarrow> string \<Rightarrow> string \<Rightarrow> 'g \<Rightarrow> (error + submit_refusal option) \<times> 'g" where
  "verify_submit realpath table gh git sha_full' branch origin_url pr g =
     (let s = normalize_sha sha_full'; b = py_strip branch in
      if s = [] \<or> \<not> pin_sha s then (Inr (Some NoGitSha), g)
      else if b = [] \<or> b \<in> {''main'', ''master'', ''HEAD''} then (Inr (Some (OwnBranchOnly (or_default b ''?''))), g)
      else if py_strip pr = [] then (Inr (Some NoPrNumber), g)
      else let (found, g1) = origin_contains_sha git s b g in
        case found of
          Inl e \<Rightarrow> (Inr (Some e), g1)
        | Inr _ \<Rightarrow>
            (case load_pr_view realpath table gh pr origin_url of
               Inl e \<Rightarrow> (Inr (Some e), g1)
             | Inr view \<Rightarrow>
                 (case pr_view_fields view of
                    Inl x \<Rightarrow> (Inl x, g1)
                  | Inr (pr_sha, pr_branch, pr_repo) \<Rightarrow>
                      if pr_sha = [] then (Inr (Some (PrWithoutHead (pr_num pr))), g1)
                      else if \<not> origins_match realpath origin_url pr_repo
                      then (Inr (Some (OtherRepository (pr_num pr)
                              (or_default (normalize_origin realpath pr_repo) (or_default pr_repo ''?'')) pr_sha
                              (or_default (normalize_origin realpath origin_url) (or_default origin_url ''?'')) s)), g1)
                      else let (inside, g2) = pr_contains_sha git s pr_sha g1 in
                        (Inr (if inside then None
                              else Some (NotInPr (pr_num pr) (or_default pr_branch ''?'') pr_sha s)), g2))))"

section \<open>What a verified submission rests on\<close>

text \<open>
  Git's documented answer: \<open>merge-base --is-ancestor a b\<close> succeeds only when the commit
  \<open>a\<close> is \<open>b\<close> or one of its ancestors.
\<close>

definition honest_git :: "(string \<Rightarrow> string \<Rightarrow> bool) \<Rightarrow> 'g git \<Rightarrow> bool" where
  "honest_git contains_commit git \<longleftrightarrow>
     (\<forall>a b g. fst (git [''merge-base'', ''--is-ancestor'', a, b] g) \<noteq> None \<longrightarrow> contains_commit a b)"

lemma pr_contains_honest:
  assumes "honest_git contains_commit git" "fst (pr_contains_sha git s p g)" "pin_sha s"
  shows "sha_match s (normalize_sha p) \<or> contains_commit s (normalize_sha p)"
proof -
  have s: "normalize_sha s = s"
    using assms(3) hex_text by (simp add: normalize_sha_def pin_sha_def)
  show ?thesis
    using assms(1,2) unfolding pr_contains_sha_def honest_git_def Let_def s
    by (auto split: if_splits prod.splits) (metis fst_conv option.distinct(1))+
qed

lemma verify_submit_None:
  assumes "fst (verify_submit realpath table gh git sha branch origin_url pr g) = Inr None"
  obtains found g1 view pr_sha name repo where
    "pin_sha (normalize_sha sha)" "py_strip branch \<notin> {[], ''main'', ''master'', ''HEAD''}"
    "origin_contains_sha git (normalize_sha sha) (py_strip branch) g = (Inr found, g1)"
    "load_pr_view realpath table gh pr origin_url = Inr view" "pr_view_fields view = Inr (pr_sha, name, repo)"
    "pr_sha \<noteq> []" "origins_match realpath origin_url repo" "fst (pr_contains_sha git (normalize_sha sha) pr_sha g1)"
proof -
  obtain found g1 where o: "origin_contains_sha git (normalize_sha sha) (py_strip branch) g = (found, g1)"
    by fastforce
  then show thesis
    using assms that
    by (auto simp: verify_submit_def Let_def o split: if_splits sum.splits prod.splits)
qed

text \<open>
  A submission that passes \<open>review --pr\<close> is in its pull request: the branch is the seat's own,
  origin answered for the commit, the pull request belongs to the origin's repository, and
  its head either agrees with the commit or contains it, provided git answers ancestry
  truthfully. Nothing else passes.
\<close>

theorem verified_submission_is_in_its_pull_request:
  assumes "fst (verify_submit realpath table gh git sha branch origin_url pr g) = Inr None"
    and "honest_git contains_commit git"
  shows "\<exists>view pr_sha name repo found g1.
      pin_sha (normalize_sha sha) \<and> py_strip branch \<notin> {[], ''main'', ''master'', ''HEAD''}
      \<and> origin_contains_sha git (normalize_sha sha) (py_strip branch) g = (Inr found, g1)
      \<and> load_pr_view realpath table gh pr origin_url = Inr view \<and> pr_view_fields view = Inr (pr_sha, name, repo)
      \<and> origins_match realpath origin_url repo
      \<and> (sha_match (normalize_sha sha) (normalize_sha pr_sha) \<or> contains_commit (normalize_sha sha) (normalize_sha pr_sha))"
  using assms(1)
proof (rule verify_submit_None)
  fix found g1 view pr_sha name repo
  assume pin: "pin_sha (normalize_sha sha)" and inside: "fst (pr_contains_sha git (normalize_sha sha) pr_sha g1)"
    and rest: "py_strip branch \<notin> {[], ''main'', ''master'', ''HEAD''}"
    "origin_contains_sha git (normalize_sha sha) (py_strip branch) g = (Inr found, g1)"
    "load_pr_view realpath table gh pr origin_url = Inr view" "pr_view_fields view = Inr (pr_sha, name, repo)"
    "origins_match realpath origin_url repo"
  from pr_contains_honest [OF assms(2) inside pin] show ?thesis using pin rest by blast
qed

text \<open>A repository with one branch whose tip is the submitted commit.\<close>

definition demo_git :: "unit git" where
  "demo_git args g =
     (if args = [''config'', ''--get'', ''remote.origin.url''] then Some ''git@github.com:Ann/atman.git''
      else if args = [''ls-remote'', ''origin'', ''refs/heads/feature''] then Some (replicate 40 CHR ''a'' @ '' refs/heads/feature'')
      else None, g)"

theorem verified_submission_is_in_its_pull_request_witness:
  "fst (pr_contains_sha demo_git (replicate 40 CHR ''a'') (replicate 40 CHR ''a'') ())
     \<and> (\<exists>repo. origins_match id ''git@github.com:Ann/atman.git'' repo)"
proof -
  let ?table = "Some (JObj [(''7'', JObj [(''headRefOid'', JStr (replicate 40 CHR ''a'')),
     (''url'', JStr ''https://github.com/ann/atman/pull/7'')])])"
  have ok: "fst (verify_submit id ?table (\<lambda>_ _. Inl []) demo_git (replicate 40 CHR ''a'') ''feature''
      ''git@github.com:Ann/atman.git'' ''7'' ()) = Inr None"
    by code_simp
  have "honest_git (\<lambda>a b. a = b) demo_git" by (simp add: honest_git_def demo_git_def)
  from verified_submission_is_in_its_pull_request [OF ok this]
  have "\<exists>repo. origins_match id ''git@github.com:Ann/atman.git'' repo" by blast
  moreover have "fst (pr_contains_sha demo_git (replicate 40 CHR ''a'') (replicate 40 CHR ''a'') ())" by code_simp
  ultimately show ?thesis by blast
qed

lemma origin_addresses:
  "normalize_origin rp ''git@github.com:Ann/atman.git'' = ''ann/atman''"
  "normalize_origin rp ''https://github.com/ann/Atman'' = ''ann/atman''"
  "normalize_origin rp ''https://github.com/ann/atman/pull/7'' = ''ann/atman''"
  "normalize_origin rp ''ssh://git@github.com/ann/atman.git/'' = ''ann/atman''"
  by code_simp+

text \<open>A repository whose name has a dot is no GitHub repository under its address, and never its own pull request's.\<close>

lemma dotted_repository:
  "normalize_origin rp ''https://github.com/ann/at.man.git'' = ''https://github.com/ann/at.man.git''"
  "\<not> origins_match rp ''https://github.com/ann/at.man.git'' ''ann/at.man''"
  by code_simp+

end
