(* ===== verification/Supervisor.thy ===== *)
theory Supervisor
  imports Atman_Prelude "HOL-Library.AList"
begin

text \<open>
  The managed runner outside the board: its durable state (\<open>runners/state.py\<close>) and the
  supervisor that consumes wake jobs, starts one session at a time and reports what happened
  (\<open>runners/supervisor.py\<close>). The board's API, the launcher, the clock and the drawn
  identifiers are code and devices outside: functions of the state of the world \<open>'w\<close> that
  answer a value or an error and leave a new state. The clock counts nanoseconds. What the
  supervisor does is recorded in a trace: the saved states, the posted run events and the
  started sessions, in their order, so that a crash is a prefix of a trace and what survives
  it is the last saved state.
\<close>

section \<open>The durable state\<close>

definition LEDGER_CAP :: nat where
  "LEDGER_CAP = 500"

record in_flight =
  fl_run :: string
  fl_job :: string
  fl_key :: string
  fl_session :: string
  fl_runtime :: string
  fl_ticket :: "string option"
  fl_pid :: "int option"
  fl_spawned :: bool

record failure =
  fa_key :: string
  fa_reason :: string
  fa_run :: "string option"

record runner_state =
  rs_runner :: string
  rs_project :: string
  rs_agent :: string
  rs_worktree :: string
  rs_epoch :: int
  rs_flight :: "in_flight option"
  rs_completed :: "string list"
  rs_failed :: "failure list"

text \<open>\<open>del xs[:-LEDGER_CAP]\<close>.\<close>

definition cap :: "'a list \<Rightarrow> 'a list" where
  "cap xs = drop (length xs - LEDGER_CAP) xs"

definition seen :: "runner_state \<Rightarrow> string \<Rightarrow> bool" where
  "seen st key \<longleftrightarrow> key \<in> set (rs_completed st) \<or> list_ex (\<lambda>e. fa_key e = key) (rs_failed st)"

definition remember_completed :: "string \<Rightarrow> runner_state \<Rightarrow> runner_state" where
  "remember_completed key st =
     (if key \<in> set (rs_completed st) then st
      else st\<lparr>rs_completed := cap (rs_completed st @ [key])\<rparr>)"

definition remember_failed :: "string \<Rightarrow> string \<Rightarrow> string option \<Rightarrow> runner_state \<Rightarrow> runner_state" where
  "remember_failed key reason run st =
     st\<lparr>rs_failed := cap (rs_failed st @ [\<lparr>fa_key = key, fa_reason = reason, fa_run = run\<rparr>])\<rparr>"

definition board_session_id :: "string \<Rightarrow> string" where
  "board_session_id runtime = ''ses_'' @ filter (\<lambda>c. c \<noteq> CHR ''-'') runtime"

text \<open>The text of a UUID; the digits of a session id of the board are \<open>[0-9a-z]\<close>.\<close>

definition uuid_text :: "string \<Rightarrow> string" where
  "uuid_text h = take 8 h @ ''-'' @ take 4 (drop 8 h) @ ''-'' @ take 4 (drop 12 h) @ ''-''
     @ take 4 (drop 16 h) @ ''-'' @ drop 20 h"

definition runtime_session_id :: "string \<Rightarrow> string option" where
  "runtime_session_id board =
     (let h = drop 4 board in
      if length h \<noteq> 32 \<or> \<not> list_all is_hex h then None else Some (uuid_text h))"

section \<open>The world outside\<close>

datatype call_error = ApiError string "int option" string | BoardUnreachable string

fun call_text :: "call_error \<Rightarrow> string" where
  "call_text (ApiError _ _ t) = t"
| "call_text (BoardUnreachable t) = t"

record job =
  jb_id :: string
  jb_message :: string
  jb_recipient :: string
  jb_key :: "string option"
  jb_ticket :: "string option"

type_synonym spending = "(string \<times> int) list"

record run_event =
  ev_run :: string
  ev_event :: string
  ev_version :: int
  ev_session :: "string option"
  ev_claim :: "string option"
  ev_reason :: "string option"
  ev_budget :: "spending option"

record launch_spec =
  ls_session :: string
  ls_worktree :: string
  ls_prompt :: string
  ls_resume :: bool
  ls_policy :: "string option"

text \<open>The lease as the board answers it: a missing policy keeps the old one, a missing budget is empty.\<close>

record runner_grant =
  gr_epoch :: int
  gr_policy :: "string option option"
  gr_budget :: spending

record registration =
  rg_runner :: string
  rg_agent :: string
  rg_worktree :: string
  rg_profile :: "string option"
  rg_policy :: "string option"
  rg_epoch :: "int option"

text \<open>\<open>ou_event\<close> answers the version of the run, \<open>ou_ticket\<close> the version of a ticket if it has one.\<close>

record 'w outside =
  ou_register :: "registration \<Rightarrow> 'w \<Rightarrow> (call_error + runner_grant) \<times> 'w"
  ou_jobs :: "string \<Rightarrow> 'w \<Rightarrow> (call_error + job list) \<times> 'w"
  ou_event :: "run_event \<Rightarrow> 'w \<Rightarrow> (call_error + int) \<times> 'w"
  ou_ticket :: "string \<Rightarrow> 'w \<Rightarrow> (call_error + int option) \<times> 'w"
  ou_claim :: "string \<Rightarrow> int \<Rightarrow> string \<Rightarrow> 'w \<Rightarrow> (call_error + unit) \<times> 'w"
  ou_cancel :: "string \<Rightarrow> string \<Rightarrow> 'w \<Rightarrow> (call_error + unit) \<times> 'w"
  ou_start :: "launch_spec \<Rightarrow> 'w \<Rightarrow> (string + int) \<times> 'w"
  ou_wait :: "int option \<Rightarrow> 'w \<Rightarrow> (int option \<times> string option) \<times> 'w"
  ou_terminate :: "'w \<Rightarrow> 'w"
  ou_alive :: "int option \<Rightarrow> 'w \<Rightarrow> bool"
  ou_clock :: "'w \<Rightarrow> int \<times> 'w"
  ou_uuid :: "'w \<Rightarrow> string \<times> 'w"

datatype effect = Saved runner_state | Posted string string | Spawned string

record supervisor =
  sv_agent :: string
  sv_session :: string
  sv_worktree :: string
  sv_profile :: "string option"
  sv_policy :: "string option"
  sv_budget :: spending
  sv_state :: runner_state
  sv_trace :: "effect list"

record outcome =
  oc_job :: string
  oc_run :: string
  oc_state :: string
  oc_reason :: "string option"
  oc_spawn :: "int option"

type_synonym 'w running = "supervisor \<times> 'w"

section \<open>Steps\<close>

definition did :: "effect \<Rightarrow> supervisor \<Rightarrow> supervisor" where
  "did e sv = sv\<lparr>sv_trace := sv_trace sv @ [e]\<rparr>"

text \<open>Change the state and \<open>_save\<close> it.\<close>

definition save_with :: "(runner_state \<Rightarrow> runner_state) \<Rightarrow> supervisor \<Rightarrow> supervisor" where
  "save_with f sv = did (Saved (f (sv_state sv))) (sv\<lparr>sv_state := f (sv_state sv)\<rparr>)"

definition post_event :: "'w outside \<Rightarrow> run_event \<Rightarrow> 'w running \<Rightarrow> (call_error + int) \<times> 'w running" where
  "post_event ou e x =
     (let (r, w) = ou_event ou e (snd x) in (r, (did (Posted (ev_run e) (ev_event e)) (fst x), w)))"

text \<open>\<open>_post_terminal\<close>: the attempts left, the version to try; the problem, if any.\<close>

fun post_terminal ::
  "nat \<Rightarrow> 'w outside \<Rightarrow> string \<Rightarrow> string \<Rightarrow> string option \<Rightarrow> int \<Rightarrow> spending option \<Rightarrow> 'w running
    \<Rightarrow> string option \<times> 'w running" where
  "post_terminal 0 ou run event reason attempt bud x = (Some ''gave up after a second version conflict'', x)"
| "post_terminal (Suc n) ou run event reason attempt bud x =
     (let (r, y) = post_event ou \<lparr>ev_run = run, ev_event = event, ev_version = attempt, ev_session = None,
            ev_claim = None, ev_reason = reason, ev_budget = bud\<rparr> x in
      case r of
        Inr _ \<Rightarrow> (None, y)
      | Inl (ApiError code actual t) \<Rightarrow>
          (case actual of
             Some v \<Rightarrow> if code = ''ticket_version_conflict'' \<and> v \<noteq> 0
                       then post_terminal n ou run event reason v bud y
                       else (Some (''report failed: '' @ t), y)
           | None \<Rightarrow> (Some (''report failed: '' @ t), y))
      | Inl (BoardUnreachable t) \<Rightarrow> (Some (''report failed: '' @ t), y))"

definition or_one :: "int option \<Rightarrow> int" where
  "or_one v = (case v of None \<Rightarrow> 1 | Some n \<Rightarrow> if n = 0 then 1 else n)"

text \<open>\<open>"{} ({})".format(reason, problem)\<close>; a missing reason prints as \<open>None\<close>.\<close>

definition with_problem :: "string option \<Rightarrow> string option \<Rightarrow> string option" where
  "with_problem reason problem =
     (case problem of None \<Rightarrow> reason
      | Some p \<Rightarrow> Some ((case reason of None \<Rightarrow> ''None'' | Some r \<Rightarrow> r) @ '' ('' @ p @ '')''))"

definition terminal ::
  "'w outside \<Rightarrow> job \<Rightarrow> string \<Rightarrow> string \<Rightarrow> string option \<Rightarrow> int option \<Rightarrow> bool \<Rightarrow> spending option \<Rightarrow> 'w running
    \<Rightarrow> outcome \<times> 'w running" where
  "terminal ou job run event reason version keep bud x =
     (let (problem, (sv, w)) = post_terminal 2 ou run event reason (or_one version) bud x;
          key = (case rs_flight (sv_state sv) of Some f \<Rightarrow> fl_key f | None \<Rightarrow> str_or_empty (jb_key job));
          why = (if truthy_str reason then str_or_empty reason else event);
          note_it = (if event = ''responded'' then remember_completed key
                     else if \<not> keep then remember_failed key why (Some run) else id)
      in (\<lparr>oc_job = jb_id job, oc_run = run, oc_state = event, oc_reason = with_problem reason problem, oc_spawn = None\<rparr>,
          (save_with (\<lambda>st. (note_it st)\<lparr>rs_flight := None\<rparr>) sv, w)))"

definition fail_job ::
  "'w outside \<Rightarrow> job \<Rightarrow> string \<Rightarrow> string \<Rightarrow> int option \<Rightarrow> 'w running \<Rightarrow> outcome \<times> 'w running" where
  "fail_job ou job run reason version x = terminal ou job run ''failed'' (Some reason) version False None x"

text \<open>\<open>_claim\<close>: any refusal, and a ticket without a version, is a no.\<close>

definition claim_for_run :: "'w outside \<Rightarrow> string \<Rightarrow> 'w running \<Rightarrow> bool \<times> 'w running" where
  "claim_for_run ou tid x =
     (let (t, w) = ou_ticket ou tid (snd x) in
      case t of
        Inr (Some v) \<Rightarrow> (let (r, w') = ou_claim ou tid v (sv_session (fst x)) w in (\<not> isl r, (fst x, w')))
      | _ \<Rightarrow> (False, (fst x, w)))"

section \<open>One wake job\<close>

definition job_key :: "job \<Rightarrow> string" where
  "job_key j =
     (if truthy_str (jb_key j) then str_or_empty (jb_key j) else jb_message j @ '':'' @ jb_recipient j)"

definition run_of :: "job \<Rightarrow> string" where
  "run_of j = ''run_'' @ drop 4 (jb_id j)"

definition default_prompt :: "job \<Rightarrow> string" where
  "default_prompt j = py_join [CHR 0x0A]
     ([''You have been woken by the Ticket Board to do one task.'']
      @ (if truthy_str (jb_ticket j)
         then [''Ticket '' @ str_or_empty (jb_ticket j) @ '' is already claimed for you by your runner.''] else [])
      @ [''Wake job '' @ jb_id j @ '' (message '' @ jb_message j @ '').'',
         ''Read the ticket, do the work, and report back on the board.''])"

text \<open>From the reported start to the end of the session.\<close>

definition await_session ::
  "'w outside \<Rightarrow> job \<Rightarrow> int \<Rightarrow> int \<Rightarrow> int \<Rightarrow> 'w running \<Rightarrow> outcome \<times> 'w running" where
  "await_session ou job version began spawn x =
     (let ((code, why), w) = ou_wait ou (map_of (sv_budget (fst x)) ''max_seconds'') (snd x);
          (t, w') = ou_clock ou w;
          spent = AList.update ''seconds_used'' (max 0 (t - began) div 1000000000) (sv_budget (fst x));
          (oc, y) = (case code of
             None \<Rightarrow> terminal ou job (run_of job) ''budget_reached''
                (Some (if truthy_str why then str_or_empty why else ''Run budget reached.'')) (Some version) True (Some spent) (fst x, w')
           | Some c \<Rightarrow> terminal ou job (run_of job) (if c = 0 then ''responded'' else ''failed'') why (Some version)
                False (Some spent) (fst x, w'))
      in (oc\<lparr>oc_spawn := Some spawn\<rparr>, y))"

definition launch_session ::
  "'w outside \<Rightarrow> job \<Rightarrow> string \<Rightarrow> string \<Rightarrow> int \<Rightarrow> 'w running \<Rightarrow> outcome \<times> 'w running" where
  "launch_session ou job session runtime version x =
     (let (began, w) = ou_clock ou (snd x);
          (r, w1) = ou_start ou \<lparr>ls_session = runtime, ls_worktree = sv_worktree (fst x), ls_prompt = default_prompt job,
                       ls_resume = False, ls_policy = sv_policy (fst x)\<rparr> w in
      case r of
        Inl e \<Rightarrow> fail_job ou job (run_of job) e (Some version) (fst x, w1)
      | Inr pid \<Rightarrow>
          let sv = save_with (\<lambda>st. st\<lparr>rs_flight := map_option (\<lambda>f. f\<lparr>fl_pid := Some pid, fl_spawned := True\<rparr>) (rs_flight st)\<rparr>)
                     (did (Spawned (job_key job)) (fst x));
              (t, w2) = ou_clock ou w1;
              (e, y) = post_event ou \<lparr>ev_run = run_of job, ev_event = ''started'', ev_version = version,
                         ev_session = Some session, ev_claim = (if truthy_str (jb_ticket job) then jb_ticket job else None),
                         ev_reason = None, ev_budget = None\<rparr> (sv, w2)
          in case e of
               Inl err \<Rightarrow> fail_job ou job (run_of job) (''Started but unreportable: '' @ call_text err) None
                           (fst y, ou_terminate ou (snd y))
             | Inr version' \<Rightarrow> await_session ou job version' began (t - began) y)"

definition execute :: "'w outside \<Rightarrow> job \<Rightarrow> 'w running \<Rightarrow> outcome \<times> 'w running" where
  "execute ou job x =
     (let key = job_key job; run = run_of job in
      if seen (sv_state (fst x)) key
      then (let (_, w) = ou_cancel ou run ''Duplicate delivery; already executed.'' (snd x) in
            (\<lparr>oc_job = jb_id job, oc_run = run, oc_state = ''skipped'',
              oc_reason = Some ''Already executed; duplicate delivery.'', oc_spawn = None\<rparr>, (fst x, w)))
      else
        let (runtime, w) = ou_uuid ou (snd x); session = board_session_id runtime;
            sv = save_with (\<lambda>st. st\<lparr>rs_flight := Some \<lparr>fl_run = run, fl_job = jb_id job, fl_key = key,
                   fl_session = session, fl_runtime = runtime, fl_ticket = jb_ticket job, fl_pid = None,
                   fl_spawned = False\<rparr>\<rparr>) (fst x);
            (e, y) = post_event ou \<lparr>ev_run = run, ev_event = ''starting'', ev_version = 1, ev_session = Some session,
                       ev_claim = None, ev_reason = None, ev_budget = None\<rparr> (sv, w)
        in case e of
             Inl err \<Rightarrow> fail_job ou job run (''Could not retain the run: '' @ call_text err) None y
           | Inr version \<Rightarrow>
               let (claimed, z) = (if truthy_str (jb_ticket job) then claim_for_run ou (str_or_empty (jb_ticket job)) y
                                   else (True, y))
               in if claimed then launch_session ou job session runtime version z
                  else fail_job ou job run (''Could not claim '' @ str_or_empty (jb_ticket job) @ ''; not started.'')
                         (Some version) z)"

section \<open>The life of a supervisor\<close>

definition register_runner :: "'w outside \<Rightarrow> 'w running \<Rightarrow> (call_error + unit) \<times> 'w running" where
  "register_runner ou x =
     (let sv = fst x; st = sv_state sv;
          (r, w) = ou_register ou \<lparr>rg_runner = rs_runner st, rg_agent = sv_agent sv, rg_worktree = sv_worktree sv,
             rg_profile = sv_profile sv, rg_policy = sv_policy sv,
             rg_epoch = (if rs_epoch st = 0 then None else Some (rs_epoch st))\<rparr> (snd x) in
      case r of
        Inl e \<Rightarrow> (Inl e, (sv, w))
      | Inr g \<Rightarrow> (Inr (), (save_with (\<lambda>st. st\<lparr>rs_epoch := gr_epoch g\<rparr>)
            (sv\<lparr>sv_policy := (case gr_policy g of None \<Rightarrow> sv_policy sv | Some p \<Rightarrow> p),
                sv_budget := AList.updates (map fst (gr_budget g)) (map snd (gr_budget g)) (sv_budget sv)\<rparr>), w)))"

definition uncertain :: "bool \<Rightarrow> in_flight \<Rightarrow> string" where
  "uncertain alive f =
     (if alive
      then ''A previous supervisor left this run's process alive (pid ''
             @ (case fl_pid f of None \<Rightarrow> ''None'' | Some p \<Rightarrow> dec_int p) @ ''); not started twice. Needs review.''
      else ''Supervisor restarted while this run was in flight; its effects are uncertain. Needs review.'')"

definition reconcile :: "'w outside \<Rightarrow> 'w running \<Rightarrow> outcome option \<times> 'w running" where
  "reconcile ou x =
     (case rs_flight (sv_state (fst x)) of
        None \<Rightarrow> (None, x)
      | Some f \<Rightarrow>
          let reason = uncertain (ou_alive ou (fl_pid f) (snd x)) f;
              (problem, (sv, w)) = post_terminal 2 ou (fl_run f) ''failed'' (Some reason) 1 None x
          in (Some \<lparr>oc_job = fl_job f, oc_run = fl_run f, oc_state = ''failed'',
                oc_reason = with_problem (Some reason) problem, oc_spawn = None\<rparr>,
              (save_with (\<lambda>st. remember_failed (fl_key f) reason (Some (fl_run f)) (st\<lparr>rs_flight := None\<rparr>)) sv, w)))"

fun execute_all :: "'w outside \<Rightarrow> job list \<Rightarrow> 'w running \<Rightarrow> outcome list \<times> 'w running" where
  "execute_all ou [] x = ([], x)"
| "execute_all ou (j # js) x =
     (let (o1, y) = execute ou j x; (os, z) = execute_all ou js y in (o1 # os, z))"

definition poll_once :: "'w outside \<Rightarrow> 'w running \<Rightarrow> (call_error + outcome list) \<times> 'w running" where
  "poll_once ou x =
     (let (r, w) = ou_jobs ou (rs_runner (sv_state (fst x))) (snd x) in
      case r of Inl e \<Rightarrow> (Inl e, (fst x, w))
      | Inr js \<Rightarrow> let (os, y) = execute_all ou js (fst x, w) in (Inr os, y))"

text \<open>
  The loop: the polls left, the polls done; the lease is renewed every \<open>renew\<close> polls, a positive
  number. What an endless loop has done at any moment is a prefix of what a bounded one does.
\<close>

fun poll_loop :: "nat \<Rightarrow> nat \<Rightarrow> nat \<Rightarrow> 'w outside \<Rightarrow> 'w running \<Rightarrow> (call_error + outcome list) \<times> 'w running" where
  "poll_loop 0 k renew ou x = (Inr [], x)"
| "poll_loop (Suc n) k renew ou x =
     (let (r, y) = (if (k + 1) mod renew = 0 then register_runner ou x else (Inr (), x)) in
      case r of Inl e \<Rightarrow> (Inl e, y)
      | Inr _ \<Rightarrow> let (p, z) = poll_once ou y in
          (case p of Inl e \<Rightarrow> (Inl e, z)
           | Inr os \<Rightarrow> let (q, u) = poll_loop n (k + 1) renew ou z in
               (case q of Inl e \<Rightarrow> (Inl e, u) | Inr os' \<Rightarrow> (Inr (os @ os'), u))))"

definition run_forever :: "nat \<Rightarrow> nat \<Rightarrow> 'w outside \<Rightarrow> 'w running \<Rightarrow> (call_error + outcome list) \<times> 'w running" where
  "run_forever polls renew ou x =
     (let (r, y) = register_runner ou x in
      case r of Inl e \<Rightarrow> (Inl e, y)
      | Inr _ \<Rightarrow> let (o1, z) = reconcile ou y; (q, u) = poll_loop polls 0 renew ou z in
          (case q of Inl e \<Rightarrow> (Inl e, u)
           | Inr os \<Rightarrow> (Inr ((case o1 of None \<Rightarrow> [] | Some oc \<Rightarrow> [oc]) @ os), u)))"

definition load_or_mint :: "runner_state option \<Rightarrow> string \<Rightarrow> string \<Rightarrow> string \<Rightarrow> string \<Rightarrow> runner_state" where
  "load_or_mint stored fresh project agent worktree =
     (case stored of Some st \<Rightarrow> st
      | None \<Rightarrow> \<lparr>rs_runner = fresh, rs_project = project, rs_agent = agent, rs_worktree = worktree,
                 rs_epoch = 0, rs_flight = None, rs_completed = [], rs_failed = []\<rparr>)"

end
