(* ===== verification/Supervisor_Life.thy ===== *)
theory Supervisor_Life
  imports Supervisor
begin

text \<open>
  At-least-once delivery, at-most-once start. An observer reads the trace of a supervisor and
  accepts it only if every saved state follows from the last one by one of the moves the
  design allows and a session is started only for the job just committed to. The supervisor's
  traces are accepted, from whatever state a crash left; and along accepted traces no job
  starts twice, while the ledger holds what it was told and no run was left paused.
\<close>

section \<open>The observer\<close>

record watch =
  wt_state :: runner_state
  wt_armed :: "string option"
  wt_spawned :: "string list"
  wt_paused :: "string list"

definition same_ledger :: "runner_state \<Rightarrow> runner_state \<Rightarrow> bool" where
  "same_ledger d st \<longleftrightarrow> rs_completed st = rs_completed d \<and> rs_failed st = rs_failed d"

definition closes :: "string \<Rightarrow> string list \<Rightarrow> runner_state \<Rightarrow> runner_state \<Rightarrow> bool" where
  "closes k paused d st \<longleftrightarrow>
     (rs_completed st = rs_completed (remember_completed k d) \<and> rs_failed st = rs_failed d)
     \<or> (rs_completed st = rs_completed d \<and> rs_failed st \<noteq> []
         \<and> rs_failed st = cap (rs_failed d @ [last (rs_failed st)]) \<and> fa_key (last (rs_failed st)) = k)
     \<or> (same_ledger d st \<and> k \<in> set paused)"

fun observe :: "effect \<Rightarrow> watch \<Rightarrow> watch option" where
  "observe (Saved st) W =
     (let d = wt_state W; next = (\<lambda>a. Some (W\<lparr>wt_state := st, wt_armed := a\<rparr>)) in
      case (rs_flight d, rs_flight st) of
        (None, None) \<Rightarrow> if same_ledger d st then next None else None
      | (None, Some f) \<Rightarrow> if same_ledger d st \<and> \<not> seen d (fl_key f) then next (Some (fl_key f)) else None
      | (Some f, Some g) \<Rightarrow> if same_ledger d st \<and> fl_key g = fl_key f then next None else None
      | (Some f, None) \<Rightarrow> if closes (fl_key f) (wt_paused W) d st then next None else None)"
| "observe (Spawned k) W =
     (if wt_armed W = Some k then Some (W\<lparr>wt_spawned := wt_spawned W @ [k], wt_armed := None\<rparr>) else None)"
| "observe (Posted r e) W =
     (case rs_flight (wt_state W) of
        Some f \<Rightarrow> Some (if e = ''budget_reached'' \<and> fl_run f = r
                        then W\<lparr>wt_paused := wt_paused W @ [fl_key f]\<rparr> else W)
      | None \<Rightarrow> Some W)"

fun observe_all :: "effect list \<Rightarrow> watch \<Rightarrow> watch option" where
  "observe_all [] W = Some W"
| "observe_all (e # es) W = (case observe e W of None \<Rightarrow> None | Some W' \<Rightarrow> observe_all es W')"

lemma observe_append:
  "observe_all (xs @ ys) W = (case observe_all xs W of None \<Rightarrow> None | Some W' \<Rightarrow> observe_all ys W')"
  by (induction xs arbitrary: W) (auto split: option.splits)

section \<open>Accepted traces start nothing twice\<close>

definition full_ledger :: "runner_state \<Rightarrow> bool" where
  "full_ledger d \<longleftrightarrow> LEDGER_CAP \<le> length (rs_completed d) \<or> LEDGER_CAP \<le> length (rs_failed d)"

definition flight_key :: "runner_state \<Rightarrow> string option" where
  "flight_key d = map_option fl_key (rs_flight d)"

definition started_once :: "watch \<Rightarrow> bool" where
  "started_once W \<longleftrightarrow> full_ledger (wt_state W) \<or>
     (\<forall>k. k \<notin> set (wt_paused W) \<longrightarrow>
        count_list (wt_spawned W) k \<le> 1
        \<and> (k \<in> set (wt_spawned W) \<longrightarrow> seen (wt_state W) k \<or> flight_key (wt_state W) = Some k)
        \<and> (wt_armed W = Some k \<longrightarrow> k \<notin> set (wt_spawned W) \<and> flight_key (wt_state W) = Some k))"

lemma length_cap: "length (cap xs) = min (length xs) LEDGER_CAP"
  by (simp add: cap_def)

lemma cap_small: "length xs \<le> LEDGER_CAP \<Longrightarrow> cap xs = xs"
  by (simp add: cap_def)

lemma closes_full: "closes k p d st \<Longrightarrow> full_ledger d \<Longrightarrow> full_ledger st"
  by (auto simp: closes_def full_ledger_def same_ledger_def remember_completed_def length_cap)
    (metis length_cap length_append_singleton min_def not_less_eq_eq order.trans nat_le_linear)+

lemma same_full: "same_ledger d st \<Longrightarrow> full_ledger st = full_ledger d"
  by (simp add: same_ledger_def full_ledger_def)

lemma same_seen: "same_ledger d st \<Longrightarrow> seen st k = seen d k"
  by (simp add: same_ledger_def seen_def)

lemma closes_seen:
  assumes "closes k p d st" "\<not> full_ledger d"
  shows "seen d j \<Longrightarrow> seen st j" and "seen st k \<or> k \<in> set p"
proof -
  have small: "cap (rs_completed d @ [x]) = rs_completed d @ [x]" "cap (rs_failed d @ [y]) = rs_failed d @ [y]" for x y
    using assms(2) by (simp_all add: full_ledger_def cap_small)
  show "seen d j \<Longrightarrow> seen st j" "seen st k \<or> k \<in> set p"
    using assms(1)
    by (auto simp: closes_def small seen_def remember_completed_def same_ledger_def list_ex_iff split: if_splits)
      (metis UnCI in_set_conv_decomp set_append last_in_set small(2))+
qed

text \<open>A saved state keeps the rule when it keeps what was seen and who is in flight.\<close>

lemma started_once_saved:
  assumes "started_once W" "full_ledger (wt_state W) \<Longrightarrow> full_ledger st"
    and "\<And>k. \<not> full_ledger (wt_state W) \<Longrightarrow> k \<notin> set (wt_paused W) \<Longrightarrow>
        seen (wt_state W) k \<or> flight_key (wt_state W) = Some k \<Longrightarrow> seen st k \<or> flight_key st = Some k"
    and "\<And>k. a = Some k \<Longrightarrow> flight_key st = Some k \<and> \<not> seen (wt_state W) k \<and> flight_key (wt_state W) = None"
  shows "started_once (W\<lparr>wt_state := st, wt_armed := a\<rparr>)"
  using assms unfolding started_once_def by fastforce

lemma observe_once:
  assumes "observe e W = Some W'" "started_once W"
  shows "started_once W'"
proof (cases e)
  case (Saved st)
  let ?d = "wt_state W"
  show ?thesis
  proof (cases "rs_flight ?d"; cases "rs_flight st")
    assume f: "rs_flight ?d = None" "rs_flight st = None"
    then have "same_ledger ?d st" "W' = W\<lparr>wt_state := st, wt_armed := None\<rparr>"
      using assms(1) Saved by (simp_all add: Let_def split: if_splits)
    then show ?thesis using f by (auto intro!: started_once_saved [OF assms(2)] simp: same_full same_seen flight_key_def)
  next
    fix g assume f: "rs_flight ?d = None" "rs_flight st = Some g"
    then have "same_ledger ?d st" "\<not> seen ?d (fl_key g)" "W' = W\<lparr>wt_state := st, wt_armed := Some (fl_key g)\<rparr>"
      using assms(1) Saved by (simp_all add: Let_def split: if_splits)
    then show ?thesis using f by (auto intro!: started_once_saved [OF assms(2)] simp: same_full same_seen flight_key_def)
  next
    fix f assume f: "rs_flight ?d = Some f" "rs_flight st = None"
    then have c: "closes (fl_key f) (wt_paused W) ?d st" "W' = W\<lparr>wt_state := st, wt_armed := None\<rparr>"
      using assms(1) Saved by (simp_all add: Let_def split: if_splits)
    show ?thesis unfolding c(2)
      by (rule started_once_saved [OF assms(2) closes_full [OF c(1)]])
        (use closes_seen [OF c(1)] f in \<open>auto simp: flight_key_def\<close>)
  next
    fix f g assume f: "rs_flight ?d = Some f" "rs_flight st = Some g"
    then have "same_ledger ?d st" "fl_key g = fl_key f" "W' = W\<lparr>wt_state := st, wt_armed := None\<rparr>"
      using assms(1) Saved by (simp_all add: Let_def split: if_splits)
    then show ?thesis using f by (auto intro!: started_once_saved [OF assms(2)] simp: same_full same_seen flight_key_def)
  qed
next
  case (Spawned k)
  then have "wt_armed W = Some k" "W' = W\<lparr>wt_spawned := wt_spawned W @ [k], wt_armed := None\<rparr>"
    using assms(1) by (auto split: if_splits)
  then show ?thesis using assms(2) by (auto simp: started_once_def count_list_append count_list_0_iff)
next
  case (Posted r w)
  then show ?thesis using assms by (auto simp: started_once_def split: option.splits if_splits)
qed

lemma observe_all_once: "observe_all es W = Some W' \<Longrightarrow> started_once W \<Longrightarrow> started_once W'"
  by (induction es arbitrary: W) (auto dest: observe_once split: option.splits)

section \<open>The supervisor's traces are accepted\<close>

text \<open>From one point of a run to a later one: the trace grew by effects the observer accepts.\<close>

definition watched :: "watch \<Rightarrow> supervisor \<Rightarrow> watch \<Rightarrow> supervisor \<Rightarrow> bool" where
  "watched W sv W' sv' \<longleftrightarrow>
     (\<exists>tr. sv_trace sv' = sv_trace sv @ tr \<and> observe_all tr W = Some W') \<and> wt_state W' = sv_state sv'"

lemma watched_refl: "wt_state W = sv_state sv \<Longrightarrow> watched W sv W sv"
  unfolding watched_def by (intro conjI exI [of _ "[]"]) simp_all

lemma watched_trans [trans]: "watched W sv W' sv' \<Longrightarrow> watched W' sv' W'' sv'' \<Longrightarrow> watched W sv W'' sv''"
  unfolding watched_def by (metis append.assoc observe_append option.simps(5))

lemma watched_did: "observe e W = Some W' \<Longrightarrow> wt_state W' = sv_state sv \<Longrightarrow> watched W sv W' (did e sv)"
  unfolding watched_def did_def by (intro conjI exI [of _ "[e]"]) simp_all

lemma watched_same: "watched W sv W' sv' \<Longrightarrow> sv_trace sv1 = sv_trace sv \<Longrightarrow> watched W sv1 W' sv'"
  by (simp add: watched_def)

lemma watched_save:
  "observe (Saved (f (sv_state sv))) W = Some W' \<Longrightarrow> watched W sv W' (save_with f sv)"
  unfolding watched_def save_with_def did_def
  by (intro conjI exI [of _ "[Saved (f (sv_state sv))]"])
    (auto simp: Let_def split: option.splits if_splits)

lemma save_with_state [simp]: "sv_state (save_with f sv) = f (sv_state sv)"
  by (simp add: save_with_def did_def)

lemma observe_kept:
  assumes "rs_flight (wt_state W) = Some f" "rs_flight st = Some g" "same_ledger (wt_state W) st" "fl_key g = fl_key f"
  shows "observe (Saved st) W = Some (W\<lparr>wt_state := st, wt_armed := None\<rparr>)"
  using assms by simp

text \<open>Posting an event changes neither the state nor who is armed.\<close>

definition only_posts :: "watch \<Rightarrow> supervisor \<Rightarrow> watch \<Rightarrow> supervisor \<Rightarrow> bool" where
  "only_posts W sv W' sv' \<longleftrightarrow> watched W sv W' sv' \<and> sv_state sv' = sv_state sv \<and> wt_armed W' = wt_armed W"

lemma post_event_watched:
  assumes "post_event ou e x = (r, y)" "wt_state W = sv_state (fst x)"
  shows "\<exists>W'. only_posts W (fst x) W' (fst y)
    \<and> (\<forall>f. rs_flight (wt_state W) = Some f \<longrightarrow> fl_run f = ev_run e \<longrightarrow> ev_event e = ''budget_reached'' \<longrightarrow>
         fl_key f \<in> set (wt_paused W'))
    \<and> set (wt_paused W) \<subseteq> set (wt_paused W')"
proof -
  have y: "fst y = did (Posted (ev_run e) (ev_event e)) (fst x)"
    using assms(1) by (auto simp: post_event_def split: prod.splits)
  obtain W' where o: "observe (Posted (ev_run e) (ev_event e)) W = Some W'"
    by (cases "rs_flight (wt_state W)") auto
  then have "wt_state W' = wt_state W" "wt_armed W' = wt_armed W" by (auto split: option.splits if_splits)
  then have "only_posts W (fst x) W' (fst y)"
    unfolding only_posts_def y using watched_did [OF o] assms(2) by (simp add: did_def)
  then show ?thesis using o by (intro exI [of _ W']) (auto split: option.splits if_splits)
qed

lemma only_posts_trans: "only_posts W sv W' sv' \<Longrightarrow> only_posts W' sv' W'' sv'' \<Longrightarrow> only_posts W sv W'' sv''"
  unfolding only_posts_def using watched_trans by auto

lemma only_posts_refl: "wt_state W = sv_state sv \<Longrightarrow> only_posts W sv W sv"
  by (simp add: only_posts_def watched_refl)

lemma post_terminal_watched:
  assumes "wt_state W = sv_state (fst x)" "post_terminal n ou run event reason v bud x = (p, y)"
  shows "\<exists>W'. only_posts W (fst x) W' (fst y) \<and> set (wt_paused W) \<subseteq> set (wt_paused W')
    \<and> (n \<noteq> 0 \<longrightarrow> event = ''budget_reached'' \<longrightarrow>
        (\<forall>f. rs_flight (wt_state W) = Some f \<longrightarrow> fl_run f = run \<longrightarrow> fl_key f \<in> set (wt_paused W')))"
  using assms
proof (induction n arbitrary: x v W)
  case 0
  then show ?case using only_posts_refl by auto
next
  case (Suc n)
  let ?e = "\<lparr>ev_run = run, ev_event = event, ev_version = v, ev_session = None,
            ev_claim = None, ev_reason = reason, ev_budget = bud\<rparr>"
  obtain r x1 where post: "post_event ou ?e x = (r, x1)" by (metis surj_pair)
  obtain W1 where W1: "only_posts W (fst x) W1 (fst x1)" "set (wt_paused W) \<subseteq> set (wt_paused W1)"
    "event = ''budget_reached'' \<Longrightarrow> rs_flight (wt_state W) = Some f \<Longrightarrow> fl_run f = run \<Longrightarrow> fl_key f \<in> set (wt_paused W1)" for f
    using post_event_watched [OF post Suc.prems(1)] by auto
  have s1: "wt_state W1 = sv_state (fst x1)" using W1(1) by (simp add: only_posts_def watched_def)
  have "y = x1 \<or> (\<exists>v'. post_terminal n ou run event reason v' bud x1 = (p, y))"
    using Suc.prems(2) post by (auto split: sum.splits call_error.splits option.splits if_splits)
  then show ?case
  proof
    assume "y = x1"
    then show ?thesis using W1 by blast
  next
    assume "\<exists>v'. post_terminal n ou run event reason v' bud x1 = (p, y)"
    then obtain v' where "post_terminal n ou run event reason v' bud x1 = (p, y)" by blast
    from Suc.IH [OF s1 this] obtain W2 where "only_posts W1 (fst x1) W2 (fst y)"
      "set (wt_paused W1) \<subseteq> set (wt_paused W2)" by blast
    then show ?thesis using W1 only_posts_trans by blast
  qed
qed

text \<open>The run in flight is the one of this job; \<open>armed\<close>: nothing was started for it yet.\<close>

definition flying :: "job \<Rightarrow> watch \<Rightarrow> bool" where
  "flying j W \<longleftrightarrow> (\<exists>f. rs_flight (wt_state W) = Some f \<and> fl_run f = run_of j \<and> fl_key f = job_key j)"

definition settled :: "watch \<Rightarrow> supervisor \<Rightarrow> watch \<Rightarrow> supervisor \<Rightarrow> bool" where
  "settled W sv W' sv' \<longleftrightarrow> watched W sv W' sv' \<and> rs_flight (sv_state sv') = None"

lemma flying_posts: "only_posts W sv W' sv' \<Longrightarrow> wt_state W = sv_state sv \<Longrightarrow> flying j W \<Longrightarrow> flying j W'"
  by (simp add: only_posts_def watched_def flying_def)

lemma closes_completed: "closes k p d ((remember_completed k d)\<lparr>rs_flight := None\<rparr>)"
  by (simp add: closes_def remember_completed_def)

lemma closes_failed: "closes k p d ((remember_failed k r u d)\<lparr>rs_flight := None\<rparr>)"
proof -
  have "last (cap (rs_failed d @ [x])) = x \<and> cap (rs_failed d @ [x]) \<noteq> []" for x
    by (simp add: cap_def LEDGER_CAP_def)
  then show ?thesis by (simp add: closes_def remember_failed_def)
qed

lemma closes_paused: "k \<in> set p \<Longrightarrow> closes k p d (d\<lparr>rs_flight := None\<rparr>)"
  by (simp add: closes_def same_ledger_def)

lemma terminal_settles:
  assumes "terminal ou j (run_of j) event reason version keep bud x = (oc, y)"
    and "wt_state W = sv_state (fst x)" "flying j W" "keep \<longrightarrow> event = ''budget_reached''"
  shows "\<exists>W'. settled W (fst x) W' (fst y)"
proof -
  obtain problem z where p: "post_terminal 2 ou (run_of j) event reason (or_one version) bud x = (problem, z)"
    by (metis surj_pair)
  obtain W1 where W1: "only_posts W (fst x) W1 (fst z)"
    and paused: "event = ''budget_reached'' \<Longrightarrow> rs_flight (wt_state W) = Some f \<Longrightarrow> fl_run f = run_of j \<Longrightarrow> fl_key f \<in> set (wt_paused W1)" for f
    using post_terminal_watched [OF assms(2) p] by auto
  obtain f where f: "rs_flight (wt_state W) = Some f" "fl_run f = run_of j" "fl_key f = job_key j"
    using assms(3) by (auto simp: flying_def)
  have s: "wt_state W1 = sv_state (fst z)" "sv_state (fst z) = wt_state W"
    using W1 assms(2) by (simp_all add: only_posts_def watched_def)
  define g where "g = (\<lambda>st. ((if event = ''responded'' then remember_completed (fl_key f)
       else if \<not> keep then remember_failed (fl_key f) (if truthy_str reason then str_or_empty reason else event) (Some (run_of j))
       else id) st)\<lparr>rs_flight := None\<rparr>)"
  have y: "fst y = save_with g (fst z)"
    using assms(1) p f(1) s by (cases z) (auto simp: terminal_def Let_def g_def)
  have "closes (fl_key f) (wt_paused W1) (wt_state W) (g (wt_state W))"
    using closes_completed closes_failed closes_paused paused f assms(4) by (auto simp: g_def)
  then have "observe (Saved (g (sv_state (fst z)))) W1 = Some (W1\<lparr>wt_state := g (sv_state (fst z)), wt_armed := None\<rparr>)"
    using f(1) s by (simp add: g_def Let_def)
  from watched_save [of g "fst z" W1, OF this] have "watched W (fst x) (W1\<lparr>wt_state := g (sv_state (fst z)), wt_armed := None\<rparr>) (fst y)"
    unfolding y using W1 watched_trans by (auto simp: only_posts_def)
  moreover have "rs_flight (sv_state (fst y)) = None" by (simp add: y g_def)
  ultimately show ?thesis unfolding settled_def by blast
qed

lemma fail_settles:
  "fail_job ou j (run_of j) reason version x = (oc, y) \<Longrightarrow> wt_state W = sv_state (fst x) \<Longrightarrow> flying j W
    \<Longrightarrow> \<exists>W'. settled W (fst x) W' (fst y)"
  unfolding fail_job_def by (rule terminal_settles) auto

lemma settled_after: "watched W sv W1 sv1 \<Longrightarrow> settled W1 sv1 W2 sv2 \<Longrightarrow> settled W sv W2 sv2"
  unfolding settled_def using watched_trans by blast

lemma await_settles:
  assumes "await_session ou j version began spawn x = (oc, y)" "wt_state W = sv_state (fst x)" "flying j W"
  shows "\<exists>W'. settled W (fst x) W' (fst y)"
proof -
  obtain event reason keep bud w oc' where
    "terminal ou j (run_of j) event reason (Some version) keep bud (fst x, w) = (oc', y)" "keep \<longrightarrow> event = ''budget_reached''"
    using assms(1) by (auto simp: await_session_def Let_def split: prod.splits option.splits)
  from terminal_settles [OF this(1) _ assms(3) this(2)] show ?thesis using assms(2) by simp
qed

lemma post_event_flies:
  assumes "post_event ou e x = (r, y)" "wt_state W = sv_state (fst x)" "flying j W"
  shows "\<exists>W'. watched W (fst x) W' (fst y) \<and> flying j W' \<and> wt_armed W' = wt_armed W"
proof -
  obtain W' where W': "only_posts W (fst x) W' (fst y)" using post_event_watched [OF assms(1,2)] by blast
  with flying_posts [OF W' assms(2,3)] show ?thesis unfolding only_posts_def by blast
qed

text \<open>The session starts, and the saved state says so.\<close>

abbreviation spawned_as :: "int \<Rightarrow> runner_state \<Rightarrow> runner_state" where
  "spawned_as pid st \<equiv>
     st\<lparr>rs_flight := map_option (\<lambda>f. f\<lparr>fl_pid := Some pid, fl_spawned := True\<rparr>) (rs_flight st)\<rparr>"

lemma spawn_flies:
  assumes "wt_state W = sv_state sv" "flying j W" "wt_armed W = Some (job_key j)"
  shows "\<exists>W'. watched W sv W' (save_with (spawned_as pid) (did (Spawned (job_key j)) sv)) \<and> flying j W'"
proof -
  define sv1 where "sv1 = did (Spawned (job_key j)) sv"
  define W1 where "W1 = W\<lparr>wt_spawned := wt_spawned W @ [job_key j], wt_armed := None\<rparr>"
  define W2 where "W2 = W1\<lparr>wt_state := spawned_as pid (sv_state sv1), wt_armed := None\<rparr>"
  obtain f where f: "rs_flight (wt_state W) = Some f" "fl_run f = run_of j" "fl_key f = job_key j"
    using assms(2) by (auto simp: flying_def)
  have s1: "sv_state sv1 = wt_state W" "wt_state W1 = wt_state W"
    using assms(1) by (simp_all add: sv1_def W1_def did_def)
  have "watched W sv W1 sv1"
    unfolding sv1_def by (rule watched_did) (use assms(1,3) in \<open>simp_all add: W1_def\<close>)
  moreover have "observe (Saved (spawned_as pid (sv_state sv1))) W1 = Some W2"
    unfolding W2_def by (rule observe_kept [of _ f _ "f\<lparr>fl_pid := Some pid, fl_spawned := True\<rparr>"])
      (use f s1 in \<open>simp_all add: same_ledger_def\<close>)
  then have "watched W1 sv1 W2 (save_with (spawned_as pid) sv1)" by (rule watched_save [of "spawned_as pid" sv1 W1])
  moreover have "flying j W2" using f s1 by (simp add: flying_def W2_def)
  ultimately show ?thesis unfolding sv1_def using watched_trans by blast
qed

lemma launch_settles:
  assumes "launch_session ou j session runtime version x = (oc, y)" "wt_state W = sv_state (fst x)" "flying j W"
    and "wt_armed W = Some (job_key j)"
  shows "\<exists>W'. settled W (fst x) W' (fst y)"
proof -
  obtain began w where clock: "ou_clock ou (snd x) = (began, w)" by (metis surj_pair)
  obtain r w1 where start: "ou_start ou \<lparr>ls_session = runtime, ls_worktree = sv_worktree (fst x), ls_prompt = default_prompt j,
      ls_resume = False, ls_policy = sv_policy (fst x)\<rparr> w = (r, w1)" by (metis surj_pair)
  show ?thesis
  proof (cases r)
    case (Inl e)
    then show ?thesis using assms clock start fail_settles [of ou j e "Some version" "(fst x, w1)" oc y W]
      by (simp add: launch_session_def)
  next
    case (Inr pid)
    define sv where "sv = save_with (spawned_as pid) (did (Spawned (job_key j)) (fst x))"
    obtain W2 where W2: "watched W (fst x) W2 sv" "flying j W2"
      using spawn_flies [OF assms(2-4)] unfolding sv_def by blast
    obtain t w2 where t: "ou_clock ou w1 = (t, w2)" by (metis surj_pair)
    let ?e = "\<lparr>ev_run = run_of j, ev_event = ''started'', ev_version = version,
                         ev_session = Some session, ev_claim = (if truthy_str (jb_ticket j) then jb_ticket j else None),
                         ev_reason = None, ev_budget = None\<rparr>"
    obtain res z where post: "post_event ou ?e (sv, w2) = (res, z)" by (metis surj_pair)
    have "wt_state W2 = sv_state (fst (sv, w2))" using W2(1) by (simp add: watched_def)
    from post_event_flies [OF post this W2(2)] obtain W3
      where W3: "watched W2 sv W3 (fst z)" "flying j W3" by auto
    then have s3: "wt_state W3 = sv_state (fst z)" by (simp add: watched_def)
    have "\<exists>W4. settled W3 (fst z) W4 (fst y)"
    proof (cases res)
      case (Inl err)
      note run = assms(1) [unfolded launch_session_def Let_def clock prod.case start Inr sum.case t
          sv_def [symmetric] post fst_conv snd_conv Inl]
      from fail_settles [OF run _ W3(2)] s3 show ?thesis by simp
    next
      case (Inr v)
      note run = assms(1) [unfolded launch_session_def Let_def clock prod.case start \<open>r = Inr pid\<close> sum.case t
          sv_def [symmetric] post fst_conv snd_conv Inr]
      from await_settles [OF run s3 W3(2)] show ?thesis .
    qed
    then show ?thesis using settled_after [OF watched_trans [OF W2(1) W3(1)]] by blast
  qed
qed

lemma execute_settles:
  assumes "execute ou j x = (oc, y)" "wt_state W = sv_state (fst x)" "rs_flight (wt_state W) = None"
  shows "\<exists>W'. settled W (fst x) W' (fst y)"
proof (cases "seen (sv_state (fst x)) (job_key j)")
  case True
  then have "fst y = fst x" using assms(1) by (auto simp: execute_def Let_def split: prod.splits)
  then show ?thesis using assms watched_refl by (auto simp: settled_def)
next
  case False
  obtain runtime w where uuid: "ou_uuid ou (snd x) = (runtime, w)" by (metis surj_pair)
  define fl where "fl = \<lparr>fl_run = run_of j, fl_job = jb_id j, fl_key = job_key j,
                   fl_session = board_session_id runtime, fl_runtime = runtime, fl_ticket = jb_ticket j, fl_pid = None,
                   fl_spawned = False\<rparr>"
  define sv where "sv = save_with (\<lambda>st. st\<lparr>rs_flight := Some fl\<rparr>) (fst x)"
  define W1 where "W1 = W\<lparr>wt_state := (sv_state (fst x))\<lparr>rs_flight := Some fl\<rparr>, wt_armed := Some (job_key j)\<rparr>"
  have "observe (Saved ((sv_state (fst x))\<lparr>rs_flight := Some fl\<rparr>)) W = Some W1"
    using assms(2,3) False by (simp add: same_ledger_def Let_def W1_def fl_def)
  then have w1: "watched W (fst x) W1 sv" unfolding sv_def by (rule watched_save)
  have fly: "flying j W1" "wt_armed W1 = Some (job_key j)" by (simp_all add: flying_def W1_def fl_def)
  let ?e = "\<lparr>ev_run = run_of j, ev_event = ''starting'', ev_version = 1, ev_session = Some (board_session_id runtime),
                       ev_claim = None, ev_reason = None, ev_budget = None\<rparr>"
  obtain res z where post: "post_event ou ?e (sv, w) = (res, z)" by (metis surj_pair)
  have "wt_state W1 = sv_state (fst (sv, w))" using w1 by (simp add: watched_def)
  from post_event_flies [OF post this fly(1)] obtain W2
    where W2: "watched W1 sv W2 (fst z)" "flying j W2" "wt_armed W2 = Some (job_key j)" using fly(2) by auto
  then have s2: "wt_state W2 = sv_state (fst z)" by (simp add: watched_def)
  note run = assms(1) [unfolded execute_def Let_def uuid prod.case fl_def [symmetric] sv_def [symmetric] post]
  have "\<exists>W3. settled W2 (fst z) W3 (fst y)"
  proof (cases res)
    case (Inl err)
    then show ?thesis using run False fail_settles [OF _ s2 W2(2)] by auto
  next
    case (Inr version)
    define c where "c = (if truthy_str (jb_ticket j) then claim_for_run ou (str_or_empty (jb_ticket j)) z else (True, z))"
    have c: "fst (snd c) = fst z"
      by (auto simp: c_def claim_for_run_def Let_def split: prod.splits sum.splits option.splits)
    have "if fst c then launch_session ou j (board_session_id runtime) runtime version (snd c) = (oc, y)
      else fail_job ou j (run_of j) (''Could not claim '' @ str_or_empty (jb_ticket j) @ ''; not started.'') (Some version) (snd c)
        = (oc, y)"
      using run False Inr by (auto simp: c_def split: prod.splits)
    then show ?thesis
      using launch_settles [of ou j _ runtime version "snd c" oc y W2] fail_settles [of ou j _ _ "snd c" oc y W2] c s2 W2
      by (cases "fst c") auto
  qed
  then show ?thesis using settled_after [OF watched_trans [OF w1 W2(1)]] by blast
qed

lemma settled_state: "settled W sv W' sv' \<Longrightarrow> wt_state W' = sv_state sv' \<and> rs_flight (wt_state W') = None"
  by (simp add: settled_def watched_def)

lemma execute_all_settles:
  assumes "execute_all ou js x = (os, y)" "wt_state W = sv_state (fst x)" "rs_flight (wt_state W) = None"
  shows "\<exists>W'. settled W (fst x) W' (fst y)"
  using assms
proof (induction js arbitrary: x W os)
  case Nil
  then show ?case using watched_refl by (auto simp: settled_def)
next
  case (Cons j js)
  obtain o1 x1 where e: "execute ou j x = (o1, x1)" by (metis surj_pair)
  obtain os' y' where r: "execute_all ou js x1 = (os', y')" by (metis surj_pair)
  have y: "y' = y" using Cons.prems(1) e r by simp
  obtain W1 where W1: "settled W (fst x) W1 (fst x1)" using execute_settles [OF e Cons.prems(2,3)] ..
  obtain W2 where W2: "settled W1 (fst x1) W2 (fst y)"
    using Cons.IH [OF r [unfolded y]] settled_state [OF W1] by blast
  with W1 show ?case using settled_after unfolding settled_def by blast
qed

text \<open>From here on, \<open>accepted\<close>: the trace is accepted, and the run of the end is settled if the start's was.\<close>

definition accepted :: "watch \<Rightarrow> supervisor \<Rightarrow> supervisor \<Rightarrow> bool" where
  "accepted W sv sv' \<longleftrightarrow> (\<exists>W'. watched W sv W' sv' \<and> (rs_flight (wt_state W) = None \<longrightarrow> rs_flight (wt_state W') = None))"

lemma accepted_settled: "settled W sv W' sv' \<Longrightarrow> accepted W sv sv'"
  using settled_state unfolding accepted_def settled_def by blast

lemma accepted_same: "wt_state W = sv_state sv \<Longrightarrow> sv' = sv \<Longrightarrow> accepted W sv sv'"
  using watched_refl unfolding accepted_def by blast

lemma acceptedE:
  assumes "accepted W sv sv'"
  obtains W' where "watched W sv W' sv'" "wt_state W' = sv_state sv'"
    "rs_flight (wt_state W) = None \<Longrightarrow> rs_flight (wt_state W') = None"
proof -
  obtain W' where "watched W sv W' sv'" "rs_flight (wt_state W) = None \<longrightarrow> rs_flight (wt_state W') = None"
    using assms unfolding accepted_def by (elim exE conjE)
  moreover then have "wt_state W' = sv_state sv'" by (simp add: watched_def)
  ultimately show thesis using that by simp
qed

lemma accepted_after:
  assumes "watched W sv W1 sv1" "rs_flight (wt_state W1) = None" "accepted W1 sv1 sv'"
  shows "accepted W sv sv'"
proof -
  obtain W' where "watched W1 sv1 W' sv'" "rs_flight (wt_state W') = None" using acceptedE [OF assms(3)] assms(2) by metis
  with watched_trans [OF assms(1)] show ?thesis unfolding accepted_def by blast
qed

lemma register_accepted:
  assumes "register_runner ou x = (r, y)" "wt_state W = sv_state (fst x)"
  shows "accepted W (fst x) (fst y)"
proof -
  let ?q = "\<lparr>rg_runner = rs_runner (sv_state (fst x)), rg_agent = sv_agent (fst x), rg_worktree = sv_worktree (fst x),
             rg_profile = sv_profile (fst x), rg_policy = sv_policy (fst x),
             rg_epoch = (if rs_epoch (sv_state (fst x)) = 0 then None else Some (rs_epoch (sv_state (fst x))))\<rparr>"
  obtain q w where g: "ou_register ou ?q (snd x) = (q, w)" by (metis surj_pair)
  note run = assms(1) [unfolded register_runner_def Let_def g prod.case]
  show ?thesis
  proof (cases q)
    case (Inl e)
    then show ?thesis using run assms(2) by (auto intro: accepted_same)
  next
    case (Inr gr)
    define sv where "sv = (fst x)\<lparr>sv_policy := (case gr_policy gr of None \<Rightarrow> sv_policy (fst x) | Some p \<Rightarrow> p),
        sv_budget := AList.updates (map fst (gr_budget gr)) (map snd (gr_budget gr)) (sv_budget (fst x))\<rparr>"
    define st where "st = (sv_state (fst x))\<lparr>rs_epoch := gr_epoch gr\<rparr>"
    have y: "fst y = save_with (\<lambda>st. st\<lparr>rs_epoch := gr_epoch gr\<rparr>) sv" using run Inr by (auto simp: sv_def)
    have sv: "sv_state sv = sv_state (fst x)" "sv_trace sv = sv_trace (fst x)" by (simp_all add: sv_def)
    have "observe (Saved st) W = Some (W\<lparr>wt_state := st, wt_armed := None\<rparr>)"
      using assms(2) by (cases "rs_flight (wt_state W)") (simp_all add: st_def same_ledger_def Let_def)
    then have "watched W sv (W\<lparr>wt_state := st, wt_armed := None\<rparr>) (fst y)"
      unfolding y st_def sv(1) [symmetric] by (rule watched_save)
    then have "watched W (fst x) (W\<lparr>wt_state := st, wt_armed := None\<rparr>) (fst y)" using watched_same sv(2) by metis
    then show ?thesis using assms(2) unfolding accepted_def
      by (intro exI [of _ "W\<lparr>wt_state := st, wt_armed := None\<rparr>"]) (simp add: st_def)
  qed
qed

lemma reconcile_settles:
  assumes "reconcile ou x = (oc, y)" "wt_state W = sv_state (fst x)"
  shows "\<exists>W'. settled W (fst x) W' (fst y)"
proof (cases "rs_flight (sv_state (fst x))")
  case None
  then show ?thesis using assms watched_refl by (auto simp: reconcile_def settled_def)
next
  case (Some f)
  define reason where "reason = uncertain (ou_alive ou (fl_pid f) (snd x)) f"
  obtain problem z where p: "post_terminal 2 ou (fl_run f) ''failed'' (Some reason) 1 None x = (problem, z)"
    by (metis surj_pair)
  have y: "fst y = save_with (\<lambda>st. remember_failed (fl_key f) reason (Some (fl_run f)) (st\<lparr>rs_flight := None\<rparr>)) (fst z)"
    using assms(1) Some p by (cases z) (auto simp: reconcile_def Let_def reason_def)
  obtain W1 where W1: "only_posts W (fst x) W1 (fst z)" using post_terminal_watched [OF assms(2) p] by blast
  then have s: "wt_state W1 = sv_state (fst z)" "sv_state (fst z) = sv_state (fst x)"
    by (simp_all add: only_posts_def watched_def)
  define st where "st = remember_failed (fl_key f) reason (Some (fl_run f)) ((sv_state (fst z))\<lparr>rs_flight := None\<rparr>)"
  have st: "st = (remember_failed (fl_key f) reason (Some (fl_run f)) (sv_state (fst z)))\<lparr>rs_flight := None\<rparr>"
    by (simp add: st_def remember_failed_def)
  then have "closes (fl_key f) (wt_paused W1) (wt_state W1) st" using closes_failed s(1) by simp
  then have "observe (Saved st) W1 = Some (W1\<lparr>wt_state := st, wt_armed := None\<rparr>)" using Some s st by (simp add: Let_def)
  then have "watched W1 (fst z) (W1\<lparr>wt_state := st, wt_armed := None\<rparr>) (fst y)"
    unfolding y st_def by (rule watched_save)
  then have "watched W (fst x) (W1\<lparr>wt_state := st, wt_armed := None\<rparr>) (fst y)"
    using W1 watched_trans unfolding only_posts_def by blast
  moreover have "rs_flight (sv_state (fst y)) = None" by (simp add: y remember_failed_def)
  ultimately show ?thesis unfolding settled_def by blast
qed

lemma poll_once_accepted:
  assumes "poll_once ou x = (r, y)" "wt_state W = sv_state (fst x)" "rs_flight (wt_state W) = None"
  shows "accepted W (fst x) (fst y)"
proof -
  obtain q w where j: "ou_jobs ou (rs_runner (sv_state (fst x))) (snd x) = (q, w)" by (metis surj_pair)
  show ?thesis
  proof (cases q)
    case (Inl e)
    then show ?thesis using assms(1,2) j by (auto simp: poll_once_def intro: accepted_same)
  next
    case (Inr js)
    obtain os z where e: "execute_all ou js (fst x, w) = (os, z)" by (metis surj_pair)
    have "z = y" using assms(1) j Inr e by (simp add: poll_once_def)
    with execute_all_settles [OF e _ assms(3)] assms(2) show ?thesis by (auto intro: accepted_settled)
  qed
qed

lemma poll_loop_accepted:
  assumes "poll_loop n k renew ou x = (r, y)" "wt_state W = sv_state (fst x)" "rs_flight (wt_state W) = None"
  shows "accepted W (fst x) (fst y)"
  using assms
proof (induction n arbitrary: k x W r)
  case 0
  then show ?case by (auto intro: accepted_same)
next
  case (Suc n)
  obtain a x1 where reg: "(if (k + 1) mod renew = 0 then register_runner ou x else (Inr (), x)) = (a, x1)"
    by (metis surj_pair)
  have "accepted W (fst x) (fst x1)"
    using reg register_accepted [OF _ Suc.prems(2)] accepted_same [OF Suc.prems(2)] by (auto split: if_splits)
  then obtain W1 where W1: "watched W (fst x) W1 (fst x1)" "wt_state W1 = sv_state (fst x1)" "rs_flight (wt_state W1) = None"
    using acceptedE Suc.prems(3) by metis
  obtain p x2 where poll: "poll_once ou x1 = (p, x2)" by (metis surj_pair)
  obtain W2 where W2: "watched W1 (fst x1) W2 (fst x2)" "wt_state W2 = sv_state (fst x2)" "rs_flight (wt_state W2) = None"
    using acceptedE [OF poll_once_accepted [OF poll W1(2,3)]] W1(3) by metis
  have w: "watched W (fst x) W2 (fst x2)" using W1(1) W2(1) by (rule watched_trans)
  obtain q x3 where rest: "poll_loop n (k + 1) renew ou x2 = (q, x3)" by (metis surj_pair)
  note run = Suc.prems(1) [unfolded poll_loop.simps Let_def reg prod.case poll rest]
  have "y = x1 \<or> y = x2 \<or> y = x3" using run by (auto split: sum.splits)
  then show ?case
  proof (elim disjE)
    assume "y = x1" then show ?thesis using W1 unfolding accepted_def by blast
  next
    assume "y = x2" then show ?thesis using w W2 unfolding accepted_def by blast
  next
    assume y: "y = x3"
    show ?thesis by (rule accepted_after [OF w W2(3) Suc.IH [OF rest [folded y] W2(2,3)]])
  qed
qed

lemma run_forever_accepted:
  assumes "run_forever polls renew ou x = (r, y)" "wt_state W = sv_state (fst x)"
  shows "\<exists>W'. watched W (fst x) W' (fst y)"
proof -
  obtain a x1 where reg: "register_runner ou x = (a, x1)" by (metis surj_pair)
  obtain W1 where W1: "watched W (fst x) W1 (fst x1)" "wt_state W1 = sv_state (fst x1)"
    using acceptedE [OF register_accepted [OF reg assms(2)]] by metis
  obtain o1 x2 where rec: "reconcile ou x1 = (o1, x2)" by (metis surj_pair)
  obtain W2 where W2: "settled W1 (fst x1) W2 (fst x2)" using reconcile_settles [OF rec W1(2)] ..
  obtain q x3 where rest: "poll_loop polls 0 renew ou x2 = (q, x3)" by (metis surj_pair)
  obtain W3 where W3: "watched W2 (fst x2) W3 (fst x3)"
    using acceptedE [OF poll_loop_accepted [OF rest]] settled_state [OF W2] by metis
  note run = assms(1) [unfolded run_forever_def Let_def reg prod.case rec rest]
  have "y = x1 \<or> y = x3" using run by (auto split: sum.splits)
  then show ?thesis using W1 W2 W3 watched_trans unfolding settled_def by blast
qed

end
