(* ===== verification/Supervisor_Guarantees.thy ===== *)
theory Supervisor_Guarantees
  imports Supervisor_Life "HOL-Library.Sublist"
begin

text \<open>
  The lives of one runner: a supervisor starts from the state last saved, works, and may stop
  at any point of its trace; what the next one finds is the last state it saved. The theorems
  hold for every sequence of such lives, whatever the board and the launcher answer.
\<close>

section \<open>Lives\<close>

fun last_saved :: "runner_state option \<Rightarrow> effect list \<Rightarrow> runner_state option" where
  "last_saved d [] = d"
| "last_saved d (Saved st # es) = last_saved (Some st) es"
| "last_saved d (Posted r e # es) = last_saved d es"
| "last_saved d (Spawned k # es) = last_saved d es"

fun spawned_keys :: "effect list \<Rightarrow> string list" where
  "spawned_keys [] = []"
| "spawned_keys (Spawned k # es) = k # spawned_keys es"
| "spawned_keys (Saved st # es) = spawned_keys es"
| "spawned_keys (Posted r e # es) = spawned_keys es"

text \<open>A run of this job was reported as stopped by its budget.\<close>

definition was_paused :: "string \<Rightarrow> effect list \<Rightarrow> bool" where
  "was_paused k hist = list_ex (\<lambda>e. case e of
       Saved st \<Rightarrow> (case rs_flight st of
           Some f \<Rightarrow> fl_key f = k \<and> Posted (fl_run f) ''budget_reached'' \<in> set hist
         | None \<Rightarrow> False)
     | _ \<Rightarrow> False) hist"

text \<open>Every start finds its own job in flight in the state last saved before it.\<close>

fun committed :: "runner_state option \<Rightarrow> effect list \<Rightarrow> bool" where
  "committed d [] = True"
| "committed d (Saved st # es) = committed (Some st) es"
| "committed d (Posted r e # es) = committed d es"
| "committed d (Spawned k # es) =
     ((case d of Some st \<Rightarrow> flight_key st = Some k | None \<Rightarrow> False) \<and> committed d es)"

inductive lived :: "'w outside \<Rightarrow> runner_state option \<Rightarrow> effect list \<Rightarrow> bool" for ou where
  unborn: "lived ou None []"
| one_life: "lived ou d hist \<Longrightarrow> sv_state sv = load_or_mint d fresh project agent worktree \<Longrightarrow> sv_trace sv = []
    \<Longrightarrow> run_forever polls renew ou (sv, w) = (r, (sv', w')) \<Longrightarrow> prefix tr (sv_trace sv')
    \<Longrightarrow> lived ou (last_saved d tr) (hist @ tr)"

section \<open>What a trace tells\<close>

lemma last_saved_append: "last_saved d (xs @ ys) = last_saved (last_saved d xs) ys"
  by (induction d xs rule: last_saved.induct) auto

lemma last_saved_or: "last_saved d es = (case last_saved None es of None \<Rightarrow> d | Some st \<Rightarrow> Some st)"
proof (induction es arbitrary: d)
  case (Cons e es)
  show ?case
  proof (cases e)
    case (Saved st)
    show ?thesis unfolding Saved last_saved.simps Cons.IH [of "Some st"] by (simp split: option.split)
  qed (simp_all add: Cons.IH [symmetric])
qed simp

lemma last_saved_in: "last_saved None es = Some st \<Longrightarrow> Saved st \<in> set es"
proof (induction es)
  case (Cons e es)
  then show ?case by (cases e) (use last_saved_or [of "Some _" es] in \<open>auto split: option.splits\<close>)
qed simp

lemma spawned_append [simp]: "spawned_keys (xs @ ys) = spawned_keys xs @ spawned_keys ys"
  by (induction xs rule: spawned_keys.induct) auto

lemma committed_append: "committed d (xs @ ys) \<longleftrightarrow> committed d xs \<and> committed (last_saved d xs) ys"
  by (induction d xs rule: committed.induct) auto

lemma observe_step:
  assumes "observe e W = Some W'"
  shows "last_saved (Some (wt_state W)) [e] = Some (wt_state W')"
    and "wt_spawned W' = wt_spawned W @ spawned_keys [e]"
  using assms by (cases e; auto simp: Let_def split: option.splits if_splits)+

lemma observe_tells:
  "observe_all es W = Some W' \<Longrightarrow> last_saved (Some (wt_state W)) es = Some (wt_state W')"
  "observe_all es W = Some W' \<Longrightarrow> wt_spawned W' = wt_spawned W @ spawned_keys es"
proof (induction es arbitrary: W)
  case (Cons e es)
  { case 1
    then obtain W1 where "observe e W = Some W1" "observe_all es W1 = Some W'" by (auto split: option.splits)
    then show ?case using Cons.IH(1) observe_step(1) last_saved_append [of _ "[e]" es] by fastforce
  next
    case 2
    then obtain W1 where "observe e W = Some W1" "observe_all es W1 = Some W'" by (auto split: option.splits)
    then show ?case using Cons.IH(2) observe_step(2) spawned_append [of "[e]" es] by fastforce
  }
qed simp_all

text \<open>Who is armed is in flight, so an accepted trace is committed.\<close>

definition armed_flies :: "watch \<Rightarrow> bool" where
  "armed_flies W \<longleftrightarrow> (\<forall>k. wt_armed W = Some k \<longrightarrow> flight_key (wt_state W) = Some k)"

lemma observe_committed:
  assumes "observe e W = Some W'" "armed_flies W"
  shows "armed_flies W' \<and> committed (Some (wt_state W)) [e]"
  using assms by (cases e) (auto simp: armed_flies_def flight_key_def Let_def split: option.splits if_splits)

lemma observed_committed:
  "observe_all es W = Some W' \<Longrightarrow> armed_flies W \<Longrightarrow> committed (Some (wt_state W)) es"
proof (induction es arbitrary: W)
  case (Cons e es)
  then obtain W1 where W1: "observe e W = Some W1" "observe_all es W1 = Some W'" by (auto split: option.splits)
  from observe_committed [OF W1(1) Cons.prems(2)] Cons.IH [OF W1(2)] observe_step(1) [OF W1(1)]
  show ?case using committed_append [of "Some (wt_state W)" "[e]" es] by simp
qed simp

lemma nothing_saved_nothing_started:
  "observe_all es W = Some W' \<Longrightarrow> wt_armed W = None \<Longrightarrow> last_saved None es = None
    \<Longrightarrow> spawned_keys es = []"
proof (induction es arbitrary: W)
  case (Cons e es)
  show ?case
  proof (cases e)
    case (Saved st)
    then show ?thesis using Cons.prems(3) last_saved_or [of "Some st" es] by (simp split: option.splits)
  next
    case (Posted r w)
    then show ?thesis using Cons by (auto split: option.splits if_splits)
  next
    case (Spawned k)
    then show ?thesis using Cons.prems(1,2) by simp
  qed
qed simp

lemma committed_unborn: "observe_all es W = Some W' \<Longrightarrow> wt_armed W = None \<Longrightarrow> committed None es"
proof (induction es arbitrary: W)
  case (Cons e es)
  then obtain W1 where W1: "observe e W = Some W1" "observe_all es W1 = Some W'" by (auto split: option.splits)
  show ?case
  proof (cases e)
    case (Saved st)
    have "armed_flies W1" using observe_committed [OF W1(1)] Cons.prems(2) by (simp add: armed_flies_def)
    then show ?thesis using observed_committed [OF W1(2)] observe_step(1) [OF W1(1)] Saved by simp
  next
    case (Posted r w)
    then have "wt_armed W1 = None" using W1(1) Cons.prems(2) by (auto split: option.splits if_splits)
    then show ?thesis using Cons.IH [OF W1(2)] Posted by simp
  next
    case (Spawned k)
    then show ?thesis using Cons.prems by simp
  qed
qed simp

section \<open>The observer's pauses are in the history\<close>

definition known :: "effect list \<Rightarrow> watch \<Rightarrow> bool" where
  "known hist W \<longleftrightarrow> (\<forall>f. rs_flight (wt_state W) = Some f \<longrightarrow> Saved (wt_state W) \<in> set hist)
     \<and> (\<forall>k \<in> set (wt_paused W). was_paused k hist)"

lemma was_paused_iff:
  "was_paused k hist \<longleftrightarrow> (\<exists>st f. Saved st \<in> set hist \<and> rs_flight st = Some f \<and> fl_key f = k
     \<and> Posted (fl_run f) ''budget_reached'' \<in> set hist)"
proof
  assume "was_paused k hist"
  then show "\<exists>st f. Saved st \<in> set hist \<and> rs_flight st = Some f \<and> fl_key f = k
     \<and> Posted (fl_run f) ''budget_reached'' \<in> set hist"
    unfolding was_paused_def list_ex_iff by (fastforce split: effect.splits option.splits)
next
  assume "\<exists>st f. Saved st \<in> set hist \<and> rs_flight st = Some f \<and> fl_key f = k
     \<and> Posted (fl_run f) ''budget_reached'' \<in> set hist"
  then obtain st f where "Saved st \<in> set hist" "rs_flight st = Some f" "fl_key f = k"
     "Posted (fl_run f) ''budget_reached'' \<in> set hist" by blast
  then show "was_paused k hist" unfolding was_paused_def list_ex_iff by (intro bexI [of _ "Saved st"]) simp_all
qed

lemma was_paused_more: "was_paused k hist \<Longrightarrow> was_paused k (hist @ es)"
  by (auto simp: was_paused_iff)

lemma observe_known:
  assumes "observe e W = Some W'" "known hist W"
  shows "known (hist @ [e]) W'"
proof (cases e)
  case (Saved st)
  then have "wt_state W' = st" "wt_paused W' = wt_paused W"
    using assms(1) by (auto simp: Let_def split: option.splits if_splits)
  then show ?thesis using assms(2) Saved was_paused_more by (auto simp: known_def)
next
  case (Spawned k)
  then have "wt_state W' = wt_state W" "wt_paused W' = wt_paused W" using assms(1) by (auto split: if_splits)
  then show ?thesis using assms(2) was_paused_more by (auto simp: known_def)
next
  case (Posted r w)
  then have s: "wt_state W' = wt_state W" using assms(1) by (auto split: option.splits if_splits)
  have "was_paused k (hist @ [e])" if k: "k \<in> set (wt_paused W')" for k
  proof (cases "k \<in> set (wt_paused W)")
    case True
    then show ?thesis using assms(2) was_paused_more by (auto simp: known_def)
  next
    case False
    then obtain f where f: "rs_flight (wt_state W) = Some f" "fl_run f = r" "w = ''budget_reached''" "fl_key f = k"
      using assms(1) k False Posted by (auto split: option.splits if_splits)
    then have "Saved (wt_state W) \<in> set hist" using assms(2) by (auto simp: known_def)
    then show ?thesis unfolding was_paused_iff using f Posted by (intro exI [of _ "wt_state W"] exI [of _ f]) simp
  qed
  then show ?thesis using assms(2) s by (auto simp: known_def)
qed

lemma observed_known: "observe_all es W = Some W' \<Longrightarrow> known hist W \<Longrightarrow> known (hist @ es) W'"
proof (induction es arbitrary: W hist)
  case (Cons e es)
  then obtain W1 where "observe e W = Some W1" "observe_all es W1 = Some W'" by (auto split: option.splits)
  with Cons show ?case using observe_known by fastforce
qed simp

section \<open>The rule of a runner's lives\<close>

definition empty_handed :: "runner_state \<Rightarrow> bool" where
  "empty_handed st \<longleftrightarrow> rs_flight st = None \<and> rs_completed st = [] \<and> rs_failed st = []"

definition life_rule :: "runner_state option \<Rightarrow> effect list \<Rightarrow> watch \<Rightarrow> bool" where
  "life_rule d hist W \<longleftrightarrow> started_once W \<and> wt_armed W = None \<and> known hist W
     \<and> wt_spawned W = spawned_keys hist \<and> committed None hist \<and> d = last_saved None hist
     \<and> (case d of Some st \<Rightarrow> wt_state W = st | None \<Rightarrow> spawned_keys hist = [] \<and> empty_handed (wt_state W))"

lemma life_rule_loaded:
  assumes "life_rule d hist W"
  shows "life_rule d hist (W\<lparr>wt_state := load_or_mint d fresh project agent worktree\<rparr>)"
proof (cases d)
  case None
  then have "wt_spawned W = []" "wt_armed W = None" using assms by (simp_all add: life_rule_def)
  then show ?thesis using assms None
    by (simp add: life_rule_def load_or_mint_def empty_handed_def started_once_def known_def)
next
  case (Some st)
  then have "W\<lparr>wt_state := st\<rparr> = W" using assms by (simp add: life_rule_def)
  then show ?thesis using assms Some by (simp add: load_or_mint_def)
qed

lemma life_rule_goes_on:
  assumes "life_rule d hist W" "observe_all tr W = Some W1"
  shows "life_rule (last_saved d tr) (hist @ tr) (W1\<lparr>wt_armed := None\<rparr>)"
proof -
  have r: "started_once W" "wt_armed W = None" "known hist W" "wt_spawned W = spawned_keys hist"
      "committed None hist" "d = last_saved None hist"
    using assms(1) by (simp_all add: life_rule_def)
  have once: "started_once (W1\<lparr>wt_armed := None\<rparr>)"
    using observe_all_once [OF assms(2) r(1)] by (auto simp: started_once_def)
  have kn: "known (hist @ tr) (W1\<lparr>wt_armed := None\<rparr>)"
    using observed_known [OF assms(2) r(3)] by (simp add: known_def)
  have sp: "wt_spawned W1 = spawned_keys (hist @ tr)" using observe_tells(2) [OF assms(2)] r(4) by simp
  have last: "last_saved (Some (wt_state W)) tr = Some (wt_state W1)" using observe_tells(1) [OF assms(2)] .
  have com: "committed (Some (wt_state W)) tr"
    using observed_committed [OF assms(2)] r(2) by (simp add: armed_flies_def)
  have here: "committed d tr \<and> (case last_saved d tr of Some st \<Rightarrow> wt_state W1 = st
      | None \<Rightarrow> spawned_keys (hist @ tr) = [] \<and> empty_handed (wt_state W1))"
  proof (cases d)
    case (Some st)
    then have "wt_state W = st" using assms(1) by (simp add: life_rule_def)
    then show ?thesis using Some last com by simp
  next
    case None
    then have e: "spawned_keys hist = []" "empty_handed (wt_state W)" using assms(1) by (simp_all add: life_rule_def)
    show ?thesis
    proof (cases "last_saved None tr")
      case None
      then show ?thesis using nothing_saved_nothing_started [OF assms(2) r(2)] committed_unborn [OF assms(2) r(2)] e \<open>d = None\<close> last
          last_saved_or [of "Some (wt_state W)" tr] by simp
    next
      case (Some st)
      then show ?thesis using \<open>d = None\<close> last last_saved_or [of "Some (wt_state W)" tr]
          committed_unborn [OF assms(2) r(2)] by simp
    qed
  qed
  then show ?thesis unfolding life_rule_def
    using once kn sp r(5,6) by (simp add: committed_append last_saved_append split: option.splits)
qed

lemma lived_rule: "lived ou d hist \<Longrightarrow> \<exists>W. life_rule d hist W"
proof (induction rule: lived.induct)
  case unborn
  define W where "W = \<lparr>wt_state = load_or_mint None [] [] [] [], wt_armed = None, wt_spawned = [], wt_paused = []\<rparr>"
  have "life_rule None [] W"
    by (simp add: W_def life_rule_def load_or_mint_def empty_handed_def started_once_def known_def)
  then show ?case ..
next
  case (one_life d hist sv fresh project agent worktree polls renew w r sv' w' tr)
  then obtain W where W: "life_rule d hist W" by blast
  let ?W = "W\<lparr>wt_state := load_or_mint d fresh project agent worktree\<rparr>"
  have rule: "life_rule d hist ?W" using life_rule_loaded [OF W] .
  have "wt_state ?W = sv_state (fst (sv, w))" using one_life.hyps by simp
  from run_forever_accepted [OF one_life.hyps(4) this] obtain W' where "observe_all (sv_trace sv') ?W = Some W'"
    using one_life.hyps(3) by (auto simp: watched_def)
  moreover obtain rest where "sv_trace sv' = tr @ rest" using one_life.hyps(5) by (auto simp: prefix_def)
  ultimately obtain W1 where "observe_all tr ?W = Some W1" by (auto simp: observe_append split: option.splits)
  from life_rule_goes_on [OF rule this] show ?case ..
qed

section \<open>Guarantees\<close>

text \<open>
  C26: A job is started at most once over all the lives of a runner, crashes between any two
  effects included, however often the board delivers it: as long as neither ledger has reached
  its cap and no run of the job was reported as stopped by its budget.
\<close>

theorem no_job_starts_twice:
  assumes "lived ou (Some d) hist" "\<not> full_ledger d" "\<not> was_paused k hist"
  shows "count_list (spawned_keys hist) k \<le> 1"
proof -
  obtain W where W: "life_rule (Some d) hist W" using lived_rule [OF assms(1)] ..
  then have "started_once W" "wt_state W = d" "wt_spawned W = spawned_keys hist" "known hist W"
    by (simp_all add: life_rule_def)
  then show ?thesis using assms(2,3) by (auto simp: started_once_def known_def)
qed

text \<open>
  Whatever the world answers and wherever a life stops, a session starts only for the job that
  the state last saved names as in flight, and the state on disk is the one last saved: the
  next supervisor finds every session whose end was not recorded.
\<close>

lemma every_start_is_on_disk:
  assumes "lived ou d hist"
  shows "committed None hist \<and> d = last_saved None hist"
  using lived_rule [OF assms] by (auto simp: life_rule_def)

section \<open>Two forms of one session\<close>

lemma hex_not_dash: "is_hex c \<Longrightarrow> c \<noteq> CHR ''-''"
  by (auto simp: is_hex_def is_digit_def)

lemma uuid_without_dashes:
  assumes "list_all is_hex h"
  shows "filter (\<lambda>c. c \<noteq> CHR ''-'') (uuid_text h) = h"
proof -
  have keep: "filter (\<lambda>c. c \<noteq> CHR ''-'') xs = xs" if "set xs \<subseteq> set h" for xs
    using that assms hex_not_dash by (auto simp: filter_id_conv list_all_iff)
  have sub: "set (take n (drop m h)) \<subseteq> set h" "set (take n h) \<subseteq> set h" "set (drop m h) \<subseteq> set h" for n m
    by (meson set_take_subset set_drop_subset order_trans)+
  have "take 8 h @ take 4 (drop 8 h) @ take 4 (drop 12 h) @ take 4 (drop 16 h) @ drop 20 h = h"
    by (metis append_assoc append_take_drop_id take_add numeral_plus_numeral add_num_simps)
  then show ?thesis by (simp add: uuid_text_def keep [OF sub(1)] keep [OF sub(2)] keep [OF sub(3)])
qed

text \<open>The session id on the board and the UUID of the process name the same session.\<close>

lemma session_roundtrip:
  "length h = 32 \<Longrightarrow> list_all is_hex h \<Longrightarrow> runtime_session_id (board_session_id (uuid_text h)) = Some (uuid_text h)"
  by (simp add: runtime_session_id_def board_session_id_def uuid_without_dashes)

section \<open>One crash, one redelivery\<close>

definition demo_job :: job where
  "demo_job = \<lparr>jb_id = ''wkj_1'', jb_message = ''m1'', jb_recipient = ''ann'', jb_key = None, jb_ticket = Some ''T-1''\<rparr>"

definition demo_board :: "unit outside" where
  "demo_board = \<lparr>ou_register = (\<lambda>_ w. (Inr \<lparr>gr_epoch = 1, gr_policy = None, gr_budget = []\<rparr>, w)),
     ou_jobs = (\<lambda>_ w. (Inr [demo_job], w)), ou_event = (\<lambda>e w. (Inr (ev_version e + 1), w)),
     ou_ticket = (\<lambda>_ w. (Inr (Some 4), w)), ou_claim = (\<lambda>_ _ _ w. (Inr (), w)), ou_cancel = (\<lambda>_ _ w. (Inr (), w)),
     ou_start = (\<lambda>_ w. (Inr 77, w)), ou_wait = (\<lambda>_ w. ((Some 0, None), w)), ou_terminate = (\<lambda>w. w),
     ou_alive = (\<lambda>_ _. False), ou_clock = (\<lambda>w. (0, w)), ou_uuid = (\<lambda>w. (''f81d4fae-7dec-11d0-a765-00a0c91e6bf6'', w))\<rparr>"

definition demo_start :: "runner_state option \<Rightarrow> supervisor" where
  "demo_start d = \<lparr>sv_agent = ''ann'', sv_session = ''ses_1'', sv_worktree = ''/w'', sv_profile = None, sv_policy = None,
     sv_budget = [], sv_state = load_or_mint d ''rnr_1'' ''p'' ''ann'' ''/w'', sv_trace = []\<rparr>"

definition demo_trace :: "runner_state option \<Rightarrow> effect list" where
  "demo_trace d = sv_trace (fst (snd (run_forever 2 10 demo_board (demo_start d, ()))))"

text \<open>The first life stops right after it started the session; the second works to its end.\<close>

definition demo_crash :: "effect list" where
  "demo_crash = take 4 (demo_trace None)"

definition demo_history :: "effect list" where
  "demo_history = demo_crash @ demo_trace (last_saved None demo_crash)"

lemma demo_lived: "lived demo_board (last_saved None demo_history) demo_history"
proof -
  have life: "lived demo_board (last_saved d tr) (hist @ tr)"
    if "lived demo_board d hist" "prefix tr (demo_trace d)" for d hist tr
    by (rule one_life [OF that(1), of "demo_start d" "''rnr_1''" "''p''" "''ann''" "''/w''" 2 10 "()"])
      (use that(2) in \<open>simp_all add: demo_start_def demo_trace_def prod_eq_iff\<close>)
  have "lived demo_board (last_saved None demo_crash) ([] @ demo_crash)"
    by (rule life [OF unborn]) (simp add: demo_crash_def take_is_prefix)
  from life [OF this, of "demo_trace (last_saved None demo_crash)"]
  show ?thesis by (simp add: demo_history_def last_saved_append)
qed

lemma demo_saved: "\<not> Option.is_none (last_saved None demo_history)" by code_simp

lemma demo_ledger: "length (rs_completed (the (last_saved None demo_history))) = 0
    \<and> length (rs_failed (the (last_saved None demo_history))) = 1"
  by code_simp

lemma demo_started: "spawned_keys demo_history = [''m1:ann'']" by code_simp

lemma demo_not_paused: "\<not> was_paused k demo_history"
proof -
  have "\<not> list_ex (\<lambda>e. case e of Posted r w \<Rightarrow> w = ''budget_reached'' | _ \<Rightarrow> False) demo_history" by code_simp
  then show ?thesis by (auto simp: was_paused_iff list_ex_iff)
qed

theorem no_job_starts_twice_witness:
  "spawned_keys demo_history = [''m1:ann''] \<and> count_list (spawned_keys demo_history) ''m1:ann'' \<le> 1"
proof -
  obtain d where d: "last_saved None demo_history = Some d" using demo_saved by (cases "last_saved None demo_history") simp_all
  then have "\<not> full_ledger d" using demo_ledger by (simp add: full_ledger_def LEDGER_CAP_def)
  from no_job_starts_twice [OF demo_lived [unfolded d] this demo_not_paused] demo_started show ?thesis by simp
qed

end
