(* ===== verification/Runner_Client.thy ===== *)
theory Runner_Client
  imports Supervisor Atman_Errors
begin

text \<open>
  The runner's client of the board's API (\<open>runners/client.py\<close>): the requests it builds, the
  bounded retry and the reading of an answer. The opener is a function of the state of the
  network; the backoff between two attempts only takes time and is left out, and a payload
  that is no JSON has already been read as \<open>{}\<close> (\<open>_payload\<close>).
\<close>

section \<open>The bounded retry\<close>

definition RETRYABLE_STATUS :: "int list" where
  "RETRYABLE_STATUS = [500, 502, 503, 504]"

text \<open>What the opener may do: answer, raise \<open>HTTPError\<close>, or raise \<open>URLError\<close>, \<open>OSError\<close>, \<open>TimeoutError\<close>.\<close>

datatype reply = Answer int json | HttpError int json | Broken string

type_synonym ('q, 'w) opener = "'q \<Rightarrow> 'w \<Rightarrow> reply \<times> 'w"

text \<open>The attempts left after this one; \<open>Inl\<close> the last transport failure.\<close>

fun attempt :: "nat \<Rightarrow> ('q, 'w) opener \<Rightarrow> 'q \<Rightarrow> 'w \<Rightarrow> (string + int \<times> json) \<times> 'w" where
  "attempt 0 opener q w =
     (let (r, w') = opener q w in
      case r of Answer st b \<Rightarrow> (Inr (st, b), w') | HttpError st b \<Rightarrow> (Inr (st, b), w') | Broken t \<Rightarrow> (Inl t, w'))"
| "attempt (Suc n) opener q w =
     (let (r, w') = opener q w in
      case r of
        Answer st b \<Rightarrow> (Inr (st, b), w')
      | HttpError st b \<Rightarrow> if st \<in> set RETRYABLE_STATUS then attempt n opener q w' else (Inr (st, b), w')
      | Broken t \<Rightarrow> attempt n opener q w')"

record http_request =
  hq_method :: string
  hq_url :: string
  hq_headers :: "(string \<times> string) list"
  hq_body :: "json option"

record client =
  cl_base :: string
  cl_project :: string
  cl_token :: string
  cl_retries :: nat

definition build_request :: "client \<Rightarrow> string \<Rightarrow> string \<Rightarrow> json option \<Rightarrow> string \<Rightarrow> http_request" where
  "build_request cl verb path body query =
     \<lparr>hq_method = verb,
      hq_url = rev (dropWhile (\<lambda>c. c = CHR ''/'') (rev (cl_base cl))) @ path
        @ (if query = [] then [] else ''?'' @ query),
      hq_headers = [(''X-Project-Id'', cl_project cl), (''Authorization'', ''Bearer '' @ cl_token cl)]
        @ (if body = None then [] else [(''Content-Type'', ''application/json'')]),
      hq_body = body\<rparr>"

definition client_call ::
  "client \<Rightarrow> (http_request, 'w) opener \<Rightarrow> string \<Rightarrow> string \<Rightarrow> json option \<Rightarrow> string \<Rightarrow> 'w
    \<Rightarrow> (call_error + int \<times> json) \<times> 'w" where
  "client_call cl opener verb path body query w =
     (let (r, w') = attempt (cl_retries cl) opener (build_request cl verb path body query) w in
      case r of
        Inl t \<Rightarrow> (Inl (BoardUnreachable (verb @ '' '' @ path @ '' failed after '' @ dec (cl_retries cl + 1)
                    @ '' attempts: '' @ t)), w')
      | Inr x \<Rightarrow> (Inr x, w'))"

section \<open>Reading an answer\<close>

fun json_get :: "json \<Rightarrow> string \<Rightarrow> json" where
  "json_get (JObj kvs) k = (case map_of kvs k of None \<Rightarrow> JNull | Some v \<Rightarrow> v)"
| "json_get _ k = JNull"

fun json_text :: "string \<Rightarrow> json \<Rightarrow> string" where
  "json_text d (JStr s) = s"
| "json_text d _ = d"

text \<open>\<open>details.get("actual_version")\<close>, for an integer.\<close>

definition actual_version :: "json \<Rightarrow> int option" where
  "actual_version err = (case json_get (json_get err ''details'') ''actual_version'' of JInt v \<Rightarrow> Some v | _ \<Rightarrow> None)"

text \<open>\<open>_ok\<close>; codes and messages of the board are strings.\<close>

definition ok_payload :: "int \<Rightarrow> json \<Rightarrow> call_error + json" where
  "ok_payload st payload =
     (if st = 200 then Inr payload
      else let err = json_get payload ''error'' in
        if is_dict err
        then (let code = json_text ''unknown'' (json_get err ''code'') in
          Inl (ApiError code (actual_version err) (dec_int st @ '' '' @ code @ '': '' @ json_text [] (json_get err ''message''))))
        else Inl (ApiError ''unknown'' None (dec_int st @ '' unknown: Unrecognised error body from board.'')))"

definition api ::
  "client \<Rightarrow> (http_request, 'w) opener \<Rightarrow> string \<Rightarrow> string \<Rightarrow> json option \<Rightarrow> string \<Rightarrow> 'w
    \<Rightarrow> (call_error + json) \<times> 'w" where
  "api cl opener verb path body query w =
     (let (r, w') = client_call cl opener verb path body query w in
      case r of Inl e \<Rightarrow> (Inl e, w') | Inr (st, payload) \<Rightarrow> (ok_payload st payload, w'))"

section \<open>The routes\<close>

text \<open>A keyword argument that is \<open>None\<close> is not sent at all. \<open>rid\<close> is drawn once for the call.\<close>

definition sent :: "string \<Rightarrow> ('a \<Rightarrow> json) \<Rightarrow> 'a option \<Rightarrow> (string \<times> json) list" where
  "sent k f v = (case v of None \<Rightarrow> [] | Some x \<Rightarrow> [(k, f x)])"

definition register_body :: "string \<Rightarrow> registration \<Rightarrow> json" where
  "register_body rid g = JObj
     ([(''request_id'', JStr rid), (''runner_id'', JStr (rg_runner g)), (''agent_id'', JStr (rg_agent g)),
       (''allowlisted_worktree'', JStr (rg_worktree g))]
      @ sent ''runtime_profile'' JStr (rg_profile g) @ sent ''permission_policy'' JStr (rg_policy g)
      @ sent ''expected_epoch'' JInt (rg_epoch g))"

definition run_event_body :: "string \<Rightarrow> run_event \<Rightarrow> json" where
  "run_event_body rid e = JObj
     ([(''request_id'', JStr rid), (''expected_version'', JInt (ev_version e)), (''event'', JStr (ev_event e))]
      @ sent ''session_id'' JStr (ev_session e) @ sent ''ticket_claim'' JStr (ev_claim e)
      @ sent ''reason'' JStr (ev_reason e)
      @ sent ''budget'' (\<lambda>b. JObj (map (\<lambda>(k, v). (k, JInt v)) b)) (ev_budget e))"

definition claim_body :: "string \<Rightarrow> int \<Rightarrow> string \<Rightarrow> json" where
  "claim_body rid v session =
     JObj [(''request_id'', JStr rid), (''expected_version'', JInt v), (''session_id'', JStr session)]"

definition cancel_body :: "string \<Rightarrow> int \<Rightarrow> string \<Rightarrow> json" where
  "cancel_body rid v reason =
     JObj [(''request_id'', JStr rid), (''expected_version'', JInt v), (''reason'', JStr reason)]"

definition api_register :: "client \<Rightarrow> (http_request, 'w) opener \<Rightarrow> string \<Rightarrow> registration \<Rightarrow> 'w \<Rightarrow> (call_error + json) \<times> 'w" where
  "api_register cl op rid g = api cl op ''POST'' ''/runners/register'' (Some (register_body rid g)) []"

definition api_jobs :: "client \<Rightarrow> (http_request, 'w) opener \<Rightarrow> string \<Rightarrow> int \<Rightarrow> 'w \<Rightarrow> (call_error + json) \<times> 'w" where
  "api_jobs cl op runner secs =
     api cl op ''GET'' ''/runners/jobs'' None (''runner_id='' @ runner @ ''&wait_seconds='' @ dec_int secs)"

definition api_run_event :: "client \<Rightarrow> (http_request, 'w) opener \<Rightarrow> string \<Rightarrow> run_event \<Rightarrow> 'w \<Rightarrow> (call_error + json) \<times> 'w" where
  "api_run_event cl op rid e =
     api cl op ''POST'' (''/runs/'' @ ev_run e @ ''/events'') (Some (run_event_body rid e)) []"

definition api_ticket :: "client \<Rightarrow> (http_request, 'w) opener \<Rightarrow> string \<Rightarrow> 'w \<Rightarrow> (call_error + json) \<times> 'w" where
  "api_ticket cl op tid = api cl op ''GET'' (''/tickets/'' @ tid) None []"

definition api_claim ::
  "client \<Rightarrow> (http_request, 'w) opener \<Rightarrow> string \<Rightarrow> string \<Rightarrow> int \<Rightarrow> string \<Rightarrow> 'w \<Rightarrow> (call_error + json) \<times> 'w" where
  "api_claim cl op rid tid v session =
     api cl op ''POST'' (''/tickets/'' @ tid @ ''/claim'') (Some (claim_body rid v session)) []"

definition api_cancel ::
  "client \<Rightarrow> (http_request, 'w) opener \<Rightarrow> string \<Rightarrow> string \<Rightarrow> int \<Rightarrow> string \<Rightarrow> 'w \<Rightarrow> (call_error + json) \<times> 'w" where
  "api_cancel cl op rid run v reason =
     api cl op ''POST'' (''/runs/'' @ run @ ''/cancel'') (Some (cancel_body rid v reason)) []"

section \<open>What the board's errors become\<close>

text \<open>Every storage error arrives with its code, and a version conflict with the version to retry at.\<close>

lemma board_error_arrives:
  assumes "err_code e = Some code" "to_error_response e rid = Some body"
  shows "\<exists>t. ok_payload (int (err_status e)) body = Inl (ApiError code
      (case map_of (err_details e) ''actual_version'' of Some (JInt v) \<Rightarrow> Some v | _ \<Rightarrow> None) t)"
proof -
  have st: "err_status e \<noteq> 200" using err_status_range [of e] assms(1) by auto
  show ?thesis using assms st
    by (auto simp: to_error_response_def ok_payload_def Let_def actual_version_def split: option.splits json.splits if_splits)
qed

lemma version_conflict_arrives:
  assumes "to_error_response (TicketVersionConflict tid v a) rid = Some body"
  shows "\<exists>t. ok_payload (int (err_status (TicketVersionConflict tid v a))) body
    = Inl (ApiError ''ticket_version_conflict'' (Some a) t)"
  using board_error_arrives [OF _ assms] by simp

end
