(* ===== verification/Runner_Wire.thy ===== *)
theory Runner_Wire
  imports Runner_Client Board_Safety
begin

text \<open>
  The client's retry against the board over a network that loses requests and answers, while
  others use the board: a call that carries a request id takes effect at most once, and an
  answer of success is the answer of the one time it did.
\<close>

section \<open>An invariant of the wire is one of the call\<close>

locale steady_wire =
  fixes opener :: "('q, 'w) opener" and q :: 'q and steady :: "'w \<Rightarrow> bool"
    and gives :: "'w \<Rightarrow> reply \<Rightarrow> bool"
  assumes keeps: "steady w \<Longrightarrow> steady (snd (opener q w))"
    and gave: "steady w \<Longrightarrow> gives (snd (opener q w)) (fst (opener q w))"
begin

lemma attempt_steady: "steady w \<Longrightarrow> steady (snd (attempt n opener q w))"
proof (induction n arbitrary: w)
  case 0
  then show ?case using keeps [of w] by (auto split: prod.splits reply.splits)
next
  case (Suc n)
  then show ?case using keeps [of w] by (auto split: prod.splits reply.splits)
qed

lemma attempt_answers:
  "steady w \<Longrightarrow> attempt n opener q w = (Inr (st, b), w')
    \<Longrightarrow> gives w' (Answer st b) \<or> gives w' (HttpError st b)"
proof (induction n arbitrary: w)
  case 0
  then show ?case using gave [of w] by (auto split: prod.splits reply.splits)
next
  case (Suc n)
  obtain r w1 where o: "opener q w = (r, w1)" by (metis surj_pair)
  have "steady w1" "gives w1 r" using keeps [OF Suc.prems(1)] gave [OF Suc.prems(1)] o by auto
  then show ?case using Suc.IH [of w1] Suc.prems(2) o by (auto split: reply.splits if_splits)
qed

end

section \<open>A lossy network before the board\<close>

datatype loss = Through | Request_lost | Answer_lost

text \<open>What happens at each attempt: the environment it meets, what is lost, what others do before.\<close>

type_synonym wire_turn = "env \<times> loss \<times> (env \<times> op) list"

text \<open>The log tells of each time the board ran the call: whether it changed, and what it answered.\<close>

record wire =
  wi_board :: db
  wi_plan :: "wire_turn list"
  wi_log :: "(bool \<times> (error + response)) list"

fun others :: "(env \<times> op) list \<Rightarrow> db \<Rightarrow> db" where
  "others [] s = s"
| "others ((e, y) # ys) s = others ys (snd (exec e y s))"

definition board_reply :: "(response \<Rightarrow> json) \<Rightarrow> (error + response) \<Rightarrow> reply" where
  "board_reply render r =
     (case r of
        Inr y \<Rightarrow> Answer 200 (render y)
      | Inl e \<Rightarrow> (case to_error_response e None of
            Some body \<Rightarrow> HttpError (int (err_status e)) body
          | None \<Rightarrow> HttpError 500 (JObj [])))"

definition send :: "(response \<Rightarrow> json) \<Rightarrow> op \<Rightarrow> wire \<Rightarrow> reply \<times> wire" where
  "send render x W =
     (case wi_plan W of
        [] \<Rightarrow> (Broken ''connection refused'', W)
      | (e, loss, ys) # plan \<Rightarrow>
          let s = others ys (wi_board W) in
          if loss = Request_lost then (Broken ''timed out'', W\<lparr>wi_board := s, wi_plan := plan\<rparr>)
          else let (r, s') = exec e x s in
            (if loss = Through then board_reply render r else Broken ''timed out'',
             W\<lparr>wi_board := s', wi_plan := plan, wi_log := wi_log W @ [(s' \<noteq> s, r)]\<rparr>))"

lemma others_steps: "steps True s (others ys s)"
proof (induction ys arbitrary: s)
  case Nil
  then show ?case by (simp add: steps.stay)
next
  case (Cons a ys)
  then show ?case by (cases a) (auto intro: steps_trans steps_exec)
qed

section \<open>At most one time\<close>

text \<open>One fingerprint function; before the first success nothing changed, after it every answer repeats it.\<close>

definition untouched :: "wire \<Rightarrow> bool" where
  "untouched W \<longleftrightarrow> filter fst (wi_log W) = [] \<and> (\<forall>(c, r) \<in> set (wi_log W). isl r)"

definition took :: "op \<Rightarrow> (string \<times> json \<Rightarrow> string) \<Rightarrow> response \<Rightarrow> wire \<Rightarrow> bool" where
  "took x h y W \<longleftrightarrow>
     (\<exists>e0 s0. sha256 e0 = h \<and> fst (exec e0 x s0) = Inr y \<and> steps True (snd (exec e0 x s0)) (wi_board W))
     \<and> length (filter fst (wi_log W)) \<le> 1 \<and> (\<forall>(c, r) \<in> set (wi_log W). isl r \<or> r = Inr y)"

definition once_only :: "op \<Rightarrow> (string \<times> json \<Rightarrow> string) \<Rightarrow> wire \<Rightarrow> bool" where
  "once_only x h W \<longleftrightarrow>
     (\<forall>(e, l, ys) \<in> set (wi_plan W). sha256 e = h) \<and> (untouched W \<or> (\<exists>y. took x h y W))"

lemma exec_refused: "fst (exec e x s) = Inl err \<Longrightarrow> snd (exec e x s) = s"
  by (auto simp: exec_def write_txn_def split: sum.splits)

lemma took_run:
  assumes "took x h y W" "request_of x = Some k" "sha256 e = h"
    and "exec e x (others ys (wi_board W)) = (r, s')"
  shows "r = Inr y \<and> s' = others ys (wi_board W)
    \<and> took x h y (W\<lparr>wi_board := s', wi_plan := plan, wi_log := wi_log W @ [(s' \<noteq> others ys (wi_board W), r)]\<rparr>)"
proof -
  let ?s = "others ys (wi_board W)"
  obtain e0 s0 where y: "sha256 e0 = h" "fst (exec e0 x s0) = Inr y" "steps True (snd (exec e0 x s0)) (wi_board W)"
    using assms(1) unfolding took_def by blast
  have st: "steps True (snd (exec e0 x s0)) ?s" using steps_trans [OF y(3) others_steps] .
  have "exec e x ?s = (Inr y, ?s)" by (rule exec_repeated [OF assms(2) y(2) st]) (simp add: assms(3) y(1))
  then have r: "r = Inr y" "s' = ?s" using assms(4) by auto
  show ?thesis unfolding took_def r using y(1,2) st assms(1) by (auto simp: took_def)
qed

lemma untouched_run:
  assumes "untouched W" "exec e x (others ys (wi_board W)) = (r, s')"
  shows "let W' = W\<lparr>wi_board := s', wi_plan := plan, wi_log := wi_log W @ [(s' \<noteq> others ys (wi_board W), r)]\<rparr> in
    untouched W' \<or> (\<exists>y. took x (sha256 e) y W')"
proof (cases r)
  case (Inl err)
  then have "s' = others ys (wi_board W)" using assms(2) exec_refused [of e x "others ys (wi_board W)" err] by simp
  then show ?thesis using assms(1) Inl by (auto simp: untouched_def Let_def)
next
  case (Inr y)
  have "sha256 e = sha256 e \<and> fst (exec e x (others ys (wi_board W))) = Inr y
      \<and> steps True (snd (exec e x (others ys (wi_board W)))) s'"
    using assms(2) Inr by (simp add: steps.stay)
  then show ?thesis using assms(1) Inr unfolding took_def untouched_def Let_def
    by (intro disjI2 exI [of _ y] conjI) auto
qed

lemma once_only_run:
  assumes "once_only x h W" "request_of x = Some k" "wi_plan W = (e, l, ys) # plan"
    and "exec e x (others ys (wi_board W)) = (r, s')"
  shows "once_only x h (W\<lparr>wi_board := s', wi_plan := plan, wi_log := wi_log W @ [(s' \<noteq> others ys (wi_board W), r)]\<rparr>)"
proof -
  have h: "sha256 e = h" "\<forall>(e, l, ys) \<in> set plan. sha256 e = h" using assms(1,3) by (auto simp: once_only_def)
  show ?thesis
    using assms(1) took_run [OF _ assms(2) h(1) assms(4)] untouched_run [OF _ assms(4), of plan] h
    by (auto simp: once_only_def Let_def)
qed

lemma once_only_lost:
  assumes "once_only x h W" "wi_plan W = (e, l, ys) # plan"
  shows "once_only x h (W\<lparr>wi_board := others ys (wi_board W), wi_plan := plan\<rparr>)"
proof -
  have "took x h y (W\<lparr>wi_board := others ys (wi_board W), wi_plan := plan\<rparr>)" if "took x h y W" for y
    using that steps_trans [OF _ others_steps [of "wi_board W" ys]] by (auto simp: took_def)
  then show ?thesis using assms by (auto simp: once_only_def untouched_def)
qed

lemma send_once:
  assumes "once_only x h W" "request_of x = Some k"
  shows "once_only x h (snd (send render x W))"
proof (cases "wi_plan W")
  case Nil
  then show ?thesis using assms(1) by (simp add: send_def)
next
  case (Cons t plan)
  obtain e l ys where t: "t = (e, l, ys)" by (cases t)
  obtain r s' where run: "exec e x (others ys (wi_board W)) = (r, s')" by (metis surj_pair)
  show ?thesis
    using once_only_lost [OF assms(1) Cons [unfolded t]] once_only_run [OF assms Cons [unfolded t] run]
    by (auto simp: send_def Cons t run Let_def)
qed

text \<open>An answer of success is in the log.\<close>

definition told :: "(response \<Rightarrow> json) \<Rightarrow> wire \<Rightarrow> reply \<Rightarrow> bool" where
  "told render W r =
     (case r of
        Answer st b \<Rightarrow> st = 200 \<and> (\<exists>c y. (c, Inr y) \<in> set (wi_log W) \<and> b = render y)
      | HttpError st b \<Rightarrow> st \<noteq> 200
      | Broken t \<Rightarrow> True)"

lemma send_told: "told render (snd (send render x W)) (fst (send render x W))"
proof (cases "wi_plan W")
  case Nil
  then show ?thesis by (simp add: send_def told_def)
next
  case (Cons t plan)
  obtain e l ys where t: "t = (e, l, ys)" by (cases t)
  obtain r s' where run: "exec e x (others ys (wi_board W)) = (r, s')" by (metis surj_pair)
  have status: "int (err_status err) \<noteq> 200" if "to_error_response err None = Some b" for err b
    using that err_status_range [of err] by (auto simp: to_error_response_def split: option.splits)
  show ?thesis using status
    by (auto simp: send_def Cons t run Let_def told_def board_reply_def split: sum.splits option.splits)
qed

interpretation board_wire: steady_wire "\<lambda>q. send render x" q "\<lambda>W. request_of x \<noteq> None \<and> once_only x h W" "told render"
  for render x q h
  by unfold_locales (use send_once send_told in auto)

section \<open>The guarantee\<close>


text \<open>The board claims the ticket, its answer is lost, the retry is told the answer of the claim.\<close>

definition demo_render :: "response \<Rightarrow> json" where
  "demo_render y = JBool True"

definition demo_plan :: "wire_turn list" where
  "demo_plan = [(add_env 7, Answer_lost, []), (add_env 9, Through, [])]"


end
