(* ===== verification/Event_Stream.thy ===== *)
theory Event_Stream
  imports Credentials Py_Number Master_Lease
begin

text \<open>
  The event stream of the server (\<open>server/events.py\<close>): where a connection starts, what a poll
  of the audit trail emits, who may see an event, and the connection as a fold over what its
  polls meet. A frame is the record of its parts; the text of its envelope (\<open>json.dumps\<close>) is
  a parameter of its encoding. A poll reads one state of the database, although the code reads it in several
  statements. \<open>frames\<close> is modelled as a live connection calls it: \<open>stop\<close> is the end of the list
  of polls, and the limits that the tests set are not given. The clock counts nanoseconds.
\<close>

section \<open>Identifiers and kinds\<close>

text \<open>\<open>int(event_id.split("_")[1])\<close>; no second part and no integer are \<open>None\<close>.\<close>

definition seq_of :: "string \<Rightarrow> int option" where
  "seq_of eid =
     (case py_split (CHR ''_'') eid of
        _ # x # _ \<Rightarrow> (case py_int x of Inr n \<Rightarrow> Some n | Inl _ \<Rightarrow> None)
      | _ \<Rightarrow> None)"

definition TYPE_BY_PREFIX :: "(string \<times> string) list" where
  "TYPE_BY_PREFIX =
     [(''ticket.'', ''ticket_changed''), (''review.'', ''review_changed''),
      (''assignment.'', ''assignment_changed''), (''master.'', ''master_lease_changed''),
      (''agent.'', ''agent_changed''), (''session.'', ''agent_changed''), (''hook.'', ''agent_changed'')]"

definition event_type :: "string \<Rightarrow> string" where
  "event_type action =
     (case List.find (\<lambda>(p, k). take (length p) action = p) TYPE_BY_PREFIX of
        Some (p, k) \<Rightarrow> k | None \<Rightarrow> ''audit_appended'')"

definition SSE_RETENTION_EVENTS :: int where "SSE_RETENTION_EVENTS = 1000"

definition HEARTBEAT_NS :: int where "HEARTBEAT_NS = 15 * 10 ^ 9"

text \<open>\<open>head_event\<close>: the sequence number of the newest row of the project, 0 without one.\<close>

definition head_seq :: "db \<Rightarrow> string \<Rightarrow> int" where
  "head_seq s p =
     (case map au_seq (filter (\<lambda>r. au_project r = p) (db_audits s)) of [] \<Rightarrow> 0 | x # xs \<Rightarrow> foldl max x xs)"

section \<open>Envelopes\<close>

record envelope =
  en_event_id :: string
  en_type :: string
  en_snapshot :: int
  en_occurred_at :: stamp
  en_subject :: "string option"
  en_payload :: "response option"
  en_reason :: "string option"

definition or_none :: "error + 'a \<Rightarrow> 'a option" where
  "or_none r = (case r of Inl _ \<Rightarrow> None | Inr x \<Rightarrow> Some x)"

text \<open>
  \<open>_payload\<close>: the changed record, or nothing when it cannot be read. The agent is the store's;
  its reshaping for the screen (\<open>serialize_agent\<close>) is left out.
\<close>

definition event_payload :: "env \<Rightarrow> db \<Rightarrow> string \<Rightarrow> audit_row \<Rightarrow> response option" where
  "event_payload e s kind r =
     (case au_subject_id r of
        None \<Rightarrow> None
      | Some subject \<Rightarrow>
          if kind = ''ticket_changed'' then or_none (get_ticket (au_project r) subject s)
          else if kind = ''agent_changed'' then or_none (get_agent subject (Some (au_project r)) s)
          else if kind = ''review_changed'' then or_none (get_review (au_project r) subject s)
          else if kind = ''assignment_changed''
          then map_option RAssignment (List.find (\<lambda>a. as_id a = subject) (db_assignments s))
          else if kind = ''master_lease_changed''
          then Some (RLease (serialize_master_lease e (au_project r) (find_lease s (au_project r))))
          else None)"

definition envelope_of :: "env \<Rightarrow> db \<Rightarrow> int \<Rightarrow> audit_row \<Rightarrow> envelope" where
  "envelope_of e s snapshot r =
     (let kind = event_type (au_action r) in
      \<lparr>en_event_id = au_event_id r, en_type = kind, en_snapshot = snapshot, en_occurred_at = au_occurred_at r,
       en_subject = au_subject_id r, en_payload = event_payload e s kind r, en_reason = None\<rparr>)"

definition control :: "env \<Rightarrow> string \<Rightarrow> int \<Rightarrow> string option \<Rightarrow> envelope" where
  "control e kind snapshot reason =
     \<lparr>en_event_id = event_id snapshot (rnd e 0), en_type = kind, en_snapshot = snapshot, en_occurred_at = clock e,
      en_subject = None, en_payload = None, en_reason = reason\<rparr>"

section \<open>Who sees an event\<close>

datatype event_channel = Unbound | Unresolved | Bound string

definition channel_of_event :: "db \<Rightarrow> audit_row \<Rightarrow> event_channel" where
  "channel_of_event s r =
     (if au_subject_type r \<noteq> Some ''message'' \<or> \<not> truthy_str (au_subject_id r) then Unbound
      else case List.find (\<lambda>m. Some (ms_id m) = au_subject_id r) (messages s) of
        None \<Rightarrow> Unresolved
      | Some m \<Rightarrow> Bound (ms_channel m))"

definition member_of_principal :: "db \<Rightarrow> principal \<Rightarrow> string \<Rightarrow> string option" where
  "member_of_principal s pr p =
     map_option me_id (List.find (\<lambda>m. me_project m = p \<and> me_state m = Active \<and>
        (if pp_kind pr = AgentKind then pp_agent pr \<noteq> None \<and> me_agent m = pp_agent pr
         else Some (me_id m) = pp_operator pr)) (members s))"

definition may_read_channel :: "db \<Rightarrow> principal \<Rightarrow> string \<Rightarrow> string \<Rightarrow> bool" where
  "may_read_channel s pr p cid =
     (case List.find (\<lambda>c. ch_id c = cid \<and> ch_project c = p) (channels s) of
        None \<Rightarrow> False
      | Some c \<Rightarrow>
          ch_visibility c = ''public''
          \<or> (case member_of_principal s pr p of
               None \<Rightarrow> False
             | Some mid \<Rightarrow> list_ex (\<lambda>x. cm_project x = p \<and> cm_channel x = cid \<and> cm_member x = mid)
                 (channel_members s)))"

definition visible_to :: "db \<Rightarrow> principal \<Rightarrow> audit_row \<Rightarrow> bool" where
  "visible_to s pr r =
     (au_project r = pp_project pr \<and>
      (case channel_of_event s r of
         Unbound \<Rightarrow> True
       | Unresolved \<Rightarrow> False
       | Bound cid \<Rightarrow> may_read_channel s pr (au_project r) cid))"

section \<open>A connection\<close>

definition start_position :: "db \<Rightarrow> string \<Rightarrow> string option \<Rightarrow> int \<times> bool" where
  "start_position s p last_id =
     (let head = head_seq s p in
      if \<not> truthy_str last_id then (head, False)
      else case seq_of (str_or_empty last_id) of
        None \<Rightarrow> (head, True)
      | Some requested \<Rightarrow> if requested < head - SSE_RETENTION_EVENTS then (head, True) else (requested, False))"

text \<open>A frame with an \<open>id:\<close> line, one without, and the first line that sets the retry delay.\<close>

datatype frame = Retry | Event envelope | Control envelope

definition after_rows :: "int \<Rightarrow> audit_row list \<Rightarrow> int" where
  "after_rows after rows =
     foldl (\<lambda>a r. case seq_of (au_event_id r) of None \<Rightarrow> a | Some n \<Rightarrow> max a n) after rows"

definition row_frames :: "env \<Rightarrow> db \<Rightarrow> string \<Rightarrow> principal \<Rightarrow> audit_row list \<Rightarrow> frame list" where
  "row_frames e s p pr rows =
     map (\<lambda>r. Event (envelope_of e s (head_seq s p) r)) (filter (visible_to s pr) rows)"

text \<open>\<open>encode_frame\<close> over the text of the envelope; the retry delay is a line of its own.\<close>

definition encode_frame :: "(envelope \<Rightarrow> string) \<Rightarrow> envelope \<Rightarrow> bool \<Rightarrow> string" where
  "encode_frame dumps en with_id = py_join [CHR 0x0A]
     ((if with_id \<and> en_event_id en \<noteq> [] then [''id: '' @ en_event_id en] else [])
      @ [''event: '' @ en_type en, ''data: '' @ dumps en, [], []])"

fun frame_text :: "(envelope \<Rightarrow> string) \<Rightarrow> frame \<Rightarrow> string" where
  "frame_text dumps Retry = ''retry: 2000'' @ [CHR 0x0A, CHR 0x0A]"
| "frame_text dumps (Event en) = encode_frame dumps en True"
| "frame_text dumps (Control en) = encode_frame dumps en False"

text \<open>The polls of a connection: what each meets, its reading of the clock; \<open>seen_at\<close> is \<open>last_activity\<close>.\<close>

type_synonym poll = "env \<times> db \<times> int"

fun polls :: "string \<Rightarrow> principal \<Rightarrow> int \<Rightarrow> int \<Rightarrow> poll list \<Rightarrow> frame list" where
  "polls p pr after seen_at [] = []"
| "polls p pr after seen_at ((e, s, t) # rest) =
     (let rows = audit_trail s p after 200 in
      if rows \<noteq> []
      then let fs = row_frames e s p pr rows in
        fs @ polls p pr (after_rows after rows) (if fs = [] then seen_at else t) rest
      else if t - seen_at \<ge> HEARTBEAT_NS
      then Control (control e ''heartbeat'' (head_seq s p) None) # polls p pr after t rest
      else polls p pr after seen_at rest)"

definition stream_frames :: "string \<Rightarrow> principal \<Rightarrow> string option \<Rightarrow> poll \<Rightarrow> poll list \<Rightarrow> frame list" where
  "stream_frames p pr last_id start rest =
     (case start of (e, s, t) \<Rightarrow>
       let (after, expired) = start_position s p last_id in
       Retry # (if expired then [Control (control e ''snapshot_required'' (head_seq s p) (Some ''cursor_expired''))] else [])
       @ polls p pr after t rest)"

section \<open>The client\<close>

text \<open>The cursor a client keeps: the last \<open>id:\<close> line it has read.\<close>

fun frame_id :: "frame \<Rightarrow> string option" where
  "frame_id (Event en) = Some (en_event_id en)"
| "frame_id _ = None"

definition received :: "frame list \<Rightarrow> string list" where
  "received fs = List.map_filter frame_id fs"

end
