(* ===== verification/Stream_Guarantees.thy ===== *)
theory Stream_Guarantees
  imports Event_Stream Serve_Demo Board_Safety "HOL-Library.Sublist"
begin

text \<open>
  What the event stream guarantees over any number of reconnections: the client receives the
  visible events after its cursor in order, without a gap and without a repetition, unless it
  is told to read the screen again; and no message of a channel it may not read.
\<close>

section \<open>Positions\<close>

lemma digits_value_snoc: "digits_value (ds @ [c]) = 10 * digits_value ds + (int (of_char c) - 48)"
  by (simp add: digits_value_def)

lemma digit_of_char: "d < 10 \<Longrightarrow> int (of_char (digit_char d)) - 48 = int d \<and> is_digit (digit_char d)"
  by (auto simp: digit_char_def is_digit_def)

lemma dec_digits: "list_all is_digit (dec n) \<and> dec n \<noteq> [] \<and> digits_value (dec n) = int n"
proof (induction n rule: dec.induct)
  case (1 n)
  show ?case
  proof (cases "n < 10")
    case True
    then show ?thesis using digit_of_char [of n] by (simp add: dec.simps [of n] digits_value_def)
  next
    case False
    then show ?thesis using 1 digit_of_char [of "n mod 10"] zmod_int [of n 10]
      by (simp add: dec.simps [of n] digits_value_snoc zdiv_int)
  qed
qed

lemma digits_value_zeros: "digits_value (replicate k CHR ''0'' @ ds) = digits_value ds"
  by (induction k) (simp_all add: digits_value_def)

lemma digit_plain: "is_digit c \<Longrightarrow> \<not> is_space c \<and> c \<noteq> CHR ''_'' \<and> c \<noteq> CHR ''-'' \<and> c \<noteq> CHR ''+''"
  by (auto simp: is_digit_def is_space_def Let_def)

lemma py_int_digits:
  assumes "list_all is_digit ds" "ds \<noteq> []"
  shows "py_int ds = Inr (digits_value ds)"
proof -
  have plain: "\<forall>c \<in> set ds. \<not> is_space c \<and> c \<noteq> CHR ''_'' \<and> c \<noteq> CHR ''-'' \<and> c \<noteq> CHR ''+''"
    using assms(1) digit_plain by (auto simp: list_all_iff)
  have strip: "py_strip ds = ds" by (rule py_strip_no_space) (use plain in \<open>simp add: list_all_iff\<close>)
  obtain c r where ds: "ds = c # r" using assms(2) by (meson neq_Nil_conv)
  have "py_split (CHR ''_'') ds = [ds]" by (rule py_split_no_occ) (use plain in blast)
  then have "unsigned_int ds = Inr (digits_value ds)" using assms by (simp add: unsigned_int_def)
  then show ?thesis using strip plain unfolding ds by (simp add: py_int_def)
qed

text \<open>The cursor is the sequence number: the id is not opaque.\<close>

lemma seq_of_event_id: "0 \<le> k \<Longrightarrow> seq_of (event_id k x) = Some k"
proof -
  assume k: "0 \<le> k"
  define ds where "ds = zero_pad 12 (dec (nat k))"
  have ds: "list_all is_digit ds" "ds \<noteq> []" "digits_value ds = k"
    using dec_digits [of "nat k"] k
    by (auto simp: ds_def zero_pad_def digits_value_zeros list_all_iff is_digit_def)
  then have "CHR ''_'' \<notin> set ds" using digit_plain by (auto simp: list_all_iff)
  then have "py_split (CHR ''_'') (ds @ CHR ''_'' # x) = ds # py_split (CHR ''_'') x" by (rule py_split_first)
  then have "py_split (CHR ''_'') (event_id k x) = ''evt'' # ds # py_split (CHR ''_'') x"
    using py_split_first [of "CHR ''_''" "''evt''" "ds @ CHR ''_'' # x"] by (simp add: event_id_def ds_def)
  then show ?thesis using py_int_digits [OF ds(1,2)] ds(3) by (simp add: seq_of_def)
qed

section \<open>One connection\<close>

text \<open>The rows of the project after a position.\<close>

definition rows_after :: "string \<Rightarrow> int \<Rightarrow> audit_row list \<Rightarrow> audit_row list" where
  "rows_after p k as = filter (\<lambda>r. au_project r = p \<and> au_seq r > k) as"

lemma trail_ok_seq: "trail_ok as \<Longrightarrow> r \<in> set as \<Longrightarrow> seq_of (au_event_id r) = Some (au_seq r)"
  unfolding trail_ok_def using seq_of_event_id by (metis order.trans zero_le_one)

lemma trail_ok_prefix: "trail_ok (xs @ ys) \<Longrightarrow> trail_ok xs"
  by (auto simp: trail_ok_def sorted_wrt_append)

lemma rows_after_sorted: "trail_ok as \<Longrightarrow> sorted_wrt (<) (map au_seq (rows_after p k as))"
  by (auto simp: trail_ok_def rows_after_def sorted_wrt_map intro: sorted_wrt_filter)

lemma after_rows_last:
  assumes "trail_ok as" "set rows \<subseteq> set as" "sorted_wrt (<) (map au_seq rows)" "\<forall>r \<in> set rows. k < au_seq r"
  shows "after_rows k rows = (if rows = [] then k else au_seq (last rows))"
  using assms(2-4)
proof (induction rows rule: rev_induct)
  case Nil
  then show ?case by (simp add: after_rows_def)
next
  case (snoc r rows)
  have "after_rows k rows \<le> au_seq r"
    using snoc by (cases "rows = []") (auto simp: sorted_wrt_append intro: less_imp_le)
  then show ?case using snoc.prems trail_ok_seq [OF assms(1), of r] by (simp add: after_rows_def)
qed

text \<open>A poll takes the next rows off the list of those not examined yet.\<close>

lemma poll_advances:
  assumes "trail_ok T" "prefix as T" "rows = take n (rows_after p k as)"
  shows "prefix rows (rows_after p k T)"
    and "rows_after p (after_rows k rows) T = drop (length rows) (rows_after p k T)"
proof -
  obtain ys where T: "T = as @ ys" using assms(2) by (auto simp: prefix_def)
  have R: "rows_after p k T = rows_after p k as @ rows_after p k ys" by (simp add: T rows_after_def)
  show pre: "prefix rows (rows_after p k T)" unfolding R assms(3) by (metis take_is_prefix prefix_prefix)
  show "rows_after p (after_rows k rows) T = drop (length rows) (rows_after p k T)"
  proof (cases "rows = []")
    case True
    then show ?thesis by (simp add: after_rows_def)
  next
    case False
    let ?F = "rows_after p k T"
    obtain zs where F: "?F = rows @ zs" using pre by (auto simp: prefix_def)
    have sorted: "sorted_wrt (<) (map au_seq (rows @ zs))" using rows_after_sorted [OF assms(1), of p k] F by simp
    have sub: "set rows \<subseteq> set T" "\<forall>r \<in> set rows. k < au_seq r"
      using F by (auto simp: rows_after_def dest!: arg_cong [of _ _ set])
    have last: "after_rows k rows = au_seq (last rows)"
      using after_rows_last [OF assms(1) sub(1) _ sub(2)] sorted False by (simp add: sorted_wrt_append)
    have nth: "last rows = ?F ! (length rows - 1)" using False F by (simp add: last_conv_nth nth_append)
    have "rows_after p (au_seq (last rows)) T = filter (\<lambda>r. au_seq r > au_seq (last rows)) ?F"
      using sub(2) last_in_set [OF False] by (fastforce simp: rows_after_def intro: filter_cong)
    also have "\<dots> = drop (length rows) ?F"
      unfolding nth by (rule filter_after) (use sorted F False in \<open>simp_all add: Suc_leI\<close>)
    finally show ?thesis using last by simp
  qed
qed

text \<open>What the polls of a connection look at, in order, and where each look happens.\<close>

fun looked :: "string \<Rightarrow> int \<Rightarrow> poll list \<Rightarrow> (poll \<times> audit_row) list" where
  "looked p after [] = []"
| "looked p after ((e, s, t) # rest) =
     (let rows = audit_trail s p after 200 in map (Pair (e, s, t)) rows @ looked p (after_rows after rows) rest)"

definition event_frame :: "string \<Rightarrow> poll \<times> audit_row \<Rightarrow> frame" where
  "event_frame p x = (case x of ((e, s, t), r) \<Rightarrow> Event (envelope_of e s (head_seq s p) r))"

definition shown :: "principal \<Rightarrow> poll \<times> audit_row \<Rightarrow> bool" where
  "shown pr x = (case x of ((e, s, t), r) \<Rightarrow> visible_to s pr r)"

fun is_event :: "frame \<Rightarrow> bool" where
  "is_event (Event en) = True"
| "is_event _ = False"

lemma polls_events: "filter is_event (polls p pr after seen_at ps) = map (event_frame p) (filter (shown pr) (looked p after ps))"
proof (induction ps arbitrary: after seen_at)
  case Nil
  then show ?case by simp
next
  case (Cons x rest)
  obtain e s t where x: "x = (e, s, t)" by (cases x)
  have rows: "filter is_event (row_frames e s p pr rows) = map (event_frame p) (filter (shown pr) (map (Pair (e, s, t)) rows))" for rows
    by (induction rows) (simp_all add: row_frames_def event_frame_def shown_def)
  show ?case
  proof (cases "audit_trail s p after 200 = []")
    case True
    then show ?thesis using Cons.IH by (simp add: x after_rows_def)
  next
    case False
    then show ?thesis using Cons.IH rows [of "audit_trail s p after 200"] by (simp add: x Let_def)
  qed
qed

lemma looked_row:
  "y \<in> set (looked p k ps) \<Longrightarrow> fst y \<in> set ps \<and> (case y of ((e, s, t), r) \<Rightarrow> r \<in> set (db_audits s) \<and> au_project r = p)"
proof (induction ps arbitrary: k)
  case Nil
  then show ?case by simp
next
  case (Cons x rest)
  obtain e s t where x: "x = (e, s, t)" by (cases x)
  have "r \<in> set (db_audits s) \<and> au_project r = p" if "r \<in> set (audit_trail s p k 200)" for r
    using that unfolding audit_trail_def by (auto dest: in_set_takeD)
  then show ?case using Cons by (auto simp: x Let_def)
qed

lemma received_events: "received fs = received (filter is_event fs)"
  by (induction fs) (auto simp: received_def List.map_filter_def elim: is_event.elims split: frame.splits option.splits)

lemma received_append [simp]: "received (xs @ ys) = received xs @ received ys"
  by (simp add: received_def List.map_filter_def)

lemma received_take: "prefix (received (take n fs)) (received fs)"
  by (metis append_take_drop_id prefixI received_append)

lemma received_event_frames: "received (map (event_frame p) xs) = map (\<lambda>x. au_event_id (snd x)) xs"
  by (induction xs) (auto simp: received_def List.map_filter_def event_frame_def envelope_of_def Let_def)

definition trail_of :: "audit_row list \<Rightarrow> poll \<Rightarrow> bool" where
  "trail_of T x = (case x of (e, s, t) \<Rightarrow> prefix (db_audits s) T)"

lemma looked_prefix:
  assumes "trail_ok T" "list_all (trail_of T) ps"
  shows "prefix (map snd (looked p k ps)) (rows_after p k T)"
  using assms(2)
proof (induction ps arbitrary: k)
  case Nil
  then show ?case by simp
next
  case (Cons x rest)
  obtain e s t where x: "x = (e, s, t)" by (cases x)
  have pre: "prefix (db_audits s) T" using Cons.prems by (simp add: x trail_of_def)
  define rows where "rows = audit_trail s p k 200"
  have ok: "trail_ok (db_audits s)" using assms(1) pre trail_ok_prefix by (auto simp: prefix_def)
  have rows: "rows = take 200 (rows_after p k (db_audits s))"
    unfolding rows_def sorted_trail [OF ok] by (simp add: rows_after_def)
  have "prefix (map snd (looked p (after_rows k rows) rest)) (drop (length rows) (rows_after p k T))"
    using Cons.IH [of "after_rows k rows"] Cons.prems poll_advances(2) [OF assms(1) pre rows] by simp
  moreover obtain zs where "rows_after p k T = rows @ zs" using poll_advances(1) [OF assms(1) pre rows] by (auto simp: prefix_def)
  ultimately show ?case by (simp add: x Let_def rows_def [symmetric] comp_def)
qed

section \<open>Reconnections\<close>

text \<open>Each connection: its first moment, its polls, and how many frames arrive before it breaks.\<close>

type_synonym connection = "poll \<times> poll list \<times> nat"

fun reconnects :: "string \<Rightarrow> principal \<Rightarrow> string option \<Rightarrow> connection list \<Rightarrow> frame list" where
  "reconnects p pr cursor [] = []"
| "reconnects p pr cursor ((start, rest, n) # later) =
     (let fs = take n (stream_frames p pr cursor start rest); got = received fs in
      fs @ reconnects p pr (if got = [] then cursor else Some (last got)) later)"

definition told_to_reload :: "frame list \<Rightarrow> bool" where
  "told_to_reload fs = list_ex (\<lambda>f. case f of Control en \<Rightarrow> en_type en = ''snapshot_required'' | _ \<Rightarrow> False) fs"

lemma event_id_not_empty: "truthy_str (Some (event_id k x))"
  by (simp add: event_id_def)

lemma stream_received:
  assumes "0 \<le> k" "trail_ok T" "list_all (trail_of T) rest"
    and "list_all (\<lambda>(e, s, t). \<forall>r \<in> set T. visible_to s pr r = V r) rest"
    and "\<not> told_to_reload (take n (stream_frames p pr (Some (event_id k x)) start rest))"
  shows "prefix (received (take n (stream_frames p pr (Some (event_id k x)) start rest)))
    (map au_event_id (filter V (rows_after p k T)))"
proof -
  obtain e s t where start: "start = (e, s, t)" by (cases start)
  let ?fs = "stream_frames p pr (Some (event_id k x)) start rest"
  show ?thesis
  proof (cases "k < head_seq s p - SSE_RETENTION_EVENTS")
    case True
    then have fs: "?fs = Retry # Control (control e ''snapshot_required'' (head_seq s p) (Some ''cursor_expired''))
        # polls p pr (head_seq s p) t rest"
      using event_id_not_empty [of k x]
      by (simp add: stream_frames_def start start_position_def seq_of_event_id [OF assms(1)] Let_def)
    have "n \<le> 1"
      using assms(5) unfolding fs by (cases n; cases "n - 1") (auto simp: told_to_reload_def control_def)
    then have "received (take n ?fs) = []" unfolding fs by (cases n) (auto simp: received_def List.map_filter_def)
    then show ?thesis by simp
  next
    case False
    then have fs: "?fs = Retry # polls p pr k t rest"
      using event_id_not_empty [of k x]
      by (simp add: stream_frames_def start start_position_def seq_of_event_id [OF assms(1)] Let_def)
    have "received ?fs = received (polls p pr k t rest)"
      unfolding fs by (simp add: received_def List.map_filter_def)
    then have all: "received ?fs = map (\<lambda>x. au_event_id (snd x)) (filter (shown pr) (looked p k rest))"
      using received_events [of "polls p pr k t rest"] by (simp add: polls_events received_event_frames)
    have pre: "prefix (map snd (looked p k rest)) (rows_after p k T)" by (rule looked_prefix [OF assms(2,3)])
    have same: "shown pr y = V (snd y)" if y: "y \<in> set (looked p k rest)" for y
    proof -
      obtain e' s' t' r where yy: "y = ((e', s', t'), r)" by (metis prod.collapse)
      have "(e', s', t') \<in> set rest" "r \<in> set (db_audits s')" using looked_row [OF y] by (simp_all add: yy)
      moreover have "prefix (db_audits s') T" using calculation(1) assms(3) by (auto simp: list_all_iff trail_of_def)
      then have "r \<in> set T" using calculation(2) set_mono_prefix by blast
      ultimately show ?thesis using assms(4) by (auto simp: yy shown_def list_all_iff)
    qed
    have "filter (shown pr) (looked p k rest) = filter (V \<circ> snd) (looked p k rest)"
      by (rule filter_cong [OF refl]) (simp add: same)
    then have "received ?fs = map au_event_id (filter V (map snd (looked p k rest)))"
      unfolding all by (simp add: filter_map comp_def)
    moreover have "prefix (filter V (map snd (looked p k rest))) (filter V (rows_after p k T))"
      using pre by (auto simp: prefix_def)
    ultimately have "prefix (received ?fs) (map au_event_id (filter V (rows_after p k T)))"
      by (simp add: map_mono_prefix)
    then show ?thesis using received_take prefix_order.trans by blast
  qed
qed

lemma told_append: "told_to_reload (xs @ ys) \<longleftrightarrow> told_to_reload xs \<or> told_to_reload ys"
  by (simp add: told_to_reload_def)

text \<open>Reading on from the last row received leaves what has not been received.\<close>

lemma cursor_moves:
  assumes "trail_ok T" "got = take m (filter V (rows_after p k T))" "got \<noteq> []"
  shows "filter V (rows_after p (au_seq (last got)) T) = drop (length got) (filter V (rows_after p k T))"
proof -
  let ?F = "filter V (rows_after p k T)"
  have len: "0 < length got" "length got \<le> length ?F" using assms(2,3) by auto
  have sorted: "sorted_wrt (<) (map au_seq ?F)"
    using rows_after_sorted [OF assms(1), of p k] by (simp add: sorted_wrt_map sorted_wrt_filter)
  have last: "last got = ?F ! (length got - 1)"
    using assms(3) len(1) unfolding assms(2) by (subst last_conv_nth) (simp_all add: min_def)
  have "last got \<in> set ?F" unfolding last using len by (intro nth_mem) linarith
  then have "k < au_seq (last got)" by (simp add: rows_after_def)
  then have "filter V (rows_after p (au_seq (last got)) T) = filter (\<lambda>r. au_seq r > au_seq (last got)) ?F"
    by (auto simp: rows_after_def intro: filter_cong)
  also have "\<dots> = drop (length got) ?F" unfolding last by (rule filter_after [OF sorted len])
  finally show ?thesis .
qed

definition calm :: "audit_row list \<Rightarrow> principal \<Rightarrow> (audit_row \<Rightarrow> bool) \<Rightarrow> connection list \<Rightarrow> bool" where
  "calm T pr V cs = list_all (\<lambda>(start, rest, n).
     list_all (\<lambda>(e, s, t). prefix (db_audits s) T \<and> list_all (\<lambda>r. visible_to s pr r = V r) T) rest) cs"

lemma calmD:
  assumes "calm T pr V ((start, rest, n) # cs)"
  shows "list_all (trail_of T) rest" "list_all (\<lambda>(e, s, t). \<forall>r \<in> set T. visible_to s pr r = V r) rest" "calm T pr V cs"
  using assms by (auto simp: calm_def list_all_iff trail_of_def)

text \<open>
  C32: A client that has read the stream up to some event and reconnects with its last id, over
  any number of connections that break anywhere while the trail grows, has received exactly
  the visible events after that point, in order, without a gap and without a repetition, up to
  some event of the trail; or it was told to read the screen again.
\<close>

theorem stream_resumes_without_gaps:
  assumes "trail_ok T" "calm T pr V cs" "0 \<le> k"
    and "\<not> told_to_reload (reconnects p pr (Some (event_id k x)) cs)"
  shows "prefix (received (reconnects p pr (Some (event_id k x)) cs)) (map au_event_id (filter V (rows_after p k T)))"
  using assms(2-)
proof (induction cs arbitrary: k x)
  case Nil
  then show ?case by (simp add: received_def List.map_filter_def)
next
  case (Cons c cs)
  obtain start rest n where c: "c = (start, rest, n)" by (cases c)
  let ?F = "filter V (rows_after p k T)"
  define fs where "fs = take n (stream_frames p pr (Some (event_id k x)) start rest)"
  have told: "\<not> told_to_reload fs" using Cons.prems(3) by (simp add: c Let_def fs_def told_append)
  obtain m where got: "received fs = map au_event_id (take m ?F)"
    using stream_received [OF Cons.prems(2) assms(1) calmD(1,2) [OF Cons.prems(1) [unfolded c]] told [unfolded fs_def]]
    by (metis fs_def prefix_def take_map append_eq_conv_conj)
  show ?case
  proof (cases "take m ?F = []")
    case True
    then have "received fs = []" using got by simp
    then show ?thesis using Cons.IH [OF calmD(3) [OF Cons.prems(1) [unfolded c]] Cons.prems(2), of x] Cons.prems(3)
      by (simp add: c Let_def fs_def [symmetric] told_append)
  next
    case False
    define r where "r = last (take m ?F)"
    have "r \<in> set T" using last_in_set [OF False] by (auto simp: r_def rows_after_def dest: in_set_takeD)
    then obtain y where y: "au_event_id r = event_id (au_seq r) y" "0 \<le> au_seq r"
      using assms(1) by (force simp: trail_ok_def)
    have ne: "received fs \<noteq> []" and cur: "last (received fs) = event_id (au_seq r) y"
      using got False y(1) by (simp_all add: r_def last_map)
    have "prefix (received (reconnects p pr (Some (event_id (au_seq r) y)) cs)) (map au_event_id (filter V (rows_after p (au_seq r) T)))"
      using Cons.IH [OF calmD(3) [OF Cons.prems(1) [unfolded c]] y(2)] Cons.prems(3) ne cur
      by (simp add: c Let_def fs_def [symmetric] told_append)
    moreover have "filter V (rows_after p (au_seq r) T) = drop (length (take m ?F)) ?F"
      unfolding r_def by (rule cursor_moves [OF assms(1) refl False])
    moreover have "map au_event_id ?F = received fs @ map au_event_id (drop (length (take m ?F)) ?F)"
      unfolding got map_append [symmetric] by (metis append_take_drop_id length_take min.commute take_take drop_take append_eq_conv_conj)
    ultimately show ?thesis using ne cur
      by (simp add: c Let_def fs_def [symmetric])
  qed
qed

text \<open>On the board, every earlier state's trail is a prefix of every later one's.\<close>

lemma reachable_trails: "reach True s \<Longrightarrow> steps True s s' \<Longrightarrow> prefix (db_audits s) (db_audits s') \<and> trail_ok (db_audits s')"
  using audit_log.log_prefix [of True s s'] reach_trail reach_steps steps_one_step unfolding prefix_def by metis

section \<open>Who receives an event\<close>

text \<open>The principal's member entered in the channel, as the rows say it.\<close>

definition entered_member :: "db \<Rightarrow> principal \<Rightarrow> string \<Rightarrow> bool" where
  "entered_member s pr cid \<longleftrightarrow> (\<exists>w x. w \<in> set (members s) \<and> x \<in> set (channel_members s)
     \<and> me_project w = pp_project pr \<and> me_state w = Active
     \<and> (if pp_kind pr = AgentKind then me_agent w = pp_agent pr else Some (me_id w) = pp_operator pr)
     \<and> cm_project x = pp_project pr \<and> cm_channel x = cid \<and> cm_member x = me_id w)"

lemma may_read_rows:
  assumes "may_read_channel s pr (pp_project pr) cid"
  shows "\<exists>c \<in> set (channels s). ch_id c = cid \<and> ch_project c = pp_project pr
    \<and> (ch_visibility c = ''public'' \<or> entered_member s pr cid)"
proof -
  obtain c where c: "List.find (\<lambda>c. ch_id c = cid \<and> ch_project c = pp_project pr) (channels s) = Some c"
    and ok: "ch_visibility c = ''public'' \<or> (\<exists>mid. member_of_principal s pr (pp_project pr) = Some mid
       \<and> list_ex (\<lambda>x. cm_project x = pp_project pr \<and> cm_channel x = cid \<and> cm_member x = mid) (channel_members s))"
    using assms by (auto simp: may_read_channel_def split: option.splits)
  have "entered_member s pr cid" if "ch_visibility c \<noteq> ''public''"
    using ok that unfolding entered_member_def member_of_principal_def list_ex_iff
    by (auto dest!: find_SomeD split: if_splits)
  then show ?thesis using find_SomeD [OF c] by blast
qed

lemma event_frame_row:
  assumes "Event en \<in> set (stream_frames p pr last_id start rest)"
  shows "\<exists>e s t r. (e, s, t) \<in> set rest \<and> r \<in> set (db_audits s) \<and> au_project r = p
    \<and> en = envelope_of e s (head_seq s p) r \<and> visible_to s pr r"
proof -
  obtain k seen where "Event en \<in> set (polls p pr k seen rest)"
    using assms by (auto simp: stream_frames_def Let_def split: prod.splits if_splits)
  then have "Event en \<in> set (filter is_event (polls p pr k seen rest))" by simp
  then obtain y where y: "y \<in> set (looked p k rest)" "shown pr y" "event_frame p y = Event en"
    unfolding polls_events by auto
  obtain e s t r where yy: "y = ((e, s, t), r)" by (metis prod.collapse)
  show ?thesis using looked_row [OF y(1)] y(2,3) by (auto simp: yy shown_def event_frame_def)
qed

text \<open>
  C33: Every event a connection sends is a row of the trail of the principal's own project, and
  if it is about a message, the message exists at that moment and its channel is one of the
  project that is public or in which an active member of the principal is entered.
\<close>

theorem stream_sends_only_readable_events:
  assumes "Event en \<in> set (stream_frames p pr last_id start rest)"
  shows "\<exists>e s t r. (e, s, t) \<in> set rest \<and> r \<in> set (db_audits s) \<and> en = envelope_of e s (head_seq s p) r
    \<and> au_project r = pp_project pr
    \<and> (au_subject_type r = Some ''message'' \<longrightarrow> truthy_str (au_subject_id r) \<longrightarrow>
        (\<exists>m \<in> set (messages s). \<exists>c \<in> set (channels s). Some (ms_id m) = au_subject_id r \<and> ch_id c = ms_channel m
           \<and> ch_project c = pp_project pr \<and> (ch_visibility c = ''public'' \<or> entered_member s pr (ms_channel m))))"
proof -
  obtain e s t r where r: "(e, s, t) \<in> set rest" "r \<in> set (db_audits s)" "en = envelope_of e s (head_seq s p) r"
    "visible_to s pr r" using event_frame_row [OF assms] by blast
  have p: "au_project r = pp_project pr" using r(4) by (simp add: visible_to_def)
  have "\<exists>m \<in> set (messages s). \<exists>c \<in> set (channels s). Some (ms_id m) = au_subject_id r \<and> ch_id c = ms_channel m
           \<and> ch_project c = pp_project pr \<and> (ch_visibility c = ''public'' \<or> entered_member s pr (ms_channel m))"
    if sub: "au_subject_type r = Some ''message''" "truthy_str (au_subject_id r)"
  proof -
    obtain m where m: "List.find (\<lambda>m. Some (ms_id m) = au_subject_id r) (messages s) = Some m"
      "may_read_channel s pr (pp_project pr) (ms_channel m)"
      using r(4) sub p by (auto simp: visible_to_def channel_of_event_def split: option.splits)
    show ?thesis using find_SomeD [OF m(1)] may_read_rows [OF m(2)] by blast
  qed
  then show ?thesis using r p by blast
qed

text \<open>
  C37: The audit row of a delivery's transition names the delivery as a message, so the stream
  looks for a message with that id, finds none and shows the event to nobody, at no time.
\<close>

theorem delivery_events_reach_nobody:
  assumes "transition_delivery_act e p did st a rq actor s = Inr (s1, r)" "did \<noteq> []"
    and "did \<notin> set (map ms_id (messages s'))"
  shows "db_audits s1 \<noteq> [] \<and> au_action (last (db_audits s1)) = ''delivery.transition''
    \<and> \<not> visible_to s' pr (last (db_audits s1))"
proof -
  obtain row where "db_audits s1 = db_audits s @ [row]" "au_action row = ''delivery.transition''"
    "au_subject_type row = Some ''message''" "au_subject_id row = Some did"
    using assms(1) by (auto simp: transition_delivery_act_def result_simps audit_def Let_def insert_row_def split: if_splits)
  moreover have "List.find (\<lambda>m. Some (ms_id m) = Some did) (messages s') = None"
    using assms(3) by (auto simp: find_None_iff)
  ultimately show ?thesis using assms(2) by (simp add: visible_to_def channel_of_event_def)
qed

text \<open>
  A cursor ahead of the trail, as a client holds it after the board was restored from a backup,
  is taken as it is: the client is not told to reload, and receives nothing until the trail
  has grown past it.
\<close>

lemma future_cursor_is_silent:
  assumes "0 \<le> k" "head_seq (fst (snd start)) p \<le> k"
    and "list_all (\<lambda>(e, s, t). list_all (\<lambda>r. au_project r = p \<longrightarrow> au_seq r \<le> k) (db_audits s)) rest"
  shows "received (stream_frames p pr (Some (event_id k x)) start rest) = []
    \<and> \<not> told_to_reload (stream_frames p pr (Some (event_id k x)) start rest)"
proof -
  obtain e s t where start: "start = (e, s, t)" by (cases start)
  have "\<not> k < head_seq s p - SSE_RETENTION_EVENTS" using assms(2) by (simp add: start SSE_RETENTION_EVENTS_def)
  then have fs: "stream_frames p pr (Some (event_id k x)) start rest = Retry # polls p pr k t rest"
    using event_id_not_empty [of k x]
    by (simp add: stream_frames_def start start_position_def seq_of_event_id [OF assms(1)] Let_def)
  have "received (polls p pr k t rest) = [] \<and> \<not> told_to_reload (polls p pr k t rest)"
    using assms(3)
  proof (induction rest arbitrary: t)
    case Nil
    then show ?case by (simp add: received_def List.map_filter_def told_to_reload_def)
  next
    case (Cons y rest)
    obtain e' s' t' where y: "y = (e', s', t')" by (cases y)
    have "filter (\<lambda>r. au_project r = p \<and> au_seq r > k) (db_audits s') = []"
      using Cons.prems by (auto simp: y list_all_iff filter_empty_conv)
    then have "audit_trail s' p k 200 = []" by (simp add: audit_trail_def)
    then show ?case using Cons by (auto simp: y received_def List.map_filter_def told_to_reload_def control_def)
  qed
  then show ?thesis unfolding fs by (simp add: received_def List.map_filter_def told_to_reload_def)
qed

section \<open>Concrete streams\<close>

definition demo_principal :: principal where
  "demo_principal = \<lparr>pp_kind = OperatorKind, pp_project = ''p'', pp_actor = JNull, pp_agent = None, pp_session = None,
     pp_operator = Some ''op1'', pp_role = None, pp_csrf = None\<rparr>"

text \<open>A connection that breaks after two events, and the one after it.\<close>

definition demo_connections :: "connection list" where
  "demo_connections =
     [((demo_env 1, demo, 0), [(demo_env 1, demo, 1)], 3), ((demo_env 2, demo, 5), [(demo_env 2, demo, 6)], 9)]"

lemma demo_stream:
  "\<not> told_to_reload (reconnects ''p'' demo_principal (Some (event_id 1 ''x'')) demo_connections)"
  "length (received (reconnects ''p'' demo_principal (Some (event_id 1 ''x'')) demo_connections)) = 4"
  by code_simp+

theorem stream_resumes_without_gaps_witness:
  "prefix (received (reconnects ''p'' demo_principal (Some (event_id 1 ''x'')) demo_connections))
      (map au_event_id (filter (visible_to demo demo_principal) (rows_after ''p'' 1 (db_audits demo))))
    \<and> length (received (reconnects ''p'' demo_principal (Some (event_id 1 ''x'')) demo_connections)) = 4"
proof -
  have "trail_ok (db_audits demo)" using reach_trail reach_weaken [OF demo_reach] by blast
  moreover have "calm (db_audits demo) demo_principal (visible_to demo demo_principal) demo_connections"
    by (simp add: calm_def demo_connections_def list_all_iff)
  ultimately show ?thesis using stream_resumes_without_gaps [OF _ _ _ demo_stream(1)] demo_stream(2) by simp
qed

lemma demo_event:
  "list_ex is_event (stream_frames ''p'' demo_principal (Some (event_id 1 ''x'')) (demo_env 1, demo, 0) [(demo_env 1, demo, 1)])"
  by code_simp

theorem stream_sends_only_readable_events_witness:
  "\<exists>en r. Event en \<in> set (stream_frames ''p'' demo_principal (Some (event_id 1 ''x'')) (demo_env 1, demo, 0) [(demo_env 1, demo, 1)])
     \<and> r \<in> set (db_audits demo) \<and> au_project r = ''p'' \<and> en_event_id en = au_event_id r"
proof -
  obtain en where en: "Event en \<in> set (stream_frames ''p'' demo_principal (Some (event_id 1 ''x'')) (demo_env 1, demo, 0) [(demo_env 1, demo, 1)])"
    using demo_event by (auto simp: list_ex_iff elim!: is_event.elims)
  from stream_sends_only_readable_events [OF this] obtain r where "r \<in> set (db_audits demo)"
    "en = envelope_of (demo_env 1) demo (head_seq demo ''p'') r" "au_project r = ''p''"
    by (auto simp: demo_principal_def)
  then show ?thesis using en by (intro exI [of _ en] exI [of _ r]) (simp add: envelope_of_def Let_def)
qed

definition demo_transition :: "error + db \<times> response" where
  "demo_transition = transition_delivery_act (demo_env 8) ''p'' ''dlv_5-1'' Delivered
     \<lparr>da_state = ''delivered'', da_expected = 1, da_reason = None, da_detail = None, da_run = None,
      da_blocking = None, da_next = None\<rparr> None None wdemo"

theorem delivery_events_reach_nobody_witness:
  "\<exists>s1 r. demo_transition = Inr (s1, r) \<and> \<not> visible_to s1 demo_principal (last (db_audits s1))"
proof -
  have ok: "\<not> isl demo_transition" by code_simp
  then have "demo_transition = Inr (projr demo_transition)" by (simp add: sum.collapse(2))
  then obtain s1 r where s1: "demo_transition = Inr (s1, r)" by (metis surj_pair)
  have "case demo_transition of Inr (s1, r) \<Rightarrow> ''dlv_5-1'' \<notin> set (map ms_id (messages s1)) | Inl _ \<Rightarrow> False" by code_simp
  then have "''dlv_5-1'' \<notin> set (map ms_id (messages s1))" by (simp add: s1)
  then show ?thesis using delivery_events_reach_nobody [OF s1 [unfolded demo_transition_def]] s1 by blast
qed

end
