(* ===== verification/Spec2Isabelle.thy ===== *)
theory Spec2Isabelle
  imports Board_Guarantees Route_Plan Sweep_Guarantees Seat_Guarantees Access_Guarantees
    Run_Guarantees Msg_Guarantees Gate_Guarantees Submit_Check
    Supervisor_Guarantees Runner_Wire Stream_Guarantees
begin

text \<open>
  A verification development for the ticket board server (\<open>src/src/ticket_board\<close>): a board
  of tickets, agents, reviews and messages in one SQLite file, a master that routes work
  to agents under a fenced lease, and runners that execute it.

  How the program is put together. Every mutation is a method of \<open>BoardStore\<close>
  (\<open>storage/board.py\<close>, and its \<open>MessagingMixin\<close> in \<open>storage/messaging.py\<close>) that runs in
  one \<open>BEGIN IMMEDIATE\<close> transaction: it replays a request id it has seen, checks versions
  and states, writes, appends to the audit trail, remembers its answer. The server's
  master routes (\<open>server/master.py\<close>) and the sweep (\<open>orchestrator\<close>) use the same
  transactions and are fenced by the epoch of the project's lease; a runner is fenced by the
  epoch of its agent's runner lease.

  How it is modelled. The database is the record \<open>db\<close> of its tables, a table the list of
  its rows in rowid order; an operation is a function of an environment (clock, drawn
  suffixes, digest), its arguments and the database, and answers \<open>Inl\<close> the exception or
  \<open>Inr\<close> the new database and the result. A transaction (\<open>write_txn\<close>) is one step: writers
  are serialised by SQLite, and an exception rolls back. Sequences of calls are the step
  relations \<open>steps\<close> (the board), \<open>mstep\<close> (board and master) and \<open>sstep\<close> (with messaging);
  the invariants are over all databases they reach. Python's integers are \<open>int\<close>, time stamps are instants in seconds,
  JSON columns are values of \<open>json\<close>. Recursions are structural or carry their measure (the
  cycle search, the minutes of \<open>cron_next\<close>). The one bound is the depth of \<open>save\<close> of the
  file board, which reconciles the successors of a released ticket by calling itself: it is
  the interpreter's recursion limit, an argument, and running into it is the refusal
  \<open>TooDeep\<close>. A child that is opened or blocked ends the recursion, so the depth only
  grows along chains of finished tickets that still carry a gate note.

  Beside the server there is the file board that \<open>cli.py\<close> keeps in one JSON file per ticket:
  the same release gate, claim lock files, and an ownership generation that fences writers.
  Its commands are functions of the files and locks (\<open>'a command\<close>) that leave what they wrote
  when they stop.

  The theories, in the order of the code:
  \<^item> \<open>Atman_Prelude\<close>, \<open>Py_Json\<close>, \<open>Atman_Errors\<close>, \<open>Atman_Ids\<close>: results that may raise, tables,
    Python strings and JSON values, the exception classes with their wire form, identifiers.
  \<^item> \<open>Msg_Schema\<close>, \<open>Board_Schema\<close>: the tables, keys and references; transactions.
  \<^item> \<open>Work_View\<close>: the dependency release gate of \<open>work_view.py\<close>; \<open>Worktrees\<close>: path
    containment and overlap of \<open>worktrees.py\<close>.
  \<^item> \<open>Board_Deps\<close>, \<open>Board_Store\<close>, \<open>Board_Tickets\<close>, \<open>Board_Reviews\<close>: \<open>storage/board.py\<close>.
  \<^item> \<open>Board_Steps\<close>, \<open>Board_Reach\<close>: what one call can do to the tables, and reachability; the
    locales \<open>growing_log\<close> and \<open>versioned\<close> with their interpretations on the store.
    \<open>Board_Safety\<close>, \<open>Board_Guarantees\<close>: the properties of the board.
  \<^item> \<open>Master_Lease\<close>, \<open>Master_Fence\<close>: \<open>server/master.py\<close> and the fenced writes of
    \<open>orchestrator/sweep.py\<close>; the locale \<open>fenced\<close> and its interpretation.
  \<^item> \<open>Eligibility\<close>, \<open>Route_Plan\<close>: \<open>orchestrator/eligibility.py\<close> and what its plan guarantees.
  \<^item> \<open>Sweep\<close>, \<open>Sweep_Guarantees\<close>: \<open>orchestrator/recommend.py\<close> and one pass of
    \<open>orchestrator/sweep.py\<close>, with what other writers commit between its transactions; the
    locale \<open>routing_blind\<close> of the views that routing leaves alone.
  \<^item> \<open>Credentials\<close>, \<open>Access\<close>, \<open>Access_Guarantees\<close>: \<open>server/auth.py\<close> and, of \<open>server/app.py\<close>,
    the authorisation of a request, the enrollment exchange and the revocation of a session,
    over the credential tables; the locale \<open>one_way\<close> of keys that are dead for ever. Outside
    a transaction each statement commits on its own, and a route that raises keeps what
    it wrote. The digest of a secret is a parameter here too.
  \<^item> \<open>Seat_Schedule\<close>, \<open>Seat_Guarantees\<close>: \<open>seat_schedule.py\<close> and the due pass of
    \<open>cmd_schedule\<close> in \<open>tickets.py\<close>: cron expressions and the entry in the crontab.
  \<^item> \<open>Verdicts\<close>, \<open>Submit_Check\<close>: \<open>review_verdict.py\<close>: what \<open>atm accept\<close> and \<open>atm reject\<close> record
    and refuse, and the checks of \<open>atm review --pr\<close> over git and \<open>gh\<close>, which are parameters.
    \<open>Verdict_Life\<close>: when a verdict is recorded, what it releases, and the life of a reviewed
    ticket as the step relation \<open>verdict_step\<close> with a ghost log of its accepts.
  \<^item> \<open>Py_Number\<close>, \<open>Ownership\<close>, \<open>File_Board\<close>, \<open>Gate_Guarantees\<close>: the ownership generations of
    \<open>ticket_coordination.py\<close>; publication, claims, verdicts and the reconciliation of waiting
    tickets in \<open>cli.py\<close>; the fence, the gate before a claim, one active ticket per seat.
  \<^item> \<open>Msg_Store\<close>, \<open>Run_Store\<close>, \<open>Runner_Lease\<close>: \<open>storage/messaging.py\<close>: members, channels,
    messages and threads; deliveries, wake jobs and runs; the leases of the runners.
  \<^item> \<open>Run_Queue\<close>, \<open>Run_Moves\<close>, \<open>Run_Reach\<close>: what one call does to the wake jobs and runs, as a
    list of moves of the queue; the step relation \<open>sstep\<close> of all calls of the server (board,
    master, messaging) and the invariant \<open>queue_ok\<close> of the states it reaches.
  \<^item> \<open>Run_Life\<close>: the abstract life of a wake job (waiting, offered, dropped, working, over)
    and the refinement of it by the two tables; \<open>Board_Frame\<close>, \<open>Run_Frame\<close>: the locales
    \<open>board_blind\<close> and \<open>queue_blind\<close> for the views of the database that calls of other
    parts leave alone; \<open>Runner_Fence\<close>: the runner lease as an interpretation of \<open>fenced\<close>.
  \<^item> \<open>Talk_Life\<close>, \<open>Msg_Versions\<close>: what one call does to channels, messages and deliveries;
    the versions of deliveries and runs as an interpretation of \<open>versioned\<close>.
  \<^item> \<open>Serve_Demo\<close>: concrete runs of the server for the witnesses. \<open>Run_Guarantees\<close>,
    \<open>Msg_Guarantees\<close>: the properties of the queue, of the leases and of the messages.
  \<^item> \<open>Supervisor\<close>, \<open>Supervisor_Life\<close>, \<open>Supervisor_Guarantees\<close>: \<open>runners/supervisor.py\<close> and the
    state file of \<open>runners/state.py\<close>. Board, launcher, clock and ids are functions of a world
    outside (\<open>'w outside\<close>); what the supervisor does is a trace of saved states, posted events
    and started sessions, and an observer (\<open>observe\<close>) is the specification the traces refine. The
    lives of a runner (\<open>lived\<close>) are prefixes of traces, each from the state last saved.
  \<^item> \<open>Runner_Client\<close>, \<open>Runner_Wire\<close>: the requests, the bounded retry and the error reading of
    \<open>runners/client.py\<close>, and the retry against the board over a network that loses requests and
    answers: the locale \<open>steady_wire\<close>, interpreted on it.
  \<^item> \<open>Event_Stream\<close>, \<open>Stream_Guarantees\<close>: \<open>server/events.py\<close>: the positions, envelopes and
    visibility of server-sent events, a connection as a fold over its polls, and a client that
    reconnects with its last id.

  Not modelled: sockets and HTTP parsing (\<open>server/app.py\<close>,
  \<open>httpd.py\<close>, \<open>wire.py\<close>), subprocesses, git and terminals (\<open>runners/launcher.py\<close>,
  worktree collection), the other commands of the file board (\<open>tickets.py\<close>, \<open>cli.py\<close>: presence files, messages,
  sprints, merging, the worktree cleanup node), the rendering of plans and receipts in \<open>work_view.py\<close>, migrations of old files, and reports
  (turns, prices, trajectories). The digest of the request log is a parameter of the
  environment; no property assumes anything of it.
\<close>

end
